(* ===== verification/Prelude.thy ===== *)
theory Prelude
  imports Main "HOL-Library.Word"
begin

text \<open>
  Shared ground of the development: the machine types of the Rust code, Rust's
  \<open>Result\<close> as a sum (\<open>Inl\<close> is \<open>Err\<close>), and the generic facts about
  folds, lists and maps that the component theories use.  The collections
  \<open>codec_simps\<close> and \<open>wf_simps\<close> gather what the component
  proofs share.
\<close>

unbundle bit_operations_syntax

type_synonym u8 = "8 word"
type_synonym u16 = "16 word"
type_synonym u32 = "32 word"
type_synonym u64 = "64 word"
type_synonym bytes = "8 word list"

named_theorems codec_simps \<open>evaluation of the stable identifiers\<close>
named_theorems wf_simps \<open>unfolding of well-formedness predicates\<close>

section \<open>Results\<close>

text \<open>A computation that may also panic has a \<open>failure\<close> on the left: an error value or the
  panic.\<close>

datatype 'x failure = Failed 'x | Panicked

text \<open>The \<open>?\<close> operator of Rust: stop at the first \<open>Err\<close>.\<close>

fun and_then :: "'e + 'a \<Rightarrow> ('a \<Rightarrow> 'e + 'b) \<Rightarrow> 'e + 'b" where
  "and_then (Inl e) f = Inl e"
| "and_then (Inr a) f = f a"

fun is_ok :: "'e + 'a \<Rightarrow> bool" where
  "is_ok (Inl e) = False"
| "is_ok (Inr a) = True"

fun map_err :: "('e \<Rightarrow> 'f) \<Rightarrow> 'e + 'a \<Rightarrow> 'f + 'a" where
  "map_err f (Inl e) = Inl (f e)"
| "map_err f (Inr a) = Inr a"

definition ok_or :: "'e \<Rightarrow> 'a option \<Rightarrow> 'e + 'a" where
  "ok_or e x = (case x of None \<Rightarrow> Inl e | Some a \<Rightarrow> Inr a)"

lemma and_then_Inr_iff [simp]:
  "and_then r f = Inr b \<longleftrightarrow> (\<exists>a. r = Inr a \<and> f a = Inr b)"
  by (cases r) auto

lemma map_err_Inr_iff [simp]: "map_err f r = Inr a \<longleftrightarrow> r = Inr a"
  by (cases r) auto

lemma is_ok_iff: "is_ok r \<longleftrightarrow> (\<exists>a. r = Inr a)"
  by (cases r) auto

lemma ok_or_simps [simp]: "ok_or e None = Inl e" "ok_or e (Some a) = Inr a"
  by (simp_all add: ok_or_def)

lemma ok_or_Inr_iff [simp]: "ok_or e x = Inr a \<longleftrightarrow> x = Some a"
  by (cases x) auto

lemma and_then_Panicked:
  "and_then x f = Inl Panicked \<longleftrightarrow> x = Inl Panicked \<or> (\<exists>a. x = Inr a \<and> f a = Inl Panicked)"
  by (cases x) auto

text \<open>Rust's \<open>collect::<Result<Vec<_>, _>>()\<close>.\<close>

fun collect_results :: "('e + 'a) list \<Rightarrow> 'e + 'a list" where
  "collect_results [] = Inr []"
| "collect_results (r # rs) =
     and_then r (\<lambda>a. and_then (collect_results rs) (\<lambda>as. Inr (a # as)))"

lemma collect_results_length:
  "collect_results rs = Inr as \<Longrightarrow> length as = length rs"
  by (induction rs arbitrary: as) auto

lemma collect_results_Inr: "collect_results (map Inr xs) = Inr xs"
  by (induction xs) auto

section \<open>Folds and lists\<close>

text \<open>The invariant rule every loop of the model uses.\<close>

lemma foldl_invariant:
  assumes "P s" and "\<And>s x. P s \<Longrightarrow> x \<in> set xs \<Longrightarrow> P (f s x)"
  shows "P (foldl f s xs)"
  using assms by (induction xs arbitrary: s) auto

lemma foldl_id: "(\<And>s x. x \<in> set xs \<Longrightarrow> f s x = s) \<Longrightarrow> foldl f s xs = s"
  by (induction xs arbitrary: s) auto

lemma foldl_cong_set:
  "(\<And>s x. x \<in> set xs \<Longrightarrow> f s x = g s x) \<Longrightarrow> foldl f s xs = foldl g s xs"
  by (induction xs arbitrary: s) auto

lemma take_drop_all_not:
  "\<not> (\<exists>x \<in> set (drop n xs). P x) \<longleftrightarrow> (\<forall>x \<in> set (drop n xs). \<not> P x)"
  by blast

text \<open>Index of the first element that satisfies a predicate (\<open>Iterator::position\<close>).\<close>

fun position :: "('a \<Rightarrow> bool) \<Rightarrow> 'a list \<Rightarrow> nat option" where
  "position P [] = None"
| "position P (x # xs) = (if P x then Some 0 else map_option Suc (position P xs))"

lemma position_None_iff: "position P xs = None \<longleftrightarrow> (\<forall>x \<in> set xs. \<not> P x)"
  by (induction xs) auto

lemma position_Some:
  "position P xs = Some i \<Longrightarrow> i < length xs \<and> P (xs ! i) \<and> (\<forall>x \<in> set (take i xs). \<not> P x)"
  by (induction xs arbitrary: i) (auto split: if_splits)

text \<open>\<open>Vec::remove\<close> at an index.\<close>

definition remove_at :: "nat \<Rightarrow> 'a list \<Rightarrow> 'a list" where
  "remove_at i xs = take i xs @ drop (Suc i) xs"

lemma set_remove_at: "set (remove_at i xs) \<subseteq> set xs"
  unfolding remove_at_def using set_take_subset set_drop_subset by fastforce

lemma length_remove_at: "i < length xs \<Longrightarrow> length (remove_at i xs) = length xs - 1"
  by (simp add: remove_at_def)

lemma distinct_map_remove_at:
  assumes "distinct (map f xs)"
  shows "distinct (map f (remove_at i xs))"
proof (cases "i < length xs")
  case True
  have "distinct (map f (take i xs @ (xs ! i) # drop (Suc i) xs))"
    using assms True by (simp add: id_take_nth_drop [symmetric])
  then show ?thesis by (auto simp: remove_at_def)
next
  case False
  then show ?thesis using assms by (simp add: remove_at_def)
qed

section \<open>Bytes\<close>

text \<open>Big-endian reading of byte slices: \<open>u16::from_be_bytes\<close> and \<open>u32::from_be_bytes\<close>.\<close>

definition be_nat :: "bytes \<Rightarrow> nat" where
  "be_nat bs = foldl (\<lambda>acc b. acc * 256 + unat b) 0 bs"

lemma foldl_be_shift:
  "foldl (\<lambda>acc b. acc * 256 + unat b) a (bs :: bytes)
     = a * 256 ^ length bs + foldl (\<lambda>acc b. acc * 256 + unat b) 0 bs"
proof (induction bs arbitrary: a)
  case Nil
  then show ?case by simp
next
  case (Cons b bs)
  show ?case
    using Cons.IH [of "a * 256 + unat b"] Cons.IH [of "unat b"]
    by (simp add: algebra_simps)
qed

lemma be_nat_Nil [simp]: "be_nat [] = 0"
  by (simp add: be_nat_def)

lemma be_nat_Cons: "be_nat (b # bs) = unat b * 256 ^ length bs + be_nat bs"
  using foldl_be_shift [of "unat b" bs] by (simp add: be_nat_def)

lemma unat_u8_less [simp]: "unat (b :: u8) < 256"
  using unsigned_less [where w = b] by simp

lemma be_nat_less: "be_nat bs < 256 ^ length bs"
proof (induction bs)
  case Nil
  then show ?case by simp
next
  case (Cons b bs)
  have "unat b + 1 \<le> 256" using unat_u8_less [of b] by linarith
  then have "(unat b + 1) * 256 ^ length bs \<le> 256 * 256 ^ length bs"
    by (rule mult_right_mono) simp
  then have "unat b * 256 ^ length bs + 256 ^ length bs \<le> 256 * 256 ^ length bs"
    by (simp only: add_mult_distrib mult_1)
  with Cons have "unat b * 256 ^ length bs + be_nat bs < 256 * 256 ^ length bs"
    by linarith
  then show ?case by (simp add: be_nat_Cons)
qed

text \<open>Reading back a number that fits its width.\<close>

lemma unat_u8_of_nat: "n < 256 \<Longrightarrow> unat (word_of_nat n :: u8) = n"
  by (simp add: unat_of_nat)

lemma unat_u16_of_nat: "n < 65536 \<Longrightarrow> unat (word_of_nat n :: u16) = n"
  by (simp add: unat_of_nat)

lemma unat_u16_less [simp]: "unat (w :: u16) < 65536"
  using unsigned_less [where w = w] by simp

lemma unat_u32_less [simp]: "unat (w :: u32) < 4294967296"
  using unsigned_less [where w = w] by simp

definition low_nibble :: "u8 \<Rightarrow> nat" where
  "low_nibble b = unat b mod 16"

definition high_nibble :: "u8 \<Rightarrow> nat" where
  "high_nibble b = unat b div 16"

text \<open>The code writes these as \<open>byte & 0x0f\<close> and \<open>byte >> 4\<close>.\<close>

lemma low_nibble_and: "low_nibble b = unat (b AND 0x0f)"
proof -
  have "(0x0f :: u8) = mask 4" by (simp add: mask_eq_exp_minus_1)
  then have "b AND 0x0f = take_bit 4 b" by (simp add: take_bit_eq_mask)
  then show ?thesis by (simp add: low_nibble_def take_bit_eq_mod unat_mod)
qed

lemma high_nibble_shift: "high_nibble b = unat (drop_bit 4 b)"
  by (simp add: high_nibble_def drop_bit_eq_div unat_div)

lemma nibbles_less [simp]: "low_nibble b < 16" "high_nibble b < 16"
  using unat_u8_less [of b] by (simp_all add: low_nibble_def high_nibble_def less_mult_imp_div_less)

lemma nibbles_decompose: "16 * high_nibble b + low_nibble b = unat b"
  by (simp add: low_nibble_def high_nibble_def)

end
