(* ===== verification/Text.thy ===== *)
theory Text
  imports Prelude "HOL-Library.Sublist"
begin

text \<open>
  The string operations of the Rust standard library that the program uses, on ASCII text
  (a \<open>string\<close> is the list of the bytes of a \<open>&str\<close>): splitting, trimming, case
  folding, substring search, hexadecimal and decimal formatting, and the \<open>{:?}\<close> and
  \<open>escape_default\<close> renderings.  Adapter text is 7-bit; the Unicode-only cases of
  \<open>trim\<close> and of the escapes (white space and graphemes beyond ASCII) are not modelled.
  The lemmas give the facts about hexadecimal text on which the response parsers rest.
\<close>

section \<open>Characters\<close>

definition is_ascii_whitespace :: "char \<Rightarrow> bool" where
  "is_ascii_whitespace c \<longleftrightarrow> c \<in> {CHR 0x09, CHR 0x0A, CHR 0x0C, CHR 0x0D, CHR '' ''}"

text \<open>\<open>char::is_whitespace\<close> also accepts the vertical tab.\<close>

definition is_whitespace :: "char \<Rightarrow> bool" where
  "is_whitespace c \<longleftrightarrow> is_ascii_whitespace c \<or> c = CHR 0x0B"

definition code_point :: "char \<Rightarrow> nat" where
  "code_point c = of_char c"

definition ascii_upper :: "char \<Rightarrow> char" where
  "ascii_upper c = (if 97 \<le> code_point c \<and> code_point c \<le> 122 then char_of (code_point c - 32) else c)"

definition to_ascii_uppercase :: "string \<Rightarrow> string" where
  "to_ascii_uppercase s = map ascii_upper s"

definition eq_ignore_ascii_case :: "string \<Rightarrow> string \<Rightarrow> bool" where
  "eq_ignore_ascii_case s t \<longleftrightarrow> to_ascii_uppercase s = to_ascii_uppercase t"

section \<open>Splitting and trimming\<close>

fun split_on :: "(char \<Rightarrow> bool) \<Rightarrow> string \<Rightarrow> string list" where
  "split_on p [] = [[]]"
| "split_on p (c # cs) =
     (if p c then [] # split_on p cs
      else (case split_on p cs of [] \<Rightarrow> [[c]] | w # ws \<Rightarrow> (c # w) # ws))"

text \<open>\<open>response.split(['\r', '\n'])\<close>\<close>

definition is_line_end :: "char \<Rightarrow> bool" where
  "is_line_end c \<longleftrightarrow> c = CHR 0x0D \<or> c = CHR 0x0A"

definition split_lines :: "string \<Rightarrow> string list" where
  "split_lines s = split_on is_line_end s"

definition split_ascii_whitespace :: "string \<Rightarrow> string list" where
  "split_ascii_whitespace s = filter (\<lambda>w. w \<noteq> []) (split_on is_ascii_whitespace s)"

definition trim_end :: "(char \<Rightarrow> bool) \<Rightarrow> string \<Rightarrow> string" where
  "trim_end p s = rev (dropWhile p (rev s))"

definition trim :: "string \<Rightarrow> string" where
  "trim s = trim_end is_whitespace (dropWhile is_whitespace s)"

text \<open>The line cleaning every response parser starts with:
  \<open>raw_line.trim().trim_end_matches('>').trim()\<close>.\<close>

definition clean_line :: "string \<Rightarrow> string" where
  "clean_line s = trim (trim_end (\<lambda>c. c = CHR ''>'') (trim s))"

definition starts_with :: "'a list \<Rightarrow> 'a list \<Rightarrow> bool" where
  "starts_with s p \<longleftrightarrow> take (length p) s = p"

fun str_contains :: "string \<Rightarrow> string \<Rightarrow> bool" where
  "str_contains [] p = (p = [])"
| "str_contains (c # cs) p = (starts_with (c # cs) p \<or> str_contains cs p)"

fun join :: "string \<Rightarrow> string list \<Rightarrow> string" where
  "join sep [] = []"
| "join sep [w] = w"
| "join sep (w # v # ws) = w @ sep @ join sep (v # ws)"

lemma split_on_not_Nil [simp]: "split_on p s \<noteq> []"
  by (induction s) (auto split: list.splits)

lemma split_on_no_sep: "(\<forall>c \<in> set s. \<not> p c) \<Longrightarrow> split_on p s = [s]"
  by (induction s) auto

lemma split_on_append_sep:
  "(\<forall>c \<in> set w. \<not> p c) \<Longrightarrow> p x \<Longrightarrow> split_on p (w @ x # s) = w # split_on p s"
  by (induction w) auto

lemma split_on_join:
  assumes "ws \<noteq> []" and "\<forall>w \<in> set ws. \<forall>c \<in> set w. \<not> p c" and "p x"
  shows "split_on p (join [x] ws) = ws"
  using assms
proof (induction ws rule: induct_list012)
  case 1
  then show ?case by simp
next
  case (2 w)
  then show ?case by (simp add: split_on_no_sep)
next
  case (3 w v ws)
  then show ?case by (simp add: split_on_append_sep)
qed

lemma split_on_chars: "w \<in> set (split_on p s) \<Longrightarrow> c \<in> set w \<Longrightarrow> c \<in> set s \<and> \<not> p c"
  by (induction s arbitrary: w) (fastforce split: list.splits if_splits)+

lemma trim_id:
  assumes "s \<noteq> []" and "\<not> is_whitespace (hd s)" and "\<not> is_whitespace (last s)"
  shows "trim s = s"
proof -
  have "dropWhile is_whitespace s = s" using assms by (cases s) auto
  moreover have "dropWhile is_whitespace (rev s) = rev s"
    using assms by (cases s rule: rev_cases) auto
  ultimately show ?thesis by (simp add: trim_def trim_end_def)
qed

lemma clean_line_id:
  assumes "s \<noteq> []" and "\<not> is_whitespace (hd s)" and "\<not> is_whitespace (last s)"
    and "last s \<noteq> CHR ''>''"
  shows "clean_line s = s"
proof -
  have "dropWhile (\<lambda>c. c = CHR ''>'') (rev s) = rev s"
    using assms by (cases s rule: rev_cases) auto
  then show ?thesis using assms by (simp add: clean_line_def trim_id trim_end_def)
qed

lemma starts_with_append [simp]: "starts_with (p @ s) p"
  by (simp add: starts_with_def)

lemma starts_with_iff: "starts_with s p \<longleftrightarrow> (\<exists>t. s = p @ t)"
proof
  assume "starts_with s p"
  then have "s = p @ drop (length p) s"
    unfolding starts_with_def by (metis append_take_drop_id)
  then show "\<exists>t. s = p @ t" by blast
qed (auto simp: starts_with_def)

lemma starts_with_set: "starts_with s p \<Longrightarrow> set p \<subseteq> set s"
  by (auto simp: starts_with_iff)

lemma str_contains_set: "str_contains s p \<Longrightarrow> set p \<subseteq> set s"
proof (induction s)
  case (Cons c cs)
  then show ?case using starts_with_set [of "c # cs" p] by auto
qed simp

section \<open>Hexadecimal text\<close>

definition hex_digit :: "nat \<Rightarrow> char" where
  "hex_digit n = ''0123456789ABCDEF'' ! n"

definition hex_value :: "char \<Rightarrow> nat option" where
  "hex_value c =
     (let n = code_point c in
      if 48 \<le> n \<and> n \<le> 57 then Some (n - 48)
      else if 65 \<le> n \<and> n \<le> 70 then Some (n - 55)
      else if 97 \<le> n \<and> n \<le> 102 then Some (n - 87)
      else None)"

definition is_ascii_hexdigit :: "char \<Rightarrow> bool" where
  "is_ascii_hexdigit c \<longleftrightarrow> hex_value c \<noteq> None"

definition all_hex :: "string \<Rightarrow> bool" where
  "all_hex s \<longleftrightarrow> list_all is_ascii_hexdigit s"

text \<open>\<open>format!("{byte:02X}")\<close> and \<open>format!("{did:04X}")\<close>.\<close>

definition fmt_02X :: "u8 \<Rightarrow> string" where
  "fmt_02X b = [hex_digit (unat b div 16), hex_digit (unat b mod 16)]"

definition fmt_04X :: "u16 \<Rightarrow> string" where
  "fmt_04X w =
     [hex_digit (unat w div 4096), hex_digit (unat w div 256 mod 16),
      hex_digit (unat w div 16 mod 16), hex_digit (unat w mod 16)]"

text \<open>\<open>{pid:X}\<close>: no leading zero.\<close>

definition fmt_X :: "u8 \<Rightarrow> string" where
  "fmt_X b = (if unat b < 16 then [hex_digit (unat b)] else fmt_02X b)"

text \<open>The bytes of a token, two characters each (\<open>as_chunks::<2>\<close> drops an odd rest).\<close>

fun hex_pairs :: "string \<Rightarrow> bytes" where
  "hex_pairs (a # b # cs) =
     word_of_nat (16 * the (hex_value a) + the (hex_value b)) # hex_pairs cs"
| "hex_pairs _ = []"

text \<open>The public \<open>hex\<close>: upper-case pairs separated by a space.\<close>

definition hex :: "bytes \<Rightarrow> string" where
  "hex bs = join '' '' (map fmt_02X bs)"

lemma hex_digit_cases:
  assumes "(n :: nat) < 16"
  shows "n \<in> {0, 1, 2, 3, 4, 5, 6, 7, 8, 9, 10, 11, 12, 13, 14, 15}"
  using assms unfolding insert_iff empty_iff by presburger

lemma hex_value_digit [simp]: "n < 16 \<Longrightarrow> hex_value (hex_digit n) = Some n"
  by (drule hex_digit_cases) (auto simp: hex_digit_def hex_value_def code_point_def)

text \<open>What a hexadecimal digit of the program's own output never is.\<close>

lemma hex_digit_plain [simp]:
  assumes "n < 16"
  shows "\<not> is_whitespace (hex_digit n)" "\<not> is_ascii_whitespace (hex_digit n)"
    "\<not> is_line_end (hex_digit n)" "ascii_upper (hex_digit n) = hex_digit n"
    "is_ascii_hexdigit (hex_digit n)"
  using hex_digit_cases [OF assms]
  by (auto simp: hex_digit_def is_whitespace_def is_ascii_whitespace_def is_line_end_def
      ascii_upper_def code_point_def is_ascii_hexdigit_def hex_value_def)

lemma hex_digit_in: "n < 16 \<Longrightarrow> hex_digit n \<in> set ''0123456789ABCDEF''"
  unfolding hex_digit_def by (rule nth_mem) simp

lemma unat_u8_div_16 [simp]: "unat (b :: u8) div 16 < 16"
  using unat_u8_less [of b] by (simp add: less_mult_imp_div_less)

lemma hex_pairs_fmt_02X [simp]: "hex_pairs (fmt_02X b @ s) = b # hex_pairs s"
proof -
  have "16 * (unat b div 16) + unat b mod 16 = unat b" by simp
  then show ?thesis by (simp add: fmt_02X_def)
qed

lemma hex_pairs_concat: "hex_pairs (concat (map fmt_02X bs)) = bs"
  by (induction bs) simp_all

lemma hex_pairs_one [simp]: "hex_pairs (fmt_02X b) = [b]"
  using hex_pairs_fmt_02X [of b "[]"] by simp

lemma length_fmt_02X [simp]: "length (fmt_02X b) = 2"
  by (simp add: fmt_02X_def)

lemma fmt_02X_digits: "c \<in> set (fmt_02X b) \<Longrightarrow> \<exists>n < 16. c = hex_digit n"
  using unat_u8_div_16 [of b] by (force simp: fmt_02X_def)

lemma all_hex_fmt_02X [simp]: "all_hex (fmt_02X b)"
  by (simp add: all_hex_def fmt_02X_def)

section \<open>Decimal text and escapes\<close>

definition dec_digit :: "nat \<Rightarrow> char" where
  "dec_digit n = ''0123456789'' ! n"

fun show_nat :: "nat \<Rightarrow> string" where
  "show_nat n = (if n < 10 then [dec_digit n] else show_nat (n div 10) @ [dec_digit (n mod 10)])"

declare show_nat.simps [simp del]

text \<open>Lower-case hexadecimal without leading zeros, as \<open>\u{..}\<close> prints it.\<close>

definition lower_hex_digit :: "nat \<Rightarrow> char" where
  "lower_hex_digit n = ''0123456789abcdef'' ! n"

definition unicode_escape :: "char \<Rightarrow> string" where
  "unicode_escape c =
     (let n = code_point c in
      [CHR 0x5C, CHR ''u'', CHR 0x7B]
      @ (if n < 16 then [lower_hex_digit n]
         else [lower_hex_digit (n div 16), lower_hex_digit (n mod 16)])
      @ [CHR 0x7D])"

text \<open>\<open>{:?}\<close> of a \<open>str\<close>: quoted, with the escapes of \<open>char::escape_debug\<close>.\<close>

definition debug_char :: "char \<Rightarrow> string" where
  "debug_char c =
     (if c = CHR 0x00 then [CHR 0x5C, CHR ''0'']
      else if c = CHR 0x09 then [CHR 0x5C, CHR ''t'']
      else if c = CHR 0x0D then [CHR 0x5C, CHR ''r'']
      else if c = CHR 0x0A then [CHR 0x5C, CHR ''n'']
      else if c = CHR 0x22 \<or> c = CHR 0x5C then [CHR 0x5C, c]
      else if code_point c < 32 \<or> code_point c = 127 then unicode_escape c
      else [c])"

definition debug_str :: "string \<Rightarrow> string" where
  "debug_str s = [CHR 0x22] @ concat (map debug_char s) @ [CHR 0x22]"

text \<open>\<open>str::escape_default\<close>\<close>

definition escape_default_char :: "char \<Rightarrow> string" where
  "escape_default_char c =
     (if c = CHR 0x09 then [CHR 0x5C, CHR ''t'']
      else if c = CHR 0x0D then [CHR 0x5C, CHR ''r'']
      else if c = CHR 0x0A then [CHR 0x5C, CHR ''n'']
      else if c = CHR 0x27 \<or> c = CHR 0x22 \<or> c = CHR 0x5C then [CHR 0x5C, c]
      else if 32 \<le> code_point c \<and> code_point c \<le> 126 then [c]
      else unicode_escape c)"

definition escape_default :: "string \<Rightarrow> string" where
  "escape_default s = concat (map escape_default_char s)"

text \<open>\<open>str::parse\<close> for an unsigned type with values up to \<open>limit\<close>: an optional plus
  sign, then at least one decimal digit, no overflow.\<close>

definition dec_value :: "char \<Rightarrow> nat option" where
  "dec_value c =
     (let n = code_point c in if 48 \<le> n \<and> n \<le> 57 then Some (n - 48) else None)"

fun parse_digits :: "nat \<Rightarrow> nat \<Rightarrow> string \<Rightarrow> nat option" where
  "parse_digits limit acc [] = Some acc"
| "parse_digits limit acc (c # cs) =
     (case dec_value c of
        None \<Rightarrow> None
      | Some d \<Rightarrow> if acc * 10 + d \<le> limit then parse_digits limit (acc * 10 + d) cs else None)"

definition parse_unsigned :: "nat \<Rightarrow> string \<Rightarrow> nat option" where
  "parse_unsigned limit s =
     (let digits = (case s of c # cs \<Rightarrow> if c = CHR ''+'' then cs else s | [] \<Rightarrow> [])
      in if digits = [] then None else parse_digits limit 0 digits)"

lemma parse_digits_bound:
  "parse_digits limit acc s = Some n \<Longrightarrow> acc \<le> limit \<Longrightarrow> n \<le> limit"
  by (induction s arbitrary: acc) (auto split: option.splits if_splits)

lemma parse_unsigned_bound: "parse_unsigned limit s = Some n \<Longrightarrow> n \<le> limit"
  by (auto simp: parse_unsigned_def Let_def split: if_splits dest: parse_digits_bound)

end
