(* ===== verification/Codec.thy ===== *)
theory Codec
  imports Text
begin

text \<open>
  The interface of the program's stable identifiers: every enum of the runtime vocabulary
  has an \<open>id\<close> and a \<open>parse\<close>, and every one promises that the two are inverse.
  The locale \<open>id_codec\<close> states that contract, \<open>field_codec\<close> adds what the
  \<open>key=value;key=value\<close> state text needs of an identifier; the client lemmas are proved
  once here and reach the enums through the interpretations in their own theories.
\<close>

locale id_codec =
  fixes ident :: "'a \<Rightarrow> string"
    and parse_id :: "string \<Rightarrow> 'e + 'a"
  assumes parse_ident [simp]: "parse_id (ident x) = Inr x"
    and parse_sound: "parse_id s = Inr x \<Longrightarrow> s = ident x"
begin

lemma ident_inject [simp]: "ident x = ident y \<longleftrightarrow> x = y"
  by (metis parse_ident sum.inject(2))

lemma parse_iff: "parse_id s = Inr x \<longleftrightarrow> s = ident x"
  using parse_sound by fastforce

lemma parse_rejects: "s \<notin> range ident \<Longrightarrow> \<exists>e. parse_id s = Inl e"
  using parse_sound [of s] by (cases "parse_id s") auto

end

text \<open>\<open>field.split_once('=')\<close>\<close>

fun split_once :: "char \<Rightarrow> string \<Rightarrow> (string \<times> string) option" where
  "split_once x [] = None"
| "split_once x (c # cs) =
     (if c = x then Some ([], cs)
      else map_option (\<lambda>(a, b). (c # a, b)) (split_once x cs))"

lemma split_once_append: "x \<notin> set a \<Longrightarrow> split_once x (a @ x # b) = Some (a, b)"
  by (induction a) auto

lemma split_once_Some: "split_once x s = Some (a, b) \<Longrightarrow> s = a @ x # b \<and> x \<notin> set a"
  by (induction s arbitrary: a) (auto split: if_splits)

definition plain_value :: "string \<Rightarrow> bool" where
  "plain_value v \<longleftrightarrow> v \<noteq> [] \<and> CHR '';'' \<notin> set v \<and> CHR ''='' \<notin> set v"

definition field_text :: "string \<times> string \<Rightarrow> string" where
  "field_text nv = fst nv @ CHR ''='' # snd nv"

locale field_codec = id_codec +
  assumes ident_plain: "plain_value (ident x)"
begin

text \<open>A field printed with this identifier splits back into its name and identifier.\<close>

lemma field_splits:
  "CHR ''='' \<notin> set n \<Longrightarrow> split_once (CHR ''='') (field_text (n, ident x)) = Some (n, ident x)"
  by (simp add: field_text_def split_once_append)

lemma field_no_separator:
  "CHR '';'' \<notin> set n \<Longrightarrow> \<forall>c \<in> set (field_text (n, ident x)). c \<noteq> CHR '';''"
  using ident_plain [of x] by (auto simp: field_text_def plain_value_def)

end

end
