(* ===== verification/Runtime_State.thy ===== *)
theory Runtime_State
  imports Codec "HOL-Library.Multiset"
begin

text \<open>
  The runtime-state vocabulary of \<open>src/runtime_state.rs\<close>: phase, activity and the
  context facts with their stable identifiers, the context and state records, and the
  canonical text form.  Each enum interprets \<open>field_codec\<close>; the round trip of the whole
  state rests on those interpretations.
\<close>

section \<open>Errors and version\<close>

datatype runtime_state_error =
    InvalidFormat
  | InvalidVersion
  | UnsupportedVersion u16
  | UnknownIdentifier string string

definition STATE_VERSION :: u16 where
  "STATE_VERSION = 1"

definition runtime_state_error_text :: "runtime_state_error \<Rightarrow> string" where
  "runtime_state_error_text e =
     (case e of
        InvalidFormat \<Rightarrow> ''invalid runtime-state format''
      | InvalidVersion \<Rightarrow> ''invalid runtime-state version''
      | UnsupportedVersion v \<Rightarrow> ''unsupported runtime-state version '' @ show_nat (unat v)
      | UnknownIdentifier f i \<Rightarrow> ''unknown runtime-state '' @ f @ '' identifier '' @ i)"

section \<open>The vocabulary\<close>

datatype phase = Init | Discover | Ready | Stopping | Stopped | Fault

fun phase_id :: "phase \<Rightarrow> string" where
  "phase_id Init = ''phase/init''"
| "phase_id Discover = ''phase/discover''"
| "phase_id Ready = ''phase/ready''"
| "phase_id Stopping = ''phase/stopping''"
| "phase_id Stopped = ''phase/stopped''"
| "phase_id Fault = ''phase/fault''"

definition phase_parse :: "string \<Rightarrow> runtime_state_error + phase" where
  "phase_parse i =
     (if i = ''phase/init'' then Inr Init
      else if i = ''phase/discover'' then Inr Discover
      else if i = ''phase/ready'' then Inr Ready
      else if i = ''phase/stopping'' then Inr Stopping
      else if i = ''phase/stopped'' then Inr Stopped
      else if i = ''phase/fault'' then Inr Fault
      else Inl (UnknownIdentifier ''phase'' i))"

interpretation phase_codec: field_codec phase_id phase_parse
proof unfold_locales
  fix x :: phase and s
  show "phase_parse (phase_id x) = Inr x"
    by (cases x) (simp_all add: phase_parse_def)
  show "plain_value (phase_id x)"
    by (cases x) (simp_all add: plain_value_def)
  show "phase_parse s = Inr x \<Longrightarrow> s = phase_id x"
    by (auto simp: phase_parse_def split: if_splits)
qed

datatype activity = Idle | Read | Observe | Diagnose | Write

fun activity_id :: "activity \<Rightarrow> string" where
  "activity_id Idle = ''activity/idle''"
| "activity_id Read = ''activity/read''"
| "activity_id Observe = ''activity/observe''"
| "activity_id Diagnose = ''activity/diagnose''"
| "activity_id Write = ''activity/write''"

definition activity_parse :: "string \<Rightarrow> runtime_state_error + activity" where
  "activity_parse i =
     (if i = ''activity/idle'' then Inr Idle
      else if i = ''activity/read'' then Inr Read
      else if i = ''activity/observe'' then Inr Observe
      else if i = ''activity/diagnose'' then Inr Diagnose
      else if i = ''activity/write'' then Inr Write
      else Inl (UnknownIdentifier ''activity'' i))"

interpretation activity_codec: field_codec activity_id activity_parse
proof unfold_locales
  fix x :: activity and s
  show "activity_parse (activity_id x) = Inr x"
    by (cases x) (simp_all add: activity_parse_def)
  show "plain_value (activity_id x)"
    by (cases x) (simp_all add: plain_value_def)
  show "activity_parse s = Inr x \<Longrightarrow> s = activity_id x"
    by (auto simp: activity_parse_def split: if_splits)
qed

datatype transport_state = Disconnected | Connecting | Connected | Unhealthy

fun transport_id :: "transport_state \<Rightarrow> string" where
  "transport_id Disconnected = ''transport/disconnected''"
| "transport_id Connecting = ''transport/connecting''"
| "transport_id Connected = ''transport/connected''"
| "transport_id Unhealthy = ''transport/unhealthy''"

definition transport_parse :: "string \<Rightarrow> runtime_state_error + transport_state" where
  "transport_parse i =
     (if i = ''transport/disconnected'' then Inr Disconnected
      else if i = ''transport/connecting'' then Inr Connecting
      else if i = ''transport/connected'' then Inr Connected
      else if i = ''transport/unhealthy'' then Inr Unhealthy
      else Inl (UnknownIdentifier ''transport'' i))"

interpretation transport_codec: field_codec transport_id transport_parse
proof unfold_locales
  fix x :: transport_state and s
  show "transport_parse (transport_id x) = Inr x"
    by (cases x) (simp_all add: transport_parse_def)
  show "plain_value (transport_id x)"
    by (cases x) (simp_all add: plain_value_def)
  show "transport_parse s = Inr x \<Longrightarrow> s = transport_id x"
    by (auto simp: transport_parse_def split: if_splits)
qed

datatype vehicle_state = Vehicle_Unknown | Identified

fun vehicle_id :: "vehicle_state \<Rightarrow> string" where
  "vehicle_id Vehicle_Unknown = ''vehicle/unknown''"
| "vehicle_id Identified = ''vehicle/identified''"

definition vehicle_parse :: "string \<Rightarrow> runtime_state_error + vehicle_state" where
  "vehicle_parse i =
     (if i = ''vehicle/unknown'' then Inr Vehicle_Unknown
      else if i = ''vehicle/identified'' then Inr Identified
      else Inl (UnknownIdentifier ''vehicle'' i))"

interpretation vehicle_codec: field_codec vehicle_id vehicle_parse
proof unfold_locales
  fix x :: vehicle_state and s
  show "vehicle_parse (vehicle_id x) = Inr x"
    by (cases x) (simp_all add: vehicle_parse_def)
  show "plain_value (vehicle_id x)"
    by (cases x) (simp_all add: plain_value_def)
  show "vehicle_parse s = Inr x \<Longrightarrow> s = vehicle_id x"
    by (auto simp: vehicle_parse_def split: if_splits)
qed

datatype topology_state = Topology_Unknown | Discovering | Validated | Stale

fun topology_id :: "topology_state \<Rightarrow> string" where
  "topology_id Topology_Unknown = ''topology/unknown''"
| "topology_id Discovering = ''topology/discovering''"
| "topology_id Validated = ''topology/validated''"
| "topology_id Stale = ''topology/stale''"

definition topology_parse :: "string \<Rightarrow> runtime_state_error + topology_state" where
  "topology_parse i =
     (if i = ''topology/unknown'' then Inr Topology_Unknown
      else if i = ''topology/discovering'' then Inr Discovering
      else if i = ''topology/validated'' then Inr Validated
      else if i = ''topology/stale'' then Inr Stale
      else Inl (UnknownIdentifier ''topology'' i))"

interpretation topology_codec: field_codec topology_id topology_parse
proof unfold_locales
  fix x :: topology_state and s
  show "topology_parse (topology_id x) = Inr x"
    by (cases x) (simp_all add: topology_parse_def)
  show "plain_value (topology_id x)"
    by (cases x) (simp_all add: plain_value_def)
  show "topology_parse s = Inr x \<Longrightarrow> s = topology_id x"
    by (auto simp: topology_parse_def split: if_splits)
qed

datatype recording_state = Inactive | Active

fun recording_id :: "recording_state \<Rightarrow> string" where
  "recording_id Inactive = ''recording/inactive''"
| "recording_id Active = ''recording/active''"

definition recording_parse :: "string \<Rightarrow> runtime_state_error + recording_state" where
  "recording_parse i =
     (if i = ''recording/inactive'' then Inr Inactive
      else if i = ''recording/active'' then Inr Active
      else Inl (UnknownIdentifier ''recording'' i))"

interpretation recording_codec: field_codec recording_id recording_parse
proof unfold_locales
  fix x :: recording_state and s
  show "recording_parse (recording_id x) = Inr x"
    by (cases x) (simp_all add: recording_parse_def)
  show "plain_value (recording_id x)"
    by (cases x) (simp_all add: plain_value_def)
  show "recording_parse s = Inr x \<Longrightarrow> s = recording_id x"
    by (auto simp: recording_parse_def split: if_splits)
qed

datatype safety_capability = ReadOnly | ExplicitMutation

fun safety_id :: "safety_capability \<Rightarrow> string" where
  "safety_id ReadOnly = ''safety/read-only''"
| "safety_id ExplicitMutation = ''safety/explicit-mutation''"

definition safety_parse :: "string \<Rightarrow> runtime_state_error + safety_capability" where
  "safety_parse i =
     (if i = ''safety/read-only'' then Inr ReadOnly
      else if i = ''safety/explicit-mutation'' then Inr ExplicitMutation
      else Inl (UnknownIdentifier ''safety'' i))"

interpretation safety_codec: field_codec safety_id safety_parse
proof unfold_locales
  fix x :: safety_capability and s
  show "safety_parse (safety_id x) = Inr x"
    by (cases x) (simp_all add: safety_parse_def)
  show "plain_value (safety_id x)"
    by (cases x) (simp_all add: plain_value_def)
  show "safety_parse s = Inr x \<Longrightarrow> s = safety_id x"
    by (auto simp: safety_parse_def split: if_splits)
qed

datatype source_state = Live | Offline

fun source_id :: "source_state \<Rightarrow> string" where
  "source_id Live = ''source/live''"
| "source_id Offline = ''source/offline''"

definition source_parse :: "string \<Rightarrow> runtime_state_error + source_state" where
  "source_parse i =
     (if i = ''source/live'' then Inr Live
      else if i = ''source/offline'' then Inr Offline
      else Inl (UnknownIdentifier ''source'' i))"

interpretation source_codec: field_codec source_id source_parse
proof unfold_locales
  fix x :: source_state and s
  show "source_parse (source_id x) = Inr x"
    by (cases x) (simp_all add: source_parse_def)
  show "plain_value (source_id x)"
    by (cases x) (simp_all add: plain_value_def)
  show "source_parse s = Inr x \<Longrightarrow> s = source_id x"
    by (auto simp: source_parse_def split: if_splits)
qed

section \<open>Context and state\<close>

record runtime_context =
  ctx_transport :: transport_state
  ctx_vehicle :: vehicle_state
  ctx_topology :: topology_state
  ctx_recording :: recording_state
  ctx_source :: source_state
  ctx_safety :: safety_capability

definition default_context :: runtime_context where
  "default_context =
     \<lparr>ctx_transport = Disconnected, ctx_vehicle = Vehicle_Unknown, ctx_topology = Topology_Unknown,
      ctx_recording = Inactive, ctx_source = Offline, ctx_safety = ReadOnly\<rparr>"

record runtime_state =
  state_version :: u16
  st_phase :: phase
  st_activity :: activity
  st_context :: runtime_context

definition new_state :: "phase \<Rightarrow> activity \<Rightarrow> runtime_context \<Rightarrow> runtime_state" where
  "new_state p a c =
     \<lparr>state_version = STATE_VERSION, st_phase = p, st_activity = a, st_context = c\<rparr>"

definition default_state :: runtime_state where
  "default_state = new_state Init Idle default_context"

definition state_identity :: "runtime_state \<Rightarrow> phase \<times> activity" where
  "state_identity s = (st_phase s, st_activity s)"

lemma new_state_simps [simp]:
  "state_version (new_state p a c) = STATE_VERSION" "st_phase (new_state p a c) = p"
  "st_activity (new_state p a c) = a" "st_context (new_state p a c) = c"
  by (simp_all add: new_state_def)

lemma new_state_eta:
  "state_version s = STATE_VERSION \<Longrightarrow> new_state (st_phase s) (st_activity s) (st_context s) = s"
  by (cases s) (simp add: new_state_def)

section \<open>The canonical text\<close>

definition serialize :: "runtime_state \<Rightarrow> string" where
  "serialize s =
     ''state_version='' @ show_nat (unat (state_version s))
     @ '';phase='' @ phase_id (st_phase s)
     @ '';activity='' @ activity_id (st_activity s)
     @ '';transport='' @ transport_id (ctx_transport (st_context s))
     @ '';vehicle='' @ vehicle_id (ctx_vehicle (st_context s))
     @ '';topology='' @ topology_id (ctx_topology (st_context s))
     @ '';recording='' @ recording_id (ctx_recording (st_context s))
     @ '';source='' @ source_id (ctx_source (st_context s))
     @ '';safety='' @ safety_id (ctx_safety (st_context s))"

text \<open>The field loop; the \<open>BTreeMap\<close> is an association list, \<open>insert\<close> failing on a
  name that is already there.\<close>

fun collect_fields ::
  "string list \<Rightarrow> (string \<times> string) list \<Rightarrow> runtime_state_error + (string \<times> string) list"
where
  "collect_fields [] fds = Inr fds"
| "collect_fields (field # rest) fds =
     (case split_once (CHR ''='') field of
        None \<Rightarrow> Inl InvalidFormat
      | Some (name, value) \<Rightarrow>
          if name = [] \<or> value = [] \<or> name \<in> fst ` set fds then Inl InvalidFormat
          else collect_fields rest (fds @ [(name, value)]))"

definition required_fields :: "string list" where
  "required_fields =
     [''state_version'', ''phase'', ''activity'', ''transport'', ''vehicle'', ''topology'',
      ''recording'', ''source'', ''safety'']"

text \<open>\<open>fields["phase"]\<close>: the index panics on an absent name, which the check of the
  required names has excluded.\<close>

definition field_value :: "(string \<times> string) list \<Rightarrow> string \<Rightarrow> string" where
  "field_value fds name = the (map_of fds name)"

definition parse_state_fields ::
  "(string \<times> string) list \<Rightarrow> u16 \<Rightarrow> runtime_state_error + runtime_state" where
  "parse_state_fields fds version =
     and_then (phase_parse (field_value fds ''phase'')) (\<lambda>ph.
     and_then (activity_parse (field_value fds ''activity'')) (\<lambda>ac.
     and_then (transport_parse (field_value fds ''transport'')) (\<lambda>tr.
     and_then (vehicle_parse (field_value fds ''vehicle'')) (\<lambda>ve.
     and_then (topology_parse (field_value fds ''topology'')) (\<lambda>to.
     and_then (recording_parse (field_value fds ''recording'')) (\<lambda>re.
     and_then (source_parse (field_value fds ''source'')) (\<lambda>so.
     and_then (safety_parse (field_value fds ''safety'')) (\<lambda>sa.
       Inr \<lparr>state_version = version, st_phase = ph, st_activity = ac,
            st_context = \<lparr>ctx_transport = tr, ctx_vehicle = ve, ctx_topology = to,
                          ctx_recording = re, ctx_source = so, ctx_safety = sa\<rparr>\<rparr>))))))))"

definition state_parse :: "string \<Rightarrow> runtime_state_error + runtime_state" where
  "state_parse text =
     (if text = [] then Inl InvalidFormat
      else and_then (collect_fields (split_on (\<lambda>c. c = CHR '';'') text) []) (\<lambda>fds.
        if length fds \<noteq> length required_fields then Inl InvalidFormat
        else if \<exists>name \<in> set required_fields. name \<notin> fst ` set fds then Inl InvalidFormat
        else and_then (ok_or InvalidFormat (map_of fds ''state_version'')) (\<lambda>v.
          case parse_unsigned 65535 v of
            None \<Rightarrow> Inl InvalidVersion
          | Some n \<Rightarrow>
              let version = word_of_nat n
              in if version \<noteq> STATE_VERSION then Inl (UnsupportedVersion version)
                 else parse_state_fields fds version)))"

section \<open>Round trip\<close>

text \<open>The fields the text holds, in order.\<close>

definition state_fields :: "runtime_state \<Rightarrow> (string \<times> string) list" where
  "state_fields s =
     [(''state_version'', show_nat (unat (state_version s))),
      (''phase'', phase_id (st_phase s)),
      (''activity'', activity_id (st_activity s)),
      (''transport'', transport_id (ctx_transport (st_context s))),
      (''vehicle'', vehicle_id (ctx_vehicle (st_context s))),
      (''topology'', topology_id (ctx_topology (st_context s))),
      (''recording'', recording_id (ctx_recording (st_context s))),
      (''source'', source_id (ctx_source (st_context s))),
      (''safety'', safety_id (ctx_safety (st_context s)))]"

lemmas ident_plains =
  phase_codec.ident_plain activity_codec.ident_plain transport_codec.ident_plain
  vehicle_codec.ident_plain topology_codec.ident_plain recording_codec.ident_plain
  source_codec.ident_plain safety_codec.ident_plain

lemma serialize_join: "serialize s = join '';'' (map field_text (state_fields s))"
  by (simp add: serialize_def state_fields_def field_text_def)

lemma show_version [simp]: "show_nat (unat STATE_VERSION) = ''1''"
  by (simp add: STATE_VERSION_def show_nat.simps dec_digit_def)

lemma state_fields_plain:
  assumes "state_version s = STATE_VERSION" and "nv \<in> set (state_fields s)"
  shows "plain_value (fst nv) \<and> plain_value (snd nv)"
proof -
  have "plain_value ''1''" by (simp add: plain_value_def)
  moreover have "list_all plain_value required_fields"
    by (simp add: required_fields_def plain_value_def)
  ultimately show ?thesis
    using assms ident_plains by (auto simp: state_fields_def required_fields_def)
qed

lemma state_fields_names: "map fst (state_fields s) = required_fields"
  by (simp add: state_fields_def required_fields_def)

lemma distinct_required: "distinct required_fields"
  by (simp add: required_fields_def)

lemma collect_fields_join:
  assumes "\<forall>nv \<in> set fs. plain_value (fst nv) \<and> plain_value (snd nv)"
    and "distinct (map fst (acc @ fs))"
  shows "collect_fields (map field_text fs) acc = Inr (acc @ fs)"
  using assms
proof (induction fs arbitrary: acc)
  case Nil
  then show ?case by simp
next
  case (Cons f fs)
  obtain n v where f: "f = (n, v)" by (cases f)
  have split: "split_once (CHR ''='') (field_text f) = Some (n, v)"
    using Cons.prems(1) by (simp add: f field_text_def split_once_append plain_value_def)
  have "n \<noteq> []" "v \<noteq> []" "n \<notin> fst ` set acc"
    using Cons.prems by (auto simp: f plain_value_def)
  with split Cons show ?case by (simp add: f)
qed

lemma split_serialize:
  assumes "state_version s = STATE_VERSION"
  shows "split_on (\<lambda>c. c = CHR '';'') (serialize s) = map field_text (state_fields s)"
  unfolding serialize_join
proof (rule split_on_join)
  show "map field_text (state_fields s) \<noteq> []" by (simp add: state_fields_def)
  show "\<forall>w \<in> set (map field_text (state_fields s)). \<forall>c \<in> set w. c \<noteq> CHR '';''"
    using state_fields_plain [OF assms] by (fastforce simp: field_text_def plain_value_def)
qed simp

lemma parse_state_fields_state_fields:
  "parse_state_fields (state_fields s) (state_version s) = Inr s"
  by (simp add: parse_state_fields_def field_value_def state_fields_def)

text \<open>What a successful parse says of its input.\<close>

lemma parse_state_fields_values:
  assumes "parse_state_fields fds v = Inr s"
  shows "field_value fds ''phase'' = phase_id (st_phase s)"
    "field_value fds ''activity'' = activity_id (st_activity s)"
    "field_value fds ''transport'' = transport_id (ctx_transport (st_context s))"
    "field_value fds ''vehicle'' = vehicle_id (ctx_vehicle (st_context s))"
    "field_value fds ''topology'' = topology_id (ctx_topology (st_context s))"
    "field_value fds ''recording'' = recording_id (ctx_recording (st_context s))"
    "field_value fds ''source'' = source_id (ctx_source (st_context s))"
    "field_value fds ''safety'' = safety_id (ctx_safety (st_context s))"
  using assms
  by (auto simp: parse_state_fields_def phase_codec.parse_iff activity_codec.parse_iff
      transport_codec.parse_iff vehicle_codec.parse_iff topology_codec.parse_iff
      recording_codec.parse_iff source_codec.parse_iff safety_codec.parse_iff)

lemma field_values_of_parse:
  assumes "parse_state_fields fds v = Inr s"
  shows "map (\<lambda>n. (n, field_value fds n)) (tl required_fields) = tl (state_fields s)"
  using parse_state_fields_values [OF assms]
  by (simp add: required_fields_def state_fields_def)

lemma parse_state_fields_version:
  "parse_state_fields fds v = Inr s \<Longrightarrow> state_version s = v"
  by (auto simp: parse_state_fields_def)

lemma collect_fields_Inr:
  assumes "collect_fields ws acc = Inr fds" and "distinct (map fst acc)"
  shows "\<exists>fs. fds = acc @ fs \<and> ws = map field_text fs \<and> distinct (map fst fds)"
  using assms
proof (induction ws arbitrary: acc)
  case Nil
  then show ?case by simp
next
  case (Cons w ws)
  from Cons.prems(1) obtain n v where nv: "split_once (CHR ''='') w = Some (n, v)"
    by (auto split: option.splits)
  with Cons.prems(1) have fresh: "n \<notin> fst ` set acc"
    and rest: "collect_fields ws (acc @ [(n, v)]) = Inr fds"
    by (auto split: if_splits)
  have "distinct (map fst (acc @ [(n, v)]))" using Cons.prems(2) fresh by simp
  from Cons.IH [OF rest this] obtain fs
    where "fds = (acc @ [(n, v)]) @ fs" "ws = map field_text fs" "distinct (map fst fds)" by blast
  moreover have "w = field_text (n, v)"
    using split_once_Some [OF nv] by (simp add: field_text_def)
  ultimately show ?case by (intro exI [of _ "(n, v) # fs"]) simp
qed

lemma join_split_on: "join [x] (split_on (\<lambda>c. c = x) s) = s"
proof (induction s)
  case Nil
  then show ?case by simp
next
  case (Cons c cs)
  obtain w ws where ws: "split_on (\<lambda>c. c = x) cs = w # ws"
    using split_on_not_Nil [of "\<lambda>c. c = x" cs] by (cases "split_on (\<lambda>c. c = x) cs") auto
  with Cons show ?case by (cases ws) auto
qed

lemma fields_of_required:
  assumes "distinct (map fst fds)" and "length fds = length required_fields"
    and "set required_fields \<subseteq> fst ` set fds"
  shows "set fds = (\<lambda>n. (n, field_value fds n)) ` set required_fields"
proof -
  have "card (set required_fields) = card (fst ` set fds)"
    using assms(1,2) distinct_required by (metis distinct_card length_map set_map)
  then have names: "set required_fields = fst ` set fds"
    using assms(3) by (simp add: card_subset_eq)
  have val: "field_value fds n = v" if "(n, v) \<in> set fds" for n v
    using that assms(1) by (simp add: field_value_def)
  show ?thesis
    unfolding names using val by force
qed

lemma state_parse_serialize:
  "state_parse (serialize (new_state p a c)) = Inr (new_state p a c)"
proof -
  let ?s = "new_state p a c"
  have v: "state_version ?s = STATE_VERSION" by simp
  have collect: "collect_fields (map field_text (state_fields ?s)) [] = Inr (state_fields ?s)"
    using collect_fields_join [of "state_fields ?s" "[]"] state_fields_plain [OF v]
      distinct_required state_fields_names [of ?s] by simp
  have names: "fst ` set (state_fields ?s) = set required_fields"
    using state_fields_names [of ?s] by (metis set_map)
  have len: "length (state_fields ?s) = length required_fields"
    using state_fields_names [of ?s] by (metis length_map)
  have "serialize ?s \<noteq> []" by (simp add: serialize_def)
  moreover have "map_of (state_fields ?s) ''state_version'' = Some ''1''"
    by (simp add: state_fields_def)
  moreover have "parse_unsigned 65535 ''1'' = Some 1"
    by (simp add: parse_unsigned_def dec_value_def code_point_def)
  moreover have "parse_state_fields (state_fields ?s) STATE_VERSION = Inr ?s"
    using parse_state_fields_state_fields [of ?s] by simp
  ultimately show ?thesis
    unfolding state_parse_def split_serialize [OF v] collect and_then.simps
    by (simp add: names len Let_def STATE_VERSION_def)
qed

section \<open>Properties\<close>

text \<open>Every state the code can build (\<open>RuntimeState::new\<close> fixes the version)
  survives the canonical text form: parsing what \<open>serialize\<close> prints gives it back.\<close>

lemma state_roundtrip:
  "state_parse (serialize (new_state p a c)) = Inr (new_state p a c)"
  by (rule state_parse_serialize)

text \<open>The parser accepts nothing but a rearrangement of the canonical fields: an accepted
  text is exactly the nine required \<open>name=value\<close> fields of the state it yields, each once and
  in some order, with the version field spelling the supported version.  So no unknown field,
  duplicate, default or newer version can become a state.\<close>

lemma state_parse_exact:
  assumes "state_parse text = Inr s"
  shows "state_version s = STATE_VERSION \<and>
    (\<exists>fds v. text = join '';'' (map field_text fds) \<and> parse_unsigned 65535 v = Some 1
       \<and> mset fds = mset ((''state_version'', v) # tl (state_fields s)))"
proof -
  let ?ws = "split_on (\<lambda>c. c = CHR '';'') text"
  from assms obtain fds where
    collect: "collect_fields ?ws [] = Inr fds"
    and len: "length fds = length required_fields"
    and req: "set required_fields \<subseteq> fst ` set fds"
    and rest: "and_then (ok_or InvalidFormat (map_of fds ''state_version'')) (\<lambda>v.
          case parse_unsigned 65535 v of
            None \<Rightarrow> Inl InvalidVersion
          | Some n \<Rightarrow>
              let version = word_of_nat n
              in if version \<noteq> STATE_VERSION then Inl (UnsupportedVersion version)
                 else parse_state_fields fds version) = Inr s"
    unfolding state_parse_def by (fastforce split: if_splits)
  from rest obtain v n where
    v: "map_of fds ''state_version'' = Some v" and n: "parse_unsigned 65535 v = Some n"
    and ver: "word_of_nat n = STATE_VERSION" and p: "parse_state_fields fds STATE_VERSION = Inr s"
    by (auto simp: Let_def split: option.splits if_splits)
  from collect_fields_Inr [OF collect] have ws: "?ws = map field_text fds"
    and dist: "distinct (map fst fds)" by auto
  have "n = 1"
  proof -
    have "n < 2 ^ 16" using parse_unsigned_bound [OF n] by simp
    then have "unat (word_of_nat n :: u16) = n" by (simp add: unat_of_nat)
    then show ?thesis using ver by (simp add: STATE_VERSION_def)
  qed
  have shape: "text = join '';'' (map field_text fds)"
    using join_split_on [of "CHR '';''" "text"] ws by simp
  have fds: "set fds = set (map (\<lambda>n. (n, field_value fds n)) required_fields)"
    using fields_of_required [OF dist len req] by simp
  have "map (\<lambda>n. (n, field_value fds n)) required_fields
      = (''state_version'', v) # tl (state_fields s)"
    using field_values_of_parse [OF p] v by (simp add: required_fields_def field_value_def)
  then have "set fds = set ((''state_version'', v) # tl (state_fields s))"
    using fds by simp
  moreover have "distinct ((''state_version'', v) # tl (state_fields s))"
    by (simp add: state_fields_def)
  moreover have "distinct fds" using dist by (simp add: distinct_map)
  ultimately have "mset fds = mset ((''state_version'', v) # tl (state_fields s))"
    by (simp only: set_eq_iff_mset_eq_distinct)
  with shape n \<open>n = 1\<close> show ?thesis
    using parse_state_fields_version [OF p] by blast
qed

lemma state_parse_exact_witness:
  "\<exists>fds v. serialize default_state = join '';'' (map field_text fds)
     \<and> parse_unsigned 65535 v = Some 1
     \<and> mset fds = mset ((''state_version'', v) # tl (state_fields default_state))"
  using state_parse_exact [of "serialize default_state" default_state] state_parse_serialize
  unfolding default_state_def by blast

end
