(* ===== verification/Runtime_Reducer.thy ===== *)
theory Runtime_Reducer
  imports Runtime_State
begin

text \<open>
  The pure reducer of \<open>src/runtime_reducer.rs\<close>: the event vocabulary, the rejection
  values and the total function \<open>transition\<close>, followed by the lifecycle it is meant to
  implement as a step relation on (phase, activity) pairs.  \<open>transition\<close> is proved to
  refine that relation, and the invariants of the runtime are proved over the reachable
  states.
\<close>

section \<open>Events\<close>

datatype context_update =
    Up_Transport transport_state
  | Up_Vehicle vehicle_state
  | Up_Topology topology_state
  | Up_Recording recording_state
  | Up_Source source_state
  | Up_Safety safety_capability

datatype runtime_event =
    InitializationCompleted
  | InitializationFailed
  | DiscoveryStarted
  | DiscoveryCompleted
  | DiscoveryFailed
  | ReadStarted
  | ReadCompleted
  | ReadFailedRecoverable
  | ObservationStarted
  | ObservationStopped
  | ObservationReadStarted
  | ObservationReadCompleted
  | ObservationReadFailedRecoverable
  | DiagnosticJobStarted
  | DiagnosticJobCompleted
  | ShutdownRequested
  | ShutdownCompleted
  | FatalRuntimeError
  | WriteStarted
  | ContextUpdated context_update
  | ContextChanged context_update
  | TransportChanged transport_state
  | VehicleChanged vehicle_state
  | TopologyChanged topology_state
  | RecordingChanged recording_state
  | SourceChanged source_state
  | SafetyChanged safety_capability

datatype runtime_event_kind =
    K_InitializationCompleted
  | K_InitializationFailed
  | K_DiscoveryStarted
  | K_DiscoveryCompleted
  | K_DiscoveryFailed
  | K_ReadStarted
  | K_ReadCompleted
  | K_ReadFailedRecoverable
  | K_ObservationStarted
  | K_ObservationStopped
  | K_ObservationReadStarted
  | K_ObservationReadCompleted
  | K_ObservationReadFailedRecoverable
  | K_DiagnosticJobStarted
  | K_DiagnosticJobCompleted
  | K_ShutdownRequested
  | K_ShutdownCompleted
  | K_FatalRuntimeError
  | K_WriteStarted
  | K_ContextUpdated

fun event_kind :: "runtime_event \<Rightarrow> runtime_event_kind" where
  "event_kind InitializationCompleted = K_InitializationCompleted"
| "event_kind InitializationFailed = K_InitializationFailed"
| "event_kind DiscoveryStarted = K_DiscoveryStarted"
| "event_kind DiscoveryCompleted = K_DiscoveryCompleted"
| "event_kind DiscoveryFailed = K_DiscoveryFailed"
| "event_kind ReadStarted = K_ReadStarted"
| "event_kind ReadCompleted = K_ReadCompleted"
| "event_kind ReadFailedRecoverable = K_ReadFailedRecoverable"
| "event_kind ObservationStarted = K_ObservationStarted"
| "event_kind ObservationStopped = K_ObservationStopped"
| "event_kind ObservationReadStarted = K_ObservationReadStarted"
| "event_kind ObservationReadCompleted = K_ObservationReadCompleted"
| "event_kind ObservationReadFailedRecoverable = K_ObservationReadFailedRecoverable"
| "event_kind DiagnosticJobStarted = K_DiagnosticJobStarted"
| "event_kind DiagnosticJobCompleted = K_DiagnosticJobCompleted"
| "event_kind ShutdownRequested = K_ShutdownRequested"
| "event_kind ShutdownCompleted = K_ShutdownCompleted"
| "event_kind FatalRuntimeError = K_FatalRuntimeError"
| "event_kind WriteStarted = K_WriteStarted"
| "event_kind (ContextUpdated _) = K_ContextUpdated"
| "event_kind (ContextChanged _) = K_ContextUpdated"
| "event_kind (TransportChanged _) = K_ContextUpdated"
| "event_kind (VehicleChanged _) = K_ContextUpdated"
| "event_kind (TopologyChanged _) = K_ContextUpdated"
| "event_kind (RecordingChanged _) = K_ContextUpdated"
| "event_kind (SourceChanged _) = K_ContextUpdated"
| "event_kind (SafetyChanged _) = K_ContextUpdated"

datatype transition_error =
    InvalidOrder phase activity runtime_event_kind
  | WriteUnavailable phase activity

fun transition_error_phase :: "transition_error \<Rightarrow> phase" where
  "transition_error_phase (InvalidOrder p a k) = p"
| "transition_error_phase (WriteUnavailable p a) = p"

fun transition_error_activity :: "transition_error \<Rightarrow> activity" where
  "transition_error_activity (InvalidOrder p a k) = a"
| "transition_error_activity (WriteUnavailable p a) = a"

fun transition_error_event :: "transition_error \<Rightarrow> runtime_event_kind option" where
  "transition_error_event (InvalidOrder p a k) = Some k"
| "transition_error_event (WriteUnavailable p a) = None"

section \<open>The contract of a guarded state machine\<close>

text \<open>
  What the state owner relies on: a step function that keeps an invariant and accepts nothing in
  a stopped state.  The owner skips rejected events (the state is left unchanged), so a run of it
  is \<open>run_accepting\<close>.
\<close>

fun run_accepting :: "('s \<Rightarrow> 'e \<Rightarrow> 'err + 's) \<Rightarrow> 's \<Rightarrow> 'e list \<Rightarrow> 's" where
  "run_accepting f s [] = s"
| "run_accepting f s (e # es) =
     (case f s e of Inl _ \<Rightarrow> run_accepting f s es | Inr s' \<Rightarrow> run_accepting f s' es)"

locale guarded_machine =
  fixes step :: "'s \<Rightarrow> 'e \<Rightarrow> 'err + 's"
    and is_stopped :: "'s \<Rightarrow> bool"
    and inv :: "'s \<Rightarrow> bool"
    and start :: 's
  assumes stopped_rejects: "is_stopped s \<Longrightarrow> \<exists>err. step s e = Inl err"
    and inv_start: "inv start"
    and inv_step: "inv s \<Longrightarrow> step s e = Inr s' \<Longrightarrow> inv s'"
begin

lemma accepted_not_stopped: "step s e = Inr s' \<Longrightarrow> \<not> is_stopped s"
  using stopped_rejects [of s e] by auto

lemma run_inv: "inv s \<Longrightarrow> inv (run_accepting step s es)"
  by (induction es arbitrary: s) (auto split: sum.splits dest: inv_step)

lemma run_stopped: "is_stopped s \<Longrightarrow> run_accepting step s es = s"
proof (induction es)
  case (Cons e es)
  then show ?case using stopped_rejects [of s e] by auto
qed simp

lemma run_append:
  "run_accepting step s (es @ fs) = run_accepting step (run_accepting step s es) fs"
  by (induction es arbitrary: s) (auto split: sum.splits)

lemma stopped_forever:
  "is_stopped (run_accepting step start es) \<Longrightarrow>
     run_accepting step start (es @ fs) = run_accepting step start es"
  by (simp add: run_append run_stopped)

end

section \<open>The reducer\<close>

definition state_at :: "runtime_state \<Rightarrow> phase \<Rightarrow> activity \<Rightarrow> runtime_state" where
  "state_at s p a = new_state p a (st_context s)"

fun update_context :: "runtime_context \<Rightarrow> context_update \<Rightarrow> runtime_context" where
  "update_context c (Up_Transport v) = c\<lparr>ctx_transport := v\<rparr>"
| "update_context c (Up_Vehicle v) = c\<lparr>ctx_vehicle := v\<rparr>"
| "update_context c (Up_Topology v) = c\<lparr>ctx_topology := v\<rparr>"
| "update_context c (Up_Recording v) = c\<lparr>ctx_recording := v\<rparr>"
| "update_context c (Up_Source v) = c\<lparr>ctx_source := v\<rparr>"
| "update_context c (Up_Safety v) = c\<lparr>ctx_safety := v\<rparr>"

definition apply_context ::
  "runtime_state \<Rightarrow> context_update \<Rightarrow> transition_error + runtime_state
     \<Rightarrow> transition_error + runtime_state" where
  "apply_context s u invalid =
     (if st_phase s = Stopped then invalid
      else Inr (new_state (st_phase s) (st_activity s) (update_context (st_context s) u)))"

definition invalid_order :: "runtime_state \<Rightarrow> runtime_event \<Rightarrow> transition_error + runtime_state" where
  "invalid_order s e = Inl (InvalidOrder (st_phase s) (st_activity s) (event_kind e))"

text \<open>\<open>if phase == P && activity == A { Ok(...) } else { invalid() }\<close>\<close>

definition from_to ::
  "runtime_state \<Rightarrow> runtime_event \<Rightarrow> phase \<times> activity \<Rightarrow> phase \<times> activity
     \<Rightarrow> transition_error + runtime_state" where
  "from_to s e src dst =
     (if st_phase s = fst src \<and> st_activity s = snd src
      then Inr (state_at s (fst dst) (snd dst)) else invalid_order s e)"

fun transition :: "runtime_state \<Rightarrow> runtime_event \<Rightarrow> transition_error + runtime_state" where
  "transition s (ContextUpdated u) = apply_context s u (invalid_order s (ContextUpdated u))"
| "transition s (ContextChanged u) = apply_context s u (invalid_order s (ContextChanged u))"
| "transition s (TransportChanged v) =
     apply_context s (Up_Transport v) (invalid_order s (TransportChanged v))"
| "transition s (VehicleChanged v) =
     apply_context s (Up_Vehicle v) (invalid_order s (VehicleChanged v))"
| "transition s (TopologyChanged v) =
     apply_context s (Up_Topology v) (invalid_order s (TopologyChanged v))"
| "transition s (RecordingChanged v) =
     apply_context s (Up_Recording v) (invalid_order s (RecordingChanged v))"
| "transition s (SourceChanged v) =
     apply_context s (Up_Source v) (invalid_order s (SourceChanged v))"
| "transition s (SafetyChanged v) =
     apply_context s (Up_Safety v) (invalid_order s (SafetyChanged v))"
| "transition s InitializationCompleted =
     from_to s InitializationCompleted (Init, Idle) (Ready, Idle)"
| "transition s InitializationFailed =
     from_to s InitializationFailed (Init, Idle) (Fault, Idle)"
| "transition s DiscoveryStarted = from_to s DiscoveryStarted (Ready, Idle) (Discover, Idle)"
| "transition s DiscoveryCompleted = from_to s DiscoveryCompleted (Discover, Idle) (Ready, Idle)"
| "transition s DiscoveryFailed = from_to s DiscoveryFailed (Discover, Idle) (Ready, Idle)"
| "transition s ReadStarted = from_to s ReadStarted (Ready, Idle) (Ready, Read)"
| "transition s ReadCompleted = from_to s ReadCompleted (Ready, Read) (Ready, Idle)"
| "transition s ReadFailedRecoverable =
     from_to s ReadFailedRecoverable (Ready, Read) (Ready, Idle)"
| "transition s ObservationStarted = from_to s ObservationStarted (Ready, Idle) (Ready, Observe)"
| "transition s ObservationStopped = from_to s ObservationStopped (Ready, Observe) (Ready, Idle)"
| "transition s ObservationReadStarted =
     (if st_phase s = Ready \<and> st_activity s = Observe then Inr s
      else invalid_order s ObservationReadStarted)"
| "transition s ObservationReadCompleted =
     (if st_phase s = Ready \<and> st_activity s = Observe then Inr s
      else invalid_order s ObservationReadCompleted)"
| "transition s ObservationReadFailedRecoverable =
     (if st_phase s = Ready \<and> st_activity s = Observe then Inr s
      else invalid_order s ObservationReadFailedRecoverable)"
| "transition s DiagnosticJobStarted =
     from_to s DiagnosticJobStarted (Ready, Idle) (Ready, Diagnose)"
| "transition s DiagnosticJobCompleted =
     from_to s DiagnosticJobCompleted (Ready, Diagnose) (Ready, Idle)"
| "transition s ShutdownRequested =
     (if st_phase s \<in> {Init, Discover, Ready, Fault} \<and> st_activity s = Idle
      then Inr (state_at s Stopping Idle) else invalid_order s ShutdownRequested)"
| "transition s ShutdownCompleted =
     from_to s ShutdownCompleted (Stopping, Idle) (Stopped, Idle)"
| "transition s FatalRuntimeError =
     (if st_phase s = Stopped then invalid_order s FatalRuntimeError
      else Inr (state_at s Fault Idle))"
| "transition s WriteStarted = Inl (WriteUnavailable (st_phase s) (st_activity s))"

lemmas transition_defs = apply_context_def from_to_def state_at_def invalid_order_def

section \<open>The lifecycle as a step relation\<close>

text \<open>
  The contract, independent of the code: which (phase, activity) pairs may follow each other
  at all.  The context is free; the events are forgotten.
\<close>

inductive lifecycle :: "phase \<times> activity \<Rightarrow> phase \<times> activity \<Rightarrow> bool" where
  stay: "p \<noteq> Stopped \<Longrightarrow> lifecycle (p, a) (p, a)"
| initialised: "lifecycle (Init, Idle) (Ready, Idle)"
| discover: "lifecycle (Ready, Idle) (Discover, Idle)"
| discovered: "lifecycle (Discover, Idle) (Ready, Idle)"
| start: "a \<in> {Read, Observe, Diagnose} \<Longrightarrow> lifecycle (Ready, Idle) (Ready, a)"
| finish: "a \<in> {Read, Observe, Diagnose} \<Longrightarrow> lifecycle (Ready, a) (Ready, Idle)"
| fault: "p \<noteq> Stopped \<Longrightarrow> lifecycle (p, a) (Fault, Idle)"
| stopping: "p \<in> {Init, Discover, Ready, Fault} \<Longrightarrow> lifecycle (p, Idle) (Stopping, Idle)"
| stopped: "lifecycle (Stopping, Idle) (Stopped, Idle)"

code_pred lifecycle .

inductive_simps lifecycle_stopped [simp]: "lifecycle (Stopped, a) q"
inductive_simps lifecycle_write [simp]: "lifecycle q (p, Write)"
inductive_cases lifecycle_cases: "lifecycle q r"

text \<open>The reachable runtime states: the default state and what accepted events give.\<close>

inductive reachable :: "runtime_state \<Rightarrow> bool" where
  initial: "reachable default_state"
| step: "reachable s \<Longrightarrow> transition s e = Inr s' \<Longrightarrow> reachable s'"

definition consistent :: "runtime_state \<Rightarrow> bool" where
  "consistent s \<longleftrightarrow> state_version s = STATE_VERSION \<and> st_activity s \<noteq> Write
     \<and> (st_activity s \<noteq> Idle \<longrightarrow> st_phase s = Ready)"

lemma transition_lifecycle:
  "transition s e = Inr s' \<Longrightarrow> lifecycle (state_identity s) (state_identity s')"
  by (cases e) (auto simp: transition_defs state_identity_def intro: lifecycle.intros
      split: if_splits)

lemma transition_consistent:
  "consistent s \<Longrightarrow> transition s e = Inr s' \<Longrightarrow> consistent s'"
  by (cases e) (auto simp: transition_defs consistent_def split: if_splits)

lemma reachable_consistent: "reachable s \<Longrightarrow> consistent s"
proof (induction rule: reachable.induct)
  case initial
  show ?case by (simp add: consistent_def default_state_def)
next
  case (step s e s')
  then show ?case using transition_consistent by blast
qed

interpretation reducer: guarded_machine transition "\<lambda>s. st_phase s = Stopped" consistent default_state
proof unfold_locales
  show "\<exists>err. transition s e = Inl err" if "st_phase s = Stopped" for s e
    using that by (cases e) (auto simp: transition_defs)
  show "consistent default_state" by (simp add: consistent_def default_state_def)
  show "consistent s'" if "consistent s" "transition s e = Inr s'" for s e s'
    using that by (rule transition_consistent)
qed

text \<open>Only a context event touches the context, and then only the field it names.\<close>

fun event_update :: "runtime_event \<Rightarrow> context_update option" where
  "event_update (ContextUpdated u) = Some u"
| "event_update (ContextChanged u) = Some u"
| "event_update (TransportChanged v) = Some (Up_Transport v)"
| "event_update (VehicleChanged v) = Some (Up_Vehicle v)"
| "event_update (TopologyChanged v) = Some (Up_Topology v)"
| "event_update (RecordingChanged v) = Some (Up_Recording v)"
| "event_update (SourceChanged v) = Some (Up_Source v)"
| "event_update (SafetyChanged v) = Some (Up_Safety v)"
| "event_update _ = None"

lemma transition_context:
  "transition s e = Inr s' \<Longrightarrow> st_context s' =
     (case event_update e of None \<Rightarrow> st_context s | Some u \<Rightarrow> update_context (st_context s) u)"
  by (cases e) (auto simp: transition_defs split: if_splits)

lemma transition_error_reports:
  "transition s e = Inl err \<Longrightarrow> transition_error_phase err = st_phase s
     \<and> transition_error_activity err = st_activity s
     \<and> (transition_error_event err = Some (event_kind e) \<or> e = WriteStarted)"
  by (cases e) (auto simp: transition_defs split: if_splits)

text \<open>A replay of events from a state: the run of accepted events.\<close>

fun replay :: "runtime_state \<Rightarrow> runtime_event list \<Rightarrow> transition_error + runtime_state" where
  "replay s [] = Inr s"
| "replay s (e # es) = and_then (transition s e) (\<lambda>s'. replay s' es)"

lemma replay_reachable: "reachable s \<Longrightarrow> replay s es = Inr s' \<Longrightarrow> reachable s'"
  by (induction es arbitrary: s) (auto intro: reachable.step)

lemma replay_append: "replay s (es @ fs) = and_then (replay s es) (\<lambda>s'. replay s' fs)"
proof (induction es arbitrary: s)
  case (Cons e es)
  then show ?case by (cases "transition s e") auto
qed simp

section \<open>Properties\<close>

text \<open>C14: the reducer refines the lifecycle.  Every accepted event moves the
  (phase, activity) pair along the lifecycle relation, a stopped runtime accepts nothing, and the
  context changes exactly in the field a context event names.\<close>

theorem reducer_refines_lifecycle:
  assumes "transition s e = Inr s'"
  shows "lifecycle (state_identity s) (state_identity s') \<and> st_phase s \<noteq> Stopped
    \<and> st_context s' = (case event_update e of None \<Rightarrow> st_context s
                       | Some u \<Rightarrow> update_context (st_context s) u)"
proof -
  from assms have l: "lifecycle (state_identity s) (state_identity s')"
    by (rule transition_lifecycle)
  then have "st_phase s \<noteq> Stopped" by (auto simp: state_identity_def)
  with l transition_context [OF assms] show ?thesis by simp
qed

theorem reducer_refines_lifecycle_witness:
  "lifecycle (Init, Idle) (Ready, Idle)
   \<and> transition default_state InitializationCompleted = Inr (new_state Ready Idle default_context)"
proof -
  have h: "transition default_state InitializationCompleted
      = Inr (new_state Ready Idle default_context)"
    by (simp add: default_state_def transition_defs)
  show ?thesis
    using reducer_refines_lifecycle [OF h] h by (simp add: state_identity_def default_state_def)
qed

text \<open>C13: the read-only guarantee of the runtime: after any run of events from any state
  that is not already in the write activity, whatever the safety capability in the context
  says, the activity is not \<open>write\<close>; and a \<open>WriteStarted\<close> event is rejected in every state.\<close>

theorem write_never_entered:
  assumes "st_activity s \<noteq> Write" and "replay s es = Inr s'"
  shows "st_activity s' \<noteq> Write \<and>
    transition s' WriteStarted = Inl (WriteUnavailable (st_phase s') (st_activity s'))"
proof -
  have step: "st_activity t' \<noteq> Write" if "st_activity t \<noteq> Write" "transition t e = Inr t'" for t e t'
    using transition_lifecycle [OF that(2)] that(1)
    by (auto simp: state_identity_def elim: lifecycle.cases)
  have "st_activity s' \<noteq> Write"
    using assms by (induction es arbitrary: s) (auto dest: step)
  then show ?thesis by simp
qed

theorem write_never_entered_witness:
  "\<exists>s'. replay default_state [SafetyChanged ExplicitMutation, InitializationCompleted] = Inr s'
     \<and> ctx_safety (st_context s') = ExplicitMutation \<and> st_activity s' \<noteq> Write"
proof -
  let ?s' = "new_state Ready Idle (default_context\<lparr>ctx_safety := ExplicitMutation\<rparr>)"
  have h: "st_activity default_state \<noteq> Write" by (simp add: default_state_def)
  have r: "replay default_state [SafetyChanged ExplicitMutation, InitializationCompleted] = Inr ?s'"
    by (simp add: default_state_def transition_defs)
  show ?thesis using write_never_entered [OF h r] r by (intro exI [of _ ?s']) simp
qed

text \<open>C18: the invariant of the reachable runtime states: the state version is the supported
  one, an activity other than idle runs only in phase ready (so discovery, shutdown and fault are
  idle), and \<open>write\<close> is unreachable.\<close>

theorem reachable_invariant:
  assumes "reachable s"
  shows "state_version s = STATE_VERSION \<and> st_activity s \<noteq> Write
    \<and> (st_activity s \<noteq> Idle \<longrightarrow> st_phase s = Ready)"
  using reachable_consistent [OF assms] by (simp add: consistent_def)

theorem reachable_invariant_witness:
  "st_phase (new_state Ready Observe default_context) = Ready
   \<and> reachable (new_state Ready Observe default_context)"
proof -
  have "replay default_state [InitializationCompleted, ObservationStarted]
      = Inr (new_state Ready Observe default_context)"
    by (simp add: default_state_def transition_defs)
  then have r: "reachable (new_state Ready Observe default_context)"
    by (rule replay_reachable [OF reachable.initial])
  then show ?thesis using reachable_invariant [OF r] by simp
qed

text \<open>A rejected event says truthfully where it was rejected: the error carries the phase and
  activity of the unchanged state and, unless it is the write event, the stable kind of the event.\<close>

lemma rejection_reports_state:
  assumes "transition s e = Inl err"
  shows "transition_error_phase err = st_phase s \<and> transition_error_activity err = st_activity s
    \<and> transition_error_event err = (if e = WriteStarted then None else Some (event_kind e))"
  using assms by (cases e) (auto simp: transition_defs split: if_splits)

lemma rejection_reports_state_witness:
  "transition default_state ReadCompleted = Inl (InvalidOrder Init Idle K_ReadCompleted)
   \<and> transition_error_event (InvalidOrder Init Idle K_ReadCompleted) = Some K_ReadCompleted"
proof -
  have h: "transition default_state ReadCompleted = Inl (InvalidOrder Init Idle K_ReadCompleted)"
    by (simp add: default_state_def transition_defs)
  show ?thesis using rejection_reports_state [OF h] h by simp
qed

text \<open>C20: liveness of shutdown: from every reachable state that is not stopped, at most three
  events, none of them a fault, lead to the stopped state with the context facts kept, so no
  reachable runtime is stuck and none has to be faulted to be closed.\<close>

theorem shutdown_reachable:
  assumes "reachable s" and "st_phase s \<noteq> Stopped"
  shows "\<exists>es s'. length es \<le> 3 \<and> FatalRuntimeError \<notin> set es \<and> replay s es = Inr s'
    \<and> st_phase s' = Stopped \<and> st_context s' = st_context s"
proof -
  let ?goal = "new_state Stopped Idle (st_context s)"
  define es where "es =
    (case st_activity s of
       Read \<Rightarrow> [ReadCompleted, ShutdownRequested, ShutdownCompleted]
     | Observe \<Rightarrow> [ObservationStopped, ShutdownRequested, ShutdownCompleted]
     | Diagnose \<Rightarrow> [DiagnosticJobCompleted, ShutdownRequested, ShutdownCompleted]
     | _ \<Rightarrow> (if st_phase s = Stopping then [ShutdownCompleted]
             else [ShutdownRequested, ShutdownCompleted]))"
  have c: "consistent s" by (rule reachable_consistent) (rule assms(1))
  have "replay s es = Inr ?goal"
  proof (cases "st_activity s = Idle")
    case True
    with assms(2) show ?thesis by (cases "st_phase s") (simp_all add: es_def transition_defs)
  next
    case False
    with c have "st_phase s = Ready" "st_activity s \<noteq> Write" by (simp_all add: consistent_def)
    with False show ?thesis by (cases "st_activity s") (simp_all add: es_def transition_defs)
  qed
  moreover have "length es \<le> 3" "FatalRuntimeError \<notin> set es"
    by (simp_all add: es_def split: activity.splits)
  ultimately show ?thesis by (intro exI [of _ es] exI [of _ ?goal]) simp
qed

theorem shutdown_reachable_witness:
  "\<exists>es s'. length es \<le> 3 \<and> FatalRuntimeError \<notin> set es \<and> replay default_state es = Inr s'
     \<and> st_phase s' = Stopped"
proof -
  have "st_phase default_state \<noteq> Stopped" by (simp add: default_state_def)
  from shutdown_reachable [OF reachable.initial this] show ?thesis by blast
qed

end
