(* ===== verification/Runtime_Actor.thy ===== *)
theory Runtime_Actor
  imports Runtime_Reducer
begin

text \<open>
  The single-owner actor of \<open>src/runtime_actor.rs\<close>: the owned state with its 64-bit
  transition sequence, the functions \<open>apply\<close> and \<open>shutdown\<close>, and the command loop.
  The bounded channel delivers commands first in, first out, so a run of the actor is a fold over
  the list of the commands it received; the replies are collected in the same order.
\<close>

definition CHANNEL_CAPACITY :: nat where
  "CHANNEL_CAPACITY = 32"

record runtime_snapshot =
  snap_state :: runtime_state
  snap_sequence :: u64

record runtime_transition =
  tr_sequence :: u64
  tr_event :: runtime_event
  tr_from :: runtime_state
  tr_to :: runtime_state

datatype runtime_actor_error =
    Transition transition_error
  | Actor_Stopped
  | QueueFull
  | Closed
  | SequenceOverflow

fun actor_error_transition :: "runtime_actor_error \<Rightarrow> transition_error option" where
  "actor_error_transition (Transition e) = Some e"
| "actor_error_transition _ = None"

record actor =
  owned_state :: runtime_state
  sequence :: u64

definition start_actor :: actor where
  "start_actor = \<lparr>owned_state = default_state, sequence = 0\<rparr>"

text \<open>\<open>u64::checked_add(1)\<close>\<close>

definition checked_succ :: "u64 \<Rightarrow> u64 option" where
  "checked_succ n = (if n = - 1 then None else Some (n + 1))"

lemma checked_succ_unat:
  "checked_succ n = Some m \<Longrightarrow> unat m = unat n + 1"
proof -
  assume "checked_succ n = Some m"
  then have "n \<noteq> - 1" "m = n + 1" by (auto simp: checked_succ_def split: if_splits)
  then have "1 + n \<noteq> 0" by (metis add.commute add.right_inverse add_left_cancel)
  then show "unat m = unat n + 1" using \<open>m = n + 1\<close>
    by (metis add.commute unatSuc Suc_eq_plus1)
qed

lemma checked_succ_None: "checked_succ n = None \<longleftrightarrow> unat n = 2 ^ 64 - 1"
proof -
  have "unat (- 1 :: u64) = 2 ^ 64 - 1" by (simp add: unsigned_minus_1_eq_mask mask_eq_exp_minus_1)
  then have "unat n = 2 ^ 64 - 1 \<longleftrightarrow> n = - 1"
    by (metis word_unat_eq_iff)
  then show ?thesis by (simp add: checked_succ_def)
qed

definition actor_apply :: "actor \<Rightarrow> runtime_event \<Rightarrow> (runtime_actor_error + runtime_transition) \<times> actor" where
  "actor_apply a e =
     (if st_phase (owned_state a) = Stopped then (Inl Actor_Stopped, a)
      else case transition (owned_state a) e of
        Inl err \<Rightarrow> (Inl (Transition err), a)
      | Inr next \<Rightarrow>
          (case checked_succ (sequence a) of
             None \<Rightarrow> (Inl SequenceOverflow, a)
           | Some n \<Rightarrow>
               (Inr \<lparr>tr_sequence = n, tr_event = e, tr_from = owned_state a, tr_to = next\<rparr>,
                a\<lparr>owned_state := next, sequence := n\<rparr>)))"

definition actor_shutdown :: "actor \<Rightarrow> (runtime_actor_error + unit) \<times> actor" where
  "actor_shutdown a =
     (if st_phase (owned_state a) = Stopped then (Inl Actor_Stopped, a)
      else
        (let (first, a1) =
           (if st_phase (owned_state a) \<noteq> Stopping
            then (case actor_apply a ShutdownRequested of
                    (Inl err, b) \<Rightarrow> (Inl err, b) | (Inr _, b) \<Rightarrow> (Inr (), b))
            else (Inr (), a))
         in case first of
              Inl err \<Rightarrow> (Inl err, a1)
            | Inr _ \<Rightarrow>
                (case actor_apply a1 ShutdownCompleted of
                   (Inl err, b) \<Rightarrow> (Inl err, b) | (Inr _, b) \<Rightarrow> (Inr (), b))))"

datatype command = Event runtime_event | Snapshot | Shutdown

datatype reply =
    Event_Reply "runtime_actor_error + runtime_transition"
  | Snapshot_Reply runtime_snapshot
  | Shutdown_Reply "runtime_actor_error + unit"

fun actor_handle :: "actor \<Rightarrow> command \<Rightarrow> reply \<times> actor" where
  "actor_handle a (Event e) = (let (r, b) = actor_apply a e in (Event_Reply r, b))"
| "actor_handle a Snapshot =
     (Snapshot_Reply \<lparr>snap_state = owned_state a, snap_sequence = sequence a\<rparr>, a)"
| "actor_handle a Shutdown = (let (r, b) = actor_shutdown a in (Shutdown_Reply r, b))"

fun actor_run :: "actor \<Rightarrow> command list \<Rightarrow> reply list \<times> actor" where
  "actor_run a [] = ([], a)"
| "actor_run a (c # cs) =
     (let (r, b) = actor_handle a c; (rs, d) = actor_run b cs in (r # rs, d))"

text \<open>\<open>RuntimeClient::try_send\<close> over the bounded queue: the queue length decides.\<close>

definition try_send ::
  "bool \<Rightarrow> command list \<Rightarrow> command \<Rightarrow> runtime_actor_error + command list" where
  "try_send open queue c =
     (if \<not> open then Inl Closed
      else if length queue < CHANNEL_CAPACITY then Inr (queue @ [c]) else Inl QueueFull)"

section \<open>One event\<close>

lemma actor_apply_Inr:
  assumes "actor_apply a e = (Inr t, b)"
  shows "transition (owned_state a) e = Inr (tr_to t)" "tr_from t = owned_state a"
    "tr_event t = e" "owned_state b = tr_to t" "tr_sequence t = sequence b"
    "unat (sequence b) = unat (sequence a) + 1" "st_phase (owned_state a) \<noteq> Stopped"
  using assms
  by (auto simp: actor_apply_def split: if_splits sum.splits option.splits
      dest: checked_succ_unat)

lemma actor_apply_Inl: "actor_apply a e = (Inl err, b) \<Longrightarrow> b = a"
  by (auto simp: actor_apply_def split: if_splits sum.splits option.splits)

lemma actor_apply_stopped [simp]:
  "st_phase (owned_state a) = Stopped \<Longrightarrow> actor_apply a e = (Inl Actor_Stopped, a)"
  by (simp add: actor_apply_def)

text \<open>The invariant of the actor: the owned state is consistent (through the contract of the
  reducer).\<close>

definition actor_ok :: "actor \<Rightarrow> bool" where
  "actor_ok a \<longleftrightarrow> consistent (owned_state a)"

lemma actor_apply_ok: "actor_ok a \<Longrightarrow> actor_apply a e = (r, b) \<Longrightarrow> actor_ok b"
proof (cases r)
  case (Inl err)
  then show "actor_ok a \<Longrightarrow> actor_apply a e = (r, b) \<Longrightarrow> actor_ok b"
    using actor_apply_Inl by fastforce
next
  case (Inr t)
  then show "actor_ok a \<Longrightarrow> actor_apply a e = (r, b) \<Longrightarrow> actor_ok b"
    using actor_apply_Inr reducer.inv_step unfolding actor_ok_def by metis
qed

text \<open>The states two applications of a run pass through: shutdown is at most two events.\<close>

definition shutdown_events :: "actor \<Rightarrow> runtime_event list" where
  "shutdown_events a =
     (if st_phase (owned_state a) = Stopped then []
      else if st_phase (owned_state a) = Stopping then [ShutdownCompleted]
      else [ShutdownRequested, ShutdownCompleted])"

lemma apply_shutdown_completed:
  assumes "actor_apply a ShutdownCompleted = (Inr t, b)"
  shows "st_phase (owned_state b) = Stopped \<and> unat (sequence b) = unat (sequence a) + 1"
  using actor_apply_Inr [OF assms] by (auto simp: transition_defs split: if_splits
      dest: arg_cong [of _ _ st_phase])

lemma actor_shutdown_Inr:
  assumes "actor_shutdown a = (Inr u, b)"
  shows "st_phase (owned_state a) \<noteq> Stopped \<and> st_phase (owned_state b) = Stopped
    \<and> unat (sequence b) = unat (sequence a) + length (shutdown_events a)"
proof -
  from assms have live: "st_phase (owned_state a) \<noteq> Stopped"
    by (auto simp: actor_shutdown_def)
  show ?thesis
  proof (cases "st_phase (owned_state a) = Stopping")
    case True
    with assms obtain t where "actor_apply a ShutdownCompleted = (Inr t, b)"
      by (auto simp: actor_shutdown_def split: sum.splits prod.splits)
    with live True show ?thesis
      using apply_shutdown_completed by (auto simp: shutdown_events_def)
  next
    case False
    with assms live obtain t1 a1 t2 where
      "actor_apply a ShutdownRequested = (Inr t1, a1)"
      "actor_apply a1 ShutdownCompleted = (Inr t2, b)"
      by (auto simp: actor_shutdown_def split: sum.splits prod.splits)
    with live False show ?thesis
      using apply_shutdown_completed actor_apply_Inr(6) by (fastforce simp: shutdown_events_def)
  qed
qed

lemma actor_shutdown_ok: "actor_ok a \<Longrightarrow> actor_shutdown a = (r, b) \<Longrightarrow> actor_ok b"
  by (auto simp: actor_shutdown_def Let_def split: if_splits sum.splits prod.splits
      dest: actor_apply_ok)

lemma actor_handle_ok: "actor_ok a \<Longrightarrow> actor_handle a c = (r, b) \<Longrightarrow> actor_ok b"
  by (cases c) (auto split: prod.splits dest: actor_apply_ok actor_shutdown_ok)

lemma actor_run_ok: "actor_ok a \<Longrightarrow> actor_run a cs = (rs, b) \<Longrightarrow> actor_ok b"
  by (induction cs arbitrary: a rs) (auto simp: Let_def split: prod.splits dest: actor_handle_ok)

lemma start_actor_ok: "actor_ok start_actor"
  by (simp add: actor_ok_def start_actor_def reducer.inv_start)

section \<open>Runs of the actor\<close>

text \<open>The transitions the actor reported, in order, and the chain they have to form.\<close>

fun accepted :: "reply list \<Rightarrow> runtime_transition list" where
  "accepted [] = []"
| "accepted (Event_Reply (Inr t) # rs) = t # accepted rs"
| "accepted (_ # rs) = accepted rs"

fun chain :: "runtime_state \<Rightarrow> nat \<Rightarrow> runtime_transition list \<Rightarrow> bool" where
  "chain s n [] = True"
| "chain s n (t # ts) \<longleftrightarrow>
     tr_from t = s \<and> unat (tr_sequence t) = n + 1 \<and> transition s (tr_event t) = Inr (tr_to t)
     \<and> chain (tr_to t) (n + 1) ts"

fun chain_end :: "runtime_state \<Rightarrow> runtime_transition list \<Rightarrow> runtime_state" where
  "chain_end s [] = s"
| "chain_end s (t # ts) = chain_end (tr_to t) ts"

lemma actor_run_chain:
  assumes "Shutdown \<notin> set cs" and "actor_run a cs = (rs, b)"
  shows "chain (owned_state a) (unat (sequence a)) (accepted rs)
    \<and> owned_state b = chain_end (owned_state a) (accepted rs)
    \<and> unat (sequence b) = unat (sequence a) + length (accepted rs)"
  using assms
proof (induction cs arbitrary: a rs)
  case Nil
  then show ?case by simp
next
  case (Cons c cs)
  obtain r a' where h: "actor_handle a c = (r, a')" by (cases "actor_handle a c")
  obtain rs' where t: "actor_run a' cs = (rs', b)" and rs: "rs = r # rs'"
    using Cons.prems(2) h by (auto split: prod.splits)
  note IH = Cons.IH [OF _ t]
  show ?case
  proof (cases c)
    case (Event e)
    with h obtain x where x: "actor_apply a e = (x, a')" and r: "r = Event_Reply x"
      by (auto split: prod.splits)
    show ?thesis
    proof (cases x)
      case (Inl err)
      with x have "a' = a" using actor_apply_Inl by blast
      with IH Cons.prems(1) show ?thesis by (simp add: rs r Inl)
    next
      case (Inr tr)
      with x have "actor_apply a e = (Inr tr, a')" by simp
      from actor_apply_Inr [OF this] IH Cons.prems(1) show ?thesis by (simp add: rs r Inr)
    qed
  next
    case Snapshot
    with h IH Cons.prems(1) show ?thesis by (auto simp: rs)
  next
    case Shutdown
    with Cons.prems(1) show ?thesis by simp
  qed
qed

fun stopped_reply :: "actor \<Rightarrow> command \<Rightarrow> reply" where
  "stopped_reply a (Event e) = Event_Reply (Inl Actor_Stopped)"
| "stopped_reply a Snapshot =
     Snapshot_Reply \<lparr>snap_state = owned_state a, snap_sequence = sequence a\<rparr>"
| "stopped_reply a Shutdown = Shutdown_Reply (Inl Actor_Stopped)"

lemma actor_run_stopped:
  "st_phase (owned_state a) = Stopped \<Longrightarrow> actor_run a cs = (map (stopped_reply a) cs, a)"
proof (induction cs)
  case (Cons c cs)
  then show ?case by (cases c) (simp_all add: actor_shutdown_def)
qed simp

lemma actor_run_snapshot_ok:
  assumes "actor_ok a" and "actor_run a cs = (rs, b)" and "Snapshot_Reply q \<in> set rs"
  shows "consistent (snap_state q)"
  using assms
proof (induction cs arbitrary: a rs)
  case (Cons c cs)
  obtain r a' where h: "actor_handle a c = (r, a')" by (cases "actor_handle a c")
  obtain rs' where t: "actor_run a' cs = (rs', b)" and rs: "rs = r # rs'"
    using Cons.prems(2) h by (auto split: prod.splits)
  have "actor_ok a'" using Cons.prems(1) h by (rule actor_handle_ok)
  then show ?case
    using Cons.IH [OF _ t] Cons.prems(1,3) h rs
    by (cases c) (auto simp: actor_ok_def split: prod.splits)
qed simp

section \<open>Properties\<close>

text \<open>C19: as long as no shutdown command is among those received, the transitions a fresh actor
  reports form one gapless history: starting from the default state, each reported transition starts where the previous one ended, is what the reducer
  computes for its event, and carries the next sequence number; the owned state and the sequence
  of the actor are the end of that history.\<close>

theorem actor_history:
  assumes "Shutdown \<notin> set cs" and "actor_run start_actor cs = (rs, b)"
  shows "chain default_state 0 (accepted rs)
    \<and> owned_state b = chain_end default_state (accepted rs)
    \<and> unat (sequence b) = length (accepted rs)"
  using actor_run_chain [OF assms] by (simp add: start_actor_def)

theorem actor_history_witness:
  "\<exists>rs b. actor_run start_actor
     [Event ReadStarted, Event InitializationCompleted, Snapshot, Event ReadStarted] = (rs, b)
   \<and> length (accepted rs) = 2 \<and> unat (sequence b) = 2 \<and> chain default_state 0 (accepted rs)"
proof -
  let ?cs = "[Event ReadStarted, Event InitializationCompleted, Snapshot, Event ReadStarted]"
  obtain rs b where run: "actor_run start_actor ?cs = (rs, b)" by (cases "actor_run start_actor ?cs")
  have h: "Shutdown \<notin> set ?cs" by simp
  have "(1 :: u64) \<noteq> - 1" by simp
  with run have "length (accepted rs) = 2"
    by (auto simp: start_actor_def actor_apply_def transition_defs default_state_def
        checked_succ_def)
  with actor_history [OF h run] run show ?thesis by (intro exI [of _ rs] exI [of _ b]) simp
qed

text \<open>A command that is answered with an error leaves the owner as it was for events, and
  for shutdown ends either unchanged or in a state from which the shutdown can be completed
  (phase stopping).\<close>

lemma actor_errors_keep_state:
  "(actor_apply a e = (Inl err, b) \<longrightarrow> b = a) \<and>
   (actor_shutdown a = (Inl err, b) \<longrightarrow>
      b = a \<or> (st_phase (owned_state b) = Stopping \<and> st_activity (owned_state b) = Idle))"
proof (intro conjI impI)
  show "b = a" if "actor_apply a e = (Inl err, b)" using that by (rule actor_apply_Inl)
  show "b = a \<or> (st_phase (owned_state b) = Stopping \<and> st_activity (owned_state b) = Idle)"
    if s: "actor_shutdown a = (Inl err, b)"
  proof (cases "st_phase (owned_state a) = Stopping \<or> st_phase (owned_state a) = Stopped")
    case True
    with s show ?thesis
      by (auto simp: actor_shutdown_def split: sum.splits prod.splits dest: actor_apply_Inl)
  next
    case False
    show ?thesis
    proof (cases "actor_apply a ShutdownRequested")
      case (Pair x a1)
      show ?thesis
      proof (cases x)
        case (Inl err')
        with s False Pair show ?thesis by (auto simp: actor_shutdown_def dest: actor_apply_Inl)
      next
        case (Inr t)
        with Pair have t: "actor_apply a ShutdownRequested = (Inr t, a1)" by simp
        have "b = a1"
          using s False t
          by (auto simp: actor_shutdown_def split: sum.splits prod.splits dest: actor_apply_Inl)
        moreover have "owned_state a1 = new_state Stopping Idle (st_context (owned_state a))"
          using actor_apply_Inr(1,4) [OF t] by (auto simp: transition_defs split: if_splits)
        ultimately show ?thesis by simp
      qed
    qed
  qed
qed

lemma actor_errors_keep_state_witness:
  "actor_apply start_actor ReadCompleted
     = (Inl (Transition (InvalidOrder Init Idle K_ReadCompleted)), start_actor)"
  using actor_errors_keep_state [of start_actor ReadCompleted
      "Transition (InvalidOrder Init Idle K_ReadCompleted)" start_actor]
  by (simp add: actor_apply_def start_actor_def default_state_def transition_defs)

text \<open>A successful shutdown is final: the actor is in phase stopped, and every later
  command is answered without any further change (events and shutdowns with \<open>Stopped\<close>).\<close>

lemma shutdown_is_final:
  assumes "actor_shutdown a = (Inr u, b)"
  shows "st_phase (owned_state b) = Stopped \<and> actor_run b cs = (map (stopped_reply b) cs, b)"
  using actor_shutdown_Inr [OF assms] actor_run_stopped by blast

lemma shutdown_is_final_witness:
  "\<exists>b. actor_shutdown start_actor = (Inr (), b)
     \<and> actor_run b [Event ReadStarted] = ([Event_Reply (Inl Actor_Stopped)], b)"
proof -
  have "(1 :: u64) \<noteq> - 1" by simp
  then have "\<exists>b. actor_shutdown start_actor = (Inr (), b)"
    by (simp add: actor_shutdown_def actor_apply_def start_actor_def default_state_def
        transition_defs checked_succ_def)
  then obtain b where b: "actor_shutdown start_actor = (Inr (), b)" by blast
  show ?thesis
    using shutdown_is_final [OF b, of "[Event ReadStarted]"] b by (intro exI [of _ b]) simp
qed

text \<open>Whatever commands an actor has handled from its start, every snapshot it hands
  out is a consistent state: supported version, never \<open>write\<close>, and busy only when ready.\<close>

lemma snapshots_consistent:
  assumes "actor_run start_actor cs = (rs, b)" and "Snapshot_Reply q \<in> set rs"
  shows "state_version (snap_state q) = STATE_VERSION \<and> st_activity (snap_state q) \<noteq> Write
    \<and> (st_activity (snap_state q) \<noteq> Idle \<longrightarrow> st_phase (snap_state q) = Ready)"
  using actor_run_snapshot_ok [OF start_actor_ok assms] by (simp add: consistent_def)

lemma snapshots_consistent_witness:
  "st_activity (snap_state \<lparr>snap_state = default_state, snap_sequence = 0\<rparr>) \<noteq> Write"
proof -
  let ?q = "\<lparr>snap_state = default_state, snap_sequence = 0\<rparr>"
  have run: "actor_run start_actor [Snapshot] = ([Snapshot_Reply ?q], start_actor)"
    by (simp add: start_actor_def)
  have "Snapshot_Reply ?q \<in> set [Snapshot_Reply ?q]" by simp
  from snapshots_consistent [OF run this] show ?thesis by blast
qed

end
