(* ===== verification/Protocol.thy ===== *)
theory Protocol
  imports Text
begin

text \<open>
  The closed read services of \<open>src/protocol.rs\<close>: a Mode 01 request with its length
  rule, the UDS ReadDataByIdentifier request, and the validation of a response against the
  request it answers.
\<close>

record mode01 =
  m01_pid :: u8
  m01_data_len :: nat
  m01_optional_data_byte :: bool

definition mode01_new :: "u8 \<Rightarrow> nat \<Rightarrow> mode01" where
  "mode01_new pid len = \<lparr>m01_pid = pid, m01_data_len = len, m01_optional_data_byte = False\<rparr>"

definition mode01_new_with_optional_byte :: "u8 \<Rightarrow> mode01" where
  "mode01_new_with_optional_byte pid =
     \<lparr>m01_pid = pid, m01_data_len = 1, m01_optional_data_byte = True\<rparr>"

definition mode01_bytes :: "mode01 \<Rightarrow> bytes" where
  "mode01_bytes m = [0x01, m01_pid m]"

definition mode01_fixed_length :: "mode01 \<Rightarrow> bool" where
  "mode01_fixed_length m = (\<not> m01_optional_data_byte m)"

definition mode01_data :: "mode01 \<Rightarrow> bytes \<Rightarrow> string \<Rightarrow> string + bytes" where
  "mode01_data m response semantic =
     (let expected = m01_data_len m + 2;
          valid_length = (length response = expected
            \<or> (m01_optional_data_byte m \<and> length response = expected + 1))
      in if \<not> valid_length \<or> take 2 response \<noteq> [0x41, m01_pid m]
         then Inl (''invalid OBD-II '' @ semantic @ '' response: '' @ hex response)
         else Inr (drop 2 response))"

datatype read_operation = Mode01 mode01 | UdsReadDataByIdentifier u16

datatype read_response_error =
    Mode01_Error string
  | MalformedUds
  | WrongDid u16 u16
  | UdsNegative u8

text \<open>\<open>did.to_be_bytes()\<close> and \<open>u16::from_be_bytes\<close>\<close>

definition did_high :: "u16 \<Rightarrow> u8" where
  "did_high d = word_of_nat (unat d div 256)"

definition did_low :: "u16 \<Rightarrow> u8" where
  "did_low d = word_of_nat (unat d mod 256)"

definition did_of :: "u8 \<Rightarrow> u8 \<Rightarrow> u16" where
  "did_of h l = word_of_nat (256 * unat h + unat l)"

text \<open>Both accessors panic on the Mode 01 variant (\<open>None\<close>).\<close>

fun op_request_bytes :: "read_operation \<Rightarrow> bytes option" where
  "op_request_bytes (UdsReadDataByIdentifier did) = Some [0x22, did_high did, did_low did]"
| "op_request_bytes (Mode01 _) = None"

fun op_did :: "read_operation \<Rightarrow> u16 option" where
  "op_did (UdsReadDataByIdentifier did) = Some did"
| "op_did (Mode01 _) = None"

fun validate_response ::
  "read_operation \<Rightarrow> bytes \<Rightarrow> string \<Rightarrow> read_response_error + bytes" where
  "validate_response (Mode01 m) response semantic =
     map_err Mode01_Error (mode01_data m response semantic)"
| "validate_response (UdsReadDataByIdentifier did) response semantic =
     (if starts_with response [0x7f, 0x22] then
        (if length response \<noteq> 3 then Inl MalformedUds else Inl (UdsNegative (response ! 2)))
      else if length response < 3 \<or> response ! 0 \<noteq> 0x62 then Inl MalformedUds
      else
        (let response_did = did_of (response ! 1) (response ! 2)
         in if response_did \<noteq> did then Inl (WrongDid did response_did)
            else if length response = 3 then Inl MalformedUds
            else Inr (drop 3 response)))"

fun read_response_error_text :: "read_response_error \<Rightarrow> string" where
  "read_response_error_text (Mode01_Error e) = e"
| "read_response_error_text MalformedUds = ''malformed UDS ReadDataByIdentifier response''"
| "read_response_error_text (WrongDid expected actual) =
     ''UDS response DID '' @ fmt_04X actual @ '' does not match requested DID '' @ fmt_04X expected"
| "read_response_error_text (UdsNegative nrc) =
     ''UDS negative response for 22, NRC '' @ fmt_02X nrc"

lemma did_of_bytes [simp]: "did_of (did_high d) (did_low d) = d"
proof -
  have "unat d < 65536" using unsigned_less [where w = d] by simp
  then have "unat d div 256 < 256" by (simp add: less_mult_imp_div_less)
  then have "unat (did_high d) = unat d div 256" by (simp add: did_high_def unat_of_nat)
  moreover have "unat (did_low d) = unat d mod 256" by (simp add: did_low_def unat_of_nat)
  ultimately show ?thesis by (simp add: did_of_def)
qed

lemma did_bytes_of: "did_high (did_of h l) = h \<and> did_low (did_of h l) = l"
proof -
  have "256 * unat h + unat l < 65536" using unat_u8_less [of h] unat_u8_less [of l] by linarith
  moreover have "unat (did_of h l) = (256 * unat h + unat l) mod 2 ^ LENGTH(16)"
    unfolding did_of_def by (rule unat_of_nat)
  ultimately have "unat (did_of h l) = 256 * unat h + unat l" by simp
  then have "unat (did_of h l) div 256 = unat h" "unat (did_of h l) mod 256 = unat l"
    using unat_u8_less [of l] by simp_all
  then show ?thesis by (simp add: did_high_def did_low_def)
qed

lemma mode01_data_Inr:
  "mode01_data m response semantic = Inr data \<Longrightarrow>
     response = [0x41, m01_pid m] @ data
     \<and> (length data = m01_data_len m
        \<or> m01_optional_data_byte m \<and> length data = m01_data_len m + 1)"
  by (auto simp: mode01_data_def Let_def split: if_splits)
    (metis append_take_drop_id append_Cons append_Nil)+

text \<open>A response is accepted for a request exactly when it is the positive response to that
  request: a Mode 01 payload is \<open>41 pid\<close> followed by exactly the declared data bytes (one more
  where the signal allows it), a UDS payload is \<open>62\<close>, the requested identifier and at least one
  data byte.  What is handed to the decoders is precisely the data part.\<close>

lemma validate_response_exact:
  "validate_response op response semantic = Inr data \<longleftrightarrow>
     (case op of
        Mode01 m \<Rightarrow> response = [0x41, m01_pid m] @ data
          \<and> (length data = m01_data_len m
             \<or> m01_optional_data_byte m \<and> length data = m01_data_len m + 1)
      | UdsReadDataByIdentifier did \<Rightarrow>
          response = [0x62, did_high did, did_low did] @ data \<and> data \<noteq> [])"
proof (cases op)
  case (Mode01 m)
  have "mode01_data m ([0x41, m01_pid m] @ data) semantic = Inr data"
    if "length data = m01_data_len m \<or> m01_optional_data_byte m \<and> length data = m01_data_len m + 1"
    using that by (auto simp: mode01_data_def)
  with Mode01 show ?thesis using mode01_data_Inr by auto
next
  case (UdsReadDataByIdentifier did)
  show ?thesis
  proof
    assume r: "validate_response op response semantic = Inr data"
    then have len: "length response > 3" and r0: "response ! 0 = 0x62"
      and d: "did_of (response ! 1) (response ! 2) = did" and dt: "data = drop 3 response"
      using UdsReadDataByIdentifier by (auto simp: Let_def split: if_splits)
    obtain a b c rest where resp: "response = a # b # c # rest"
      using len by (cases response; cases "tl response"; cases "tl (tl response)") auto
    with r0 d dt len show "case op of
        Mode01 m \<Rightarrow> response = [0x41, m01_pid m] @ data
          \<and> (length data = m01_data_len m
             \<or> m01_optional_data_byte m \<and> length data = m01_data_len m + 1)
      | UdsReadDataByIdentifier did \<Rightarrow>
          response = [0x62, did_high did, did_low did] @ data \<and> data \<noteq> []"
      using UdsReadDataByIdentifier did_bytes_of [of b c] by auto
  next
    assume "case op of
        Mode01 m \<Rightarrow> response = [0x41, m01_pid m] @ data
          \<and> (length data = m01_data_len m
             \<or> m01_optional_data_byte m \<and> length data = m01_data_len m + 1)
      | UdsReadDataByIdentifier did \<Rightarrow>
          response = [0x62, did_high did, did_low did] @ data \<and> data \<noteq> []"
    then show "validate_response op response semantic = Inr data"
      using UdsReadDataByIdentifier by (auto simp: starts_with_def)
  qed
qed

lemma validate_response_exact_witness:
  "validate_response (UdsReadDataByIdentifier 0xF18C) [0x62, 0xF1, 0x8C, 0x31] ''ecu.serial_number''
     = Inr [0x31]"
proof -
  have "did_high 0xF18C = 0xF1 \<and> did_low 0xF18C = 0x8C"
    by (simp add: did_high_def did_low_def)
  then show ?thesis
    using validate_response_exact [of "UdsReadDataByIdentifier 0xF18C" "[0x62, 0xF1, 0x8C, 0x31]"
        "''ecu.serial_number''" "[0x31]"] by simp
qed

end
