(* ===== verification/Vehicle.thy ===== *)
theory Vehicle
  imports Protocol Complex_Main
begin

text \<open>
  The typed signal catalog of \<open>src/vehicle.rs\<close> and the read vocabulary of
  \<open>src/read.rs\<close>: every Mode 01 signal with its metadata, its request and its decoder, the
  lookup by semantic name, and the completion of a read.  A decoder computes in rational
  arithmetic what the code computes in \<open>f64\<close>: the inputs are integers below \<open>2 ^ 32\<close>
  (exact in \<open>f64\<close>), and the rounding of the final quotient or product is not modelled.
\<close>

section \<open>Definitions\<close>

record signal_metadata =
  md_semantic :: string
  md_profile :: string
  md_protocol :: string
  md_request :: bytes
  md_decoder :: string
  md_minimum :: rat
  md_maximum :: rat
  md_description :: string
  md_subsystem :: string
  md_unit :: string
  md_provenance :: string
  md_confidence :: string
  md_hardware_validation :: string

record profile_metadata =
  pf_id :: string
  pf_description :: string
  pf_confidence :: string
  pf_hardware_validation :: string

definition PROFILES :: "profile_metadata list" where
  "PROFILES =
     [\<lparr>pf_id = ''obd2-v1'', pf_description = ''Generic SAE J1979 Mode 01 signals.'',
       pf_confidence = ''standards-derived/offline-tested'',
       pf_hardware_validation = ''rust-hardware-pending''\<rparr>]"

record signal_definition =
  sg_metadata :: signal_metadata
  sg_request :: mode01
  sg_decode :: "bytes \<Rightarrow> rat"

definition signal_new ::
  "signal_metadata \<Rightarrow> mode01 \<Rightarrow> (bytes \<Rightarrow> rat) \<Rightarrow> signal_definition" where
  "signal_new m r d = \<lparr>sg_metadata = m, sg_request = r, sg_decode = d\<rparr>"

text \<open>The integer readings the decoders start from.\<close>

definition rat_u8 :: "bytes \<Rightarrow> rat" where
  "rat_u8 d = of_nat (be_nat [d ! 0])"

definition rat_u16 :: "bytes \<Rightarrow> rat" where
  "rat_u16 d = of_nat (be_nat [d ! 0, d ! 1])"

definition rat_u32 :: "bytes \<Rightarrow> rat" where
  "rat_u32 d = of_nat (be_nat [d ! 0, d ! 1, d ! 2, d ! 3])"

section \<open>The catalog\<close>

definition sig_engine_rpm :: signal_definition where
  "sig_engine_rpm = signal_new
     \<lparr>md_semantic = ''engine.rpm'', md_profile = ''obd2-v1'',
      md_protocol = ''OBD-II Mode 01'', md_request = [0x01, 0x0c],
      md_decoder = ''((A * 256) + B) / 4'', md_minimum = 0, md_maximum = 65535 / 4,
      md_description = ''Engine speed.'',
      md_subsystem = ''powertrain'', md_unit = ''rpm'',
      md_provenance = ''SAE J1979 Mode 01 PID 0C'',
      md_confidence = ''standards-derived/offline-tested'',
      md_hardware_validation = ''rust-hardware-pending''\<rparr>
     (mode01_new 0x0c 2)
     (\<lambda>d. rat_u16 d / 4)"

definition sig_engine_coolant_temperature :: signal_definition where
  "sig_engine_coolant_temperature = signal_new
     \<lparr>md_semantic = ''engine.coolant_temperature'', md_profile = ''obd2-v1'',
      md_protocol = ''OBD-II Mode 01'', md_request = [0x01, 0x05],
      md_decoder = ''A - 40'', md_minimum = - 40, md_maximum = 215,
      md_description = ''Engine coolant temperature.'',
      md_subsystem = ''powertrain'', md_unit = [CHR 0xC2] @ [CHR 0xB0] @ ''C'',
      md_provenance = ''SAE J1979 Mode 01 PID 05'',
      md_confidence = ''standards-derived/offline-tested'',
      md_hardware_validation = ''rust-hardware-pending''\<rparr>
     (mode01_new 0x05 1)
     (\<lambda>d. rat_u8 d - 40)"

definition sig_vehicle_speed :: signal_definition where
  "sig_vehicle_speed = signal_new
     \<lparr>md_semantic = ''vehicle.speed'', md_profile = ''obd2-v1'',
      md_protocol = ''OBD-II Mode 01'', md_request = [0x01, 0x0d],
      md_decoder = ''A'', md_minimum = 0, md_maximum = 255,
      md_description = ''Vehicle speed.'',
      md_subsystem = ''powertrain'', md_unit = ''km/h'',
      md_provenance = ''SAE J1979 Mode 01 PID 0D'',
      md_confidence = ''standards-derived/offline-tested'',
      md_hardware_validation = ''rust-hardware-pending''\<rparr>
     (mode01_new 0x0d 1)
     (\<lambda>d. rat_u8 d)"

definition sig_engine_maf :: signal_definition where
  "sig_engine_maf = signal_new
     \<lparr>md_semantic = ''engine.maf'', md_profile = ''obd2-v1'',
      md_protocol = ''OBD-II Mode 01'', md_request = [0x01, 0x10],
      md_decoder = ''((A * 256) + B) / 100'', md_minimum = 0, md_maximum = 13107 / 20,
      md_description = ''Mass air flow rate.'',
      md_subsystem = ''powertrain'', md_unit = ''g/s'',
      md_provenance = ''SAE J1979 Mode 01 PID 10'',
      md_confidence = ''standards-derived/offline-tested'',
      md_hardware_validation = ''rust-hardware-pending''\<rparr>
     (mode01_new 0x10 2)
     (\<lambda>d. rat_u16 d / 100)"

definition sig_engine_load :: signal_definition where
  "sig_engine_load = signal_new
     \<lparr>md_semantic = ''engine.load'', md_profile = ''obd2-v1'',
      md_protocol = ''OBD-II Mode 01'', md_request = [0x01, 0x04],
      md_decoder = ''A * 100 / 255'', md_minimum = 0, md_maximum = 100,
      md_description = ''Calculated engine load.'',
      md_subsystem = ''powertrain'', md_unit = ''%'',
      md_provenance = ''SAE J1979 Mode 01 PID 04'',
      md_confidence = ''standards-derived/offline-tested'',
      md_hardware_validation = ''rust-hardware-pending''\<rparr>
     (mode01_new 0x04 1)
     (\<lambda>d. rat_u8 d * 100 / 255)"

definition sig_engine_intake_manifold_pressure :: signal_definition where
  "sig_engine_intake_manifold_pressure = signal_new
     \<lparr>md_semantic = ''engine.intake_manifold_pressure'', md_profile = ''obd2-v1'',
      md_protocol = ''OBD-II Mode 01'', md_request = [0x01, 0x0b],
      md_decoder = ''A'', md_minimum = 0, md_maximum = 255,
      md_description = ''Intake manifold absolute pressure.'',
      md_subsystem = ''powertrain'', md_unit = ''kPa'',
      md_provenance = ''SAE J1979 Mode 01 PID 0B'',
      md_confidence = ''standards-derived/offline-tested'',
      md_hardware_validation = ''rust-hardware-pending''\<rparr>
     (mode01_new 0x0b 1)
     (\<lambda>d. rat_u8 d)"

definition sig_engine_intake_air_temperature :: signal_definition where
  "sig_engine_intake_air_temperature = signal_new
     \<lparr>md_semantic = ''engine.intake_air_temperature'', md_profile = ''obd2-v1'',
      md_protocol = ''OBD-II Mode 01'', md_request = [0x01, 0x0f],
      md_decoder = ''A - 40'', md_minimum = - 40, md_maximum = 215,
      md_description = ''Intake air temperature.'',
      md_subsystem = ''powertrain'', md_unit = [CHR 0xC2] @ [CHR 0xB0] @ ''C'',
      md_provenance = ''SAE J1979 Mode 01 PID 0F'',
      md_confidence = ''standards-derived/offline-tested'',
      md_hardware_validation = ''rust-hardware-pending''\<rparr>
     (mode01_new 0x0f 1)
     (\<lambda>d. rat_u8 d - 40)"

definition sig_engine_egr_commanded :: signal_definition where
  "sig_engine_egr_commanded = signal_new
     \<lparr>md_semantic = ''engine.egr.commanded'', md_profile = ''obd2-v1'',
      md_protocol = ''OBD-II Mode 01'', md_request = [0x01, 0x2c],
      md_decoder = ''A * 100 / 255'', md_minimum = 0, md_maximum = 100,
      md_description = ''Commanded exhaust gas recirculation.'',
      md_subsystem = ''powertrain'', md_unit = ''%'',
      md_provenance = ''SAE J1979 Mode 01 PID 2C'',
      md_confidence = ''standards-derived/offline-tested'',
      md_hardware_validation = ''rust-hardware-pending''\<rparr>
     (mode01_new 0x2c 1)
     (\<lambda>d. rat_u8 d * 100 / 255)"

definition sig_engine_egr_error :: signal_definition where
  "sig_engine_egr_error = signal_new
     \<lparr>md_semantic = ''engine.egr.error'', md_profile = ''obd2-v1'',
      md_protocol = ''OBD-II Mode 01'', md_request = [0x01, 0x2d],
      md_decoder = ''(A - 128) * 100 / 128'', md_minimum = - 100, md_maximum = 3175 / 32,
      md_description = ''Exhaust gas recirculation error.'',
      md_subsystem = ''powertrain'', md_unit = ''%'',
      md_provenance = ''SAE J1979 Mode 01 PID 2D'',
      md_confidence = ''standards-derived/offline-tested'',
      md_hardware_validation = ''rust-hardware-pending''\<rparr>
     (mode01_new 0x2d 1)
     (\<lambda>d. (rat_u8 d - 128) * 100 / 128)"

definition sig_engine_runtime :: signal_definition where
  "sig_engine_runtime = signal_new
     \<lparr>md_semantic = ''engine.runtime'', md_profile = ''obd2-v1'',
      md_protocol = ''OBD-II Mode 01'', md_request = [0x01, 0x1f],
      md_decoder = ''(A * 256) + B'', md_minimum = 0, md_maximum = 65535,
      md_description = ''Engine run time since start.'',
      md_subsystem = ''powertrain'', md_unit = ''s'',
      md_provenance = ''SAE J1979 Mode 01 PID 1F'',
      md_confidence = ''standards-derived/offline-tested'',
      md_hardware_validation = ''rust-hardware-pending''\<rparr>
     (mode01_new 0x1f 2)
     (\<lambda>d. rat_u16 d)"

definition sig_vehicle_accelerator_pedal_d :: signal_definition where
  "sig_vehicle_accelerator_pedal_d = signal_new
     \<lparr>md_semantic = ''vehicle.accelerator_pedal_d'', md_profile = ''obd2-v1'',
      md_protocol = ''OBD-II Mode 01'', md_request = [0x01, 0x49],
      md_decoder = ''A * 100 / 255'', md_minimum = 0, md_maximum = 100,
      md_description = ''Accelerator pedal position D.'',
      md_subsystem = ''powertrain'', md_unit = ''%'',
      md_provenance = ''SAE J1979 Mode 01 PID 49'',
      md_confidence = ''standards-derived/offline-tested'',
      md_hardware_validation = ''rust-hardware-pending''\<rparr>
     (mode01_new 0x49 1)
     (\<lambda>d. rat_u8 d * 100 / 255)"

definition sig_vehicle_accelerator_pedal_e :: signal_definition where
  "sig_vehicle_accelerator_pedal_e = signal_new
     \<lparr>md_semantic = ''vehicle.accelerator_pedal_e'', md_profile = ''obd2-v1'',
      md_protocol = ''OBD-II Mode 01'', md_request = [0x01, 0x4a],
      md_decoder = ''A * 100 / 255'', md_minimum = 0, md_maximum = 100,
      md_description = ''Accelerator pedal position E.'',
      md_subsystem = ''powertrain'', md_unit = ''%'',
      md_provenance = ''SAE J1979 Mode 01 PID 4A'',
      md_confidence = ''standards-derived/offline-tested'',
      md_hardware_validation = ''rust-hardware-pending''\<rparr>
     (mode01_new 0x4a 1)
     (\<lambda>d. rat_u8 d * 100 / 255)"

definition sig_engine_relative_throttle :: signal_definition where
  "sig_engine_relative_throttle = signal_new
     \<lparr>md_semantic = ''engine.relative_throttle'', md_profile = ''obd2-v1'',
      md_protocol = ''OBD-II Mode 01'', md_request = [0x01, 0x45],
      md_decoder = ''A * 100 / 255'', md_minimum = 0, md_maximum = 100,
      md_description = ''Relative throttle position.'',
      md_subsystem = ''powertrain'', md_unit = ''%'',
      md_provenance = ''SAE J1979 Mode 01 PID 45'',
      md_confidence = ''standards-derived/offline-tested'',
      md_hardware_validation = ''rust-hardware-pending''\<rparr>
     (mode01_new 0x45 1)
     (\<lambda>d. rat_u8 d * 100 / 255)"

definition sig_engine_barometric_pressure :: signal_definition where
  "sig_engine_barometric_pressure = signal_new
     \<lparr>md_semantic = ''engine.barometric_pressure'', md_profile = ''obd2-v1'',
      md_protocol = ''OBD-II Mode 01'', md_request = [0x01, 0x33],
      md_decoder = ''A'', md_minimum = 0, md_maximum = 255,
      md_description = ''Barometric pressure.'',
      md_subsystem = ''powertrain'', md_unit = ''kPa'',
      md_provenance = ''SAE J1979 Mode 01 PID 33'',
      md_confidence = ''standards-derived/offline-tested'',
      md_hardware_validation = ''rust-hardware-pending''\<rparr>
     (mode01_new 0x33 1)
     (\<lambda>d. rat_u8 d)"

definition sig_engine_control_module_voltage :: signal_definition where
  "sig_engine_control_module_voltage = signal_new
     \<lparr>md_semantic = ''engine.control_module_voltage'', md_profile = ''obd2-v1'',
      md_protocol = ''OBD-II Mode 01'', md_request = [0x01, 0x42],
      md_decoder = ''((A * 256) + B) / 1000'', md_minimum = 0, md_maximum = 13107 / 200,
      md_description = ''Control module voltage.'',
      md_subsystem = ''powertrain'', md_unit = ''V'',
      md_provenance = ''SAE J1979 Mode 01 PID 42'',
      md_confidence = ''standards-derived/offline-tested'',
      md_hardware_validation = ''rust-hardware-pending''\<rparr>
     (mode01_new 0x42 2)
     (\<lambda>d. rat_u16 d / 1000)"

definition sig_engine_throttle_position :: signal_definition where
  "sig_engine_throttle_position = signal_new
     \<lparr>md_semantic = ''engine.throttle_position'', md_profile = ''obd2-v1'',
      md_protocol = ''OBD-II Mode 01'', md_request = [0x01, 0x11],
      md_decoder = ''A * 100 / 255'', md_minimum = 0, md_maximum = 100,
      md_description = ''Throttle position.'',
      md_subsystem = ''powertrain'', md_unit = ''%'',
      md_provenance = ''SAE J1979 Mode 01 PID 11'',
      md_confidence = ''standards-derived/offline-tested'',
      md_hardware_validation = ''rust-hardware-observed''\<rparr>
     (mode01_new 0x11 1)
     (\<lambda>d. rat_u8 d * 100 / 255)"

definition sig_vehicle_distance_with_mil_on :: signal_definition where
  "sig_vehicle_distance_with_mil_on = signal_new
     \<lparr>md_semantic = ''vehicle.distance_with_mil_on'', md_profile = ''obd2-v1'',
      md_protocol = ''OBD-II Mode 01'', md_request = [0x01, 0x21],
      md_decoder = ''(A * 256) + B'', md_minimum = 0, md_maximum = 65535,
      md_description = ''Distance traveled while the malfunction indicator lamp is on.'',
      md_subsystem = ''diagnostics'', md_unit = ''km'',
      md_provenance = ''SAE J1979 Mode 01 PID 21'',
      md_confidence = ''standards-derived/offline-tested'',
      md_hardware_validation = ''rust-hardware-observed''\<rparr>
     (mode01_new 0x21 2)
     (\<lambda>d. rat_u16 d)"

definition sig_engine_fuel_rail_gauge_pressure :: signal_definition where
  "sig_engine_fuel_rail_gauge_pressure = signal_new
     \<lparr>md_semantic = ''engine.fuel_rail_gauge_pressure'', md_profile = ''obd2-v1'',
      md_protocol = ''OBD-II Mode 01'', md_request = [0x01, 0x23],
      md_decoder = ''((A * 256) + B) * 10'', md_minimum = 0, md_maximum = 655350,
      md_description = ''Fuel rail gauge pressure for diesel/direct-injection systems.'',
      md_subsystem = ''powertrain'', md_unit = ''kPa'',
      md_provenance = ''SAE J1979 Mode 01 PID 23'',
      md_confidence = ''standards-derived/offline-tested'',
      md_hardware_validation = ''rust-hardware-observed''\<rparr>
     (mode01_new 0x23 2)
     (\<lambda>d. rat_u16 d * 10)"

definition sig_vehicle_warmups_since_dtc_clear :: signal_definition where
  "sig_vehicle_warmups_since_dtc_clear = signal_new
     \<lparr>md_semantic = ''vehicle.warmups_since_dtc_clear'', md_profile = ''obd2-v1'',
      md_protocol = ''OBD-II Mode 01'', md_request = [0x01, 0x30],
      md_decoder = ''A'', md_minimum = 0, md_maximum = 255,
      md_description = ''Warm-up cycles since diagnostic trouble codes were cleared.'',
      md_subsystem = ''diagnostics'', md_unit = ''count'',
      md_provenance = ''SAE J1979 Mode 01 PID 30'',
      md_confidence = ''standards-derived/offline-tested'',
      md_hardware_validation = ''rust-hardware-observed''\<rparr>
     (mode01_new 0x30 1)
     (\<lambda>d. rat_u8 d)"

definition sig_vehicle_distance_since_dtc_clear :: signal_definition where
  "sig_vehicle_distance_since_dtc_clear = signal_new
     \<lparr>md_semantic = ''vehicle.distance_since_dtc_clear'', md_profile = ''obd2-v1'',
      md_protocol = ''OBD-II Mode 01'', md_request = [0x01, 0x31],
      md_decoder = ''(A * 256) + B'', md_minimum = 0, md_maximum = 65535,
      md_description = ''Distance traveled since diagnostic trouble codes were cleared.'',
      md_subsystem = ''diagnostics'', md_unit = ''km'',
      md_provenance = ''SAE J1979 Mode 01 PID 31'',
      md_confidence = ''standards-derived/offline-tested'',
      md_hardware_validation = ''rust-hardware-observed''\<rparr>
     (mode01_new 0x31 2)
     (\<lambda>d. rat_u16 d)"

definition sig_vehicle_ambient_air_temperature :: signal_definition where
  "sig_vehicle_ambient_air_temperature = signal_new
     \<lparr>md_semantic = ''vehicle.ambient_air_temperature'', md_profile = ''obd2-v1'',
      md_protocol = ''OBD-II Mode 01'', md_request = [0x01, 0x46],
      md_decoder = ''A - 40'', md_minimum = - 40, md_maximum = 215,
      md_description = ''Ambient air temperature.'',
      md_subsystem = ''environment'', md_unit = [CHR 0xC2] @ [CHR 0xB0] @ ''C'',
      md_provenance = ''SAE J1979 Mode 01 PID 46'',
      md_confidence = ''standards-derived/offline-tested'',
      md_hardware_validation = ''rust-hardware-observed''\<rparr>
     (mode01_new 0x46 1)
     (\<lambda>d. rat_u8 d - 40)"

definition sig_engine_throttle_actuator_commanded :: signal_definition where
  "sig_engine_throttle_actuator_commanded = signal_new
     \<lparr>md_semantic = ''engine.throttle_actuator.commanded'', md_profile = ''obd2-v1'',
      md_protocol = ''OBD-II Mode 01'', md_request = [0x01, 0x4c],
      md_decoder = ''A * 100 / 255'', md_minimum = 0, md_maximum = 100,
      md_description = ''Commanded throttle actuator position.'',
      md_subsystem = ''powertrain'', md_unit = ''%'',
      md_provenance = ''SAE J1979 Mode 01 PID 4C'',
      md_confidence = ''standards-derived/offline-tested'',
      md_hardware_validation = ''rust-hardware-observed''\<rparr>
     (mode01_new 0x4c 1)
     (\<lambda>d. rat_u8 d * 100 / 255)"

definition sig_engine_short_term_fuel_trim_bank1 :: signal_definition where
  "sig_engine_short_term_fuel_trim_bank1 = signal_new
     \<lparr>md_semantic = ''engine.short_term_fuel_trim_bank1'', md_profile = ''obd2-v1'',
      md_protocol = ''OBD-II Mode 01'', md_request = [0x01, 0x06],
      md_decoder = ''(A - 128) * 100 / 128'', md_minimum = - 100, md_maximum = 3175 / 32,
      md_description = ''Short-term fuel trim for bank 1.'',
      md_subsystem = ''powertrain'', md_unit = ''%'',
      md_provenance = ''SAE J1979 Mode 01 PID 06'',
      md_confidence = ''standards-derived/offline-tested'',
      md_hardware_validation = ''rust-hardware-pending''\<rparr>
     (mode01_new_with_optional_byte 0x06)
     (\<lambda>d. (rat_u8 d - 128) * 100 / 128)"

definition sig_engine_long_term_fuel_trim_bank1 :: signal_definition where
  "sig_engine_long_term_fuel_trim_bank1 = signal_new
     \<lparr>md_semantic = ''engine.long_term_fuel_trim_bank1'', md_profile = ''obd2-v1'',
      md_protocol = ''OBD-II Mode 01'', md_request = [0x01, 0x07],
      md_decoder = ''(A - 128) * 100 / 128'', md_minimum = - 100, md_maximum = 3175 / 32,
      md_description = ''Long-term fuel trim for bank 1.'',
      md_subsystem = ''powertrain'', md_unit = ''%'',
      md_provenance = ''SAE J1979 Mode 01 PID 07'',
      md_confidence = ''standards-derived/offline-tested'',
      md_hardware_validation = ''rust-hardware-pending''\<rparr>
     (mode01_new_with_optional_byte 0x07)
     (\<lambda>d. (rat_u8 d - 128) * 100 / 128)"

definition sig_engine_short_term_fuel_trim_bank2 :: signal_definition where
  "sig_engine_short_term_fuel_trim_bank2 = signal_new
     \<lparr>md_semantic = ''engine.short_term_fuel_trim_bank2'', md_profile = ''obd2-v1'',
      md_protocol = ''OBD-II Mode 01'', md_request = [0x01, 0x08],
      md_decoder = ''(A - 128) * 100 / 128'', md_minimum = - 100, md_maximum = 3175 / 32,
      md_description = ''Short-term fuel trim for bank 2.'',
      md_subsystem = ''powertrain'', md_unit = ''%'',
      md_provenance = ''SAE J1979 Mode 01 PID 08'',
      md_confidence = ''standards-derived/offline-tested'',
      md_hardware_validation = ''rust-hardware-pending''\<rparr>
     (mode01_new_with_optional_byte 0x08)
     (\<lambda>d. (rat_u8 d - 128) * 100 / 128)"

definition sig_engine_long_term_fuel_trim_bank2 :: signal_definition where
  "sig_engine_long_term_fuel_trim_bank2 = signal_new
     \<lparr>md_semantic = ''engine.long_term_fuel_trim_bank2'', md_profile = ''obd2-v1'',
      md_protocol = ''OBD-II Mode 01'', md_request = [0x01, 0x09],
      md_decoder = ''(A - 128) * 100 / 128'', md_minimum = - 100, md_maximum = 3175 / 32,
      md_description = ''Long-term fuel trim for bank 2.'',
      md_subsystem = ''powertrain'', md_unit = ''%'',
      md_provenance = ''SAE J1979 Mode 01 PID 09'',
      md_confidence = ''standards-derived/offline-tested'',
      md_hardware_validation = ''rust-hardware-pending''\<rparr>
     (mode01_new_with_optional_byte 0x09)
     (\<lambda>d. (rat_u8 d - 128) * 100 / 128)"

definition sig_engine_fuel_rail_gauge_pressure_low :: signal_definition where
  "sig_engine_fuel_rail_gauge_pressure_low = signal_new
     \<lparr>md_semantic = ''engine.fuel_rail_gauge_pressure_low'', md_profile = ''obd2-v1'',
      md_protocol = ''OBD-II Mode 01'', md_request = [0x01, 0x0a],
      md_decoder = ''A * 3'', md_minimum = 0, md_maximum = 765,
      md_description = ''Fuel rail gauge pressure for lower-pressure fuel systems.'',
      md_subsystem = ''powertrain'', md_unit = ''kPa'',
      md_provenance = ''SAE J1979 Mode 01 PID 0A'',
      md_confidence = ''standards-derived/offline-tested'',
      md_hardware_validation = ''rust-hardware-pending''\<rparr>
     (mode01_new 0x0a 1)
     (\<lambda>d. rat_u8 d * 3)"

definition sig_engine_timing_advance :: signal_definition where
  "sig_engine_timing_advance = signal_new
     \<lparr>md_semantic = ''engine.timing_advance'', md_profile = ''obd2-v1'',
      md_protocol = ''OBD-II Mode 01'', md_request = [0x01, 0x0e],
      md_decoder = ''(A / 2) - 64'', md_minimum = - 64, md_maximum = 127 / 2,
      md_description = ''Ignition timing advance for cylinder 1.'',
      md_subsystem = ''powertrain'', md_unit = [CHR 0xC2] @ [CHR 0xB0],
      md_provenance = ''SAE J1979 Mode 01 PID 0E'',
      md_confidence = ''standards-derived/offline-tested'',
      md_hardware_validation = ''rust-hardware-pending''\<rparr>
     (mode01_new 0x0e 1)
     (\<lambda>d. rat_u8 d / 2 - 64)"

definition sig_engine_fuel_rail_pressure_relative :: signal_definition where
  "sig_engine_fuel_rail_pressure_relative = signal_new
     \<lparr>md_semantic = ''engine.fuel_rail_pressure_relative'', md_profile = ''obd2-v1'',
      md_protocol = ''OBD-II Mode 01'', md_request = [0x01, 0x22],
      md_decoder = ''((A * 256) + B) * 0.079'', md_minimum = 0, md_maximum = 1035453 / 200,
      md_description = ''Fuel rail pressure relative to manifold vacuum.'',
      md_subsystem = ''powertrain'', md_unit = ''kPa'',
      md_provenance = ''SAE J1979 Mode 01 PID 22'',
      md_confidence = ''standards-derived/offline-tested'',
      md_hardware_validation = ''rust-hardware-pending''\<rparr>
     (mode01_new 0x22 2)
     (\<lambda>d. rat_u16 d * (79 / 1000))"

definition sig_engine_evap_purge_commanded :: signal_definition where
  "sig_engine_evap_purge_commanded = signal_new
     \<lparr>md_semantic = ''engine.evap_purge_commanded'', md_profile = ''obd2-v1'',
      md_protocol = ''OBD-II Mode 01'', md_request = [0x01, 0x2e],
      md_decoder = ''A * 100 / 255'', md_minimum = 0, md_maximum = 100,
      md_description = ''Commanded evaporative purge.'',
      md_subsystem = ''powertrain'', md_unit = ''%'',
      md_provenance = ''SAE J1979 Mode 01 PID 2E'',
      md_confidence = ''standards-derived/offline-tested'',
      md_hardware_validation = ''rust-hardware-pending''\<rparr>
     (mode01_new 0x2e 1)
     (\<lambda>d. rat_u8 d * 100 / 255)"

definition sig_vehicle_fuel_tank_level :: signal_definition where
  "sig_vehicle_fuel_tank_level = signal_new
     \<lparr>md_semantic = ''vehicle.fuel_tank_level'', md_profile = ''obd2-v1'',
      md_protocol = ''OBD-II Mode 01'', md_request = [0x01, 0x2f],
      md_decoder = ''A * 100 / 255'', md_minimum = 0, md_maximum = 100,
      md_description = ''Fuel tank level input.'',
      md_subsystem = ''powertrain'', md_unit = ''%'',
      md_provenance = ''SAE J1979 Mode 01 PID 2F'',
      md_confidence = ''standards-derived/offline-tested'',
      md_hardware_validation = ''rust-hardware-pending''\<rparr>
     (mode01_new 0x2f 1)
     (\<lambda>d. rat_u8 d * 100 / 255)"

definition sig_engine_catalyst_temperature_b1s1 :: signal_definition where
  "sig_engine_catalyst_temperature_b1s1 = signal_new
     \<lparr>md_semantic = ''engine.catalyst_temperature_b1s1'', md_profile = ''obd2-v1'',
      md_protocol = ''OBD-II Mode 01'', md_request = [0x01, 0x3c],
      md_decoder = ''((A * 256) + B) / 10 - 40'', md_minimum = - 40, md_maximum = 13027 / 2,
      md_description = ''Catalyst temperature for bank 1, sensor 1.'',
      md_subsystem = ''powertrain'', md_unit = [CHR 0xC2] @ [CHR 0xB0] @ ''C'',
      md_provenance = ''SAE J1979 Mode 01 PID 3C'',
      md_confidence = ''standards-derived/offline-tested'',
      md_hardware_validation = ''rust-hardware-pending''\<rparr>
     (mode01_new 0x3c 2)
     (\<lambda>d. rat_u16 d / 10 - 40)"

definition sig_engine_catalyst_temperature_b2s1 :: signal_definition where
  "sig_engine_catalyst_temperature_b2s1 = signal_new
     \<lparr>md_semantic = ''engine.catalyst_temperature_b2s1'', md_profile = ''obd2-v1'',
      md_protocol = ''OBD-II Mode 01'', md_request = [0x01, 0x3d],
      md_decoder = ''((A * 256) + B) / 10 - 40'', md_minimum = - 40, md_maximum = 13027 / 2,
      md_description = ''Catalyst temperature for bank 2, sensor 1.'',
      md_subsystem = ''powertrain'', md_unit = [CHR 0xC2] @ [CHR 0xB0] @ ''C'',
      md_provenance = ''SAE J1979 Mode 01 PID 3D'',
      md_confidence = ''standards-derived/offline-tested'',
      md_hardware_validation = ''rust-hardware-pending''\<rparr>
     (mode01_new 0x3d 2)
     (\<lambda>d. rat_u16 d / 10 - 40)"

definition sig_engine_catalyst_temperature_b1s2 :: signal_definition where
  "sig_engine_catalyst_temperature_b1s2 = signal_new
     \<lparr>md_semantic = ''engine.catalyst_temperature_b1s2'', md_profile = ''obd2-v1'',
      md_protocol = ''OBD-II Mode 01'', md_request = [0x01, 0x3e],
      md_decoder = ''((A * 256) + B) / 10 - 40'', md_minimum = - 40, md_maximum = 13027 / 2,
      md_description = ''Catalyst temperature for bank 1, sensor 2.'',
      md_subsystem = ''powertrain'', md_unit = [CHR 0xC2] @ [CHR 0xB0] @ ''C'',
      md_provenance = ''SAE J1979 Mode 01 PID 3E'',
      md_confidence = ''standards-derived/offline-tested'',
      md_hardware_validation = ''rust-hardware-pending''\<rparr>
     (mode01_new 0x3e 2)
     (\<lambda>d. rat_u16 d / 10 - 40)"

definition sig_engine_catalyst_temperature_b2s2 :: signal_definition where
  "sig_engine_catalyst_temperature_b2s2 = signal_new
     \<lparr>md_semantic = ''engine.catalyst_temperature_b2s2'', md_profile = ''obd2-v1'',
      md_protocol = ''OBD-II Mode 01'', md_request = [0x01, 0x3f],
      md_decoder = ''((A * 256) + B) / 10 - 40'', md_minimum = - 40, md_maximum = 13027 / 2,
      md_description = ''Catalyst temperature for bank 2, sensor 2.'',
      md_subsystem = ''powertrain'', md_unit = [CHR 0xC2] @ [CHR 0xB0] @ ''C'',
      md_provenance = ''SAE J1979 Mode 01 PID 3F'',
      md_confidence = ''standards-derived/offline-tested'',
      md_hardware_validation = ''rust-hardware-pending''\<rparr>
     (mode01_new 0x3f 2)
     (\<lambda>d. rat_u16 d / 10 - 40)"

definition sig_engine_absolute_load :: signal_definition where
  "sig_engine_absolute_load = signal_new
     \<lparr>md_semantic = ''engine.absolute_load'', md_profile = ''obd2-v1'',
      md_protocol = ''OBD-II Mode 01'', md_request = [0x01, 0x43],
      md_decoder = ''((A * 256) + B) * 100 / 255'', md_minimum = 0, md_maximum = 25700,
      md_description = ''Absolute engine load value.'',
      md_subsystem = ''powertrain'', md_unit = ''%'',
      md_provenance = ''SAE J1979 Mode 01 PID 43'',
      md_confidence = ''standards-derived/offline-tested'',
      md_hardware_validation = ''rust-hardware-pending''\<rparr>
     (mode01_new 0x43 2)
     (\<lambda>d. rat_u16 d * 100 / 255)"

definition sig_engine_commanded_equivalence_ratio :: signal_definition where
  "sig_engine_commanded_equivalence_ratio = signal_new
     \<lparr>md_semantic = ''engine.commanded_equivalence_ratio'', md_profile = ''obd2-v1'',
      md_protocol = ''OBD-II Mode 01'', md_request = [0x01, 0x44],
      md_decoder = ''((A * 256) + B) * 2 / 65535'', md_minimum = 0, md_maximum = 2,
      md_description = ''Commanded fuel-air equivalence ratio (lambda).'',
      md_subsystem = ''powertrain'', md_unit = ''ratio'',
      md_provenance = ''SAE J1979 Mode 01 PID 44'',
      md_confidence = ''standards-derived/offline-tested'',
      md_hardware_validation = ''rust-hardware-pending''\<rparr>
     (mode01_new 0x44 2)
     (\<lambda>d. rat_u16 d * 2 / 65535)"

definition sig_engine_throttle_position_b :: signal_definition where
  "sig_engine_throttle_position_b = signal_new
     \<lparr>md_semantic = ''engine.throttle_position_b'', md_profile = ''obd2-v1'',
      md_protocol = ''OBD-II Mode 01'', md_request = [0x01, 0x47],
      md_decoder = ''A * 100 / 255'', md_minimum = 0, md_maximum = 100,
      md_description = ''Absolute throttle position B.'',
      md_subsystem = ''powertrain'', md_unit = ''%'',
      md_provenance = ''SAE J1979 Mode 01 PID 47'',
      md_confidence = ''standards-derived/offline-tested'',
      md_hardware_validation = ''rust-hardware-pending''\<rparr>
     (mode01_new 0x47 1)
     (\<lambda>d. rat_u8 d * 100 / 255)"

definition sig_engine_throttle_position_c :: signal_definition where
  "sig_engine_throttle_position_c = signal_new
     \<lparr>md_semantic = ''engine.throttle_position_c'', md_profile = ''obd2-v1'',
      md_protocol = ''OBD-II Mode 01'', md_request = [0x01, 0x48],
      md_decoder = ''A * 100 / 255'', md_minimum = 0, md_maximum = 100,
      md_description = ''Absolute throttle position C.'',
      md_subsystem = ''powertrain'', md_unit = ''%'',
      md_provenance = ''SAE J1979 Mode 01 PID 48'',
      md_confidence = ''standards-derived/offline-tested'',
      md_hardware_validation = ''rust-hardware-pending''\<rparr>
     (mode01_new 0x48 1)
     (\<lambda>d. rat_u8 d * 100 / 255)"

definition sig_vehicle_accelerator_pedal_f :: signal_definition where
  "sig_vehicle_accelerator_pedal_f = signal_new
     \<lparr>md_semantic = ''vehicle.accelerator_pedal_f'', md_profile = ''obd2-v1'',
      md_protocol = ''OBD-II Mode 01'', md_request = [0x01, 0x4b],
      md_decoder = ''A * 100 / 255'', md_minimum = 0, md_maximum = 100,
      md_description = ''Accelerator pedal position F.'',
      md_subsystem = ''powertrain'', md_unit = ''%'',
      md_provenance = ''SAE J1979 Mode 01 PID 4B'',
      md_confidence = ''standards-derived/offline-tested'',
      md_hardware_validation = ''rust-hardware-pending''\<rparr>
     (mode01_new 0x4b 1)
     (\<lambda>d. rat_u8 d * 100 / 255)"

definition sig_engine_ethanol_fuel_percentage :: signal_definition where
  "sig_engine_ethanol_fuel_percentage = signal_new
     \<lparr>md_semantic = ''engine.ethanol_fuel_percentage'', md_profile = ''obd2-v1'',
      md_protocol = ''OBD-II Mode 01'', md_request = [0x01, 0x52],
      md_decoder = ''A * 100 / 255'', md_minimum = 0, md_maximum = 100,
      md_description = ''Ethanol fuel percentage.'',
      md_subsystem = ''powertrain'', md_unit = ''%'',
      md_provenance = ''SAE J1979 Mode 01 PID 52'',
      md_confidence = ''standards-derived/offline-tested'',
      md_hardware_validation = ''rust-hardware-pending''\<rparr>
     (mode01_new 0x52 1)
     (\<lambda>d. rat_u8 d * 100 / 255)"

definition sig_engine_fuel_rail_pressure_absolute :: signal_definition where
  "sig_engine_fuel_rail_pressure_absolute = signal_new
     \<lparr>md_semantic = ''engine.fuel_rail_pressure_absolute'', md_profile = ''obd2-v1'',
      md_protocol = ''OBD-II Mode 01'', md_request = [0x01, 0x59],
      md_decoder = ''((A * 256) + B) * 10'', md_minimum = 0, md_maximum = 655350,
      md_description = ''Absolute fuel rail pressure.'',
      md_subsystem = ''powertrain'', md_unit = ''kPa'',
      md_provenance = ''SAE J1979 Mode 01 PID 59'',
      md_confidence = ''standards-derived/offline-tested'',
      md_hardware_validation = ''rust-hardware-pending''\<rparr>
     (mode01_new 0x59 2)
     (\<lambda>d. rat_u16 d * 10)"

definition sig_vehicle_relative_accelerator_pedal_position :: signal_definition where
  "sig_vehicle_relative_accelerator_pedal_position = signal_new
     \<lparr>md_semantic = ''vehicle.relative_accelerator_pedal_position'', md_profile = ''obd2-v1'',
      md_protocol = ''OBD-II Mode 01'', md_request = [0x01, 0x5a],
      md_decoder = ''A * 100 / 255'', md_minimum = 0, md_maximum = 100,
      md_description = ''Relative accelerator pedal position.'',
      md_subsystem = ''powertrain'', md_unit = ''%'',
      md_provenance = ''SAE J1979 Mode 01 PID 5A'',
      md_confidence = ''standards-derived/offline-tested'',
      md_hardware_validation = ''rust-hardware-pending''\<rparr>
     (mode01_new 0x5a 1)
     (\<lambda>d. rat_u8 d * 100 / 255)"

definition sig_engine_oil_temperature :: signal_definition where
  "sig_engine_oil_temperature = signal_new
     \<lparr>md_semantic = ''engine.oil_temperature'', md_profile = ''obd2-v1'',
      md_protocol = ''OBD-II Mode 01'', md_request = [0x01, 0x5c],
      md_decoder = ''A - 40'', md_minimum = - 40, md_maximum = 215,
      md_description = ''Engine oil temperature.'',
      md_subsystem = ''powertrain'', md_unit = [CHR 0xC2] @ [CHR 0xB0] @ ''C'',
      md_provenance = ''SAE J1979 Mode 01 PID 5C'',
      md_confidence = ''standards-derived/offline-tested'',
      md_hardware_validation = ''rust-hardware-pending''\<rparr>
     (mode01_new 0x5c 1)
     (\<lambda>d. rat_u8 d - 40)"

definition sig_engine_fuel_injection_timing :: signal_definition where
  "sig_engine_fuel_injection_timing = signal_new
     \<lparr>md_semantic = ''engine.fuel_injection_timing'', md_profile = ''obd2-v1'',
      md_protocol = ''OBD-II Mode 01'', md_request = [0x01, 0x5d],
      md_decoder = ''((A * 256) + B) / 128 - 210'', md_minimum = - 210, md_maximum = 38655 / 128,
      md_description = ''Fuel injection timing relative to top dead center.'',
      md_subsystem = ''powertrain'', md_unit = [CHR 0xC2] @ [CHR 0xB0],
      md_provenance = ''SAE J1979 Mode 01 PID 5D'',
      md_confidence = ''standards-derived/offline-tested'',
      md_hardware_validation = ''rust-hardware-pending''\<rparr>
     (mode01_new 0x5d 2)
     (\<lambda>d. rat_u16 d / 128 - 210)"

definition sig_engine_fuel_rate :: signal_definition where
  "sig_engine_fuel_rate = signal_new
     \<lparr>md_semantic = ''engine.fuel_rate'', md_profile = ''obd2-v1'',
      md_protocol = ''OBD-II Mode 01'', md_request = [0x01, 0x5e],
      md_decoder = ''((A * 256) + B) / 20'', md_minimum = 0, md_maximum = 13107 / 4,
      md_description = ''Engine fuel rate.'',
      md_subsystem = ''powertrain'', md_unit = ''L/h'',
      md_provenance = ''SAE J1979 Mode 01 PID 5E'',
      md_confidence = ''standards-derived/offline-tested'',
      md_hardware_validation = ''rust-hardware-pending''\<rparr>
     (mode01_new 0x5e 2)
     (\<lambda>d. rat_u16 d / 20)"

definition sig_engine_driver_demand_torque_percent :: signal_definition where
  "sig_engine_driver_demand_torque_percent = signal_new
     \<lparr>md_semantic = ''engine.driver_demand_torque_percent'', md_profile = ''obd2-v1'',
      md_protocol = ''OBD-II Mode 01'', md_request = [0x01, 0x61],
      md_decoder = ''A - 125'', md_minimum = - 125, md_maximum = 130,
      md_description = ''Driver demand engine torque as a percent of reference torque.'',
      md_subsystem = ''powertrain'', md_unit = ''%'',
      md_provenance = ''SAE J1979 Mode 01 PID 61'',
      md_confidence = ''standards-derived/offline-tested'',
      md_hardware_validation = ''rust-hardware-pending''\<rparr>
     (mode01_new 0x61 1)
     (\<lambda>d. rat_u8 d - 125)"

definition sig_engine_actual_torque_percent :: signal_definition where
  "sig_engine_actual_torque_percent = signal_new
     \<lparr>md_semantic = ''engine.actual_torque_percent'', md_profile = ''obd2-v1'',
      md_protocol = ''OBD-II Mode 01'', md_request = [0x01, 0x62],
      md_decoder = ''A - 125'', md_minimum = - 125, md_maximum = 130,
      md_description = ''Actual engine torque as a percent of reference torque.'',
      md_subsystem = ''powertrain'', md_unit = ''%'',
      md_provenance = ''SAE J1979 Mode 01 PID 62'',
      md_confidence = ''standards-derived/offline-tested'',
      md_hardware_validation = ''rust-hardware-pending''\<rparr>
     (mode01_new 0x62 1)
     (\<lambda>d. rat_u8 d - 125)"

definition sig_engine_reference_torque :: signal_definition where
  "sig_engine_reference_torque = signal_new
     \<lparr>md_semantic = ''engine.reference_torque'', md_profile = ''obd2-v1'',
      md_protocol = ''OBD-II Mode 01'', md_request = [0x01, 0x63],
      md_decoder = ''(A * 256) + B'', md_minimum = 0, md_maximum = 65535,
      md_description = ''Engine reference torque.'',
      md_subsystem = ''powertrain'', md_unit = ''N'' @ [CHR 0xC2] @ [CHR 0xB7] @ ''m'',
      md_provenance = ''SAE J1979 Mode 01 PID 63'',
      md_confidence = ''standards-derived/offline-tested'',
      md_hardware_validation = ''rust-hardware-pending''\<rparr>
     (mode01_new 0x63 2)
     (\<lambda>d. rat_u16 d)"

definition sig_vehicle_odometer :: signal_definition where
  "sig_vehicle_odometer = signal_new
     \<lparr>md_semantic = ''vehicle.odometer'', md_profile = ''obd2-v1'',
      md_protocol = ''OBD-II Mode 01'', md_request = [0x01, 0xa6],
      md_decoder = ''((A * 16777216) + (B * 65536) + (C * 256) + D) / 10'', md_minimum = 0, md_maximum = 858993459 / 2,
      md_description = ''Total vehicle distance traveled (odometer).'',
      md_subsystem = ''diagnostics'', md_unit = ''km'',
      md_provenance = ''SAE J1979 Mode 01 PID A6'',
      md_confidence = ''standards-derived/offline-tested'',
      md_hardware_validation = ''rust-hardware-pending''\<rparr>
     (mode01_new 0xa6 4)
     (\<lambda>d. rat_u32 d / 10)"

definition SIGNALS :: "signal_definition list" where
  "SIGNALS =
     [sig_engine_rpm,
      sig_engine_coolant_temperature,
      sig_vehicle_speed,
      sig_engine_maf,
      sig_engine_load,
      sig_engine_intake_manifold_pressure,
      sig_engine_intake_air_temperature,
      sig_engine_egr_commanded,
      sig_engine_egr_error,
      sig_engine_runtime,
      sig_vehicle_accelerator_pedal_d,
      sig_vehicle_accelerator_pedal_e,
      sig_engine_relative_throttle,
      sig_engine_barometric_pressure,
      sig_engine_control_module_voltage,
      sig_engine_throttle_position,
      sig_vehicle_distance_with_mil_on,
      sig_engine_fuel_rail_gauge_pressure,
      sig_vehicle_warmups_since_dtc_clear,
      sig_vehicle_distance_since_dtc_clear,
      sig_vehicle_ambient_air_temperature,
      sig_engine_throttle_actuator_commanded,
      sig_engine_short_term_fuel_trim_bank1,
      sig_engine_long_term_fuel_trim_bank1,
      sig_engine_short_term_fuel_trim_bank2,
      sig_engine_long_term_fuel_trim_bank2,
      sig_engine_fuel_rail_gauge_pressure_low,
      sig_engine_timing_advance,
      sig_engine_fuel_rail_pressure_relative,
      sig_engine_evap_purge_commanded,
      sig_vehicle_fuel_tank_level,
      sig_engine_catalyst_temperature_b1s1,
      sig_engine_catalyst_temperature_b2s1,
      sig_engine_catalyst_temperature_b1s2,
      sig_engine_catalyst_temperature_b2s2,
      sig_engine_absolute_load,
      sig_engine_commanded_equivalence_ratio,
      sig_engine_throttle_position_b,
      sig_engine_throttle_position_c,
      sig_vehicle_accelerator_pedal_f,
      sig_engine_ethanol_fuel_percentage,
      sig_engine_fuel_rail_pressure_absolute,
      sig_vehicle_relative_accelerator_pedal_position,
      sig_engine_oil_temperature,
      sig_engine_fuel_injection_timing,
      sig_engine_fuel_rate,
      sig_engine_driver_demand_torque_percent,
      sig_engine_actual_torque_percent,
      sig_engine_reference_torque,
      sig_vehicle_odometer]"

lemmas sig_defs =
  sig_engine_rpm_def
  sig_engine_coolant_temperature_def
  sig_vehicle_speed_def
  sig_engine_maf_def
  sig_engine_load_def
  sig_engine_intake_manifold_pressure_def
  sig_engine_intake_air_temperature_def
  sig_engine_egr_commanded_def
  sig_engine_egr_error_def
  sig_engine_runtime_def
  sig_vehicle_accelerator_pedal_d_def
  sig_vehicle_accelerator_pedal_e_def
  sig_engine_relative_throttle_def
  sig_engine_barometric_pressure_def
  sig_engine_control_module_voltage_def
  sig_engine_throttle_position_def
  sig_vehicle_distance_with_mil_on_def
  sig_engine_fuel_rail_gauge_pressure_def
  sig_vehicle_warmups_since_dtc_clear_def
  sig_vehicle_distance_since_dtc_clear_def
  sig_vehicle_ambient_air_temperature_def
  sig_engine_throttle_actuator_commanded_def
  sig_engine_short_term_fuel_trim_bank1_def
  sig_engine_long_term_fuel_trim_bank1_def
  sig_engine_short_term_fuel_trim_bank2_def
  sig_engine_long_term_fuel_trim_bank2_def
  sig_engine_fuel_rail_gauge_pressure_low_def
  sig_engine_timing_advance_def
  sig_engine_fuel_rail_pressure_relative_def
  sig_engine_evap_purge_commanded_def
  sig_vehicle_fuel_tank_level_def
  sig_engine_catalyst_temperature_b1s1_def
  sig_engine_catalyst_temperature_b2s1_def
  sig_engine_catalyst_temperature_b1s2_def
  sig_engine_catalyst_temperature_b2s2_def
  sig_engine_absolute_load_def
  sig_engine_commanded_equivalence_ratio_def
  sig_engine_throttle_position_b_def
  sig_engine_throttle_position_c_def
  sig_vehicle_accelerator_pedal_f_def
  sig_engine_ethanol_fuel_percentage_def
  sig_engine_fuel_rail_pressure_absolute_def
  sig_vehicle_relative_accelerator_pedal_position_def
  sig_engine_oil_temperature_def
  sig_engine_fuel_injection_timing_def
  sig_engine_fuel_rate_def
  sig_engine_driver_demand_torque_percent_def
  sig_engine_actual_torque_percent_def
  sig_engine_reference_torque_def
  sig_vehicle_odometer_def

section \<open>Lookup and decoding\<close>

definition signal_semantic :: "signal_definition \<Rightarrow> string" where
  "signal_semantic s = md_semantic (sg_metadata s)"

definition signal_decode :: "signal_definition \<Rightarrow> bytes \<Rightarrow> string + rat" where
  "signal_decode s response =
     and_then (mode01_data (sg_request s) response (signal_semantic s)) (\<lambda>data. Inr (sg_decode s data))"

definition signal :: "string \<Rightarrow> signal_definition option" where
  "signal semantic = find (\<lambda>s. signal_semantic s = semantic) SIGNALS"

text \<open>\<open>pid.saturating_sub(1) & !0x1f\<close>\<close>

definition support_page_of :: "u8 \<Rightarrow> u8" where
  "support_page_of pid = (if pid = 0 then 0 else pid - 1) AND NOT 0x1f"

definition highest_catalog_page :: u8 where
  "highest_catalog_page =
     foldl max 0 (map (\<lambda>s. support_page_of (m01_pid (sg_request s))) SIGNALS)"

text \<open>\<open>src/read.rs\<close>: a read request is a catalog entry; two requests are equal when their
  semantic names are.\<close>

type_synonym read_request = signal_definition

definition read_request_eq :: "read_request \<Rightarrow> read_request \<Rightarrow> bool" where
  "read_request_eq a b \<longleftrightarrow> signal_semantic a = signal_semantic b"

definition rr_pid :: "read_request \<Rightarrow> u8" where
  "rr_pid r = m01_pid (sg_request r)"

definition rr_bytes :: "read_request \<Rightarrow> bytes" where
  "rr_bytes r = mode01_bytes (sg_request r)"

definition rr_data_len :: "read_request \<Rightarrow> nat" where
  "rr_data_len r = m01_data_len (sg_request r)"

definition rr_operation :: "read_request \<Rightarrow> read_operation" where
  "rr_operation r = Mode01 (sg_request r)"

definition rr_value :: "read_request \<Rightarrow> bytes \<Rightarrow> string + rat" where
  "rr_value r response =
     and_then (map_err read_response_error_text
                 (validate_response (rr_operation r) response (signal_semantic r)))
       (\<lambda>_. signal_decode r response)"

record transaction =
  tx_timestamp_ms :: nat
  tx_source :: string
  tx_profile :: string
  tx_semantic :: string
  tx_request :: bytes
  tx_response :: bytes
  tx_value :: rat
  tx_unit :: string

text \<open>\<open>complete\<close> reads the system clock; the reading is the argument \<open>now\<close>, an \<open>Inl\<close> when
  the clock is before the epoch.\<close>

definition rr_complete ::
  "read_request \<Rightarrow> string + nat \<Rightarrow> string \<Rightarrow> bytes \<Rightarrow> string + transaction" where
  "rr_complete r now source response =
     and_then (rr_value r response) (\<lambda>value.
     and_then now (\<lambda>ms.
       Inr \<lparr>tx_timestamp_ms = ms, tx_source = source,
            tx_profile = md_profile (sg_metadata r), tx_semantic = signal_semantic r,
            tx_request = rr_bytes r, tx_response = response, tx_value = value,
            tx_unit = md_unit (sg_metadata r)\<rparr>))"

definition prepare_read :: "string \<Rightarrow> string + read_request" where
  "prepare_read semantic =
     ok_or (''read-only core rejected unsupported signal: '' @ semantic) (signal semantic)"

section \<open>Facts about the catalog\<close>

lemma signal_new_simps [simp]:
  "sg_metadata (signal_new m r d) = m" "sg_request (signal_new m r d) = r"
  "sg_decode (signal_new m r d) = d"
  by (simp_all add: signal_new_def)

lemma rat_u8_bounds: "0 \<le> rat_u8 d" "rat_u8 d \<le> 255"
proof -
  have "be_nat [d ! 0] \<le> 255" using be_nat_less [of "[d ! 0]"] by simp
  then have "(of_nat (be_nat [d ! 0]) :: rat) \<le> of_nat 255" by (simp only: of_nat_le_iff)
  then show "0 \<le> rat_u8 d" "rat_u8 d \<le> 255" by (simp_all add: rat_u8_def)
qed

lemma rat_u16_bounds: "0 \<le> rat_u16 d" "rat_u16 d \<le> 65535"
proof -
  have "be_nat [d ! 0, d ! 1] \<le> 65535" using be_nat_less [of "[d ! 0, d ! 1]"] by simp
  then have "(of_nat (be_nat [d ! 0, d ! 1]) :: rat) \<le> of_nat 65535" by (simp only: of_nat_le_iff)
  then show "0 \<le> rat_u16 d" "rat_u16 d \<le> 65535" by (simp_all add: rat_u16_def)
qed

lemma rat_u32_bounds: "0 \<le> rat_u32 d" "rat_u32 d \<le> 4294967295"
proof -
  have "be_nat [d ! 0, d ! 1, d ! 2, d ! 3] \<le> 4294967295"
    using be_nat_less [of "[d ! 0, d ! 1, d ! 2, d ! 3]"] by simp
  then have "(of_nat (be_nat [d ! 0, d ! 1, d ! 2, d ! 3]) :: rat) \<le> of_nat 4294967295"
    by (simp only: of_nat_le_iff)
  then show "0 \<le> rat_u32 d" "rat_u32 d \<le> 4294967295" by (simp_all add: rat_u32_def)
qed

definition within_bounds :: "signal_definition \<Rightarrow> bytes \<Rightarrow> bool" where
  "within_bounds s d \<longleftrightarrow>
     md_minimum (sg_metadata s) \<le> sg_decode s d \<and> sg_decode s d \<le> md_maximum (sg_metadata s)"

lemma catalog_within_bounds: "list_all (\<lambda>s. within_bounds s d) SIGNALS"
  using rat_u8_bounds [of d] rat_u16_bounds [of d] rat_u32_bounds [of d]
  by (simp add: SIGNALS_def within_bounds_def sig_defs)

definition reads_only_data :: "signal_definition \<Rightarrow> bytes \<Rightarrow> bytes \<Rightarrow> bool" where
  "reads_only_data s d e \<longleftrightarrow>
     (length d = m01_data_len (sg_request s) \<longrightarrow> sg_decode s (d @ e) = sg_decode s d)"

lemma catalog_reads_only_data: "list_all (\<lambda>s. reads_only_data s d e) SIGNALS"
  by (simp add: SIGNALS_def reads_only_data_def sig_defs mode01_new_def
      mode01_new_with_optional_byte_def rat_u8_def rat_u16_def rat_u32_def nth_append)

lemma catalog_pids:
  "map (\<lambda>s. m01_pid (sg_request s)) SIGNALS =
     [0x0c, 0x05, 0x0d, 0x10, 0x04, 0x0b, 0x0f, 0x2c, 0x2d, 0x1f, 0x49, 0x4a, 0x45, 0x33, 0x42, 0x11,
      0x21, 0x23, 0x30, 0x31, 0x46, 0x4c, 0x06, 0x07, 0x08, 0x09, 0x0a, 0x0e, 0x22, 0x2e, 0x2f, 0x3c,
      0x3d, 0x3e, 0x3f, 0x43, 0x44, 0x47, 0x48, 0x4b, 0x52, 0x59, 0x5a, 0x5c, 0x5d, 0x5e, 0x61, 0x62,
      0x63, 0xa6]"
  by (simp add: SIGNALS_def sig_defs mode01_new_def mode01_new_with_optional_byte_def)

lemma catalog_semantics_distinct: "distinct (map signal_semantic SIGNALS)"
  by (simp add: SIGNALS_def signal_semantic_def sig_defs)

lemma catalog_requests:
  "list_all (\<lambda>s. md_request (sg_metadata s) = mode01_bytes (sg_request s)) SIGNALS"
  by (simp add: SIGNALS_def sig_defs mode01_new_def mode01_new_with_optional_byte_def
      mode01_bytes_def)

lemma prepare_read_Inr:
  "prepare_read semantic = Inr r \<longleftrightarrow> r \<in> set SIGNALS \<and> signal_semantic r = semantic"
proof
  assume "prepare_read semantic = Inr r"
  then show "r \<in> set SIGNALS \<and> signal_semantic r = semantic"
    by (auto simp: prepare_read_def signal_def find_Some_iff in_set_conv_nth)
next
  assume r: "r \<in> set SIGNALS \<and> signal_semantic r = semantic"
  then obtain i where i: "i < length SIGNALS" "SIGNALS ! i = r" by (auto simp: in_set_conv_nth)
  have "signal_semantic (SIGNALS ! j) \<noteq> semantic" if "j < i" for j
    using catalog_semantics_distinct that i r
    by (auto simp: distinct_conv_nth)
  with i r have "signal semantic = Some r"
    by (auto simp: signal_def find_Some_iff intro!: exI [of _ i])
  then show "prepare_read semantic = Inr r" by (simp add: prepare_read_def)
qed

lemma rr_value_Inr:
  "rr_value r response = Inr v \<longleftrightarrow>
     (\<exists>data. mode01_data (sg_request r) response (signal_semantic r) = Inr data
        \<and> v = sg_decode r data)"
  by (auto simp: rr_value_def rr_operation_def signal_decode_def)

section \<open>Properties\<close>

text \<open>The semantic vocabulary is closed and unambiguous: preparing a read succeeds exactly
  for the catalog's names and yields the one signal with that name; the catalog repeats neither a
  name nor a PID, every signal's documented request is the request it sends, and that request is a
  two-byte Mode 01 read.\<close>

lemma catalog_closed:
  "(prepare_read semantic = Inr r \<longleftrightarrow> r \<in> set SIGNALS \<and> signal_semantic r = semantic)
   \<and> distinct (map signal_semantic SIGNALS)
   \<and> distinct (map (\<lambda>s. m01_pid (sg_request s)) SIGNALS)
   \<and> list_all (\<lambda>s. md_request (sg_metadata s) = mode01_bytes (sg_request s)) SIGNALS
   \<and> rr_bytes r = [0x01, rr_pid r]"
proof -
  have "distinct (map (\<lambda>s. m01_pid (sg_request s)) SIGNALS)"
    unfolding catalog_pids by simp
  then show ?thesis
    using prepare_read_Inr catalog_semantics_distinct catalog_requests
    by (simp add: rr_bytes_def rr_pid_def mode01_bytes_def)
qed

text \<open>C22: every value a completed catalog read can report lies between the minimum and
  maximum its metadata documents, for every response the request accepts.\<close>

theorem read_value_in_range:
  assumes "prepare_read semantic = Inr r" and "rr_value r response = Inr v"
  shows "md_minimum (sg_metadata r) \<le> v \<and> v \<le> md_maximum (sg_metadata r)"
proof -
  from assms(1) have "r \<in> set SIGNALS" by (simp add: prepare_read_Inr)
  then have "within_bounds r d" for d
    using catalog_within_bounds [of d] by (simp add: list_all_iff)
  with assms(2) show ?thesis by (auto simp: rr_value_Inr within_bounds_def)
qed

theorem read_value_in_range_witness:
  "prepare_read ''engine.rpm'' = Inr sig_engine_rpm
   \<and> rr_value sig_engine_rpm [0x41, 0x0c, 0x1a, 0xf8] = Inr 1726
   \<and> (1726 :: rat) \<le> md_maximum (sg_metadata sig_engine_rpm)"
proof -
  have p: "prepare_read ''engine.rpm'' = Inr sig_engine_rpm"
    unfolding prepare_read_Inr
    by (simp add: SIGNALS_def) (simp add: signal_semantic_def sig_engine_rpm_def)
  have v: "rr_value sig_engine_rpm [0x41, 0x0c, 0x1a, 0xf8] = Inr 1726"
    unfolding rr_value_Inr
    by (simp add: mode01_data_def sig_engine_rpm_def mode01_new_def rat_u16_def be_nat_def)
  show ?thesis using read_value_in_range [OF p v] p v by blast
qed

text \<open>The decoders stay inside the validated data: a decoder reads only the declared number
  of data bytes, so the optional trailing byte never changes a value, and validating a response
  twice (once by the operation, once by the decoder) cannot fail the second time.\<close>

lemma decoders_stay_in_data:
  assumes "s \<in> set SIGNALS"
  shows "(length d = m01_data_len (sg_request s) \<longrightarrow> sg_decode s (d @ e) = sg_decode s d)
    \<and> (validate_response (rr_operation s) response (signal_semantic s) = Inr data
         \<longrightarrow> signal_decode s response = Inr (sg_decode s data))"
proof -
  have "reads_only_data s d e"
    using catalog_reads_only_data [of d e] assms by (simp add: list_all_iff)
  then show ?thesis by (auto simp: reads_only_data_def rr_operation_def signal_decode_def)
qed

lemma decoders_stay_in_data_witness:
  "sg_decode sig_engine_short_term_fuel_trim_bank1 ([0x80] @ [0xff]) = 0"
proof -
  let ?s = "sig_engine_short_term_fuel_trim_bank1"
  have s: "?s \<in> set SIGNALS" by (simp add: SIGNALS_def)
  have "length [0x80 :: u8] = m01_data_len (sg_request ?s)"
    by (simp add: sig_engine_short_term_fuel_trim_bank1_def mode01_new_with_optional_byte_def)
  moreover have "sg_decode ?s [0x80] = 0"
    by (simp add: sig_engine_short_term_fuel_trim_bank1_def rat_u8_def be_nat_def)
  ultimately show ?thesis using decoders_stay_in_data [OF s, of "[0x80]" "[0xff]"] by simp
qed

text \<open>The support discovery covers the catalog: the support page of every catalog PID is at
  most the highest page the discovery asks for, which is page \<open>A0\<close>.\<close>

lemma highest_page_covers_catalog:
  assumes "s \<in> set SIGNALS"
  shows "support_page_of (rr_pid s) \<le> highest_catalog_page \<and> highest_catalog_page = 0xa0"
proof -
  have pages: "map (\<lambda>s. support_page_of (m01_pid (sg_request s))) SIGNALS
      = map support_page_of (map (\<lambda>s. m01_pid (sg_request s)) SIGNALS)" by simp
  have "highest_catalog_page = 0xa0"
    unfolding highest_catalog_page_def pages catalog_pids
    by (simp add: support_page_of_def max_def)
  moreover have "list_all (\<lambda>p. support_page_of p \<le> 0xa0) (map (\<lambda>s. m01_pid (sg_request s)) SIGNALS)"
    unfolding catalog_pids by (simp add: support_page_of_def)
  ultimately show ?thesis using assms by (simp add: list_all_iff rr_pid_def)
qed

lemma highest_page_covers_catalog_witness:
  "support_page_of (rr_pid sig_vehicle_odometer) \<le> highest_catalog_page"
  using highest_page_covers_catalog [of sig_vehicle_odometer] by (simp add: SIGNALS_def)

end
