(* ===== verification/Dtc.thy ===== *)
theory Dtc
  imports Text "HOL-Library.List_Lexorder" "HOL-Library.Product_Lexorder" "HOL-Library.Char_ord"
    "HOL-Library.Multiset"
begin

text \<open>
  Decoding of Mode 03 trouble-code responses, \<open>src/dtc.rs\<close>.  The derived orders of the
  Rust types are instances of \<open>linorder\<close>, so that \<open>sort_unstable\<close> (equal elements are
  identical) is the library's \<open>sort\<close>.
\<close>

section \<open>Codes\<close>

datatype dtc_system = Powertrain | Chassis | Body | Network

fun system_prefix :: "dtc_system \<Rightarrow> char" where
  "system_prefix Powertrain = CHR ''P''"
| "system_prefix Chassis = CHR ''C''"
| "system_prefix Body = CHR ''B''"
| "system_prefix Network = CHR ''U''"

datatype dtc_code = DtcCode (dtc_system: dtc_system) (dtc_number: u16)

definition dtc_code_text :: "dtc_code \<Rightarrow> string" where
  "dtc_code_text c = system_prefix (dtc_system c) # fmt_04X (dtc_number c)"

fun system_rank :: "dtc_system \<Rightarrow> nat" where
  "system_rank Powertrain = 0"
| "system_rank Chassis = 1"
| "system_rank Body = 2"
| "system_rank Network = 3"

definition code_key :: "dtc_code \<Rightarrow> nat \<times> u16" where
  "code_key c = (system_rank (dtc_system c), dtc_number c)"

lemma system_rank_inject [simp]: "system_rank a = system_rank b \<longleftrightarrow> a = b"
  by (cases a; cases b) simp_all

lemma code_key_inject [simp]: "code_key a = code_key b \<longleftrightarrow> a = b"
  by (cases a; cases b) (simp add: code_key_def)

instantiation dtc_code :: linorder
begin

definition less_eq_dtc_code :: "dtc_code \<Rightarrow> dtc_code \<Rightarrow> bool" where
  "less_eq_dtc_code a b \<longleftrightarrow> code_key a \<le> code_key b"

definition less_dtc_code :: "dtc_code \<Rightarrow> dtc_code \<Rightarrow> bool" where
  "less_dtc_code a b \<longleftrightarrow> code_key a < code_key b"

instance
  by intro_classes
    (auto simp: less_eq_dtc_code_def less_dtc_code_def simp del: code_key_inject
      simp flip: code_key_inject)

end

section \<open>Responders, responses, observations\<close>

datatype responder_identity_error = Empty_Identity | ControlCharacter

text \<open>\<open>ResponderIdentity::new\<close>: trimmed, not empty, no control character.\<close>

definition is_control :: "char \<Rightarrow> bool" where
  "is_control c \<longleftrightarrow> code_point c < 32 \<or> code_point c = 127"

definition responder_new :: "string \<Rightarrow> responder_identity_error + string" where
  "responder_new value =
     (let v = trim value
      in if v = [] then Inl Empty_Identity
         else if \<exists>c \<in> set v. is_control c then Inl ControlCharacter
         else Inr v)"

datatype dtc_source = Unknown_Source | Responder string

record response_evidence =
  ev_responder :: "string option"
  ev_payload :: bytes

datatype dtc_decode_error = MalformedResponse | UnknownResponse

datatype dtc_response = NoDtcs | Stored "dtc_code list" | Decode_Error dtc_decode_error

fun response_dtcs :: "dtc_response \<Rightarrow> dtc_code list" where
  "response_dtcs (Stored ds) = ds"
| "response_dtcs _ = []"

datatype dtc_observation = DtcObservation (obs_source: dtc_source) (obs_response: dtc_response)

fun source_key :: "dtc_source \<Rightarrow> nat \<times> string" where
  "source_key Unknown_Source = (0, [])"
| "source_key (Responder r) = (1, r)"

fun response_key :: "dtc_response \<Rightarrow> nat \<times> dtc_code list" where
  "response_key NoDtcs = (0, [])"
| "response_key (Stored ds) = (1, ds)"
| "response_key (Decode_Error MalformedResponse) = (2, [])"
| "response_key (Decode_Error UnknownResponse) = (3, [])"

definition observation_key :: "dtc_observation \<Rightarrow> (nat \<times> string) \<times> (nat \<times> dtc_code list)" where
  "observation_key o' = (source_key (obs_source o'), response_key (obs_response o'))"

lemma source_key_inject [simp]: "source_key a = source_key b \<longleftrightarrow> a = b"
  by (cases a; cases b) simp_all

lemma response_key_inject [simp]: "response_key a = response_key b \<longleftrightarrow> a = b"
  by (cases a rule: response_key.cases; cases b rule: response_key.cases) simp_all

lemma observation_key_inject [simp]: "observation_key a = observation_key b \<longleftrightarrow> a = b"
  by (cases a; cases b) (simp add: observation_key_def)

instantiation dtc_observation :: linorder
begin

definition less_eq_dtc_observation :: "dtc_observation \<Rightarrow> dtc_observation \<Rightarrow> bool" where
  "less_eq_dtc_observation a b \<longleftrightarrow> observation_key a \<le> observation_key b"

definition less_dtc_observation :: "dtc_observation \<Rightarrow> dtc_observation \<Rightarrow> bool" where
  "less_dtc_observation a b \<longleftrightarrow> observation_key a < observation_key b"

instance
  by intro_classes
    (auto simp: less_eq_dtc_observation_def less_dtc_observation_def
      simp del: observation_key_inject simp flip: observation_key_inject)

end

section \<open>Decoding\<close>

definition MODE03_POSITIVE_RESPONSE :: u8 where
  "MODE03_POSITIVE_RESPONSE = 0x43"

definition system_of :: "u8 \<Rightarrow> dtc_system" where
  "system_of b =
     (let n = unat (drop_bit 6 b)
      in if n = 0 then Powertrain else if n = 1 then Chassis else if n = 2 then Body else Network)"

definition code_of_pair :: "u8 \<Rightarrow> u8 \<Rightarrow> dtc_code" where
  "code_of_pair a b = DtcCode (system_of a) (word_of_nat (be_nat [a AND 0x3f, b]))"

text \<open>The loop over the byte pairs; a zero pair ends it, and only zeros may follow.\<close>

fun decode_pairs :: "bytes \<Rightarrow> dtc_code list \<Rightarrow> dtc_decode_error + dtc_code list" where
  "decode_pairs (a # b # rest) dtcs =
     (if a = 0 \<and> b = 0 then
        (if \<exists>byte \<in> set rest. byte \<noteq> 0 then Inl MalformedResponse else Inr dtcs)
      else decode_pairs rest (dtcs @ [code_of_pair a b]))"
| "decode_pairs _ dtcs = Inr dtcs"

definition decode_mode03_payload :: "bytes \<Rightarrow> dtc_decode_error + dtc_response" where
  "decode_mode03_payload payload =
     (case payload of
        [] \<Rightarrow> Inl MalformedResponse
      | first # rest \<Rightarrow>
          if first \<noteq> MODE03_POSITIVE_RESPONSE then Inl UnknownResponse
          else if rest = [0x00] then Inr NoDtcs
          else if rest = [] \<or> odd (length rest) then Inl MalformedResponse
          else and_then (decode_pairs rest []) (\<lambda>dtcs.
                 if dtcs = [] then Inr NoDtcs else Inr (Stored (remdups_adj (sort dtcs)))))"

definition observe :: "response_evidence \<Rightarrow> dtc_observation" where
  "observe ev = DtcObservation
     (case ev_responder ev of None \<Rightarrow> Unknown_Source | Some r \<Rightarrow> Responder r)
     (case decode_mode03_payload (ev_payload ev) of Inl e \<Rightarrow> Decode_Error e | Inr r \<Rightarrow> r)"

definition decode_mode03 :: "response_evidence list \<Rightarrow> dtc_observation list" where
  "decode_mode03 evidence = sort (map observe evidence)"

section \<open>The inverse\<close>

text \<open>The two bytes a code is sent as (SAE J1979): system in the two high bits.\<close>

definition encode_dtc :: "dtc_code \<Rightarrow> bytes" where
  "encode_dtc c =
     [word_of_nat (64 * system_rank (dtc_system c) + unat (dtc_number c) div 256),
      word_of_nat (unat (dtc_number c) mod 256)]"

definition standard_code :: "dtc_code \<Rightarrow> bool" where
  "standard_code c \<longleftrightarrow> unat (dtc_number c) < 16384"

lemma unat_and_3f: "unat (a AND 0x3f :: u8) = unat a mod 64"
proof -
  have "(0x3f :: u8) = mask 6" by (simp add: mask_eq_exp_minus_1)
  then have "a AND 0x3f = take_bit 6 a" by (simp add: take_bit_eq_mask)
  then show ?thesis by (simp add: take_bit_eq_mod unat_mod)
qed

lemma unat_drop_6: "unat (drop_bit 6 (a :: u8)) = unat a div 64"
  by (simp add: drop_bit_eq_div unat_div)

lemma code_of_pair_number:
  "unat (dtc_number (code_of_pair a b)) = 256 * (unat a mod 64) + unat b"
proof -
  have "be_nat [a AND 0x3f, b] = 256 * (unat a mod 64) + unat b"
    by (simp add: be_nat_Cons unat_and_3f)
  moreover have "be_nat [a AND 0x3f, b] < 65536" using be_nat_less [of "[a AND 0x3f, b]"] by simp
  ultimately show ?thesis unfolding code_of_pair_def by (simp only: dtc_code.sel unat_u16_of_nat)
qed

lemma code_of_pair_standard: "standard_code (code_of_pair a b)"
  using unat_u8_less [of b] mod_less_divisor [of 64 "unat a"]
  unfolding standard_code_def code_of_pair_number by linarith

text \<open>Decoding what a standard code is sent as gives the code back.\<close>

lemma system_rank_less: "system_rank s < 4"
  by (cases s) simp_all

lemma system_of_rank: "unat (drop_bit 6 b) = system_rank s \<Longrightarrow> system_of b = s"
  by (cases s) (simp_all add: system_of_def)

lemma decode_encoded_pair:
  assumes "standard_code c"
  shows "\<exists>a b. encode_dtc c = [a, b] \<and> code_of_pair a b = c \<and> (a = 0 \<and> b = 0 \<longleftrightarrow> c = DtcCode Powertrain 0)"
proof -
  let ?n = "unat (dtc_number c)" and ?r = "system_rank (dtc_system c)"
  define a b where "a = (word_of_nat (64 * ?r + ?n div 256) :: u8)"
    and "b = (word_of_nat (?n mod 256) :: u8)"
  have hi: "?n div 256 < 64" using assms by (simp add: standard_code_def less_mult_imp_div_less)
  then have "64 * ?r + ?n div 256 < 256" using system_rank_less [of "dtc_system c"] by linarith
  then have a: "unat a = 64 * ?r + ?n div 256" unfolding a_def by (rule unat_u8_of_nat)
  have b: "unat b = ?n mod 256" unfolding b_def by (rule unat_u8_of_nat) simp
  have "system_of a = dtc_system c"
    by (rule system_of_rank) (use a hi in \<open>simp add: unat_drop_6\<close>)
  moreover have "unat (dtc_number (code_of_pair a b)) = ?n"
    using hi by (simp add: code_of_pair_number a b)
  ultimately have c: "code_of_pair a b = c"
    by (cases c) (auto simp: code_of_pair_def word_unat_eq_iff)
  have "a = 0 \<and> b = 0 \<longleftrightarrow> unat a = 0 \<and> unat b = 0" by (simp add: unat_eq_zero)
  also have "\<dots> \<longleftrightarrow> ?r = 0 \<and> ?n = 0" using a b by (auto simp: div_eq_0_iff)
  also have "\<dots> \<longleftrightarrow> c = DtcCode Powertrain 0"
    by (cases c; cases "dtc_system c") (auto simp: unat_eq_zero)
  finally have "a = 0 \<and> b = 0 \<longleftrightarrow> c = DtcCode Powertrain 0" .
  with c show ?thesis by (simp add: encode_dtc_def a_def b_def)
qed

lemma decode_pairs_encoded:
  assumes "\<forall>c \<in> set cs. standard_code c \<and> c \<noteq> DtcCode Powertrain 0"
  shows "decode_pairs (concat (map encode_dtc cs) @ replicate (2 * k) 0) acc = Inr (acc @ cs)"
  using assms
proof (induction cs arbitrary: acc)
  case Nil
  have "replicate (2 * Suc j) (0 :: u8) = 0 # 0 # replicate (2 * j) 0" for j
    by (simp add: replicate_Suc)
  then show ?case by (cases k) (simp_all del: mult_Suc_right)
next
  case (Cons c cs)
  then have c: "standard_code c" "c \<noteq> DtcCode Powertrain 0" by simp_all
  obtain a b where ab: "encode_dtc c = [a, b]" "code_of_pair a b = c" "\<not> (a = 0 \<and> b = 0)"
    using decode_encoded_pair [OF c(1)] c(2) by blast
  have "decode_pairs (a # b # concat (map encode_dtc cs) @ replicate (2 * k) 0) acc =
      decode_pairs (concat (map encode_dtc cs) @ replicate (2 * k) 0) (acc @ [c])"
    using ab(3) by (simp only: decode_pairs.simps ab(2) if_False)
  also have "\<dots> = Inr ((acc @ [c]) @ cs)" using Cons.IH [of "acc @ [c]"] Cons.prems by simp
  finally show ?case by (simp add: ab(1))
qed

lemma decode_pairs_standard:
  assumes "decode_pairs bs acc = Inr cs" and "\<forall>c \<in> set acc. standard_code c"
  shows "\<forall>c \<in> set cs. standard_code c"
  using assms by (induction bs acc rule: decode_pairs.induct)
    (auto split: if_splits simp: code_of_pair_standard)

lemma length_encoded: "length (concat (map encode_dtc cs)) = 2 * length cs"
  by (induction cs) (simp_all add: encode_dtc_def)

lemma sorted_remdups_adj_distinct: "sorted xs \<Longrightarrow> distinct (remdups_adj xs)"
  by (induction xs rule: remdups_adj.induct) auto

lemma remdups_adj_sort: "remdups_adj (sort xs) = sorted_list_of_set (set xs)"
  by (intro sorted_distinct_set_unique)
    (simp_all add: sorted_remdups_adj sorted_remdups_adj_distinct)

lemma decode_mode03_payload_empty: "decode_mode03_payload [] = Inl MalformedResponse"
  by (simp add: decode_mode03_payload_def)

lemma decode_mode03_payload_Stored:
  assumes "decode_mode03_payload p = Inr (Stored ds)"
  shows "\<exists>cs. cs \<noteq> [] \<and> decode_pairs (tl p) [] = Inr cs \<and> ds = sorted_list_of_set (set cs)"
  using assms unfolding decode_mode03_payload_def
  by (auto split: list.splits if_splits simp: remdups_adj_sort)

section \<open>Properties\<close>

text \<open>C21: decoding inverts the wire format: the payload made of any standard codes (none of them
  the padding marker \<open>P0000\<close>), followed by any even number of zero bytes (and not empty), decodes
  to exactly that set of codes, sorted and without repetition, and to \<open>NoDtcs\<close> when there is none.\<close>

theorem dtc_roundtrip:
  assumes "\<forall>c \<in> set cs. standard_code c \<and> c \<noteq> DtcCode Powertrain 0" and "cs \<noteq> [] \<or> 0 < k"
  shows "decode_mode03_payload
      (MODE03_POSITIVE_RESPONSE # concat (map encode_dtc cs) @ replicate (2 * k) 0)
    = Inr (if cs = [] then NoDtcs else Stored (sorted_list_of_set (set cs)))"
proof -
  let ?rest = "concat (map encode_dtc cs) @ replicate (2 * k) 0"
  have len: "length ?rest = 2 * (length cs + k)" by (simp add: length_encoded)
  then have "?rest \<noteq> [0]" by (metis length_Cons list.size(3) odd_one even_mult_iff even_numeral One_nat_def)
  moreover have "?rest \<noteq> []" using len assms(2) by (metis add_is_0 length_0_conv mult_is_0
        not_gr_zero zero_neq_numeral)
  moreover have "even (length ?rest)" by (simp only: len) simp
  ultimately show ?thesis
    using decode_pairs_encoded [OF assms(1), of k "[]"]
    by (simp add: decode_mode03_payload_def remdups_adj_sort)
qed

theorem dtc_roundtrip_witness:
  "decode_mode03_payload [0x43, 0xC1, 0x23, 0x01, 0x43, 0x00, 0x00]
     = Inr (Stored [DtcCode Powertrain 0x143, DtcCode Network 0x123])"
proof -
  have "encode_dtc (DtcCode Network 0x123) = [0xC1, 0x23]"
    "encode_dtc (DtcCode Powertrain 0x143) = [0x01, 0x43]"
    by (simp_all add: encode_dtc_def)
  moreover have "DtcCode Powertrain 0x143 \<le> DtcCode Network 0x123"
    by (simp add: less_eq_dtc_code_def code_key_def)
  moreover have "replicate (2 * 1) (0 :: u8) = [0, 0]" by (simp add: numeral_2_eq_2)
  ultimately show ?thesis
    using dtc_roundtrip [of "[DtcCode Network 0x123, DtcCode Powertrain 0x143]" 1]
    by (simp add: standard_code_def MODE03_POSITIVE_RESPONSE_def
        sorted_list_of_set_insert_remove insort_remove1)
qed

text \<open>Whatever bytes the responders sent, the decoder yields exactly one observation for each
  piece of evidence, in the derived order; and every stored code it reports is a standard code
  of its system, in a strictly ascending, non-empty list.\<close>

lemma dtc_observations_wf:
  "sorted (decode_mode03 evidence) \<and>
   mset (decode_mode03 evidence) = image_mset observe (mset evidence) \<and>
   (\<forall>o' s ds. o' \<in> set (decode_mode03 evidence) \<longrightarrow> o' = DtcObservation s (Stored ds) \<longrightarrow>
      ds \<noteq> [] \<and> sorted_wrt (<) ds \<and> (\<forall>c \<in> set ds. standard_code c))"
proof -
  have "ds \<noteq> [] \<and> sorted_wrt (<) ds \<and> (\<forall>c \<in> set ds. standard_code c)"
    if "DtcObservation s (Stored ds) = observe ev" for s ds ev
  proof -
    have "decode_mode03_payload (ev_payload ev) = Inr (Stored ds)"
      using that unfolding observe_def by (auto split: sum.splits)
    then obtain cs where cs: "cs \<noteq> []" "decode_pairs (tl (ev_payload ev)) [] = Inr cs"
        "ds = sorted_list_of_set (set cs)"
      using decode_mode03_payload_Stored by blast
    then show ?thesis using decode_pairs_standard [OF cs(2)]
      by (auto simp: sorted_list_of_set_eq_Nil_iff)
  qed
  then show ?thesis by (fastforce simp: decode_mode03_def)
qed

lemma dtc_observations_wf_witness:
  "DtcObservation (Responder ''7E8'') (Stored [DtcCode Powertrain 0x143]) \<in>
     set (decode_mode03 [\<lparr>ev_responder = Some ''7E8'', ev_payload = [0x43, 0x01, 0x43]\<rparr>])
   \<and> standard_code (DtcCode Powertrain 0x143)"
proof -
  let ?e = "[\<lparr>ev_responder = Some ''7E8'', ev_payload = [0x43, 0x01, 0x43]\<rparr>]"
  let ?o = "DtcObservation (Responder ''7E8'') (Stored [DtcCode Powertrain 0x143])"
  have "code_of_pair 1 0x43 = DtcCode Powertrain 0x143"
    by (simp add: code_of_pair_def system_of_def be_nat_Cons)
  then have "?o \<in> set (decode_mode03 ?e)"
    by (simp add: decode_mode03_def observe_def decode_mode03_payload_def MODE03_POSITIVE_RESPONSE_def)
  then show ?thesis using dtc_observations_wf [of ?e] by fastforce
qed

end
