(* ===== verification/Ordered_Map.thy ===== *)
theory Ordered_Map
  imports Prelude "HOL-Library.List_Lexorder" "HOL-Library.Char_ord" "HOL-Library.Multiset"
    "HOL-Library.Code_Target_Nat"
begin

text \<open>
  The ordered collections of the standard library as the code uses them: a \<open>BTreeMap\<close> is its
  association list in ascending order of keys, a \<open>BTreeSet\<close> its ascending list of elements.
  The interface \<open>ordered_map\<close> states the laws the components rely on; the interpretation proves
  them for the lists.
\<close>

section \<open>Interface\<close>

text \<open>A map with ascending keys that is determined by what it holds.\<close>

locale ordered_map =
  fixes wf :: "'m \<Rightarrow> bool"
    and look :: "'m \<Rightarrow> 'k :: linorder \<Rightarrow> 'v option"
    and upsert :: "'k \<Rightarrow> ('v option \<Rightarrow> 'v) \<Rightarrow> 'm \<Rightarrow> 'm"
    and empty :: 'm
    and entries :: "'m \<Rightarrow> ('k \<times> 'v) list"
  assumes wf_empty: "wf empty"
    and look_empty: "look empty k = None"
    and wf_upsert: "wf m \<Longrightarrow> wf (upsert k f m)"
    and look_upsert: "wf m \<Longrightarrow> look (upsert k f m) = (look m)(k \<mapsto> f (look m k))"
    and keys_ascend: "wf m \<Longrightarrow> sorted_wrt (<) (map fst (entries m))"
    and look_entries: "wf m \<Longrightarrow> look m = map_of (entries m)"
begin

lemma distinct_keys: "wf m \<Longrightarrow> distinct (map fst (entries m))"
  using keys_ascend strict_sorted_iff by blast

lemma entries_look: "wf m \<Longrightarrow> (k, v) \<in> set (entries m) \<longleftrightarrow> look m k = Some v"
  using distinct_keys look_entries by (simp add: map_of_eq_Some_iff)

text \<open>Two maps that hold the same list the same entries.\<close>

lemma entries_determined:
  assumes "wf m" and "wf m'" and "look m = look m'"
  shows "entries m = entries m'"
proof -
  have "set (entries m) = set (entries m')"
    using assms entries_look by (metis (no_types, lifting) subrelI subset_antisym)
  moreover have "inj_on fst (set (entries m) \<union> set (entries m'))"
    using calculation distinct_keys [OF assms(1)] by (simp add: distinct_map)
  ultimately show ?thesis
    using keys_ascend assms(1,2) strict_sorted_iff by (metis map_sorted_distinct_set_unique)
qed

text \<open>A run of upserts touches each key by the entries for it, in order.\<close>

lemma fold_upserts:
  assumes "wf m"
  shows "wf (foldl (\<lambda>m x. upsert (key x) (g x) m) m xs)"
    and "look (foldl (\<lambda>m x. upsert (key x) (g x) m) m xs) k =
      foldl (\<lambda>v x. Some (g x v)) (look m k) (filter (\<lambda>x. key x = k) xs)"
  using assms
proof (induction xs arbitrary: m)
  case (Cons x xs)
  { case 1 then show ?case using Cons(1) wf_upsert by simp }
  { case 2 then show ?case using Cons(2) [OF wf_upsert] look_upsert by simp }
qed simp_all

end

section \<open>Ascending association lists\<close>

fun bt_upsert :: "'k :: linorder \<Rightarrow> ('v option \<Rightarrow> 'v) \<Rightarrow> ('k \<times> 'v) list \<Rightarrow> ('k \<times> 'v) list" where
  "bt_upsert k f [] = [(k, f None)]"
| "bt_upsert k f ((k', v) # m) =
     (if k < k' then (k, f None) # (k', v) # m
      else if k = k' then (k, f (Some v)) # m
      else (k', v) # bt_upsert k f m)"

definition bt_wf :: "('k :: linorder \<times> 'v) list \<Rightarrow> bool" where
  "bt_wf m \<longleftrightarrow> sorted_wrt (<) (map fst m)"

definition bt_insert :: "'k :: linorder \<Rightarrow> 'v \<Rightarrow> ('k \<times> 'v) list \<Rightarrow> ('k \<times> 'v) list" where
  "bt_insert k v = bt_upsert k (\<lambda>_. v)"

lemma fst_bt_upsert: "fst ` set (bt_upsert k f m) = insert k (fst ` set m)"
  by (induction k f m rule: bt_upsert.induct) auto

lemma bt_wf_Cons: "bt_wf (p # m) \<longleftrightarrow> (\<forall>k \<in> fst ` set m. fst p < k) \<and> bt_wf m"
  by (simp add: bt_wf_def)

lemma bt_wf_upsert: "bt_wf m \<Longrightarrow> bt_wf (bt_upsert k f m)"
proof (induction k f m rule: bt_upsert.induct)
  case (2 k f k' v m)
  then have m: "\<forall>j \<in> fst ` set m. k' < j" "bt_wf m" by (simp_all add: bt_wf_Cons)
  consider "k < k'" | "k = k'" | "k' < k" by (rule linorder_cases)
  then show ?case
  proof cases
    case 1
    then have "\<forall>j \<in> fst ` set m. k < j" using m(1) less_trans by blast
    then show ?thesis using 1 m by (simp add: bt_wf_Cons)
  next
    case 2
    then show ?thesis using m by (simp add: bt_wf_Cons)
  next
    case 3
    then have "bt_wf (bt_upsert k f m)" using "2.IH" m(2) by simp
    moreover have "\<not> k < k'" "k \<noteq> k'" using 3 by auto
    ultimately show ?thesis using 3 m(1) by (simp add: bt_wf_Cons fst_bt_upsert)
  qed
qed (simp add: bt_wf_def)

lemma bt_absent: "\<forall>k' \<in> fst ` set m. (k :: 'k :: linorder) < k' \<Longrightarrow> map_of m k = None"
  unfolding map_of_eq_None_iff by (metis less_irrefl)

lemma bt_look_upsert: "bt_wf m \<Longrightarrow> map_of (bt_upsert k f m) = (map_of m)(k \<mapsto> f (map_of m k))"
proof (induction k f m rule: bt_upsert.induct)
  case (2 k f k' v m)
  then have m: "\<forall>j \<in> fst ` set m. k' < j" "bt_wf m" by (simp_all add: bt_wf_Cons)
  have "map_of m k = None" if "k < k'"
  proof (rule bt_absent)
    show "\<forall>j \<in> fst ` set m. k < j" using m(1) that less_trans by blast
  qed
  then show ?case using "2.IH" m(2) by (auto simp: fun_upd_twist)
qed simp

interpretation bt: ordered_map bt_wf map_of bt_upsert "[]" "\<lambda>m. m"
proof
  show "bt_wf []" by (simp add: bt_wf_def)
qed (simp_all add: bt_wf_upsert bt_look_upsert, simp add: bt_wf_def)

lemma bt_wf_insert: "bt_wf m \<Longrightarrow> bt_wf (bt_insert k v m)"
  by (simp add: bt_insert_def bt_wf_upsert)

lemma bt_look_insert [simp]: "bt_wf m \<Longrightarrow> map_of (bt_insert k v m) = (map_of m)(k \<mapsto> v)"
  by (simp add: bt_insert_def bt_look_upsert)

section \<open>Ascending sets\<close>

definition bs_insert :: "'a :: linorder \<Rightarrow> 'a list \<Rightarrow> 'a list" where
  "bs_insert x xs = (if x \<in> set xs then xs else insort x xs)"

definition bs_wf :: "'a :: linorder list \<Rightarrow> bool" where
  "bs_wf xs \<longleftrightarrow> sorted_wrt (<) xs"

lemma bs_insert_set [simp]: "set (bs_insert x xs) = insert x (set xs)"
  by (auto simp: bs_insert_def set_insort_key)

lemma bs_wf_insert: "bs_wf xs \<Longrightarrow> bs_wf (bs_insert x xs)"
  by (auto simp: bs_wf_def bs_insert_def strict_sorted_iff sorted_insort distinct_insort)

lemma bs_unique: "bs_wf xs \<Longrightarrow> bs_wf ys \<Longrightarrow> set xs = set ys \<Longrightarrow> xs = ys"
  by (simp add: bs_wf_def strict_sorted_equal)

definition bs_of :: "'a :: linorder list \<Rightarrow> 'a list" where
  "bs_of xs = foldl (\<lambda>s x. bs_insert x s) [] xs"

lemma bs_of [simp]: "set (bs_of xs) = set xs" "bs_wf (bs_of xs)"
proof -
  have "bs_wf s \<Longrightarrow> bs_wf (foldl (\<lambda>s x. bs_insert x s) s xs) \<and>
      set (foldl (\<lambda>s x. bs_insert x s) s xs) = set s \<union> set xs" for s
    by (induction xs arbitrary: s) (auto simp: bs_wf_insert)
  from this [of "[]"] show "set (bs_of xs) = set xs" "bs_wf (bs_of xs)"
    by (simp_all add: bs_of_def bs_wf_def)
qed

end
