(* ===== verification/Subscription_Policy.thy ===== *)
theory Subscription_Policy
  imports Complex_Main Ordered_Map Text
begin

text \<open>
  Polling plans, \<open>src/capability.rs\<close> and \<open>src/subscription_policy.rs\<close>: the session's request
  budget, the requests of several consumers, and the deterministic plan that merges them and
  stretches their intervals until the budget holds.  A \<open>Duration\<close> is its nanoseconds; the
  saturating \<open>u128\<close> arithmetic of the rates is written out.  The floating-point rate of a plan,
  which the code only reports, is the exact rational here.
\<close>

type_synonym duration = nat

section \<open>Capability\<close>

datatype capability_provenance = BuiltInDefault | MeasuredFromCapture

record hardware_capability =
  hc_budget :: u32
  hc_latency :: duration
  hc_provenance :: capability_provenance

datatype capability_error = RequestBudgetMustBePositive | ReadLatencyMustBePositive

definition conservative_default :: hardware_capability where
  "conservative_default =
     \<lparr>hc_budget = 4, hc_latency = 250 * 1000000, hc_provenance = BuiltInDefault\<rparr>"

definition capability_new ::
  "u32 \<Rightarrow> duration \<Rightarrow> capability_provenance \<Rightarrow> capability_error + hardware_capability" where
  "capability_new budget latency provenance =
     (if budget = 0 then Inl RequestBudgetMustBePositive
      else if latency = 0 then Inl ReadLatencyMustBePositive
      else Inr \<lparr>hc_budget = budget, hc_latency = latency, hc_provenance = provenance\<rparr>)"

section \<open>Requests and plans\<close>

record observation_request =
  or_source :: string
  or_semantic :: string
  or_interval :: duration

datatype policy_error =
  SourceMustNotBeEmpty | SemanticMustNotBeEmpty | DesiredIntervalMustBePositive

definition observation_request_new ::
  "string \<Rightarrow> string \<Rightarrow> duration \<Rightarrow> policy_error + observation_request" where
  "observation_request_new source semantic interval =
     (if trim source = [] then Inl SourceMustNotBeEmpty
      else if trim semantic = [] then Inl SemanticMustNotBeEmpty
      else if interval = 0 then Inl DesiredIntervalMustBePositive
      else Inr \<lparr>or_source = source, or_semantic = semantic, or_interval = interval\<rparr>)"

datatype plan_status = Accepted | RateReduced | Unsupported

datatype plan_reason = WithinBudget | SessionRequestBudget | SignalUnsupported

record plan_entry =
  pe_semantic :: string
  pe_sources :: "string list"
  pe_requested :: duration
  pe_effective :: "duration option"
  pe_status :: plan_status
  pe_reason :: plan_reason

type_synonym polling_plan = "plan_entry list"

section \<open>Rates\<close>

definition RATE_PRECISION :: nat where
  "RATE_PRECISION = 1000000"

definition sat_u128 :: "nat \<Rightarrow> nat" where
  "sat_u128 n = min n (2 ^ 128 - 1)"

definition div_ceil :: "nat \<Rightarrow> nat \<Rightarrow> nat" where
  "div_ceil a b = (a + b - 1) div b"

type_synonym demand = "string \<times> string list \<times> duration"

definition interval_of :: "demand \<Rightarrow> duration" where
  "interval_of d = snd (snd d)"

text \<open>Millionths of a request per second, rounded up per entry.\<close>

definition requested_rate_units :: "demand list \<Rightarrow> nat" where
  "requested_rate_units entries =
     foldl (\<lambda>total d. sat_u128 (total + div_ceil (sat_u128 (1000000000 * RATE_PRECISION)) (interval_of d)))
       0 entries"

definition budget_units :: "u32 \<Rightarrow> nat" where
  "budget_units budget = sat_u128 (unat budget * RATE_PRECISION)"

definition requested_rate_exceeds_budget :: "demand list \<Rightarrow> u32 \<Rightarrow> bool" where
  "requested_rate_exceeds_budget entries budget \<longleftrightarrow> budget_units budget < requested_rate_units entries"

definition request_scale_factor :: "demand list \<Rightarrow> u32 \<Rightarrow> nat" where
  "request_scale_factor entries budget = div_ceil (requested_rate_units entries) (budget_units budget)"

text \<open>The interval is cut to the nanoseconds of a \<open>u64\<close>.\<close>

definition scale_interval :: "duration \<Rightarrow> nat \<Rightarrow> duration" where
  "scale_interval interval factor = min (sat_u128 (interval * factor)) (2 ^ 64 - 1)"

section \<open>The plan\<close>

definition merge_request ::
  "(string \<times> string list \<times> duration) list \<Rightarrow> observation_request \<Rightarrow>
     (string \<times> string list \<times> duration) list" where
  "merge_request merged r =
     bt_upsert (or_semantic r)
       (\<lambda>old. case old of
          None \<Rightarrow> (bs_insert (or_source r) [], or_interval r)
        | Some (sources, interval) \<Rightarrow> (bs_insert (or_source r) sources, min interval (or_interval r)))
       merged"

definition unsupported_entry :: "demand \<Rightarrow> plan_entry" where
  "unsupported_entry d =
     \<lparr>pe_semantic = fst d, pe_sources = fst (snd d), pe_requested = interval_of d,
      pe_effective = None, pe_status = Unsupported, pe_reason = SignalUnsupported\<rparr>"

definition supported_entry :: "nat option \<Rightarrow> demand \<Rightarrow> plan_entry" where
  "supported_entry scale d =
     (let requested = interval_of d;
          effective = (case scale of Some factor \<Rightarrow> scale_interval requested factor | None \<Rightarrow> requested);
          reduced = requested < effective
      in \<lparr>pe_semantic = fst d, pe_sources = fst (snd d), pe_requested = requested,
          pe_effective = Some effective,
          pe_status = (if reduced then RateReduced else Accepted),
          pe_reason = (if reduced then SessionRequestBudget else WithinBudget)\<rparr>)"

definition policy_plan ::
  "hardware_capability \<Rightarrow> observation_request list \<Rightarrow> string list \<Rightarrow> polling_plan" where
  "policy_plan capability requests supported =
     (let merged = foldl merge_request [] requests;
          supported_entries = filter (\<lambda>d. fst d \<in> set supported) merged;
          others = filter (\<lambda>d. fst d \<notin> set supported) merged;
          scale = (if requested_rate_exceeds_budget supported_entries (hc_budget capability)
                   then Some (request_scale_factor supported_entries (hc_budget capability)) else None)
      in sort_key pe_semantic
           (map unsupported_entry others @ map (supported_entry scale) supported_entries))"

definition is_scheduled :: "plan_entry \<Rightarrow> bool" where
  "is_scheduled e \<longleftrightarrow> pe_status e \<noteq> Unsupported"

definition scheduled_entries :: "polling_plan \<Rightarrow> plan_entry list" where
  "scheduled_entries plan = filter is_scheduled plan"

text \<open>Requests per second, exactly.\<close>

definition effective_request_rate_per_second :: "polling_plan \<Rightarrow> rat" where
  "effective_request_rate_per_second plan =
     sum_list (map (\<lambda>i. 1000000000 / of_nat i) (List.map_filter pe_effective (scheduled_entries plan)))"

section \<open>Updating a plan\<close>

fun collect_updates ::
  "(string \<times> duration) list \<Rightarrow> (string \<times> duration) list \<Rightarrow> string + (string \<times> duration) list" where
  "collect_updates [] updates = Inr updates"
| "collect_updates ((semantic, interval) # rest) updates =
     (if interval = 0 then Inl ''effective polling interval must be greater than zero''
      else if map_of updates semantic \<noteq> None
      then Inl (''duplicate effective polling interval for '' @ semantic)
      else collect_updates rest (bt_insert semantic interval updates))"

definition update_entry :: "(string \<times> duration) list \<Rightarrow> plan_entry \<Rightarrow> plan_entry" where
  "update_entry updates e =
     (case map_of updates (pe_semantic e) of
        None \<Rightarrow> e
      | Some effective \<Rightarrow>
          if pe_status e = Unsupported then e
          else let reduced = pe_requested e < effective
               in e\<lparr>pe_effective := Some effective,
                    pe_status := (if reduced then RateReduced else Accepted),
                    pe_reason := (if reduced then SessionRequestBudget else WithinBudget)\<rparr>)"

text \<open>The error is the first found; the plan changes only after the checks.\<close>

definition update_effective_intervals ::
  "polling_plan \<Rightarrow> (string \<times> duration) list \<Rightarrow> (string + unit) \<times> polling_plan" where
  "update_effective_intervals plan intervals =
     (case collect_updates intervals [] of
        Inl e \<Rightarrow> (Inl e, plan)
      | Inr updates \<Rightarrow>
          (case find (\<lambda>e. pe_status e \<noteq> Unsupported \<and> map_of updates (pe_semantic e) = None) plan of
             Some e \<Rightarrow> (Inl (''missing effective polling interval for '' @ pe_semantic e), plan)
           | None \<Rightarrow>
               (case find (\<lambda>s. \<not> list_ex (\<lambda>e. pe_semantic e = s) plan) (map fst updates) of
                  Some s \<Rightarrow> (Inl (''unknown effective polling semantic '' @ s), plan)
                | None \<Rightarrow> (Inr (), map (update_entry updates) plan))))"

section \<open>The merged demand\<close>

text \<open>What the merge holds of a semantic: all its sources and its strictest interval.\<close>

definition demand_of :: "observation_request list \<Rightarrow> string \<Rightarrow> (string list \<times> duration) option" where
  "demand_of requests semantic =
     (let own = filter (\<lambda>r. or_semantic r = semantic) requests
      in if own = [] then None
         else Some (bs_of (map or_source own), Min (or_interval ` set own)))"

lemma merge_one_semantic:
  assumes "\<forall>r \<in> set rs. or_semantic r = k"
  shows "foldl (\<lambda>v r. Some (case v of
      None \<Rightarrow> (bs_insert (or_source r) [], or_interval r)
    | Some (sources, interval) \<Rightarrow> (bs_insert (or_source r) sources, min interval (or_interval r))))
      (Some (s, i)) rs
    = Some (foldl (\<lambda>s x. bs_insert x s) s (map or_source rs), Min (insert i (or_interval ` set rs)))"
proof (induction rs arbitrary: s i)
  case (Cons r rs)
  have "Min (insert (min i (or_interval r)) (or_interval ` set rs)) =
      Min (insert i (or_interval ` set (r # rs)))"
    by (cases "set rs = {}") (simp_all add: min.assoc min.left_commute)
  then show ?case using Cons by simp
qed simp

lemma merged_demand:
  "bt_wf (foldl merge_request [] rs)"
  "map_of (foldl merge_request [] rs) = demand_of rs"
proof -
  let ?g = "\<lambda>r v. case v of
      None \<Rightarrow> (bs_insert (or_source r) [], or_interval r)
    | Some (sources, interval) \<Rightarrow> (bs_insert (or_source r) sources, min interval (or_interval r))"
  have fold: "foldl merge_request [] rs = foldl (\<lambda>m r. bt_upsert (or_semantic r) (?g r) m) [] rs"
    by (simp add: merge_request_def [abs_def])
  show "bt_wf (foldl merge_request [] rs)"
    unfolding fold by (rule bt.fold_upserts(1) [OF bt.wf_empty])
  have "foldl (\<lambda>v r. Some (?g r v)) None own =
      (if own = [] then None else Some (bs_of (map or_source own), Min (or_interval ` set own)))"
    if "\<forall>r \<in> set own. or_semantic r = k" for own k
  proof (cases own)
    case (Cons r rs')
    then have "\<forall>r \<in> set rs'. or_semantic r = k" using that by simp
    from merge_one_semantic [OF this] Cons show ?thesis by (simp add: bs_of_def)
  qed simp
  note own = this
  show "map_of (foldl merge_request [] rs) = demand_of rs"
  proof
    fix k
    have "map_of (foldl merge_request [] rs) k =
        foldl (\<lambda>v r. Some (?g r v)) None (filter (\<lambda>r. or_semantic r = k) rs)"
      unfolding fold by (subst bt.fold_upserts(2) [OF bt.wf_empty]) simp
    also have "\<dots> = demand_of rs k"
      unfolding demand_of_def Let_def by (rule own [of _ k]) simp
    finally show "map_of (foldl merge_request [] rs) k = demand_of rs k" .
  qed
qed

lemma demand_of_set: "set rs = set rs' \<Longrightarrow> demand_of rs = demand_of rs'"
proof
  fix k assume rs: "set rs = set rs'"
  let ?own = "filter (\<lambda>r. or_semantic r = k)"
  have own: "set (?own rs) = set (?own rs')" using rs by simp
  have "bs_of (map or_source (?own rs)) = bs_of (map or_source (?own rs'))"
    by (rule bs_unique) (use own in simp_all)
  moreover have "?own rs = [] \<longleftrightarrow> ?own rs' = []" using own by (metis set_empty)
  ultimately show "demand_of rs k = demand_of rs' k"
    using own by (simp add: demand_of_def Let_def del: set_filter)
qed

lemma merged_determined: "set rs = set rs' \<Longrightarrow> foldl merge_request [] rs = foldl merge_request [] rs'"
  using bt.entries_determined merged_demand demand_of_set by metis

lemma merged_interval_positive:
  assumes "\<forall>r \<in> set rs. 0 < or_interval r" and "d \<in> set (foldl merge_request [] rs)"
  shows "0 < interval_of d"
proof -
  obtain k s i where d: "d = (k, s, i)" by (cases d)
  have "map_of (foldl merge_request [] rs) k = Some (s, i)"
    using assms(2) d bt.entries_look merged_demand(1) by metis
  then have "demand_of rs k = Some (s, i)" by (simp add: merged_demand)
  then have own: "{r \<in> set rs. or_semantic r = k} \<noteq> {}" "i = Min (or_interval ` {r \<in> set rs. or_semantic r = k})"
    by (auto simp: demand_of_def Let_def filter_empty_conv split: if_splits)
  then have "i \<in> or_interval ` {r \<in> set rs. or_semantic r = k}"
    unfolding own(2) by (intro Min_in) auto
  then have "i \<in> or_interval ` set rs" by blast
  then show ?thesis using assms(1) d by (auto simp: interval_of_def)
qed

lemma length_merged: "length (foldl merge_request m rs) \<le> length m + length rs"
proof (induction rs arbitrary: m)
  case (Cons r rs)
  have "length (bt_upsert k f m) \<le> Suc (length m)" for k f and m :: "(string \<times> string list \<times> duration) list"
    by (induction k f m rule: bt_upsert.induct) auto
  then have "length (merge_request m r) \<le> Suc (length m)" by (simp add: merge_request_def)
  then show ?case using Cons [of "merge_request m r"] by simp
qed simp

section \<open>Rates and the budget\<close>

lemma div_ceil_upper: "0 < b \<Longrightarrow> a \<le> div_ceil a b * b"
proof -
  assume b: "0 < b"
  have "div_ceil a b * b = (a + b - 1) - (a + b - 1) mod b"
    unfolding div_ceil_def by (metis minus_mod_eq_div_mult)
  moreover have "(a + b - 1) mod b \<le> b - 1"
    using b mod_less_divisor [of b "a + b - 1"] by linarith
  ultimately show ?thesis using b by linarith
qed

lemma div_ceil_le: "0 < b \<Longrightarrow> 0 < a \<Longrightarrow> div_ceil a b \<le> a"
proof -
  assume b: "0 < b" and a: "0 < a"
  have "a + b - 1 < Suc a * b"
  proof (cases b)
    case (Suc c)
    then show ?thesis using a by (cases a) simp_all
  qed (use b in simp)
  then have "(a + b - 1) div b < Suc a" using b by (simp add: less_mult_imp_div_less)
  then show ?thesis by (simp add: div_ceil_def)
qed

text \<open>The rate of an interval in requests per second, and its rounded units.\<close>

definition rate_of :: "duration \<Rightarrow> rat" where
  "rate_of i = 1000000000 / of_nat i"

definition interval_units :: "duration \<Rightarrow> nat" where
  "interval_units i = div_ceil (1000000000 * RATE_PRECISION) i"

lemma rate_units: "0 < i \<Longrightarrow> rate_of i \<le> of_nat (interval_units i) / of_nat RATE_PRECISION"
proof -
  assume i: "0 < i"
  have "(of_nat (1000000000 * RATE_PRECISION) :: rat) \<le> of_nat (interval_units i * i)"
    unfolding of_nat_le_iff interval_units_def by (rule div_ceil_upper [OF i])
  then have "1000000000 * of_nat RATE_PRECISION \<le> (of_nat (interval_units i) * of_nat i :: rat)"
    by simp
  then show ?thesis using i by (simp add: rate_of_def field_simps RATE_PRECISION_def)
qed

lemma requested_units_sum:
  assumes "\<forall>d \<in> set es. 0 < interval_of d" and "length es < 2 ^ 64"
  shows "requested_rate_units es = sum_list (map (\<lambda>d. interval_units (interval_of d)) es)"
proof -
  let ?p = "10 ^ 15 :: nat"
  have P: "sat_u128 (1000000000 * RATE_PRECISION) = 1000000000 * RATE_PRECISION"
    "1000000000 * RATE_PRECISION = ?p"
    by (simp_all add: sat_u128_def RATE_PRECISION_def)
  have "foldl (\<lambda>t d. sat_u128 (t + div_ceil (1000000000 * RATE_PRECISION) (interval_of d))) t es =
      t + sum_list (map (\<lambda>d. interval_units (interval_of d)) es)"
    if "\<forall>d \<in> set es. 0 < interval_of d" "t + length es * ?p < 2 ^ 128" for t and es :: "demand list"
    using that
  proof (induction es arbitrary: t)
    case (Cons d es)
    have u: "interval_units (interval_of d) \<le> ?p"
      unfolding interval_units_def P(2) using Cons.prems(1) by (intro div_ceil_le) simp_all
    then have b: "t + interval_units (interval_of d) + length es * ?p < 2 ^ 128"
      using Cons.prems(2) by simp
    then have "sat_u128 (t + interval_units (interval_of d)) = t + interval_units (interval_of d)"
      unfolding sat_u128_def by simp
    then show ?case
      using Cons.IH [of "t + interval_units (interval_of d)"] Cons.prems(1) b
      by (simp add: interval_units_def)
  qed simp
  moreover have "0 + length es * ?p < 2 ^ 128"
  proof -
    have "length es * ?p \<le> 2 ^ 64 * ?p" using assms(2) by (intro mult_right_mono) simp_all
    also have "\<dots> < 2 ^ 128" by simp
    finally show ?thesis by simp
  qed
  ultimately show ?thesis unfolding requested_rate_units_def P(1) using assms(1) by simp
qed

lemma rate_sum_units:
  assumes "\<forall>d \<in> set es. 0 < interval_of d" and "length es < 2 ^ 64"
  shows "sum_list (map (\<lambda>d. rate_of (interval_of d)) es) \<le>
    of_nat (requested_rate_units es) / of_nat RATE_PRECISION"
proof -
  have "sum_list (map (\<lambda>d. rate_of (interval_of d)) es) \<le>
      sum_list (map (\<lambda>d. of_nat (interval_units (interval_of d)) / of_nat RATE_PRECISION) es)"
    by (rule sum_list_mono) (use assms(1) rate_units in simp)
  also have "\<dots> = of_nat (sum_list (map (\<lambda>d. interval_units (interval_of d)) es)) / of_nat RATE_PRECISION"
    by (induction es) (simp_all add: add_divide_distrib)
  finally show ?thesis using requested_units_sum [OF assms] by simp
qed

lemma budget_units: "budget_units b = unat b * RATE_PRECISION"
proof -
  have "unat b * RATE_PRECISION \<le> 2 ^ 32 * RATE_PRECISION"
    by (intro mult_right_mono less_imp_le) (use unat_u32_less [of b] in \<open>simp_all add: RATE_PRECISION_def\<close>)
  then show ?thesis by (simp add: budget_units_def sat_u128_def RATE_PRECISION_def)
qed

text \<open>Scaled by the factor, the demand fits the budget.\<close>

lemma scaled_within_budget:
  assumes pos: "\<forall>d \<in> set es. 0 < interval_of d" and len: "length es < 2 ^ 64" and b: "b \<noteq> 0"
    and over: "requested_rate_exceeds_budget es b" and f: "f = request_scale_factor es b"
  shows "sum_list (map (\<lambda>d. rate_of (interval_of d * f)) es) \<le> of_nat (unat b)"
proof -
  have b': "0 < budget_units b" using b by (simp add: budget_units RATE_PRECISION_def unat_gt_0)
  have U: "requested_rate_units es \<le> f * budget_units b"
    unfolding f request_scale_factor_def by (rule div_ceil_upper [OF b'])
  moreover have "0 < requested_rate_units es" using over by (simp add: requested_rate_exceeds_budget_def)
  ultimately have f0: "0 < f" by (metis gr0I less_le_trans mult_is_0 not_less0)
  have "sum_list (map (\<lambda>d. rate_of (interval_of d * f)) es) =
      sum_list (map (\<lambda>d. rate_of (interval_of d)) es) / of_nat f"
    by (induction es) (simp_all add: rate_of_def add_divide_distrib)
  also have "\<dots> \<le> of_nat (requested_rate_units es) / of_nat RATE_PRECISION / of_nat f"
    using rate_sum_units [OF pos len] f0 by (intro divide_right_mono) simp_all
  also have "\<dots> \<le> of_nat (f * budget_units b) / of_nat RATE_PRECISION / of_nat f"
    using of_nat_mono [OF U] by (intro divide_right_mono) simp_all
  also have "\<dots> = of_nat (unat b)" using f0 by (simp add: budget_units RATE_PRECISION_def)
  finally show ?thesis .
qed

lemma unscaled_within_budget:
  assumes "\<forall>d \<in> set es. 0 < interval_of d" and "length es < 2 ^ 64"
    and "\<not> requested_rate_exceeds_budget es b"
  shows "sum_list (map (\<lambda>d. rate_of (interval_of d)) es) \<le> of_nat (unat b)"
proof -
  have "requested_rate_units es \<le> unat b * RATE_PRECISION"
    using assms(3) by (simp add: requested_rate_exceeds_budget_def budget_units)
  then have "(of_nat (requested_rate_units es) :: rat) / of_nat RATE_PRECISION \<le>
      of_nat (unat b * RATE_PRECISION) / of_nat RATE_PRECISION"
    by (intro divide_right_mono of_nat_mono) simp_all
  also have "\<dots> = of_nat (unat b)" by (simp add: RATE_PRECISION_def)
  finally show ?thesis using rate_sum_units [OF assms(1,2)] by simp
qed

lemma sum_list_map_filter:
  "sum_list (map g (List.map_filter f xs)) = sum_list (map (\<lambda>x. case f x of None \<Rightarrow> 0 | Some y \<Rightarrow> g y) xs)"
  for g :: "'b \<Rightarrow> 'c :: comm_monoid_add"
  by (induction xs) (simp_all add: List.map_filter_simps split: option.split)

lemma sum_list_sort_key: "sum_list (map h (sort_key k xs)) = sum_list (map h xs)"
  for h :: "'b \<Rightarrow> 'c :: comm_monoid_add"
proof -
  have "mset (map h (sort_key k xs)) = mset (map h xs)" by simp
  then show ?thesis by (metis sum_mset_sum_list)
qed

lemma mset_partition:
  "mset (map f (filter (\<lambda>x. \<not> P x) xs)) + mset (map f (filter P xs)) = mset (map f xs)"
  by (induction xs) simp_all

text \<open>The rate of a plan is the rate of its supported entries.\<close>

lemma plan_rate:
  "effective_request_rate_per_second (sort_key k (map unsupported_entry os @ map (supported_entry scale) es)) =
     sum_list (map (\<lambda>d. rate_of (the (pe_effective (supported_entry scale d)))) es)"
proof -
  let ?h = "\<lambda>e. if is_scheduled e then (case pe_effective e of None \<Rightarrow> 0 | Some i \<Rightarrow> rate_of i) else 0"
  have "effective_request_rate_per_second plan = sum_list (map ?h plan)" for plan
    unfolding effective_request_rate_per_second_def scheduled_entries_def sum_list_map_filter
    by (induction plan) (simp_all add: rate_of_def split: option.split)
  then have "effective_request_rate_per_second (sort_key k (map unsupported_entry os @ map (supported_entry scale) es)) =
      sum_list (map ?h (map unsupported_entry os @ map (supported_entry scale) es))"
    by (simp only: sum_list_sort_key)
  also have "\<dots> = sum_list (map (\<lambda>d. rate_of (the (pe_effective (supported_entry scale d)))) es)"
  proof -
    have "sum_list (map (?h \<circ> unsupported_entry) os) = 0"
      by (induction os) (simp_all add: unsupported_entry_def is_scheduled_def)
    moreover have "?h \<circ> supported_entry scale = (\<lambda>d. rate_of (the (pe_effective (supported_entry scale d))))"
      by (rule ext) (simp add: supported_entry_def is_scheduled_def Let_def)
    ultimately show ?thesis by (simp only: map_append map_map sum_list_append add_0)
  qed
  finally show ?thesis .
qed

section \<open>Properties\<close>

lemma scale_factor_positive:
  assumes "requested_rate_exceeds_budget es budget" and "budget \<noteq> 0"
  shows "1 \<le> request_scale_factor es budget"
proof -
  have "0 < unat budget" using assms(2) by (simp add: unat_gt_0)
  then have "0 < budget_units budget" by (simp add: budget_units_def sat_u128_def RATE_PRECISION_def)
  moreover have "budget_units budget < requested_rate_units es"
    using assms(1) by (simp add: requested_rate_exceeds_budget_def)
  ultimately show ?thesis
    unfolding request_scale_factor_def div_ceil_def by (simp add: Suc_le_eq div_greater_zero_iff)
qed

lemma supported_entry_requested:
  "pe_semantic (supported_entry scale d) = fst d" "pe_requested (supported_entry scale d) = interval_of d"
  by (simp_all add: supported_entry_def Let_def)

text \<open>C23: the budget holds.  For a budget that is not zero, positive intervals and fewer than
  \<open>2^64\<close> requests, and as long as no interval was cut to the largest one the code can represent,
  the exact request rate of the polling plan is within the budget of the session; and in any such
  plan only semantics the vehicle supports are polled, each with an effective interval that is
  not shorter than the requested one.\<close>

theorem plan_within_budget:
  assumes "hc_budget capability \<noteq> 0" and "\<forall>r \<in> set requests. 0 < or_interval r"
    and "length requests < 2 ^ 64"
    and "\<forall>e \<in> set (policy_plan capability requests supported). pe_effective e \<noteq> Some (2 ^ 64 - 1)"
  shows "effective_request_rate_per_second (policy_plan capability requests supported)
      \<le> of_nat (unat (hc_budget capability)) \<and>
    list_all (\<lambda>e. pe_semantic e \<in> set supported \<and>
        (\<exists>i. pe_effective e = Some i \<and> pe_requested e \<le> i))
      (scheduled_entries (policy_plan capability requests supported))"
proof
  define merged where "merged = foldl merge_request [] requests"
  define es where "es = filter (\<lambda>d. fst d \<in> set supported) merged"
  define scale where "scale = (if requested_rate_exceeds_budget es (hc_budget capability)
    then Some (request_scale_factor es (hc_budget capability)) else None)"
  let ?plan = "policy_plan capability requests supported"
  have plan: "?plan = sort_key pe_semantic (map unsupported_entry (filter (\<lambda>d. fst d \<notin> set supported) merged)
      @ map (supported_entry scale) es)"
    unfolding policy_plan_def Let_def merged_def es_def scale_def ..
  have "\<forall>d \<in> set es. pe_effective (supported_entry scale d) \<noteq> Some (2 ^ 64 - 1)"
    using assms(4) unfolding plan by simp
  then have uncut: "\<forall>d \<in> set es. the (pe_effective (supported_entry scale d)) \<noteq> 2 ^ 64 - 1"
    by (simp add: supported_entry_def Let_def)
  have pos: "\<forall>d \<in> set es. 0 < interval_of d"
    using merged_interval_positive [OF assms(2)] by (auto simp: es_def merged_def)
  have len: "length es < 2 ^ 64"
    using length_merged [of "[]" requests] assms(3)
    by (simp add: es_def merged_def) (meson le_trans length_filter_le not_le)
  show "effective_request_rate_per_second ?plan \<le> of_nat (unat (hc_budget capability))"
  proof (cases "requested_rate_exceeds_budget es (hc_budget capability)")
    case True
    then have scale: "scale = Some (request_scale_factor es (hc_budget capability))" by (simp add: scale_def)
    have "the (pe_effective (supported_entry scale d)) = interval_of d * request_scale_factor es (hc_budget capability)"
      if "d \<in> set es" for d
      using uncut that by (auto simp: scale supported_entry_def Let_def scale_interval_def sat_u128_def min_def split: if_splits)
    then show ?thesis
      using scaled_within_budget [OF pos len assms(1) True refl]
      by (simp add: plan plan_rate cong: map_cong)
  next
    case False
    then have "scale = None" by (simp add: scale_def)
    then show ?thesis
      using unscaled_within_budget [OF pos len False] by (simp add: plan plan_rate supported_entry_def Let_def)
  qed
  have "\<exists>i. pe_effective (supported_entry scale d) = Some i \<and> interval_of d \<le> i" if "d \<in> set es" for d
    using uncut that scale_factor_positive [OF _ assms(1), of es]
    by (auto simp: scale_def supported_entry_def Let_def scale_interval_def sat_u128_def min_def
        split: if_splits)
  then show "list_all (\<lambda>e. pe_semantic e \<in> set supported \<and>
      (\<exists>i. pe_effective e = Some i \<and> pe_requested e \<le> i)) (scheduled_entries ?plan)"
    by (auto simp: plan scheduled_entries_def is_scheduled_def unsupported_entry_def list_all_iff
        es_def supported_entry_requested)
qed

definition example_request :: "string \<Rightarrow> nat \<Rightarrow> observation_request" where
  "example_request semantic ms =
     \<lparr>or_source = ''tui'', or_semantic = semantic, or_interval = ms * 1000000\<rparr>"

definition example_requests :: "observation_request list" where
  "example_requests =
     [example_request ''engine.rpm'' 100, example_request ''engine.maf'' 200,
      example_request ''engine.load'' 400, example_request ''vehicle.unknown'' 50]"

theorem plan_within_budget_witness:
  "effective_request_rate_per_second
     (policy_plan conservative_default example_requests [''engine.load'', ''engine.maf'', ''engine.rpm'']) \<le> 4 \<and>
   map pe_effective
     (policy_plan conservative_default example_requests [''engine.load'', ''engine.maf'', ''engine.rpm''])
     = [Some 2000000000, Some 1000000000, Some 500000000, None]"
proof -
  let ?plan = "policy_plan conservative_default example_requests [''engine.load'', ''engine.maf'', ''engine.rpm'']"
  have e: "map pe_effective ?plan = [Some 2000000000, Some 1000000000, Some 500000000, None]" by code_simp
  then have "Some (2 ^ 64 - 1) \<notin> set (map pe_effective ?plan)" by simp
  then have uncut: "\<forall>x \<in> set ?plan. pe_effective x \<noteq> Some (2 ^ 64 - 1)"
    unfolding set_map by (metis imageI)
  have "effective_request_rate_per_second ?plan \<le> of_nat (unat (hc_budget conservative_default))"
    by (intro conjunct1 [OF plan_within_budget] uncut)
      (simp_all add: conservative_default_def example_requests_def example_request_def)
  then show ?thesis using e by (simp add: conservative_default_def)
qed

text \<open>C24: the plan is deterministic: it depends on which requests there are and which semantics are
  supported, not on their order or multiplicity, and it is the plan of the merged demand, one
  entry per requested semantic in ascending order with all its sources and its strictest interval.\<close>

theorem plan_deterministic:
  assumes "set requests = set requests'" and "set supported = set supported'"
  shows "policy_plan capability requests supported = policy_plan capability requests' supported' \<and>
    sorted_wrt (<) (map pe_semantic (policy_plan capability requests supported)) \<and>
    set (map (\<lambda>e. (pe_semantic e, Some (pe_sources e, pe_requested e)))
        (policy_plan capability requests supported))
      = (\<lambda>k. (k, demand_of requests k)) ` or_semantic ` set requests"
proof (intro conjI)
  define merged where "merged = foldl merge_request [] requests"
  have same: "foldl merge_request [] requests' = merged"
    unfolding merged_def using merged_determined assms(1) by metis
  show "policy_plan capability requests supported = policy_plan capability requests' supported'"
    by (simp add: policy_plan_def same assms(2) flip: merged_def)
  let ?plan = "policy_plan capability requests supported"
  obtain scale where plan: "?plan = sort_key pe_semantic
      (map unsupported_entry (filter (\<lambda>d. fst d \<notin> set supported) merged)
        @ map (supported_entry scale) (filter (\<lambda>d. fst d \<in> set supported) merged))"
    unfolding policy_plan_def Let_def merged_def by blast
  have keys: "pe_semantic (unsupported_entry d) = fst d" "pe_semantic (supported_entry scale d) = fst d" for d
    by (simp_all add: unsupported_entry_def supported_entry_def Let_def)
  have wf: "bt_wf merged" unfolding merged_def by (rule merged_demand)
  have "mset (map pe_semantic ?plan) = mset (map fst merged)"
    unfolding plan using mset_partition [of fst "\<lambda>d. fst d \<in> set supported" merged]
    by (simp add: keys multiset.map_comp comp_def)
  then have "distinct (map pe_semantic ?plan)"
    using bt.distinct_keys [OF wf] by (metis mset_eq_imp_distinct_iff)
  moreover have "sorted (map pe_semantic ?plan)" unfolding plan by (rule sorted_sort_key)
  ultimately show "sorted_wrt (<) (map pe_semantic ?plan)" by (simp add: strict_sorted_iff)
  let ?g = "\<lambda>e. (pe_semantic e, Some (pe_sources e, pe_requested e))"
  have "?g (unsupported_entry d) = (fst d, Some (snd d))" "?g (supported_entry scale d) = (fst d, Some (snd d))" for d
    by (simp_all add: unsupported_entry_def supported_entry_def Let_def interval_of_def)
  then have "set (map ?g ?plan) = (\<lambda>d. (fst d, Some (snd d))) ` {d \<in> set merged. fst d \<notin> set supported}
      \<union> (\<lambda>d. (fst d, Some (snd d))) ` {d \<in> set merged. fst d \<in> set supported}"
    unfolding plan by (simp add: image_Un image_image)
  also have "\<dots> = (\<lambda>d. (fst d, Some (snd d))) ` set merged" by blast
  also have "\<dots> = (\<lambda>k. (k, demand_of requests k)) ` fst ` set merged"
  proof -
    have "Some (snd d) = demand_of requests (fst d)" if "d \<in> set merged" for d
      using bt.entries_look [OF wf, of "fst d" "snd d"] that merged_demand(2) [of requests]
      by (simp add: merged_def)
    then show ?thesis unfolding image_image by (intro image_cong) simp_all
  qed
  also have "fst ` set merged = or_semantic ` set requests"
  proof -
    have "fst ` set merged = dom (demand_of requests)"
      using merged_demand(2) [of requests] dom_map_of_conv_image_fst by (metis merged_def)
    moreover have "k \<in> dom (demand_of requests) \<longleftrightarrow> k \<in> or_semantic ` set requests" for k
      unfolding demand_of_def Let_def dom_def by (auto simp: filter_empty_conv)
    ultimately show ?thesis by blast
  qed
  finally show "set (map (\<lambda>e. (pe_semantic e, Some (pe_sources e, pe_requested e))) ?plan)
      = (\<lambda>k. (k, demand_of requests k)) ` or_semantic ` set requests" .
qed

theorem plan_deterministic_witness:
  "policy_plan conservative_default example_requests [''engine.rpm''] =
     policy_plan conservative_default (rev example_requests @ example_requests) [''engine.rpm'', ''engine.rpm'']"
  using plan_deterministic [of example_requests "rev example_requests @ example_requests"
      "[''engine.rpm'']" "[''engine.rpm'', ''engine.rpm'']" conservative_default] by simp

lemma collect_updates_Inr:
  assumes "collect_updates ivs u = Inr u'" and "bt_wf u"
  shows "bt_wf u' \<and> map_of u' = map_of u ++ map_of ivs \<and> distinct (map fst ivs) \<and>
    fst ` set ivs \<inter> dom (map_of u) = {} \<and> (\<forall>(s, i) \<in> set ivs. 0 < i)"
  using assms
proof (induction ivs arbitrary: u)
  case (Cons iv ivs)
  obtain s i where iv: "iv = (s, i)" by (cases iv)
  then have c: "0 < i" "map_of u s = None" "collect_updates ivs (bt_insert s i u) = Inr u'"
    using Cons.prems(1) by (auto split: if_splits)
  note IH = Cons.IH [OF c(3) bt_wf_insert [OF Cons.prems(2)]]
  have "map_of u' = map_of u ++ map_of (iv # ivs)"
  proof
    fix x
    have "s \<notin> fst ` set ivs" using IH Cons.prems(2) by auto
    then have "map_of ivs s = None" by (simp add: map_of_eq_None_iff)
    then show "map_of u' x = (map_of u ++ map_of (iv # ivs)) x"
      using IH Cons.prems(2) by (auto simp: iv map_add_def split: option.split)
  qed
  note updates = this
  show ?case
  proof (intro conjI)
    show "map_of u' = map_of u ++ map_of (iv # ivs)" by (rule updates)
  qed (use IH c Cons.prems(2) iv in auto)
qed simp

text \<open>The scheduler's feedback into a plan is checked before it changes anything: an update that
  fails leaves the plan as it was, and one that succeeds named every scheduled semantic exactly once
  with a positive interval, keeps the entries with their requests, gives every scheduled entry its
  new interval, and marks it as reduced exactly when that is longer than requested.\<close>

lemma plan_update_checked:
  "(case update_effective_intervals plan ivs of
      (Inl _, plan') \<Rightarrow> plan' = plan
    | (Inr _, plan') \<Rightarrow>
        distinct (map fst ivs) \<and> (\<forall>(s, i) \<in> set ivs. 0 < i) \<and>
        map (\<lambda>e. (pe_semantic e, pe_sources e, pe_requested e, is_scheduled e)) plan' =
        map (\<lambda>e. (pe_semantic e, pe_sources e, pe_requested e, is_scheduled e)) plan \<and>
        (\<forall>e \<in> set plan'. is_scheduled e \<longrightarrow>
          (\<exists>i. pe_effective e = Some i \<and> (pe_semantic e, i) \<in> set ivs \<and>
            pe_status e = (if pe_requested e < i then RateReduced else Accepted))))"
proof (cases "update_effective_intervals plan ivs")
  case (Pair r plan')
  show ?thesis
  proof (cases r)
    case (Inl e)
    then have "plan' = plan"
      using Pair by (auto simp: update_effective_intervals_def split: sum.splits option.splits)
    then show ?thesis using Pair Inl by simp
  next
    case (Inr x)
    then obtain u where u: "collect_updates ivs [] = Inr u" "plan' = map (update_entry u) plan"
      and all: "\<forall>e \<in> set plan. is_scheduled e \<longrightarrow> map_of u (pe_semantic e) \<noteq> None"
      using Pair by (auto simp: update_effective_intervals_def find_None_iff is_scheduled_def
          split: sum.splits option.splits)
    note c = collect_updates_Inr [OF u(1) bt.wf_empty]
    have m: "map_of u = map_of ivs" using c by simp
    have kept: "(pe_semantic (update_entry u e), pe_sources (update_entry u e), pe_requested (update_entry u e),
        is_scheduled (update_entry u e)) = (pe_semantic e, pe_sources e, pe_requested e, is_scheduled e)" for e
      by (auto simp: update_entry_def is_scheduled_def Let_def split: option.split)
    have "\<exists>i. pe_effective (update_entry u e) = Some i \<and> (pe_semantic e, i) \<in> set ivs \<and>
        pe_status (update_entry u e) = (if pe_requested e < i then RateReduced else Accepted)"
      if e: "e \<in> set plan" "is_scheduled e" for e
    proof -
      obtain i where i: "map_of ivs (pe_semantic e) = Some i" using all e m by auto
      then show ?thesis using e(2) map_of_SomeD [OF i] m
        by (auto simp: update_entry_def is_scheduled_def Let_def)
    qed
    then show ?thesis using Pair Inr c kept u(2) by (auto simp: comp_def)
  qed
qed

lemma plan_update_checked_witness:
  "fst (update_effective_intervals
      (policy_plan conservative_default [example_request ''engine.rpm'' 100] [''engine.rpm''])
      [(''engine.maf'', 5)]) \<noteq> Inr () \<and>
   snd (update_effective_intervals
      (policy_plan conservative_default [example_request ''engine.rpm'' 100] [''engine.rpm''])
      [(''engine.maf'', 5)])
    = policy_plan conservative_default [example_request ''engine.rpm'' 100] [''engine.rpm'']"
proof -
  let ?plan = "policy_plan conservative_default [example_request ''engine.rpm'' 100] [''engine.rpm'']"
  have "fst (update_effective_intervals ?plan [(''engine.maf'', 5)]) \<noteq> Inr ()" by code_simp
  then show ?thesis
    using plan_update_checked [of ?plan "[(''engine.maf'', 5)]"]
    by (auto split: prod.splits sum.splits)
qed

end
