(* ===== verification/Responses.thy ===== *)
theory Responses
  imports Text
begin

text \<open>
  The normalised form of an adapter answer, \<open>src/elm.rs\<close>: responder identities, the
  payloads and recoverable errors of one answer, the selection of a payload by responder, the
  acceptance of an adapter status line, and the PID support bitmaps.  The lemmas give the
  soundness of the selections: no payload of another responder is ever returned.
\<close>

section \<open>Responders and responses\<close>

datatype responder_identity = ElmHeader string

fun responder_str :: "responder_identity \<Rightarrow> string" where
  "responder_str (ElmHeader value) = value"

record diagnostic_response =
  dr_responder :: "responder_identity option"
  dr_payload :: bytes

record diagnostic_response_error =
  de_responder :: "responder_identity option"
  de_error :: string

record diagnostic_responses =
  drs_responses :: "diagnostic_response list"
  drs_raw :: string
  drs_errors :: "diagnostic_response_error list"

definition drs_new :: "diagnostic_response list \<Rightarrow> string \<Rightarrow> diagnostic_responses" where
  "drs_new rs raw = \<lparr>drs_responses = rs, drs_raw = raw, drs_errors = []\<rparr>"

definition drs_with_errors ::
  "diagnostic_response list \<Rightarrow> string \<Rightarrow> diagnostic_response_error list \<Rightarrow> diagnostic_responses"
where
  "drs_with_errors rs raw es = \<lparr>drs_responses = rs, drs_raw = raw, drs_errors = es\<rparr>"

lemma drs_simps [simp]:
  "drs_responses (drs_new rs raw) = rs" "drs_raw (drs_new rs raw) = raw"
  "drs_errors (drs_new rs raw) = []"
  "drs_responses (drs_with_errors rs raw es) = rs" "drs_raw (drs_with_errors rs raw es) = raw"
  "drs_errors (drs_with_errors rs raw es) = es"
  by (simp_all add: drs_new_def drs_with_errors_def)

text \<open>\<open>map_or("unknown", ResponderIdentity::as_str)\<close>\<close>

definition responder_or_unknown :: "responder_identity option \<Rightarrow> string" where
  "responder_or_unknown r = (case r of None \<Rightarrow> ''unknown'' | Some i \<Rightarrow> responder_str i)"

section \<open>Evidence for the capture\<close>

record responder_evidence =
  re_responder :: "string option"
  re_payload :: bytes

record response_observation =
  ro_responses :: "responder_evidence list"
  ro_selected_responder :: "string option"
  ro_selection_error :: "string option"

definition capture_evidence :: "diagnostic_responses \<Rightarrow> responder_evidence list" where
  "capture_evidence d =
     map (\<lambda>r. \<lparr>re_responder = map_option responder_str (dr_responder r), re_payload = dr_payload r\<rparr>)
       (drs_responses d)"

definition observation :: "diagnostic_responses \<Rightarrow> string option \<Rightarrow> response_observation" where
  "observation d selection_error =
     \<lparr>ro_responses = capture_evidence d,
      ro_selected_responder =
        (case drs_responses d of
           [] \<Rightarrow> None
         | first # _ \<Rightarrow>
             (case dr_responder first of
                None \<Rightarrow> None
              | Some i \<Rightarrow>
                  if list_all (\<lambda>r. dr_responder r = Some i) (drs_responses d)
                  then Some (responder_str i) else None)),
      ro_selection_error = selection_error\<rparr>"

definition observation_for_target ::
  "diagnostic_responses \<Rightarrow> responder_identity \<Rightarrow> string option \<Rightarrow> response_observation" where
  "observation_for_target d target selection_error =
     \<lparr>ro_responses = capture_evidence d,
      ro_selected_responder =
        (if selection_error = None then Some (responder_str target) else None),
      ro_selection_error = selection_error\<rparr>"

section \<open>Selection\<close>

text \<open>\<open>DiagnosticResponses::select\<close>\<close>

definition select_responder :: "diagnostic_responses \<Rightarrow> responder_identity \<Rightarrow> string + bytes" where
  "select_responder d target =
     (let matches = filter (\<lambda>r. dr_responder r = Some target) (drs_responses d)
      in case matches of
           [] \<Rightarrow> Inl (''responder '' @ responder_str target @ '' did not answer'')
         | first # _ \<Rightarrow>
             if list_ex (\<lambda>r. dr_payload r \<noteq> dr_payload first) matches
             then Inl (''conflicting responses from responder '' @ responder_str target)
             else Inr (dr_payload first))"

definition unambiguous_payload :: "diagnostic_responses \<Rightarrow> u8 \<Rightarrow> string + bytes" where
  "unambiguous_payload d pid =
     (case drs_responses d of
        [] \<Rightarrow> Inl (''01'' @ fmt_02X pid @ '' response not found'')
      | first # _ \<Rightarrow>
          if \<not> starts_with (dr_payload first) [0x41, pid]
          then Inl (''01'' @ fmt_02X pid @ '' response not found'')
          else if list_ex (\<lambda>r. dr_payload r \<noteq> dr_payload first) (drs_responses d)
          then Inl (''conflicting 01'' @ fmt_02X pid @ '' responses (responders: '' @
                 join '', '' (map (\<lambda>r. responder_or_unknown (dr_responder r)) (drs_responses d))
                 @ '')'')
          else Inr (dr_payload first))"

definition targeted_payload :: "diagnostic_responses \<Rightarrow> responder_identity \<Rightarrow> string + bytes" where
  "targeted_payload d expected =
     (let observed = list_ex (\<lambda>r. dr_responder r = Some expected) (drs_responses d)
      in case drs_responses d of
           unexpected # _ \<Rightarrow>
             if \<not> observed
             then Inl (''unexpected responder '' @ responder_or_unknown (dr_responder unexpected)
                    @ '' for targeted read; expected '' @ responder_str expected)
             else select_responder d expected
         | [] \<Rightarrow> select_responder d expected)"

lemma select_responder_iff:
  "select_responder d target = Inr p \<longleftrightarrow>
     (\<exists>r \<in> set (drs_responses d). dr_responder r = Some target) \<and>
     (\<forall>r \<in> set (drs_responses d). dr_responder r = Some target \<longrightarrow> dr_payload r = p)"
proof (cases "filter (\<lambda>r. dr_responder r = Some target) (drs_responses d)")
  case Nil
  then show ?thesis
    by (auto simp: select_responder_def filter_empty_conv)
next
  case (Cons first rest)
  let ?m = "filter (\<lambda>r. dr_responder r = Some target) (drs_responses d)"
  have "first \<in> set ?m" unfolding Cons by simp
  then have first: "first \<in> set (drs_responses d)" "dr_responder first = Some target" by simp_all
  have "select_responder d target = Inr p \<longleftrightarrow>
      (\<forall>r \<in> set ?m. dr_payload r = dr_payload first) \<and> dr_payload first = p"
    unfolding select_responder_def Let_def Cons by (auto simp: list_ex_iff)
  then show ?thesis using first by auto
qed

lemma targeted_payload_iff:
  "targeted_payload d target = Inr p \<longleftrightarrow> select_responder d target = Inr p"
  unfolding targeted_payload_def Let_def
  by (auto simp: select_responder_iff list_ex_iff split: list.splits)

lemma unambiguous_payload_iff:
  "unambiguous_payload d pid = Inr p \<longleftrightarrow>
     drs_responses d \<noteq> [] \<and> starts_with p [0x41, pid] \<and>
     (\<forall>r \<in> set (drs_responses d). dr_payload r = p)"
  unfolding unambiguous_payload_def
  by (cases "drs_responses d") (auto simp: list_ex_iff)

section \<open>Status lines\<close>

text \<open>\<open>require_response\<close>: an adapter answer without a status line and with the expected one.\<close>

definition STATUS_WORDS :: "string list" where
  "STATUS_WORDS = [''NO DATA'', ''STOPPED'', ''UNABLE TO CONNECT'', ''ERROR'']"

definition status_line :: "string \<Rightarrow> bool" where
  "status_line line \<longleftrightarrow> line = ''?'' \<or> list_ex (str_contains line) STATUS_WORDS"

definition require_response :: "string \<Rightarrow> string \<Rightarrow> bool \<Rightarrow> string \<Rightarrow> string + unit" where
  "require_response response expected exact error =
     (let lines = map clean_line (split_lines (to_ascii_uppercase response));
          failure = error @ '': '' @ debug_str response
      in if list_ex status_line lines then Inl failure
         else if list_ex (\<lambda>line. if exact then line = expected else starts_with line expected) lines
         then Inr () else Inl failure)"

section \<open>Header and PID vocabulary\<close>

definition validate_header_value :: "string \<Rightarrow> string \<Rightarrow> string + unit" where
  "validate_header_value value label =
     (if length value \<noteq> 3 \<or> \<not> all_hex value
      then Inl (label @ '' must be exactly three hexadecimal characters'') else Inr ())"

definition validate_elm_header :: "responder_identity \<Rightarrow> string \<Rightarrow> string + unit" where
  "validate_elm_header identity label = validate_header_value (responder_str identity) label"

datatype mode09_pid = SupportedPids | CalibrationId | CalibrationVerificationNumber | EcuName

fun mode09_pid_byte :: "mode09_pid \<Rightarrow> u8" where
  "mode09_pid_byte SupportedPids = 0x00"
| "mode09_pid_byte CalibrationId = 0x04"
| "mode09_pid_byte CalibrationVerificationNumber = 0x06"
| "mode09_pid_byte EcuName = 0x0A"

definition mode09_request_bytes :: "mode09_pid \<Rightarrow> bytes" where
  "mode09_request_bytes p = [0x09, mode09_pid_byte p]"

text \<open>The two copies of the bitmap test: \<open>bitmap_supports_pid\<close> and
  \<open>Mode09Pid::advertised_by\<close>.\<close>

definition bitmap_supports_pid :: "u32 \<Rightarrow> u8 \<Rightarrow> bool" where
  "bitmap_supports_pid bitmap pid =
     (let offset = pid AND 0x1f; shift = (if offset = 0 then 0 else 32 - unat offset)
      in bitmap AND push_bit shift 1 \<noteq> 0)"

definition advertised_by :: "mode09_pid \<Rightarrow> u32 \<Rightarrow> bool" where
  "advertised_by p support_bitmap =
     (let pid = mode09_pid_byte p
      in if pid = 0 then True
         else let offset = pid AND 0x1f; shift = (if offset = 0 then 0 else 32 - unat offset)
              in support_bitmap AND push_bit shift 1 \<noteq> 0)"

definition mode09_support_bitmap :: "bytes \<Rightarrow> string + u32" where
  "mode09_support_bitmap payload =
     (if length payload \<noteq> 6 \<or> take 2 payload \<noteq> [0x49, 0x00]
      then Inl ''malformed Mode 09 PID 00 response''
      else Inr (word_of_nat (be_nat (drop 2 payload))))"

section \<open>PID support\<close>

datatype signal_support_status = Supported | Unsupported | Support_Unknown

record support_discovery =
  sd_request :: bytes
  sd_responder :: "responder_identity option"
  sd_response :: bytes

record pid_support =
  ps_pages :: "u32 list"
  ps_discovery :: "support_discovery list"

definition support_status :: "pid_support \<Rightarrow> u8 \<Rightarrow> signal_support_status" where
  "support_status s pid =
     (if pid = 0 then Support_Unknown
      else let index = (unat pid - 1) div 0x20; offset = (unat pid - 1) mod 0x20 + 1
           in if index < length (ps_pages s)
              then (if ps_pages s ! index AND push_bit (32 - offset) 1 \<noteq> 0
                    then Supported else Unsupported)
              else Support_Unknown)"

definition supports_pid :: "pid_support \<Rightarrow> u8 \<Rightarrow> bool" where
  "supports_pid s pid \<longleftrightarrow> support_status s pid = Supported"

text \<open>Both bit tests read the bit of the PID within its page.\<close>

lemma unat_and_1f: "unat (pid AND 0x1f :: u8) = unat pid mod 32"
proof -
  have "(0x1f :: u8) = mask 5" by (simp add: mask_eq_exp_minus_1)
  then have "pid AND 0x1f = take_bit 5 pid" by (simp add: take_bit_eq_mask)
  then show ?thesis by (simp add: take_bit_eq_mod unat_mod)
qed

lemma bitmap_bit: "(w :: u32) AND push_bit n 1 \<noteq> 0 \<longleftrightarrow> bit w n"
  by (simp add: push_bit_of_1 and_exp_eq_0_iff_not_bit)

lemma advertised_by_iff: "advertised_by p b \<longleftrightarrow> mode09_pid_byte p = 0 \<or> bitmap_supports_pid b (mode09_pid_byte p)"
  by (simp add: advertised_by_def bitmap_supports_pid_def Let_def)

lemma page_bit_position:
  assumes "pid \<noteq> (0 :: u8)"
  shows "32 - ((unat pid - 1) mod 32 + 1)
    = (if pid AND 0x1f = 0 then 0 else 32 - unat (pid AND 0x1f))"
proof -
  have pos: "0 < unat pid" using assms by (simp add: unat_gt_0)
  have z: "pid AND 0x1f = 0 \<longleftrightarrow> unat pid mod 32 = 0"
    by (metis unat_and_1f unsigned_0 unsigned_eq_0_iff)
  show ?thesis unfolding z unat_and_1f using pos
    by (cases "unat pid") (auto simp: mod_Suc)
qed

lemma support_status_bitmap:
  assumes "pid \<noteq> 0" and "(unat pid - 1) div 32 < length (ps_pages s)"
  shows "support_status s pid =
    (if bitmap_supports_pid (ps_pages s ! ((unat pid - 1) div 32)) pid then Supported else Unsupported)"
  using assms page_bit_position [OF assms(1)]
  by (simp add: support_status_def bitmap_supports_pid_def Let_def)

end
