(* ===== verification/Safety.thy ===== *)
theory Safety
  imports Runtime_State Vehicle
begin

text \<open>
  The read-only safety boundary, \<open>src/safety.rs\<close>: typed requests, the closed set of executable
  operations, the capability and the policy that turns one into the other.  A Knowledge
  definition and an identification candidate are the records of their fields in
  \<open>src/knowledge_db.rs\<close> and \<open>src/ecu_identification.rs\<close> that the boundary reads or carries.
\<close>

section \<open>Vocabulary\<close>

datatype dtc_read_kind = Dtc_All | Dtc_Stored | Dtc_Pending | Dtc_Permanent

fun dtc_kind_identifier :: "dtc_read_kind \<Rightarrow> string" where
  "dtc_kind_identifier Dtc_All = ''dtc.scan''"
| "dtc_kind_identifier Dtc_Stored = ''dtc.read''"
| "dtc_kind_identifier Dtc_Pending = ''dtc.pending''"
| "dtc_kind_identifier Dtc_Permanent = ''dtc.permanent''"

definition dtc_kind_from_identifier :: "string \<Rightarrow> dtc_read_kind option" where
  "dtc_kind_from_identifier s =
     (if s = ''dtc.scan'' then Some Dtc_All
      else if s = ''dtc.read'' then Some Dtc_Stored
      else if s = ''dtc.pending'' then Some Dtc_Pending
      else if s = ''dtc.permanent'' then Some Dtc_Permanent
      else None)"

interpretation dtc_kind: id_codec dtc_kind_identifier "\<lambda>s. ok_or () (dtc_kind_from_identifier s)"
proof
  show "ok_or () (dtc_kind_from_identifier (dtc_kind_identifier x)) = Inr x" for x
    by (cases x) (simp_all add: dtc_kind_from_identifier_def)
  show "ok_or () (dtc_kind_from_identifier s) = Inr x \<Longrightarrow> s = dtc_kind_identifier x" for s x
    by (auto simp: dtc_kind_from_identifier_def split: if_splits)
qed

datatype operation_kind =
    K_Write | K_SignalRead | K_DtcRead | K_EcuIdentification | K_KnowledgeRead
  | K_KnowledgeLearning | K_KnowledgeLearningRead | K_ExtendedSessionRead | K_AdapterThroughput
  | K_DtcClear | K_SecurityAccess | K_DiagnosticSessionControl | K_ActuatorTest
  | K_BasicSettings | K_Coding | K_Adaptation | K_EcuReset | K_ForcedRegeneration
  | K_RoutineControl | K_RawCanInjection | K_RawUdsInjection | K_RawElmInjection

record knowledge_request =
  kr_definition_id :: string
  kr_did :: u16

record knowledge_definition =
  kd_id :: string
  kd_did :: u16
  kd_requires_extended_session :: bool

record identification_candidate =
  ic_semantic :: string
  ic_definition_id :: string
  ic_definition_version :: u32
  ic_did :: u16

definition candidate_request_bytes :: "identification_candidate \<Rightarrow> bytes" where
  "candidate_request_bytes c = [0x22, did_high (ic_did c), did_low (ic_did c)]"

datatype operation_request =
    R_ReadSignal read_request
  | R_ReadDtcs dtc_read_kind
  | R_EcuIdentification identification_candidate
  | R_KnowledgeRead knowledge_request
  | R_KnowledgeLearning
  | R_KnowledgeLearningRead knowledge_request
  | R_ExtendedSessionRead knowledge_request
  | R_AdapterThroughput
  | R_ClearDtcs | R_SecurityAccess | R_DiagnosticSessionControl | R_ActuatorTest
  | R_BasicSettings | R_Coding | R_Adaptation | R_EcuReset | R_ForcedRegeneration
  | R_RoutineControl | R_RawCanInjection | R_RawUdsInjection | R_RawElmInjection

fun request_kind :: "operation_request \<Rightarrow> operation_kind" where
  "request_kind (R_ReadSignal _) = K_SignalRead"
| "request_kind (R_ReadDtcs _) = K_DtcRead"
| "request_kind (R_EcuIdentification _) = K_EcuIdentification"
| "request_kind (R_KnowledgeRead _) = K_KnowledgeRead"
| "request_kind R_KnowledgeLearning = K_KnowledgeLearning"
| "request_kind (R_KnowledgeLearningRead _) = K_KnowledgeLearningRead"
| "request_kind (R_ExtendedSessionRead _) = K_ExtendedSessionRead"
| "request_kind R_AdapterThroughput = K_AdapterThroughput"
| "request_kind R_ClearDtcs = K_DtcClear"
| "request_kind R_SecurityAccess = K_SecurityAccess"
| "request_kind R_DiagnosticSessionControl = K_DiagnosticSessionControl"
| "request_kind R_ActuatorTest = K_ActuatorTest"
| "request_kind R_BasicSettings = K_BasicSettings"
| "request_kind R_Coding = K_Coding"
| "request_kind R_Adaptation = K_Adaptation"
| "request_kind R_EcuReset = K_EcuReset"
| "request_kind R_ForcedRegeneration = K_ForcedRegeneration"
| "request_kind R_RoutineControl = K_RoutineControl"
| "request_kind R_RawCanInjection = K_RawCanInjection"
| "request_kind R_RawUdsInjection = K_RawUdsInjection"
| "request_kind R_RawElmInjection = K_RawElmInjection"

datatype operation =
    O_ReadSignal read_request
  | O_ReadDtcs dtc_read_kind
  | O_EcuIdentification identification_candidate
  | O_KnowledgeRead knowledge_request
  | O_KnowledgeLearning
  | O_KnowledgeLearningRead knowledge_request
  | O_ExtendedSessionRead knowledge_request
  | O_AdapterThroughput

fun kind_of_operation :: "operation \<Rightarrow> operation_kind" where
  "kind_of_operation (O_ReadSignal _) = K_SignalRead"
| "kind_of_operation (O_ReadDtcs _) = K_DtcRead"
| "kind_of_operation (O_EcuIdentification _) = K_EcuIdentification"
| "kind_of_operation (O_KnowledgeRead _) = K_KnowledgeRead"
| "kind_of_operation O_KnowledgeLearning = K_KnowledgeLearning"
| "kind_of_operation (O_KnowledgeLearningRead _) = K_KnowledgeLearningRead"
| "kind_of_operation (O_ExtendedSessionRead _) = K_ExtendedSessionRead"
| "kind_of_operation O_AdapterThroughput = K_AdapterThroughput"

section \<open>Capability and errors\<close>

datatype capability = Cap_ReadOnly

fun capability_supports :: "capability \<Rightarrow> operation_kind \<Rightarrow> bool" where
  "capability_supports Cap_ReadOnly k =
     (k \<in> {K_SignalRead, K_DtcRead, K_EcuIdentification, K_KnowledgeRead, K_KnowledgeLearning,
           K_KnowledgeLearningRead, K_ExtendedSessionRead, K_AdapterThroughput})"

definition capability_write_available :: "capability \<Rightarrow> bool" where
  "capability_write_available c = False"

datatype safety_error =
    UnknownSignal string
  | ActivityNotAllowed activity operation_kind
  | CapabilityUnavailable operation_kind
  | OperationBlocked operation_kind
  | WriteUnavailable

record safety_policy =
  sp_capability :: capability

definition policy_read_only :: safety_policy where
  "policy_read_only = \<lparr>sp_capability = Cap_ReadOnly\<rparr>"

section \<open>Building requests\<close>

definition request_read_signal :: "string \<Rightarrow> safety_error + operation_request" where
  "request_read_signal identifier =
     (case prepare_read identifier of
        Inl _ \<Rightarrow> Inl (UnknownSignal identifier)
      | Inr r \<Rightarrow> Inr (R_ReadSignal r))"

definition knowledge_request_of :: "knowledge_definition \<Rightarrow> knowledge_request" where
  "knowledge_request_of d = \<lparr>kr_definition_id = kd_id d, kr_did = kd_did d\<rparr>"

definition request_extended_session_read ::
  "knowledge_definition \<Rightarrow> safety_error + operation_request" where
  "request_extended_session_read d =
     (if \<not> kd_requires_extended_session d then Inl (OperationBlocked K_ExtendedSessionRead)
      else Inr (R_ExtendedSessionRead (knowledge_request_of d)))"

definition request_knowledge_read ::
  "knowledge_definition \<Rightarrow> safety_error + operation_request" where
  "request_knowledge_read d =
     (if kd_requires_extended_session d then Inl (OperationBlocked K_KnowledgeRead)
      else Inr (R_KnowledgeRead (knowledge_request_of d)))"

definition request_knowledge_learning_read ::
  "knowledge_definition \<Rightarrow> safety_error + operation_request" where
  "request_knowledge_learning_read d =
     (if \<not> kd_requires_extended_session d then Inl (OperationBlocked K_KnowledgeLearningRead)
      else Inr (R_KnowledgeLearningRead (knowledge_request_of d)))"

section \<open>The policy\<close>

definition authorize_operation :: "safety_policy \<Rightarrow> operation \<Rightarrow> safety_error + operation" where
  "authorize_operation p op =
     (if capability_supports (sp_capability p) (kind_of_operation op) then Inr op
      else Inl (CapabilityUnavailable (kind_of_operation op)))"

definition authorize_read :: "safety_policy \<Rightarrow> read_request \<Rightarrow> safety_error + operation" where
  "authorize_read p r = authorize_operation p (O_ReadSignal r)"

fun authorize :: "safety_policy \<Rightarrow> operation_request \<Rightarrow> safety_error + operation" where
  "authorize p (R_ReadSignal r) = authorize_read p r"
| "authorize p (R_ReadDtcs k) = authorize_operation p (O_ReadDtcs k)"
| "authorize p (R_EcuIdentification c) = authorize_operation p (O_EcuIdentification c)"
| "authorize p (R_KnowledgeRead c) = authorize_operation p (O_KnowledgeRead c)"
| "authorize p R_KnowledgeLearning = authorize_operation p O_KnowledgeLearning"
| "authorize p (R_KnowledgeLearningRead c) = authorize_operation p (O_KnowledgeLearningRead c)"
| "authorize p (R_ExtendedSessionRead c) = authorize_operation p (O_ExtendedSessionRead c)"
| "authorize p R_AdapterThroughput = authorize_operation p O_AdapterThroughput"
| "authorize p R_ClearDtcs = Inl (OperationBlocked K_DtcClear)"
| "authorize p R_SecurityAccess = Inl (OperationBlocked K_SecurityAccess)"
| "authorize p R_DiagnosticSessionControl = Inl (OperationBlocked K_DiagnosticSessionControl)"
| "authorize p R_ActuatorTest = Inl (OperationBlocked K_ActuatorTest)"
| "authorize p R_BasicSettings = Inl (OperationBlocked K_BasicSettings)"
| "authorize p R_Coding = Inl (OperationBlocked K_Coding)"
| "authorize p R_Adaptation = Inl (OperationBlocked K_Adaptation)"
| "authorize p R_EcuReset = Inl (OperationBlocked K_EcuReset)"
| "authorize p R_ForcedRegeneration = Inl (OperationBlocked K_ForcedRegeneration)"
| "authorize p R_RoutineControl = Inl (OperationBlocked K_RoutineControl)"
| "authorize p R_RawCanInjection = Inl (OperationBlocked K_RawCanInjection)"
| "authorize p R_RawUdsInjection = Inl (OperationBlocked K_RawUdsInjection)"
| "authorize p R_RawElmInjection = Inl (OperationBlocked K_RawElmInjection)"

fun activity_allows :: "activity \<Rightarrow> operation_kind \<Rightarrow> bool" where
  "activity_allows Read k = (k \<in> {K_SignalRead, K_KnowledgeRead})"
| "activity_allows Observe k = (k \<in> {K_SignalRead, K_KnowledgeRead})"
| "activity_allows Diagnose k =
     (k \<in> {K_DtcRead, K_EcuIdentification, K_KnowledgeRead, K_KnowledgeLearning,
           K_KnowledgeLearningRead, K_ExtendedSessionRead, K_AdapterThroughput})"
| "activity_allows Idle k = False"
| "activity_allows Write k = False"

definition authorize_activity ::
  "safety_policy \<Rightarrow> activity \<Rightarrow> operation_request \<Rightarrow> safety_error + operation" where
  "authorize_activity p a r =
     (if a = Write then Inl WriteUnavailable
      else let kind = request_kind r
           in and_then (authorize p r) (\<lambda>executable.
                if \<not> activity_allows a kind then Inl (ActivityNotAllowed a kind)
                else Inr executable))"

section \<open>What leaves the boundary\<close>

text \<open>The request an operation stands for; the image of this map is the read-only vocabulary.\<close>

fun request_of :: "operation \<Rightarrow> operation_request" where
  "request_of (O_ReadSignal r) = R_ReadSignal r"
| "request_of (O_ReadDtcs k) = R_ReadDtcs k"
| "request_of (O_EcuIdentification c) = R_EcuIdentification c"
| "request_of (O_KnowledgeRead c) = R_KnowledgeRead c"
| "request_of O_KnowledgeLearning = R_KnowledgeLearning"
| "request_of (O_KnowledgeLearningRead c) = R_KnowledgeLearningRead c"
| "request_of (O_ExtendedSessionRead c) = R_ExtendedSessionRead c"
| "request_of O_AdapterThroughput = R_AdapterThroughput"

lemma request_of_kind [simp]: "request_kind (request_of op) = kind_of_operation op"
  by (cases op) simp_all

lemma supports_operation [simp]: "capability_supports c (kind_of_operation op)"
  by (cases c; cases op) simp_all

lemma authorize_operation_ok [simp]: "authorize_operation p op = Inr op"
  by (simp add: authorize_operation_def)

lemma authorize_iff: "authorize p r = Inr op \<longleftrightarrow> r = request_of op"
  by (cases r; cases op) (auto simp: authorize_read_def)

lemma authorize_cases:
  obtains op where "r = request_of op" "authorize p r = Inr op"
  | "r \<notin> range request_of" "authorize p r = Inl (OperationBlocked (request_kind r))"
proof (cases "\<exists>op. authorize p r = Inr op")
  case True
  then show ?thesis using that(1) authorize_iff by blast
next
  case False
  then have n: "r \<notin> range request_of" using authorize_iff by blast
  have "authorize p r = Inl (OperationBlocked (request_kind r))"
    using False by (cases r) (simp_all add: authorize_read_def)
  then show ?thesis using that(2) n by blast
qed

lemma request_of_inject [simp]: "request_of a = request_of b \<longleftrightarrow> a = b"
  by (cases a; cases b) simp_all

section \<open>Properties\<close>

text \<open>C10: the boundary is exact, spelled out over the whole vocabulary: a request becomes an
  operation only as itself, its payload unchanged; a signal is read only under read or observe,
  a Knowledge value under read, observe or diagnose, and everything else that can be executed
  only under diagnose; idle and write execute nothing.\<close>

theorem authorize_activity_exact:
  "authorize_activity p a r = Inr op \<longleftrightarrow>
     (case op of
        O_ReadSignal x \<Rightarrow> r = R_ReadSignal x \<and> a \<in> {Read, Observe}
      | O_KnowledgeRead x \<Rightarrow> r = R_KnowledgeRead x \<and> a \<in> {Read, Observe, Diagnose}
      | O_ReadDtcs k \<Rightarrow> r = R_ReadDtcs k \<and> a = Diagnose
      | O_EcuIdentification x \<Rightarrow> r = R_EcuIdentification x \<and> a = Diagnose
      | O_KnowledgeLearning \<Rightarrow> r = R_KnowledgeLearning \<and> a = Diagnose
      | O_KnowledgeLearningRead x \<Rightarrow> r = R_KnowledgeLearningRead x \<and> a = Diagnose
      | O_ExtendedSessionRead x \<Rightarrow> r = R_ExtendedSessionRead x \<and> a = Diagnose
      | O_AdapterThroughput \<Rightarrow> r = R_AdapterThroughput \<and> a = Diagnose)"
proof -
  have "authorize_activity p a r = Inr op \<longleftrightarrow>
      r = request_of op \<and> a \<noteq> Write \<and> activity_allows a (kind_of_operation op)"
    by (cases rule: authorize_cases [of r p])
      (auto simp: authorize_activity_def Let_def authorize_iff)
  then show ?thesis by (cases op; cases a) simp_all
qed

text \<open>C11: no activity hides a mutating request: outside the write activity each of the thirteen
  requests that could change the vehicle is rejected as blocked, under its own operation class,
  before the activity is looked at; in the write activity every request, a read included, is
  rejected as unavailable.\<close>

theorem mutation_always_blocked:
  assumes "a \<noteq> Write"
    and "(r, k) \<in> {(R_ClearDtcs, K_DtcClear), (R_SecurityAccess, K_SecurityAccess),
      (R_DiagnosticSessionControl, K_DiagnosticSessionControl),
      (R_ActuatorTest, K_ActuatorTest), (R_BasicSettings, K_BasicSettings),
      (R_Coding, K_Coding), (R_Adaptation, K_Adaptation), (R_EcuReset, K_EcuReset),
      (R_ForcedRegeneration, K_ForcedRegeneration), (R_RoutineControl, K_RoutineControl),
      (R_RawCanInjection, K_RawCanInjection), (R_RawUdsInjection, K_RawUdsInjection),
      (R_RawElmInjection, K_RawElmInjection)}"
  shows "authorize_activity p a r = Inl (OperationBlocked k) \<and>
    authorize_activity p Write q = Inl WriteUnavailable"
proof
  have "authorize p r = Inl (OperationBlocked k)" using assms(2) by auto
  then show "authorize_activity p a r = Inl (OperationBlocked k)"
    using assms(1) by (simp add: authorize_activity_def Let_def)
  show "authorize_activity p Write q = Inl WriteUnavailable"
    by (simp add: authorize_activity_def)
qed

theorem mutation_always_blocked_witness:
  "authorize_activity policy_read_only Diagnose R_EcuReset = Inl (OperationBlocked K_EcuReset) \<and>
   authorize_activity policy_read_only Write (R_ReadDtcs Dtc_All) = Inl WriteUnavailable"
  by (rule mutation_always_blocked) simp_all

text \<open>Knowledge that needs the extended diagnostic session stays inside the diagnose
  activity: of the three ways to request a definition, the plain read succeeds exactly when no
  session is needed and the two session reads exactly when it is, and under read or observe no
  request built from a definition that needs the session is ever authorised.\<close>

lemma extended_session_separated:
  "((\<exists>r. request_knowledge_read d = Inr r) \<longleftrightarrow> \<not> kd_requires_extended_session d) \<and>
   ((\<exists>r. request_extended_session_read d = Inr r) \<longleftrightarrow> kd_requires_extended_session d) \<and>
   ((\<exists>r. request_knowledge_learning_read d = Inr r) \<longleftrightarrow> kd_requires_extended_session d) \<and>
   (\<forall>r a op. Inr r \<in> {request_knowledge_read d, request_extended_session_read d,
        request_knowledge_learning_read d} \<longrightarrow>
      authorize_activity p a r = Inr op \<longrightarrow> kd_requires_extended_session d \<longrightarrow> a = Diagnose)"
proof -
  have "a = Diagnose" if "Inr r \<in> {request_knowledge_read d, request_extended_session_read d,
        request_knowledge_learning_read d}" "authorize_activity p a r = Inr op"
      "kd_requires_extended_session d" for r a op
    using that
    by (cases a) (auto simp: authorize_activity_def request_knowledge_read_def Let_def
        request_extended_session_read_def request_knowledge_learning_read_def)
  then show ?thesis
    by (auto simp: request_knowledge_read_def request_extended_session_read_def
        request_knowledge_learning_read_def)
qed

lemma extended_session_separated_witness:
  "\<exists>r. request_extended_session_read
         \<lparr>kd_id = ''x'', kd_did = 0x1000, kd_requires_extended_session = True\<rparr> = Inr r \<and>
     authorize_activity policy_read_only Diagnose r =
       Inr (O_ExtendedSessionRead \<lparr>kr_definition_id = ''x'', kr_did = 0x1000\<rparr>)"
proof -
  let ?d = "\<lparr>kd_id = ''x'', kd_did = 0x1000, kd_requires_extended_session = True\<rparr>"
  obtain r where r: "request_extended_session_read ?d = Inr r"
    using extended_session_separated [of ?d policy_read_only] by auto
  then have "r = R_ExtendedSessionRead \<lparr>kr_definition_id = ''x'', kr_did = 0x1000\<rparr>"
    by (simp add: request_extended_session_read_def knowledge_request_of_def)
  then show ?thesis using r by (auto simp: authorize_activity_def)
qed

end
