(* ===== verification/Requests.thy ===== *)
theory Requests
  imports Responses Safety
begin

text \<open>
  The closed request vocabulary of an ELM session, \<open>src/elm.rs\<close>, and the request targets of
  \<open>src/topology.rs\<close>: how a target is validated, and the exact command text of every request.
  A request value can only be built by its constructor function, so the lemmas about the
  constructors hold of every request.
\<close>

section \<open>Targets\<close>

datatype protocol = Obd2 | Uds | Can | Doip | Protocol_Unknown | Protocol_VendorSpecific string

datatype addressing_context =
  Functional | Physical | Addressing_Unknown | Addressing_VendorSpecific string

record protocol_context =
  pc_protocol :: protocol
  pc_addressing :: addressing_context

record request_address =
  ra_namespace :: string
  ra_value :: string

record request_target =
  rt_context :: protocol_context
  rt_address :: "request_address option"

definition validate_request_target :: "request_target \<Rightarrow> string + unit" where
  "validate_request_target t =
     (if pc_protocol (rt_context t) \<noteq> Obd2 \<or> pc_addressing (rt_context t) \<noteq> Physical
      then Inl ''targeted reads require physical OBD-II addressing''
      else and_then (ok_or ''targeted reads require a concrete request address'' (rt_address t))
        (\<lambda>a. if ra_namespace a \<noteq> ''elm-header''
             then Inl ''targeted reads require an elm-header request address''
             else validate_header_value (ra_value a) ''request address''))"

text \<open>\<open>target_key\<close>: the header and the filter; no concrete address is a panic (\<open>expect\<close>).\<close>

type_synonym target_key = "string \<times> string"

definition target_key :: "request_target \<Rightarrow> responder_identity \<Rightarrow> string failure + target_key" where
  "target_key t expected =
     (case rt_address t of
        None \<Rightarrow> Inl Panicked
      | Some a \<Rightarrow> Inr (to_ascii_uppercase (ra_value a), responder_str expected))"

section \<open>Requests\<close>

record targeted_read_request =
  tr_request :: read_request
  tr_target :: request_target
  tr_expected :: responder_identity

definition upper_responder :: "responder_identity \<Rightarrow> responder_identity" where
  "upper_responder i = ElmHeader (to_ascii_uppercase (responder_str i))"

definition targeted_read_new ::
  "read_request \<Rightarrow> request_target \<Rightarrow> responder_identity \<Rightarrow> string + targeted_read_request" where
  "targeted_read_new r t expected =
     and_then (validate_request_target t) (\<lambda>_.
     and_then (validate_elm_header expected ''expected responder'') (\<lambda>_.
       Inr \<lparr>tr_request = r, tr_target = t, tr_expected = upper_responder expected\<rparr>))"

record targeted_multi_request =
  tm_requests :: "read_request list"
  tm_target :: request_target
  tm_expected :: responder_identity

definition targeted_multi_new ::
  "read_request list \<Rightarrow> request_target \<Rightarrow> responder_identity \<Rightarrow> string + targeted_multi_request" where
  "targeted_multi_new rs t expected =
     (if \<not> (2 \<le> length rs \<and> length rs \<le> 6) then Inl ''a multi-PID request needs 2 to 6 PIDs''
      else if length (remdups_adj (sort (map rr_pid rs))) \<noteq> length rs
      then Inl ''a multi-PID request must not repeat a PID''
      else and_then (targeted_read_new (hd rs) t expected) (\<lambda>single.
        Inr \<lparr>tm_requests = rs, tm_target = tr_target single, tm_expected = tr_expected single\<rparr>))"

record targeted_mode09_request =
  t9_pid :: mode09_pid
  t9_target :: request_target
  t9_expected :: responder_identity

definition targeted_mode09_new ::
  "mode09_pid \<Rightarrow> request_target \<Rightarrow> responder_identity \<Rightarrow> string + targeted_mode09_request" where
  "targeted_mode09_new p t expected =
     and_then (validate_request_target t) (\<lambda>_.
     and_then (validate_elm_header expected ''expected responder'') (\<lambda>_.
       Inr \<lparr>t9_pid = p, t9_target = t, t9_expected = upper_responder expected\<rparr>))"

record targeted_identification_request =
  ti_candidate :: identification_candidate
  ti_did :: u16
  ti_target :: request_target
  ti_expected :: responder_identity

definition targeted_identification_new ::
  "identification_candidate \<Rightarrow> request_target \<Rightarrow> responder_identity \<Rightarrow>
     string + targeted_identification_request" where
  "targeted_identification_new c t expected =
     and_then (validate_request_target t) (\<lambda>_.
     and_then (validate_elm_header expected ''expected responder'') (\<lambda>_.
       if op_request_bytes (UdsReadDataByIdentifier (ic_did c)) \<noteq> Some (candidate_request_bytes c)
       then Inl ''ECU identification candidate did not resolve deterministically''
       else Inr \<lparr>ti_candidate = c, ti_did = ic_did c, ti_target = t,
                 ti_expected = upper_responder expected\<rparr>))"

record functional_serial_probe =
  fp_candidate :: identification_candidate

definition functional_serial_probe_new ::
  "identification_candidate \<Rightarrow> string + functional_serial_probe" where
  "functional_serial_probe_new c =
     (if ic_did c \<noteq> 0xF18C \<or> ic_semantic c \<noteq> ''ecu.serial_number''
      then Inl ''functional ECU responder probing is limited to standard F18C''
      else Inr \<lparr>fp_candidate = c\<rparr>)"

datatype uds_session_command = Enter | Leave | TesterPresent

section \<open>Commands\<close>

text \<open>Every command ends with a carriage return.\<close>

definition cr :: "string \<Rightarrow> string" where
  "cr s = s @ [CHR 0x0D]"

definition obd_command :: "read_request \<Rightarrow> string" where
  "obd_command r = cr (concat (map fmt_02X (rr_bytes r)))"

definition uds_command :: "u16 \<Rightarrow> string" where
  "uds_command did = cr (fmt_02X 0x22 @ fmt_02X (did_high did) @ fmt_02X (did_low did))"

definition did_command :: "u16 \<Rightarrow> string" where
  "did_command did = cr (''22'' @ fmt_04X did)"

definition multi_command :: "targeted_multi_request \<Rightarrow> string" where
  "multi_command r = cr (''01'' @ concat (map (\<lambda>q. fmt_02X (rr_pid q)) (tm_requests r)))"

definition mode09_command :: "mode09_pid \<Rightarrow> string" where
  "mode09_command p = cr (''09'' @ fmt_02X (mode09_pid_byte p))"

definition support_command :: "u8 \<Rightarrow> string" where
  "support_command page = cr (''01'' @ fmt_02X page)"

fun session_wire :: "uds_session_command \<Rightarrow> string \<times> bytes" where
  "session_wire Enter = (''1003'', [0x50, 0x03])"
| "session_wire Leave = (''1001'', [0x50, 0x01])"
| "session_wire TesterPresent = (''3E80'', [0x7E, 0x00])"

text \<open>The two spellings of a DID read agree.\<close>

lemma did_command_uds: "did_command did = uds_command did"
proof -
  let ?n = "unat did"
  have hi: "unat (did_high did) = ?n div 256"
    unfolding did_high_def by (rule unat_u8_of_nat) (simp add: less_mult_imp_div_less)
  have lo: "unat (did_low did) = ?n mod 256"
    unfolding did_low_def by (rule unat_u8_of_nat) simp
  have "?n mod (16 * 16) = 16 * (?n div 16 mod 16) + ?n mod 16" by (rule mod_mult2_eq)
  then have "?n mod 256 div 16 = ?n div 16 mod 16" by simp
  moreover have "?n div 256 div 16 = ?n div 4096" by (simp flip: div_mult2_eq)
  moreover have "?n mod 256 mod 16 = ?n mod 16" by (simp add: mod_mod_cancel)
  moreover have "fmt_02X (0x22 :: u8) = ''22''" by (simp add: fmt_02X_def hex_digit_def)
  ultimately show ?thesis
    by (simp add: did_command_def uds_command_def fmt_04X_def fmt_02X_def hi lo)
qed

end
