(* ===== verification/Topology.thy ===== *)
theory Topology
  imports Requests "HOL-Library.List_Lexorder" "HOL-Library.Product_Lexorder" "HOL-Library.Char_ord"
    "HOL-Library.Option_ord" "HOL-Library.Multiset"
begin

text \<open>
  The topology facts of \<open>src/topology.rs\<close>: provenance, responder identities, target evidence,
  configured controllers, observed responders, nodes and the topology itself.  The code keeps
  nodes and responders sorted by the derived order of their types; here each type has a key in a
  library order that compares as the derived \<open>Ord\<close> does (fields in their order, variants in
  theirs), and the interface \<open>canonical_order\<close> says what sorting by such a key gives.
\<close>

section \<open>Sorting by an injective key\<close>

text \<open>Sorting with the duplicates dropped: \<open>sort\<close> and \<open>dedup\<close>, or a \<open>BTreeSet\<close>.\<close>

definition canon :: "('a \<Rightarrow> 'k :: linorder) \<Rightarrow> 'a list \<Rightarrow> 'a list" where
  "canon key xs = remdups_adj (sort_key key xs)"

lemma canon_set [simp]: "set (canon key xs) = set xs"
  by (simp add: canon_def)

lemma canon_Nil_iff [simp]: "canon key xs = [] \<longleftrightarrow> xs = []"
  using canon_set [of key xs] by (metis set_empty)

locale canonical_order =
  fixes key :: "'a \<Rightarrow> 'k :: linorder"
  assumes key_inj: "key x = key y \<Longrightarrow> x = y"
begin

text \<open>A sorted list is determined by its elements.\<close>

lemma sort_determined:
  assumes "mset xs = mset ys"
  shows "sort_key key xs = sort_key key ys"
proof (rule sort_key_inj_key_eq)
  show "mset xs = mset (sort_key key ys)" using assms by simp
  show "inj_on key (set xs)" by (rule inj_onI) (rule key_inj)
qed simp

lemma sort_twice: "sort_key key (sort_key key xs @ ys) = sort_key key (xs @ ys)"
  by (rule sort_determined) simp

lemma sort_swap: "sort_key key (xs @ ys) = sort_key key (ys @ xs)"
  by (rule sort_determined) simp

lemma sort_assoc:
  "sort_key key (sort_key key (xs @ ys) @ zs) = sort_key key (xs @ sort_key key (ys @ zs))"
  by (rule sort_determined) simp

lemma sort_pushes: "foldl (\<lambda>l x. sort_key key (l @ [x])) (sort_key key xs) ys = sort_key key (xs @ ys)"
proof (induction ys arbitrary: xs)
  case (Cons y ys)
  from Cons [of "xs @ [y]"] show ?case by (simp add: sort_twice)
qed simp

lemma sort_id: "sorted (map key xs) \<Longrightarrow> sort_key key xs = xs"
  by (rule sort_key_id_if_sorted)

lemma same_set_remdups:
  assumes "set xs = set ys"
  shows "sort_key key (remdups xs) = sort_key key (remdups ys)"
  using assms by (intro sort_determined) (simp add: set_eq_iff_mset_remdups_eq)

lemma distinct_sorted_remdups: "sorted (map key xs) \<Longrightarrow> distinct (remdups_adj xs)"
proof (induction xs rule: remdups_adj.induct)
  case (3 x y xs)
  then show ?case
  proof (cases "x = y")
    case False
    have "key x < key z" if "z \<in> set (y # xs)" for z
    proof -
      have "key x \<le> key y" "key y \<le> key z" using 3(3) that by auto
      moreover have "key x \<noteq> key y" using False key_inj by blast
      ultimately show ?thesis by simp
    qed
    then have "x \<notin> set (y # xs)" by blast
    then show ?thesis using 3 False by simp
  qed simp
qed simp_all

lemma canon_distinct: "distinct (canon key xs)"
  unfolding canon_def by (rule distinct_sorted_remdups) simp

lemma canon_sorted: "sorted (map key (canon key xs))"
proof -
  have "map key (canon key xs) = remdups_adj (map key (sort_key key xs))"
    unfolding canon_def by (rule remdups_adj_map_injective [symmetric]) (rule injI, rule key_inj)
  then show ?thesis by (simp add: sorted_remdups_adj)
qed

text \<open>The arrangement depends on the set alone, and what is arranged stays as it is.\<close>

lemma canon_determined:
  assumes "set xs = set ys"
  shows "canon key xs = canon key ys"
proof -
  have "mset (canon key xs) = mset (canon key ys)"
    using assms canon_distinct set_eq_iff_mset_eq_distinct [of "canon key xs" "canon key ys"] by simp
  then have "sort_key key (canon key xs) = sort_key key (canon key ys)" by (rule sort_determined)
  then show ?thesis using sort_id [OF canon_sorted] by simp
qed

lemma canon_id:
  assumes "sorted (map key xs)" and "distinct xs"
  shows "canon key xs = xs"
  unfolding canon_def sort_id [OF assms(1)] by (rule remdups_adj_distinct) (rule assms(2))

lemma canon_canon [simp]: "canon key (canon key xs) = canon key xs"
  by (rule canon_id [OF canon_sorted canon_distinct])

lemma canon_sort [simp]: "sort_key key (canon key xs) = canon key xs"
  by (rule sort_id) (rule canon_sorted)

lemma canon_pushes: "foldl (\<lambda>l x. canon key (l @ [x])) (canon key xs) ys = canon key (xs @ ys)"
proof (induction ys arbitrary: xs)
  case (Cons y ys)
  have "canon key (canon key xs @ [y]) = canon key (xs @ [y])" by (rule canon_determined) simp
  then show ?case using Cons [of "xs @ [y]"] by simp
qed simp

end

section \<open>Provenance\<close>

datatype confidence = Confidence_Unknown | Low | Medium | High | Verified

fun confidence_key :: "confidence \<Rightarrow> nat" where
  "confidence_key Confidence_Unknown = 0"
| "confidence_key Low = 1"
| "confidence_key Medium = 2"
| "confidence_key High = 3"
| "confidence_key Verified = 4"

record provenance =
  pv_source :: string
  pv_confidence :: confidence

datatype topology_error =
  EmptyProvenanceSource | ObservationWindowReversed | ConfiguredControllerHasNoIdentity

fun topology_error_text :: "topology_error \<Rightarrow> string" where
  "topology_error_text EmptyProvenanceSource = ''topology provenance source must not be empty''"
| "topology_error_text ObservationWindowReversed =
     ''topology observation window ends before it starts''"
| "topology_error_text ConfiguredControllerHasNoIdentity =
     ''configured controller must have an identity or logical address''"

definition provenance_new :: "string \<Rightarrow> confidence \<Rightarrow> topology_error + provenance" where
  "provenance_new source c =
     (if trim source = [] then Inl EmptyProvenanceSource
      else Inr \<lparr>pv_source = source, pv_confidence = c\<rparr>)"

type_synonym provenance_order = "string \<times> nat"

definition provenance_key :: "provenance \<Rightarrow> provenance_order" where
  "provenance_key p = (pv_source p, confidence_key (pv_confidence p))"

section \<open>Contexts and identities\<close>

fun protocol_key :: "protocol \<Rightarrow> nat \<times> string" where
  "protocol_key Obd2 = (0, [])"
| "protocol_key Uds = (1, [])"
| "protocol_key Can = (2, [])"
| "protocol_key Doip = (3, [])"
| "protocol_key Protocol_Unknown = (4, [])"
| "protocol_key (Protocol_VendorSpecific s) = (5, s)"

fun addressing_key :: "addressing_context \<Rightarrow> nat \<times> string" where
  "addressing_key Functional = (0, [])"
| "addressing_key Physical = (1, [])"
| "addressing_key Addressing_Unknown = (2, [])"
| "addressing_key (Addressing_VendorSpecific s) = (3, s)"

type_synonym context_order = "(nat \<times> string) \<times> nat \<times> string"

definition context_key :: "protocol_context \<Rightarrow> context_order" where
  "context_key c = (protocol_key (pc_protocol c), addressing_key (pc_addressing c))"

text \<open>The identity a responder reports; \<open>ResponderIdentity\<close> of this module, not of the session.\<close>

datatype topology_identity =
    Address_Identity protocol_context string
  | Opaque_Identity protocol_context string
  | Unknown_Identity protocol_context

fun identity_context :: "topology_identity \<Rightarrow> protocol_context" where
  "identity_context (Address_Identity c _) = c"
| "identity_context (Opaque_Identity c _) = c"
| "identity_context (Unknown_Identity c) = c"

fun identity_value :: "topology_identity \<Rightarrow> string option" where
  "identity_value (Address_Identity _ v) = Some v"
| "identity_value (Opaque_Identity _ v) = Some v"
| "identity_value (Unknown_Identity _) = None"

type_synonym identity_order = "nat \<times> context_order \<times> string"

fun identity_key :: "topology_identity \<Rightarrow> identity_order" where
  "identity_key (Address_Identity c v) = (0, context_key c, v)"
| "identity_key (Opaque_Identity c v) = (1, context_key c, v)"
| "identity_key (Unknown_Identity c) = (2, context_key c, [])"

section \<open>Evidence\<close>

record request_target_evidence =
  te_target :: request_target
  te_provenance :: provenance

record configured_identity =
  ci_authority :: string
  ci_identifier :: string

record logical_address =
  la_authority :: string
  la_value :: string

record configured_controller =
  cc_identity :: "configured_identity option"
  cc_logical :: "logical_address option"
  cc_provenance :: provenance

definition configured_controller_new ::
  "configured_identity option \<Rightarrow> logical_address option \<Rightarrow> provenance \<Rightarrow>
     topology_error + configured_controller" where
  "configured_controller_new i l p =
     (if i = None \<and> l = None then Inl ConfiguredControllerHasNoIdentity
      else Inr \<lparr>cc_identity = i, cc_logical = l, cc_provenance = p\<rparr>)"

record observation_window =
  ow_first_ms :: u64
  ow_last_ms :: u64

definition observation_window_new :: "u64 \<Rightarrow> u64 \<Rightarrow> topology_error + observation_window" where
  "observation_window_new first_ms last_ms =
     (if last_ms < first_ms then Inl ObservationWindowReversed
      else Inr \<lparr>ow_first_ms = first_ms, ow_last_ms = last_ms\<rparr>)"

record observed_responder =
  od_identity :: topology_identity
  od_payload :: "bytes option"
  od_observation :: "observation_window option"
  od_provenance :: provenance

definition observed_responder_new :: "topology_identity \<Rightarrow> provenance \<Rightarrow> observed_responder" where
  "observed_responder_new i p =
     \<lparr>od_identity = i, od_payload = None, od_observation = None, od_provenance = p\<rparr>"

definition with_payload :: "bytes \<Rightarrow> observed_responder \<Rightarrow> observed_responder" where
  "with_payload payload r = r\<lparr>od_payload := Some payload\<rparr>"

definition with_observation :: "observation_window \<Rightarrow> observed_responder \<Rightarrow> observed_responder" where
  "with_observation w r = r\<lparr>od_observation := Some w\<rparr>"

definition observed_at :: "u64 \<Rightarrow> observed_responder \<Rightarrow> observed_responder" where
  "observed_at t r = with_observation \<lparr>ow_first_ms = t, ow_last_ms = t\<rparr> r"

datatype reachability_state = Reach_Observed | Reach_NotObserved | Reach_Unknown

fun reachability_key :: "reachability_state \<Rightarrow> nat" where
  "reachability_key Reach_Observed = 0"
| "reachability_key Reach_NotObserved = 1"
| "reachability_key Reach_Unknown = 2"

record reachability_evidence =
  re_state :: reachability_state
  re_provenance :: provenance

datatype ecu_role = Engine | Transmission | Gateway | Role_Unknown | Role_VendorSpecific string

fun role_key :: "ecu_role \<Rightarrow> nat \<times> string" where
  "role_key Engine = (0, [])"
| "role_key Transmission = (1, [])"
| "role_key Gateway = (2, [])"
| "role_key Role_Unknown = (3, [])"
| "role_key (Role_VendorSpecific s) = (4, s)"

record role_assignment =
  as_role :: ecu_role
  as_provenance :: provenance

section \<open>Nodes\<close>

record ecu_node =
  en_context :: protocol_context
  en_provenance :: provenance
  en_configured :: "configured_controller option"
  en_responders :: "observed_responder list"
  en_reachability :: "reachability_evidence option"
  en_target :: "request_target_evidence option"
  en_role :: "role_assignment option"

text \<open>The derived orders.\<close>

type_synonym target_order =
  "context_order \<times> (string \<times> string) option"

definition target_order_key :: "request_target \<Rightarrow> target_order" where
  "target_order_key t =
     (context_key (rt_context t), map_option (\<lambda>a. (ra_namespace a, ra_value a)) (rt_address t))"

type_synonym target_evidence_order =
  "target_order \<times> provenance_order"

definition target_evidence_key :: "request_target_evidence \<Rightarrow> target_evidence_order" where
  "target_evidence_key e = (target_order_key (te_target e), provenance_key (te_provenance e))"

type_synonym configured_order =
  "(string \<times> string) option \<times> (string \<times> string) option \<times> provenance_order"

definition configured_key :: "configured_controller \<Rightarrow> configured_order" where
  "configured_key c =
     (map_option (\<lambda>i. (ci_authority i, ci_identifier i)) (cc_identity c),
      map_option (\<lambda>l. (la_authority l, la_value l)) (cc_logical c),
      provenance_key (cc_provenance c))"

type_synonym observed_order =
  "identity_order \<times> bytes option \<times> (u64 \<times> u64) option \<times> provenance_order"

definition observed_key :: "observed_responder \<Rightarrow> observed_order" where
  "observed_key r =
     (identity_key (od_identity r), od_payload r,
      map_option (\<lambda>w. (ow_first_ms w, ow_last_ms w)) (od_observation r),
      provenance_key (od_provenance r))"

type_synonym node_order =
  "context_order \<times> provenance_order \<times> configured_order option \<times> observed_order list \<times>
    (nat \<times> provenance_order) option \<times> target_evidence_order option \<times> ((nat \<times> string) \<times> provenance_order) option"

definition node_key :: "ecu_node \<Rightarrow> node_order" where
  "node_key n =
     (context_key (en_context n), provenance_key (en_provenance n),
      map_option configured_key (en_configured n), map observed_key (en_responders n),
      map_option (\<lambda>r. (reachability_key (re_state r), provenance_key (re_provenance r))) (en_reachability n),
      map_option target_evidence_key (en_target n),
      map_option (\<lambda>r. (role_key (as_role r), provenance_key (as_provenance r))) (en_role n))"

definition ecu_node_new :: "protocol_context \<Rightarrow> provenance \<Rightarrow> ecu_node" where
  "ecu_node_new c p =
     \<lparr>en_context = c, en_provenance = p, en_configured = None, en_responders = [],
      en_reachability = None, en_target = None, en_role = None\<rparr>"

definition with_observed_responder :: "observed_responder \<Rightarrow> ecu_node \<Rightarrow> ecu_node" where
  "with_observed_responder r n = n\<lparr>en_responders := sort_key observed_key (en_responders n @ [r])\<rparr>"

definition with_configured_controller :: "configured_controller \<Rightarrow> ecu_node \<Rightarrow> ecu_node" where
  "with_configured_controller c n = n\<lparr>en_configured := Some c\<rparr>"

definition with_reachability :: "reachability_evidence \<Rightarrow> ecu_node \<Rightarrow> ecu_node" where
  "with_reachability r n = n\<lparr>en_reachability := Some r\<rparr>"

definition with_request_target :: "request_target_evidence \<Rightarrow> ecu_node \<Rightarrow> ecu_node" where
  "with_request_target t n = n\<lparr>en_target := Some t\<rparr>"

definition with_role :: "role_assignment \<Rightarrow> ecu_node \<Rightarrow> ecu_node" where
  "with_role r n = n\<lparr>en_role := Some r\<rparr>"

definition list_min :: "'a :: linorder list \<Rightarrow> 'a option" where
  "list_min xs = (case xs of [] \<Rightarrow> None | x # r \<Rightarrow> Some (foldl min x r))"

definition list_max :: "'a :: linorder list \<Rightarrow> 'a option" where
  "list_max xs = (case xs of [] \<Rightarrow> None | x # r \<Rightarrow> Some (foldl max x r))"

definition first_observed_ms :: "ecu_node \<Rightarrow> u64 option" where
  "first_observed_ms n =
     list_min (map ow_first_ms (List.map_filter od_observation (en_responders n)))"

definition last_observed_ms :: "ecu_node \<Rightarrow> u64 option" where
  "last_observed_ms n =
     list_max (map ow_last_ms (List.map_filter od_observation (en_responders n)))"

section \<open>Topologies\<close>

type_synonym ecu_topology = "ecu_node list"

definition topology_from_nodes :: "ecu_node list \<Rightarrow> ecu_topology" where
  "topology_from_nodes nodes = sort_key node_key nodes"

definition topology_push :: "ecu_node \<Rightarrow> ecu_topology \<Rightarrow> ecu_topology" where
  "topology_push node t = sort_key node_key (t @ [node])"

definition topology_merge :: "ecu_topology \<Rightarrow> ecu_topology \<Rightarrow> ecu_topology" where
  "topology_merge a b = sort_key node_key (a @ b)"

section \<open>The keys are injective\<close>

named_theorems key_simps

lemma confidence_key_inj [key_simps]: "confidence_key a = confidence_key b \<longleftrightarrow> a = b"
  by (cases a; cases b) simp_all

lemma reachability_key_inj [key_simps]: "reachability_key a = reachability_key b \<longleftrightarrow> a = b"
  by (cases a; cases b) simp_all

lemma protocol_key_inj [key_simps]: "protocol_key a = protocol_key b \<longleftrightarrow> a = b"
  by (cases a; cases b) simp_all

lemma addressing_key_inj [key_simps]: "addressing_key a = addressing_key b \<longleftrightarrow> a = b"
  by (cases a; cases b) simp_all

lemma role_key_inj [key_simps]: "role_key a = role_key b \<longleftrightarrow> a = b"
  by (cases a; cases b) simp_all

lemma provenance_key_inj [key_simps]: "provenance_key a = provenance_key b \<longleftrightarrow> a = b"
  by (cases a; cases b) (simp add: provenance_key_def key_simps)

lemma context_key_inj [key_simps]: "context_key a = context_key b \<longleftrightarrow> a = b"
  by (cases a; cases b) (simp add: context_key_def key_simps)

lemma identity_key_inj [key_simps]: "identity_key a = identity_key b \<longleftrightarrow> a = b"
  by (cases a; cases b) (simp_all add: key_simps)

text \<open>Keys of options and lists.\<close>

lemma map_option_key:
  assumes "\<And>a b. f a = f b \<longleftrightarrow> a = b"
  shows "map_option f x = map_option f y \<longleftrightarrow> x = y"
  by (cases x; cases y) (simp_all add: assms)

lemma map_list_key:
  assumes "\<And>a b. f a = f b \<longleftrightarrow> a = b"
  shows "map f xs = map f ys \<longleftrightarrow> xs = ys"
  using assms by (intro inj_map_eq_map) (simp add: inj_def)

lemma target_order_key_inj [key_simps]: "target_order_key a = target_order_key b \<longleftrightarrow> a = b"
proof -
  have "map_option (\<lambda>a. (ra_namespace a, ra_value a)) x = map_option (\<lambda>a. (ra_namespace a, ra_value a)) y
      \<longleftrightarrow> x = y" for x y :: "request_address option"
    by (rule map_option_key) (metis request_address.surjective unit.exhaust Pair_inject)
  then show ?thesis by (cases a; cases b) (simp add: target_order_key_def key_simps)
qed

lemma target_evidence_key_inj [key_simps]: "target_evidence_key a = target_evidence_key b \<longleftrightarrow> a = b"
  by (cases a; cases b) (simp add: target_evidence_key_def key_simps)

lemma configured_key_inj [key_simps]: "configured_key a = configured_key b \<longleftrightarrow> a = b"
proof -
  have "map_option (\<lambda>i. (ci_authority i, ci_identifier i)) x = map_option (\<lambda>i. (ci_authority i, ci_identifier i)) y
      \<longleftrightarrow> x = y" for x y :: "configured_identity option"
    by (rule map_option_key) (metis configured_identity.surjective unit.exhaust Pair_inject)
  moreover have "map_option (\<lambda>l. (la_authority l, la_value l)) x = map_option (\<lambda>l. (la_authority l, la_value l)) y
      \<longleftrightarrow> x = y" for x y :: "logical_address option"
    by (rule map_option_key) (metis logical_address.surjective unit.exhaust Pair_inject)
  ultimately show ?thesis by (cases a; cases b) (simp add: configured_key_def key_simps)
qed

lemma observed_key_inj [key_simps]: "observed_key a = observed_key b \<longleftrightarrow> a = b"
proof -
  have "map_option (\<lambda>w. (ow_first_ms w, ow_last_ms w)) x = map_option (\<lambda>w. (ow_first_ms w, ow_last_ms w)) y
      \<longleftrightarrow> x = y" for x y :: "observation_window option"
    by (rule map_option_key) (metis observation_window.surjective unit.exhaust Pair_inject)
  then show ?thesis by (cases a; cases b) (auto simp add: observed_key_def key_simps)
qed

lemma reach_evidence_key_inj:
  "(reachability_key (re_state a), provenance_key (re_provenance (a :: reachability_evidence))) =
    (reachability_key (re_state b), provenance_key (re_provenance b)) \<longleftrightarrow> a = b"
  by (cases a; cases b) (simp add: key_simps)

lemma role_assignment_key_inj:
  "(role_key (as_role a), provenance_key (as_provenance (a :: role_assignment))) =
    (role_key (as_role b), provenance_key (as_provenance b)) \<longleftrightarrow> a = b"
  by (cases a; cases b) (simp add: key_simps)

lemma node_key_inj [key_simps]: "node_key a = node_key b \<longleftrightarrow> a = b"
proof (cases a; cases b)
  note opt = map_option_key [where f = configured_key, OF configured_key_inj]
    map_option_key [where f = target_evidence_key, OF target_evidence_key_inj]
    map_option_key [where f = "\<lambda>r. (reachability_key (re_state r), provenance_key (re_provenance r))",
      OF reach_evidence_key_inj]
    map_option_key [where f = "\<lambda>r. (role_key (as_role r), provenance_key (as_provenance r))",
      OF role_assignment_key_inj]
    map_list_key [where f = observed_key, OF observed_key_inj]
  fix c p cf rs re t ro c' p' cf' rs' re' t' ro'
  assume "a = \<lparr>en_context = c, en_provenance = p, en_configured = cf, en_responders = rs,
      en_reachability = re, en_target = t, en_role = ro\<rparr>"
    and "b = \<lparr>en_context = c', en_provenance = p', en_configured = cf', en_responders = rs',
      en_reachability = re', en_target = t', en_role = ro'\<rparr>"
  then show ?thesis unfolding node_key_def by (simp only: ecu_node.simps opt key_simps prod.inject ecu_node.iffs simp_thms)
qed

interpretation node_order: canonical_order node_key
  by unfold_locales (simp add: key_simps)

interpretation responder_order: canonical_order observed_key
  by unfold_locales (simp add: key_simps)

section \<open>Observation windows\<close>

lemma foldl_min: "foldl min (x :: 'a :: linorder) r \<in> set (x # r) \<and> (\<forall>y \<in> set (x # r). foldl min x r \<le> y)"
proof (induction r arbitrary: x)
  case (Cons z r)
  have "min x z = x \<or> min x z = z" by (simp add: min_def)
  then have "foldl min x (z # r) \<in> set (x # z # r)" using Cons [of "min x z"] by auto
  moreover have "foldl min (min x z) r \<le> min x z" using Cons [of "min x z"] by simp
  then have "foldl min (min x z) r \<le> x" "foldl min (min x z) r \<le> z" by simp_all
  ultimately show ?case using Cons [of "min x z"] by simp
qed simp

lemma foldl_max: "foldl max (x :: 'a :: linorder) r \<in> set (x # r) \<and> (\<forall>y \<in> set (x # r). y \<le> foldl max x r)"
proof (induction r arbitrary: x)
  case (Cons z r)
  have "max x z = x \<or> max x z = z" by (simp add: max_def)
  then have "foldl max x (z # r) \<in> set (x # z # r)" using Cons [of "max x z"] by auto
  moreover have "max x z \<le> foldl max (max x z) r" using Cons [of "max x z"] by simp
  then have "x \<le> foldl max (max x z) r" "z \<le> foldl max (max x z) r" by simp_all
  ultimately show ?case using Cons [of "max x z"] by simp
qed simp

lemma list_min_Some: "list_min xs = Some (m :: 'a :: linorder) \<Longrightarrow> m \<in> set xs \<and> (\<forall>x \<in> set xs. m \<le> x)"
  using foldl_min by (cases xs) (auto simp: list_min_def)

lemma list_max_Some: "list_max xs = Some (m :: 'a :: linorder) \<Longrightarrow> m \<in> set xs \<and> (\<forall>x \<in> set xs. x \<le> m)"
  using foldl_max by (cases xs) (auto simp: list_max_def)

section \<open>Collected facts\<close>

text \<open>A topology is the canonical arrangement of the facts contributed to it.  Merging is
  commutative and associative, pushes and merges in any order and grouping give the topology
  built from all nodes at once, and every node is kept as often as it was contributed: nothing
  is inferred and no evidence collapses.\<close>

lemma topology_canonical:
  "mset (topology_merge a b) = mset a + mset b \<and> sorted (map node_key (topology_merge a b)) \<and>
   topology_merge a b = topology_merge b a \<and>
   topology_merge (topology_merge a b) c = topology_merge a (topology_merge b c) \<and>
   foldl (\<lambda>t n. topology_push n t) (topology_from_nodes ns) ms = topology_from_nodes (ns @ ms) \<and>
   topology_merge (topology_from_nodes ns) (topology_from_nodes ms) = topology_from_nodes (ns @ ms)"
proof (intro conjI)
  show "mset (topology_merge a b) = mset a + mset b" "sorted (map node_key (topology_merge a b))"
    by (simp_all add: topology_merge_def)
  show "topology_merge a b = topology_merge b a"
    unfolding topology_merge_def by (rule node_order.sort_swap)
  show "topology_merge (topology_merge a b) c = topology_merge a (topology_merge b c)"
    unfolding topology_merge_def by (rule node_order.sort_assoc)
  show "foldl (\<lambda>t n. topology_push n t) (topology_from_nodes ns) ms = topology_from_nodes (ns @ ms)"
    unfolding topology_push_def topology_from_nodes_def by (rule node_order.sort_pushes)
  show "topology_merge (topology_from_nodes ns) (topology_from_nodes ms) = topology_from_nodes (ns @ ms)"
    unfolding topology_merge_def topology_from_nodes_def by (rule node_order.sort_determined) simp
qed

text \<open>The responders of a node are those added, in order, and the times it reports are the
  extremes of theirs.\<close>

lemma node_responders:
  "en_responders (foldl (\<lambda>n r. with_observed_responder r n) (ecu_node_new c p) rs) = sort_key observed_key rs"
proof -
  have "en_responders (foldl (\<lambda>n r. with_observed_responder r n) n rs) =
      foldl (\<lambda>l r. sort_key observed_key (l @ [r])) (en_responders n) rs" for n
    by (induction rs arbitrary: n) (simp_all add: with_observed_responder_def)
  from this [of "ecu_node_new c p"] show ?thesis
    using responder_order.sort_pushes [of "[]" rs] by (simp add: ecu_node_new_def)
qed

lemma node_window:
  assumes "first_observed_ms n = Some a" and "last_observed_ms n = Some b"
    and "r \<in> set (en_responders n)" and "od_observation r = Some w"
  shows "a \<le> ow_first_ms w \<and> ow_last_ms w \<le> b"
  using list_min_Some [OF assms(1) [unfolded first_observed_ms_def]]
    list_max_Some [OF assms(2) [unfolded last_observed_ms_def]] assms(3,4)
  by (fastforce simp: List.map_filter_def)

end
