(* ===== verification/Vehicle_Knowledge.thy ===== *)
theory Vehicle_Knowledge
  imports Topology Ordered_Map
begin

text \<open>
  The routing of a read to an ECU, \<open>src/vehicle_knowledge.rs\<close>: the semantic-to-role rules,
  the target mappings and the decision between a targeted read and the fallback; and the cached
  form of a mapping, \<open>TargetMappingSnapshot\<close> of \<open>src/vehicle_cache.rs\<close>.
\<close>

section \<open>Rules\<close>

datatype fallback_policy = Fallback_Functional | Fallback_Ambiguous

record semantic_role_rule =
  sr_semantic :: string
  sr_role :: ecu_role

text \<open>The \<open>BTreeMap\<close> from semantics to rules.\<close>

type_synonym vehicle_knowledge = "(string \<times> semantic_role_rule) list"

definition vehicle_knowledge_new :: "semantic_role_rule list \<Rightarrow> vehicle_knowledge" where
  "vehicle_knowledge_new rules = foldl (\<lambda>m r. bt_insert (sr_semantic r) r m) [] rules"

definition generic_obd2 :: vehicle_knowledge where
  "generic_obd2 = vehicle_knowledge_new [\<lparr>sr_semantic = ''engine.rpm'', sr_role = Engine\<rparr>]"

definition knowledge_rule :: "vehicle_knowledge \<Rightarrow> string \<Rightarrow> semantic_role_rule option" where
  "knowledge_rule k semantic = map_of k semantic"

section \<open>Mappings\<close>

record ecu_target_mapping =
  tm_role :: role_assignment
  tm_evidence :: request_target_evidence
  tm_responder :: topology_identity

datatype routing_error =
    Routing_UnsupportedSemantic string
  | InvalidTargetEvidence string
  | AmbiguousFallback

fun routing_error_text :: "routing_error \<Rightarrow> string" where
  "routing_error_text (Routing_UnsupportedSemantic semantic) =
     ''vehicle knowledge rejected unsupported semantic: '' @ semantic"
| "routing_error_text (InvalidTargetEvidence reason) = ''invalid ECU target evidence: '' @ reason"
| "routing_error_text AmbiguousFallback =
     ''polling routing requires an explicit functional fallback''"

definition targeted_request ::
  "ecu_target_mapping \<Rightarrow> read_request \<Rightarrow> routing_error + targeted_read_request" where
  "targeted_request m request =
     (let target = te_target (tm_evidence m); context = rt_context target
      in if pc_protocol context \<noteq> Obd2 \<or> pc_addressing context \<noteq> Physical
         then Inl (InvalidTargetEvidence ''target mapping must use physical OBD-II addressing'')
         else if identity_context (tm_responder m) \<noteq> context
         then Inl (InvalidTargetEvidence ''target and expected responder contexts differ'')
         else and_then
           (ok_or (InvalidTargetEvidence ''target mapping must include an expected responder'')
             (identity_value (tm_responder m)))
           (\<lambda>value. map_err InvalidTargetEvidence (targeted_read_new request target (ElmHeader value))))"

record target_mapping_snapshot =
  ms_role :: "role_assignment option"
  ms_responder :: "topology_identity option"
  ms_target :: request_target
  ms_provenance :: provenance

definition to_vehicle_knowledge_mapping :: "target_mapping_snapshot \<Rightarrow> ecu_target_mapping option" where
  "to_vehicle_knowledge_mapping s =
     (case (ms_role s, ms_responder s) of
        (Some role, Some responder) \<Rightarrow>
          Some \<lparr>tm_role = role,
                tm_evidence = \<lparr>te_target = ms_target s, te_provenance = ms_provenance s\<rparr>,
                tm_responder = responder\<rparr>
      | _ \<Rightarrow> None)"

section \<open>Decisions\<close>

datatype routing_reason = NoRoleMapping | NoTargetMapping | RoleMismatch | StaleCache

datatype routing_decision =
    Decision_Targeted targeted_read_request ecu_target_mapping
  | FunctionalFallback read_request "ecu_target_mapping option" routing_reason
  | Ambiguous read_request "ecu_target_mapping option" routing_reason

definition fallback_decision ::
  "read_request \<Rightarrow> ecu_target_mapping option \<Rightarrow> routing_reason \<Rightarrow> fallback_policy \<Rightarrow> routing_decision"
where
  "fallback_decision request mapping reason fallback =
     (case fallback of
        Fallback_Functional \<Rightarrow> FunctionalFallback request mapping reason
      | Fallback_Ambiguous \<Rightarrow> Ambiguous request mapping reason)"

definition route ::
  "vehicle_knowledge \<Rightarrow> string \<Rightarrow> ecu_target_mapping option \<Rightarrow> bool \<Rightarrow> fallback_policy \<Rightarrow>
     routing_error + routing_decision" where
  "route k semantic mapping cache_valid fallback =
     and_then (map_err (\<lambda>_. Routing_UnsupportedSemantic semantic) (prepare_read semantic)) (\<lambda>request.
       case mapping of
         None \<Rightarrow> Inr (fallback_decision request None NoTargetMapping fallback)
       | Some m \<Rightarrow>
           (case map_option sr_role (knowledge_rule k semantic) of
              None \<Rightarrow> Inr (fallback_decision request (Some m) NoRoleMapping fallback)
            | Some role \<Rightarrow>
                if as_role (tm_role m) \<noteq> role
                then Inr (fallback_decision request (Some m) RoleMismatch fallback)
                else if \<not> cache_valid
                then Inr (fallback_decision request (Some m) StaleCache fallback)
                else and_then (targeted_request m request) (\<lambda>t. Inr (Decision_Targeted t m))))"

datatype read_routing = Route_Functional read_request | Route_Targeted targeted_read_request

fun routing_request :: "read_routing \<Rightarrow> read_request" where
  "routing_request (Route_Functional r) = r"
| "routing_request (Route_Targeted t) = tr_request t"

fun routing_from_decision :: "routing_decision \<Rightarrow> routing_error + read_routing" where
  "routing_from_decision (Decision_Targeted t _) = Inr (Route_Targeted t)"
| "routing_from_decision (FunctionalFallback r _ _) = Inr (Route_Functional r)"
| "routing_from_decision (Ambiguous _ _ _) = Inl AmbiguousFallback"

end
