(* ===== verification/Scheduler.thy ===== *)
theory Scheduler
  imports Subscription_Policy Vehicle_Knowledge
begin

text \<open>
  The schedule of the capture scheduler, \<open>src/scheduler.rs\<close>: subscriptions and observation plans,
  the re-planning of their intervals for a capability, and the due times.  Durations and
  instants are nanoseconds; the arithmetic of \<open>Instant\<close> does not overflow in the model.
\<close>

section \<open>Plans\<close>

definition duration_us :: "duration \<Rightarrow> string + nat" where
  "duration_us d =
     (let us = d div 1000 in
      if us < 2 ^ 64 then Inr us else Inl ''subscription interval exceeds supported microseconds'')"

record subscription =
  sb_request :: read_request
  sb_interval :: duration
  sb_interval_us :: nat

definition subscription_new :: "string \<Rightarrow> duration \<Rightarrow> string + subscription" where
  "subscription_new semantic interval =
     (if interval = 0 then Inl ''subscription interval must be greater than zero''
      else and_then (prepare_read semantic) (\<lambda>request.
        and_then (duration_us interval) (\<lambda>us.
          Inr \<lparr>sb_request = request, sb_interval = interval, sb_interval_us = us\<rparr>)))"

record observation_plan =
  op_routing :: read_routing
  op_interval :: duration
  op_interval_us :: nat

definition observation_plan_new :: "read_routing \<Rightarrow> duration \<Rightarrow> string + observation_plan" where
  "observation_plan_new routing interval =
     (if interval = 0 then Inl ''subscription interval must be greater than zero''
      else and_then (duration_us interval) (\<lambda>us.
        Inr \<lparr>op_routing = routing, op_interval = interval, op_interval_us = us\<rparr>))"

definition plan_from_decision :: "routing_decision \<Rightarrow> duration \<Rightarrow> string + observation_plan" where
  "plan_from_decision decision interval =
     and_then (map_err routing_error_text (routing_from_decision decision)) (\<lambda>routing.
       observation_plan_new routing interval)"

definition plan_of_subscription :: "subscription \<Rightarrow> observation_plan" where
  "plan_of_subscription s =
     \<lparr>op_routing = Route_Functional (sb_request s), op_interval = sb_interval s,
      op_interval_us = sb_interval_us s\<rparr>"

definition plan_request :: "observation_plan \<Rightarrow> read_request" where
  "plan_request p = routing_request (op_routing p)"

definition plan_semantic :: "observation_plan \<Rightarrow> string" where
  "plan_semantic p = signal_semantic (plan_request p)"

section \<open>Re-planning\<close>

fun policy_error_text :: "policy_error \<Rightarrow> string" where
  "policy_error_text SourceMustNotBeEmpty = ''observation source must not be empty''"
| "policy_error_text SemanticMustNotBeEmpty = ''observation semantic must not be empty''"
| "policy_error_text DesiredIntervalMustBePositive =
     ''observation desired interval must be greater than zero''"

definition reshape_plan :: "polling_plan \<Rightarrow> observation_plan \<Rightarrow> string + observation_plan" where
  "reshape_plan policy p =
     and_then (ok_or (''scheduler policy rejected '' @ plan_semantic p)
         (case find (\<lambda>e. pe_semantic e = plan_semantic p) policy of
            None \<Rightarrow> None | Some e \<Rightarrow> pe_effective e))
       (\<lambda>effective. observation_plan_new (op_routing p) effective)"

definition reshape_observation_plans ::
  "observation_plan list \<Rightarrow> hardware_capability \<Rightarrow> string + observation_plan list" where
  "reshape_observation_plans plans capability =
     and_then
       (map_err policy_error_text
         (collect_results (map (\<lambda>p. observation_request_new ''scheduler'' (plan_semantic p) (op_interval p)) plans)))
       (\<lambda>requests.
         collect_results
           (map (reshape_plan (policy_plan capability requests (map plan_semantic plans))) plans))"

text \<open>The shared plan of the policy is \<open>None\<close> when the caller gave none; its lock is not modelled.\<close>

definition synchronize_policy_state ::
  "polling_plan option \<Rightarrow> observation_plan list \<Rightarrow> (string + unit) \<times> polling_plan option" where
  "synchronize_policy_state policy plans =
     (case policy of
        None \<Rightarrow> (Inr (), None)
      | Some plan \<Rightarrow>
          (case update_effective_intervals plan (map (\<lambda>p. (plan_semantic p, op_interval p)) plans) of
             (r, plan') \<Rightarrow> (r, Some plan')))"

text \<open>A plan with the instant it is due at.\<close>

type_synonym schedule = "(observation_plan \<times> nat) list"

definition reshape_schedule ::
  "schedule \<Rightarrow> hardware_capability \<Rightarrow> nat \<Rightarrow> polling_plan option \<Rightarrow>
     (string + unit) \<times> schedule \<times> polling_plan option" where
  "reshape_schedule schedule capability now policy =
     (case reshape_observation_plans (map fst schedule) capability of
        Inl e \<Rightarrow> (Inl e, schedule, policy)
      | Inr reshaped \<Rightarrow>
          (let schedule' = map (\<lambda>((p, due), replacement).
                 (replacement, if op_interval p \<noteq> op_interval replacement
                               then now + op_interval replacement else due)) (zip schedule reshaped)
           in case synchronize_policy_state policy (map fst schedule') of
                (r, policy') \<Rightarrow> (r, schedule', policy')))"

section \<open>Due times\<close>

text \<open>\<open>saturating_duration_since\<close>, cut to a \<open>u64\<close>.\<close>

definition offset_us :: "nat \<Rightarrow> nat \<Rightarrow> nat" where
  "offset_us origin t = (let us = (t - origin) div 1000 in if us < 2 ^ 64 then us else 2 ^ 64 - 1)"

text \<open>The loop that passes over the missed slots does not end for a zero interval; \<open>None\<close> is that
  outcome.  The result is the new due time with the report of the slots skipped.\<close>

partial_function (option) skip_slots :: "nat \<Rightarrow> duration \<Rightarrow> nat \<Rightarrow> nat \<Rightarrow> (nat \<times> nat) option" where
  "skip_slots due interval now skipped =
     (if due \<le> now then skip_slots (due + interval) interval now (skipped + 1)
      else Some (due, skipped))"

definition advance_due :: "nat \<Rightarrow> duration \<Rightarrow> nat \<Rightarrow> (nat \<times> (nat \<times> nat \<times> nat) option) option" where
  "advance_due due interval now =
     map_option (\<lambda>(due', skipped).
         (due', if 0 < skipped then Some (skipped, due + interval, due' - interval) else None))
       (skip_slots (due + interval) interval now 0)"

section \<open>Facts\<close>

lemma skip_slots_ends:
  assumes "0 < interval"
  shows "\<exists>k. skip_slots due interval now skipped = Some (due + k * interval, skipped + k) \<and>
    now < due + k * interval \<and> (\<forall>j < k. due + j * interval \<le> now)"
proof (induction "Suc now - due" arbitrary: due skipped rule: less_induct)
  case less
  show ?case
  proof (cases "due \<le> now")
    case False
    then show ?thesis by (intro exI [of _ 0]) (subst skip_slots.simps, simp)
  next
    case True
    then have "Suc now - (due + interval) < Suc now - due" using assms by simp
    from less [OF this, of "skipped + 1"] obtain k where
      k: "skip_slots (due + interval) interval now (skipped + 1) = Some (due + interval + k * interval, skipped + 1 + k)"
        "now < due + interval + k * interval" "\<forall>j < k. due + interval + j * interval \<le> now" by blast
    have "due + j * interval \<le> now" if "j < Suc k" for j
      using that k(3) True by (cases j) auto
    then show ?thesis
      using k True by (intro exI [of _ "Suc k"]) (subst skip_slots.simps, simp)
  qed
qed

section \<open>What re-planning does\<close>

lemma find_distinct:
  "distinct (map f xs) \<Longrightarrow> x \<in> set xs \<Longrightarrow> find (\<lambda>e. f e = f x) xs = Some x"
  by (induction xs) (auto simp: image_iff)

text \<open>Requests of distinct semantics merge into themselves.\<close>

lemma merged_distinct:
  assumes "distinct (map or_semantic rs)"
  shows "mset (foldl merge_request [] rs) = mset (map (\<lambda>r. (or_semantic r, [or_source r], or_interval r)) rs)"
proof -
  let ?m = "foldl merge_request [] rs"
  let ?f = "\<lambda>r. (or_semantic r, [or_source r], or_interval r)"
  have one: "demand_of rs (or_semantic r) = Some ([or_source r], or_interval r)" if "r \<in> set rs" for r
  proof -
    have "filter (\<lambda>x. or_semantic x = or_semantic r) rs = [r]"
      using assms that by (induction rs) (auto simp: filter_empty_conv image_iff)
    then show ?thesis by (simp add: demand_of_def bs_of_def bs_insert_def)
  qed
  have wf: "bt_wf ?m" by (rule merged_demand)
  have "(k, v) \<in> set ?m \<longleftrightarrow> (k, v) \<in> set (map ?f rs)" for k v
  proof -
    have "(k, v) \<in> set ?m \<longleftrightarrow> demand_of rs k = Some v"
      using bt.entries_look [OF wf, of k v] by (simp add: merged_demand)
    also have "\<dots> \<longleftrightarrow> (k, v) \<in> set (map ?f rs)"
    proof
      assume d: "demand_of rs k = Some v"
      then have "filter (\<lambda>r. or_semantic r = k) rs \<noteq> []" by (auto simp: demand_of_def Let_def split: if_splits)
      then obtain r where "r \<in> set rs" "or_semantic r = k" by (auto simp: filter_empty_conv)
      then show "(k, v) \<in> set (map ?f rs)" using one d by force
    qed (use one in auto)
    finally show ?thesis .
  qed
  then have "set ?m = set (map ?f rs)" by auto
  moreover have "distinct ?m" using bt.distinct_keys [OF wf] by (simp add: distinct_map)
  moreover have "distinct (map ?f rs)" using assms by (auto simp: distinct_map inj_on_def)
  ultimately show ?thesis using set_eq_iff_mset_eq_distinct by blast
qed

text \<open>The new interval of each plan, as a function of all intervals.\<close>

definition all_units :: "duration list \<Rightarrow> nat" where
  "all_units ivs = sum_list (map interval_units ivs)"

definition next_interval :: "duration list \<Rightarrow> u32 \<Rightarrow> duration \<Rightarrow> duration" where
  "next_interval ivs budget i =
     (if budget_units budget < all_units ivs
      then scale_interval i (div_ceil (all_units ivs) (budget_units budget)) else i)"

definition plan_ok :: "observation_plan \<Rightarrow> bool" where
  "plan_ok p \<longleftrightarrow> 0 < op_interval p \<and> op_interval p div 1000 < 2 ^ 64 \<and>
     op_interval_us p = op_interval p div 1000 \<and> trim (plan_semantic p) \<noteq> []"

definition with_interval :: "duration \<Rightarrow> observation_plan \<Rightarrow> observation_plan" where
  "with_interval i p = p\<lparr>op_interval := i, op_interval_us := i div 1000\<rparr>"

lemma scale_interval_bounds: "0 < i \<Longrightarrow> 0 < f \<Longrightarrow> 0 < scale_interval i f \<and> scale_interval i f div 1000 < 2 ^ 64"
proof -
  assume "0 < i" "0 < f"
  then have "0 < scale_interval i f" by (simp add: scale_interval_def sat_u128_def)
  moreover have "scale_interval i f \<le> 2 ^ 64 - 1" by (simp add: scale_interval_def)
  then have "scale_interval i f div 1000 < 2 ^ 64" by (simp add: div_le_mono)
  ultimately show ?thesis by blast
qed

lemma factor_positive: "b \<noteq> 0 \<Longrightarrow> 0 < u \<Longrightarrow> 0 < div_ceil u (budget_units b)"
  using div_ceil_upper [of "budget_units b" u]
  by (cases "div_ceil u (budget_units b)") (simp_all add: budget_units RATE_PRECISION_def unat_gt_0)

lemma next_interval_bounds:
  "b \<noteq> 0 \<Longrightarrow> 0 < i \<Longrightarrow> i div 1000 < 2 ^ 64 \<Longrightarrow>
    0 < next_interval ivs b i \<and> next_interval ivs b i div 1000 < 2 ^ 64"
  using scale_interval_bounds factor_positive by (simp add: next_interval_def)

lemma reshape_distinct:
  assumes ok: "list_all plan_ok plans" and dist: "distinct (map plan_semantic plans)"
    and len: "length plans < 2 ^ 64" and budget: "hc_budget capability \<noteq> 0"
  shows "reshape_observation_plans plans capability =
    Inr (map (\<lambda>p. with_interval (next_interval (map op_interval plans) (hc_budget capability) (op_interval p)) p) plans)"
proof -
  let ?r = "\<lambda>p. \<lparr>or_source = ''scheduler'', or_semantic = plan_semantic p, or_interval = op_interval p\<rparr>"
  let ?rs = "map ?r plans"
  let ?B = "hc_budget capability"
  have "trim ''scheduler'' \<noteq> []" by code_simp
  then have "observation_request_new ''scheduler'' (plan_semantic p) (op_interval p) = Inr (?r p)"
    if "p \<in> set plans" for p
    using ok that by (simp add: list_all_iff plan_ok_def observation_request_new_def)
  then have "map (\<lambda>p. observation_request_new ''scheduler'' (plan_semantic p) (op_interval p)) plans = map Inr ?rs"
    unfolding map_map comp_def by (rule map_cong [OF refl])
  then have requests: "collect_results (map (\<lambda>p. observation_request_new ''scheduler'' (plan_semantic p) (op_interval p)) plans)
      = Inr ?rs" by (simp only: collect_results_Inr)
  define merged where "merged = foldl merge_request [] ?rs"
  define demand where "demand = (\<lambda>p. (plan_semantic p, [''scheduler''], op_interval p))"
  have m: "mset merged = mset (map demand plans)"
    using merged_distinct [of ?rs] dist by (simp add: merged_def demand_def comp_def)
  have sm: "set merged = demand ` set plans" using mset_eq_setD [OF m] by simp
  have sem: "map plan_semantic plans = map fst (map demand plans)" by (simp add: demand_def comp_def)
  have all: "filter (\<lambda>d. fst d \<in> set (map plan_semantic plans)) merged = merged"
    "filter (\<lambda>d. fst d \<notin> set (map plan_semantic plans)) merged = []"
    unfolding sem by (auto simp: filter_id_conv filter_empty_conv sm)
  define scale where "scale = (if requested_rate_exceeds_budget merged ?B
    then Some (request_scale_factor merged ?B) else None)"
  have plan: "policy_plan capability ?rs (map plan_semantic plans) =
      sort_key pe_semantic (map (supported_entry scale) merged)"
    unfolding policy_plan_def Let_def merged_def [symmetric] all scale_def by simp
  have "\<forall>d \<in> set merged. 0 < interval_of d"
    using ok by (auto simp: sm demand_def interval_of_def list_all_iff plan_ok_def)
  moreover have "length merged < 2 ^ 64" using len m by (metis length_map size_mset)
  ultimately have "requested_rate_units merged = sum_list (map (\<lambda>d. interval_units (interval_of d)) merged)"
    by (rule requested_units_sum)
  also have "\<dots> = sum_list (map (\<lambda>d. interval_units (interval_of d)) (map demand plans))"
    using arg_cong [OF m, of "\<lambda>M. sum_mset (image_mset (\<lambda>d. interval_units (interval_of d)) M)"]
    by (simp only: mset_map [symmetric] sum_mset_sum_list)
  finally have units: "requested_rate_units merged = all_units (map op_interval plans)"
    by (simp add: all_units_def demand_def interval_of_def comp_def)
  have effective: "pe_effective (supported_entry scale (demand p)) =
      Some (next_interval (map op_interval plans) ?B (op_interval p))" for p
    by (simp add: supported_entry_def Let_def scale_def next_interval_def requested_rate_exceeds_budget_def
        request_scale_factor_def units demand_def interval_of_def)
  have "reshape_plan (policy_plan capability ?rs (map plan_semantic plans)) p =
      Inr (with_interval (next_interval (map op_interval plans) ?B (op_interval p)) p)"
    if p: "p \<in> set plans" for p
  proof -
    let ?e = "supported_entry scale (demand p)"
    let ?plan = "policy_plan capability ?rs (map plan_semantic plans)"
    have sem_e: "pe_semantic (supported_entry scale d) = fst d" for d
      by (simp add: supported_entry_def Let_def)
    have "mset (map pe_semantic ?plan) = mset (map plan_semantic plans)"
    proof -
      have "mset (map pe_semantic ?plan) = mset (map fst merged)"
        unfolding plan by (simp add: multiset.map_comp comp_def sem_e)
      also have "\<dots> = mset (map plan_semantic plans)"
        unfolding sem mset_map [of fst] by (simp only: m)
      finally show ?thesis .
    qed
    then have "distinct (map pe_semantic ?plan)" using dist mset_eq_imp_distinct_iff by blast
    moreover have "?e \<in> set ?plan" unfolding plan using p by (simp add: sm)
    ultimately have "find (\<lambda>e. pe_semantic e = pe_semantic ?e) ?plan = Some ?e" by (rule find_distinct)
    then have found: "find (\<lambda>e. pe_semantic e = plan_semantic p) ?plan = Some ?e"
      by (simp add: sem_e demand_def)
    have o: "plan_ok p" using ok p by (simp add: list_all_iff)
    have "0 < next_interval (map op_interval plans) ?B (op_interval p) \<and>
        next_interval (map op_interval plans) ?B (op_interval p) div 1000 < 2 ^ 64"
      using o next_interval_bounds [OF budget, of "op_interval p"] by (simp add: plan_ok_def)
    then show ?thesis
      using found effective [of p] by (simp add: reshape_plan_def observation_plan_new_def duration_us_def
          Let_def with_interval_def)
  qed
  then have "map (reshape_plan (policy_plan capability ?rs (map plan_semantic plans))) plans =
      map Inr (map (\<lambda>p. with_interval (next_interval (map op_interval plans) ?B (op_interval p)) p) plans)"
    unfolding map_map comp_def by (rule map_cong [OF refl])
  then show ?thesis
    unfolding reshape_observation_plans_def requests by (simp only: map_err.simps and_then.simps collect_results_Inr)
qed

section \<open>Re-planning again\<close>

text \<open>Rounding up costs a scaled interval less than one unit.\<close>

lemma scaled_units:
  assumes i: "0 < i" and f: "0 < f"
  shows "f * interval_units (scale_interval i f) < interval_units i + f"
proof -
  let ?N = "1000000000 * RATE_PRECISION"
  let ?M = "2 ^ 64 - 1 :: nat"
  have N: "0 < ?N" "?N \<le> ?M" by (simp_all add: RATE_PRECISION_def)
  have "scale_interval i f = i * f \<or> scale_interval i f = ?M"
    by (cases "i * f \<le> ?M") (simp_all add: scale_interval_def sat_u128_def min_def)
  then show ?thesis
  proof
    assume 1: "scale_interval i f = i * f"
    have "0 < i * f" using i f by simp
    then have "interval_units (i * f) * (i * f) < ?N + i * f"
      unfolding interval_units_def div_ceil_def using N(1)
      by (metis add.commute add_gr_0 diff_less div_times_less_eq_dividend le_less_trans less_numeral_extra(1))
    also have "?N \<le> interval_units i * i" unfolding interval_units_def by (rule div_ceil_upper [OF i])
    finally have "i * (f * interval_units (i * f)) < i * (interval_units i + f)" by (simp add: algebra_simps)
    then show ?thesis unfolding 1 using i by simp
  next
    assume 2: "scale_interval i f = ?M"
    have "0 < interval_units i"
      unfolding interval_units_def using div_ceil_upper [OF i, of ?N] N(1) by (metis gr0I mult_0 not_less)
    moreover have "interval_units ?M = 1"
      unfolding interval_units_def div_ceil_def by (simp add: RATE_PRECISION_def)
    ultimately show ?thesis unfolding 2 by simp
  qed
qed

lemma all_scaled_units:
  assumes "\<forall>i \<in> set ivs. 0 < i" and "0 < f"
  shows "f * all_units (map (\<lambda>i. scale_interval i f) ivs) \<le> all_units ivs + length ivs * (f - 1)"
  using assms(1)
proof (induction ivs)
  case (Cons i ivs)
  have "f * interval_units (scale_interval i f) \<le> interval_units i + (f - 1)"
    using Cons.prems assms(2) scaled_units [of i f] by simp
  moreover have "f * all_units (map (\<lambda>i. scale_interval i f) ivs) \<le> all_units ivs + length ivs * (f - 1)"
    using Cons by simp
  moreover have "length (i # ivs) * (f - 1) = length ivs * (f - 1) + (f - 1)" by simp
  ultimately show ?case unfolding all_units_def list.map sum_list.Cons add_mult_distrib2 by linarith
qed (simp add: all_units_def)

definition next_intervals :: "u32 \<Rightarrow> duration list \<Rightarrow> duration list" where
  "next_intervals b ivs = map (next_interval ivs b) ivs"

lemma next_intervals_over:
  assumes "budget_units b < all_units ivs"
  shows "next_intervals b ivs = map (\<lambda>i. scale_interval i (div_ceil (all_units ivs) (budget_units b))) ivs"
  using assms by (simp add: next_intervals_def next_interval_def [abs_def])

lemma next_intervals_within: "all_units ivs \<le> budget_units b \<Longrightarrow> next_intervals b ivs = ivs"
  by (simp add: next_intervals_def next_interval_def [abs_def])

lemma next_intervals_positive: "b \<noteq> 0 \<Longrightarrow> \<forall>i \<in> set ivs. 0 < i \<Longrightarrow> \<forall>i \<in> set (next_intervals b ivs). 0 < i"
  using factor_positive scale_interval_bounds by (auto simp: next_intervals_def next_interval_def)

text \<open>One re-planning reaches the budget but for a unit per entry, the second reaches it.\<close>

lemma first_replanning:
  assumes pos: "\<forall>i \<in> set ivs. 0 < i" and b: "b \<noteq> 0"
  shows "all_units (next_intervals b ivs) \<le> budget_units b + length ivs"
proof (cases "budget_units b < all_units ivs")
  case True
  let ?f = "div_ceil (all_units ivs) (budget_units b)"
  have f: "0 < ?f" using factor_positive [OF b] True by simp
  have "0 < budget_units b" using b by (simp add: budget_units RATE_PRECISION_def unat_gt_0)
  then have "all_units ivs \<le> ?f * budget_units b" by (rule div_ceil_upper)
  moreover have "length ivs * (?f - 1) \<le> ?f * length ivs" by simp
  ultimately have "?f * all_units (next_intervals b ivs) \<le> ?f * (budget_units b + length ivs)"
    using all_scaled_units [OF pos f] unfolding next_intervals_over [OF True] add_mult_distrib2 by linarith
  then show ?thesis using f by simp
qed (simp add: next_intervals_within)

lemma second_replanning:
  assumes pos: "\<forall>i \<in> set ivs. 0 < i" and b: "b \<noteq> 0" and n: "2 * length ivs \<le> budget_units b"
    and near: "all_units ivs \<le> budget_units b + length ivs"
  shows "all_units (next_intervals b ivs) \<le> budget_units b"
proof (cases "budget_units b < all_units ivs")
  case True
  let ?B = "budget_units b" and ?U = "all_units ivs"
  have B: "0 < ?B" using b by (simp add: budget_units RATE_PRECISION_def unat_gt_0)
  have "2 * ?B \<le> ?U + ?B - 1" "?U + ?B - 1 < 3 * ?B" using True near n B by linarith+
  then have f: "div_ceil ?U ?B = 2"
    unfolding div_ceil_def by (intro div_nat_eqI) simp_all
  have "2 * all_units (next_intervals b ivs) \<le> ?U + length ivs"
    using all_scaled_units [OF pos, of 2] by (simp add: next_intervals_over [OF True] f)
  then show ?thesis using near n by linarith
qed (simp add: next_intervals_within)

lemma reshape_intervals:
  assumes "list_all plan_ok plans" and "distinct (map plan_semantic plans)"
    and "length plans < 2 ^ 64" and "hc_budget capability \<noteq> 0"
  obtains plans' where "reshape_observation_plans plans capability = Inr plans'"
    "map op_interval plans' = next_intervals (hc_budget capability) (map op_interval plans)"
    "map op_routing plans' = map op_routing plans" "list_all plan_ok plans'"
    "distinct (map plan_semantic plans')" "length plans' = length plans"
proof -
  let ?g = "\<lambda>p. with_interval (next_interval (map op_interval plans) (hc_budget capability) (op_interval p)) p"
  have "plan_ok (?g p)" if "p \<in> set plans" for p
    using assms(1) that next_interval_bounds [OF assms(4), of "op_interval p"]
    by (auto simp: list_all_iff plan_ok_def with_interval_def plan_semantic_def plan_request_def)
  moreover have "map plan_semantic (map ?g plans) = map plan_semantic plans"
    by (simp add: with_interval_def plan_semantic_def plan_request_def)
  ultimately show thesis
    using reshape_distinct [OF assms] assms(2)
    by (intro that [of "map ?g plans"]) (simp_all only: list_all_iff length_map set_map ball_simps simp_thms,
        simp_all add: with_interval_def next_intervals_def)
qed

lemma same_plans:
  assumes "list_all plan_ok ps" and "list_all plan_ok qs"
    and "map op_routing ps = map op_routing qs" and "map op_interval ps = map op_interval qs"
  shows "ps = qs"
  using assms
proof (induction ps arbitrary: qs)
  case (Cons p ps)
  then obtain q qs' where q: "qs = q # qs'" by (cases qs) auto
  have "p = q" using Cons.prems unfolding q by (cases p; cases q) (auto simp: plan_ok_def)
  then show ?case using Cons q by simp
qed simp

section \<open>Properties\<close>

text \<open>C30: re-planning converges.  For plans of distinct semantics, the second re-planning meets the
  request budget and every later one leaves the schedule as it is; the routes never change.\<close>

theorem reshaping_settles:
  assumes "list_all plan_ok plans" and "distinct (map plan_semantic plans)"
    and "length plans \<le> 500000" and "hc_budget capability \<noteq> 0"
  shows "\<exists>first second.
    reshape_observation_plans plans capability = Inr first \<and>
    reshape_observation_plans first capability = Inr second \<and>
    reshape_observation_plans second capability = Inr second \<and>
    map op_routing second = map op_routing plans \<and>
    all_units (map op_interval second) \<le> budget_units (hc_budget capability)"
proof -
  let ?b = "hc_budget capability"
  obtain p1 where p1: "reshape_observation_plans plans capability = Inr p1"
    "map op_interval p1 = next_intervals ?b (map op_interval plans)"
    "map op_routing p1 = map op_routing plans" "list_all plan_ok p1"
    "distinct (map plan_semantic p1)" "length p1 = length plans"
    using reshape_intervals [OF assms(1,2) _ assms(4)] assms(3) by auto
  obtain p2 where p2: "reshape_observation_plans p1 capability = Inr p2"
    "map op_interval p2 = next_intervals ?b (map op_interval p1)"
    "map op_routing p2 = map op_routing p1" "list_all plan_ok p2"
    "distinct (map plan_semantic p2)" "length p2 = length p1"
    using reshape_intervals [OF p1(4,5) _ assms(4)] p1(6) assms(3) by auto
  have pos: "\<forall>i \<in> set (map op_interval ps). 0 < i" if "list_all plan_ok ps" for ps
    using that by (auto simp: list_all_iff plan_ok_def)
  have "2 * length (map op_interval p1) \<le> budget_units ?b"
  proof -
    have "1 \<le> unat ?b" using assms(4) by (simp add: unat_gt_0 Suc_le_eq)
    then show ?thesis using p1(6) assms(3) by (simp add: budget_units RATE_PRECISION_def)
  qed
  moreover have "all_units (map op_interval p1) \<le> budget_units ?b + length (map op_interval p1)"
    using first_replanning [OF pos [OF assms(1)] assms(4)] p1(6) unfolding p1(2) [symmetric] by simp
  ultimately have within: "all_units (map op_interval p2) \<le> budget_units ?b"
    using second_replanning [OF pos [OF p1(4)] assms(4)] p2(2) by simp
  obtain p3 where p3: "reshape_observation_plans p2 capability = Inr p3"
    "map op_interval p3 = next_intervals ?b (map op_interval p2)"
    "map op_routing p3 = map op_routing p2" "list_all plan_ok p3"
    using reshape_intervals [OF p2(4,5) _ assms(4)] p1(6) p2(6) assms(3) by auto
  have "p3 = p2"
    using same_plans [OF p3(4) p2(4) p3(3)] p3(2) next_intervals_within [OF within] by simp
  then show ?thesis using p1 p2 p3 within by auto
qed

text \<open>The first twelve signals of the catalog, each wanted once a second.\<close>

definition twelve_plans :: "observation_plan list" where
  "twelve_plans = map (\<lambda>s. \<lparr>op_routing = Route_Functional s, op_interval = 1000000000,
     op_interval_us = 1000000\<rparr>) (take 12 SIGNALS)"

lemma twelve_plans_ok:
  "list_all plan_ok twelve_plans" "distinct (map plan_semantic twelve_plans)"
  "length twelve_plans = 12" "map op_interval twelve_plans = replicate 12 1000000000"
proof -
  show "list_all plan_ok twelve_plans"
    by (simp add: twelve_plans_def SIGNALS_def plan_ok_def plan_semantic_def plan_request_def, code_simp)
  have "map plan_semantic twelve_plans = take 12 (map signal_semantic SIGNALS)"
    by (simp add: twelve_plans_def take_map comp_def plan_semantic_def plan_request_def)
  then show "distinct (map plan_semantic twelve_plans)" using catalog_semantics_distinct by simp
  show "length twelve_plans = 12" by (simp add: twelve_plans_def SIGNALS_def)
  then show "map op_interval twelve_plans = replicate 12 1000000000"
    by (simp add: twelve_plans_def comp_def map_replicate_const)
qed

theorem reshaping_settles_witness:
  "\<exists>first second.
    reshape_observation_plans twelve_plans conservative_default = Inr first \<and>
    reshape_observation_plans first conservative_default = Inr second \<and>
    reshape_observation_plans second conservative_default = Inr second \<and>
    map op_routing second = map op_routing twelve_plans \<and>
    all_units (map op_interval second) \<le> budget_units (hc_budget conservative_default)"
  by (rule reshaping_settles [OF twelve_plans_ok(1,2)]) (simp_all add: twelve_plans_ok conservative_default_def)

lemma next_intervals_replicate:
  "next_intervals b (replicate n i) =
     replicate n (if budget_units b < n * interval_units i
       then scale_interval i (div_ceil (n * interval_units i) (budget_units b)) else i)"
  by (simp add: next_intervals_def next_interval_def all_units_def sum_list_replicate)

lemma twelve_units:
  "next_intervals 4 (replicate 12 1000000000) = replicate 12 3000000000"
  "next_intervals 4 (replicate 12 3000000000) = replicate 12 6000000000"
  "next_intervals 20 (replicate 12 6000000000) = replicate 12 6000000000"
  unfolding next_intervals_replicate budget_units interval_units_def div_ceil_def RATE_PRECISION_def
    scale_interval_def sat_u128_def by simp_all

text \<open>C31: re-planning starts from the stretched intervals, so it stretches an answer that was right: twelve
  requests a second become four with a budget of four, and then two.  No budget brings them back.\<close>

theorem replanning_overshoots:
  "\<exists>first second.
    reshape_observation_plans twelve_plans conservative_default = Inr first \<and>
    map op_interval first = replicate 12 3000000000 \<and>
    sum_list (map rate_of (map op_interval first)) = of_nat (unat (hc_budget conservative_default)) \<and>
    reshape_observation_plans first conservative_default = Inr second \<and>
    map op_interval second = replicate 12 6000000000 \<and>
    reshape_observation_plans second (conservative_default\<lparr>hc_budget := 20\<rparr>) = Inr second"
proof -
  let ?b = "hc_budget conservative_default"
  have b: "?b \<noteq> 0" "?b = 4" by (simp_all add: conservative_default_def)
  obtain p1 where p1: "reshape_observation_plans twelve_plans conservative_default = Inr p1"
    "map op_interval p1 = next_intervals ?b (map op_interval twelve_plans)"
    "list_all plan_ok p1" "distinct (map plan_semantic p1)" "length p1 = length twelve_plans"
    using reshape_intervals [OF twelve_plans_ok(1,2) _ b(1)] twelve_plans_ok(3) by auto
  obtain p2 where p2: "reshape_observation_plans p1 conservative_default = Inr p2"
    "map op_interval p2 = next_intervals ?b (map op_interval p1)"
    "list_all plan_ok p2" "distinct (map plan_semantic p2)" "length p2 = length p1"
    using reshape_intervals [OF p1(3,4) _ b(1)] p1(5) twelve_plans_ok(3) by auto
  obtain p3 where p3: "reshape_observation_plans p2 (conservative_default\<lparr>hc_budget := 20\<rparr>) = Inr p3"
    "map op_interval p3 = next_intervals 20 (map op_interval p2)"
    "map op_routing p3 = map op_routing p2" "list_all plan_ok p3"
    using reshape_intervals [OF p2(3,4), of "conservative_default\<lparr>hc_budget := 20\<rparr>"] p1(5) p2(5) twelve_plans_ok(3)
    by auto
  have i1: "map op_interval p1 = replicate 12 3000000000"
    unfolding p1(2) twelve_plans_ok(4) b(2) by (rule twelve_units(1))
  have i2: "map op_interval p2 = replicate 12 6000000000" unfolding p2(2) i1 b(2) by (rule twelve_units(2))
  have "map op_interval p3 = map op_interval p2" unfolding p3(2) i2 by (rule twelve_units(3))
  then have same: "p3 = p2" by (rule same_plans [OF p3(4) p2(3) p3(3)])
  have sum: "sum_list (map rate_of (replicate 12 3000000000)) = of_nat (unat ?b)"
    unfolding b(2) by (simp add: rate_of_def sum_list_replicate)
  show ?thesis
    by (intro exI conjI, rule p1(1), rule i1, unfold i1, rule sum, rule p2(1), rule i2, rule p3(1) [unfolded same])
qed

text \<open>C29: a due time always advances past the present, by whole intervals, without catching up.  For a
  positive interval the loop ends; the new due time is the first slot after \<open>now\<close> in the grid of
  the old one, and exactly the slots jumped over, from the first to the last, are reported.\<close>

theorem advance_due_exact:
  assumes "0 < interval"
  shows "\<exists>k. advance_due due interval now =
      Some (due + Suc k * interval, if k = 0 then None else Some (k, due + interval, due + k * interval)) \<and>
    now < due + Suc k * interval \<and> (\<forall>j \<in> {1..k}. due + j * interval \<le> now)"
proof -
  obtain k where k: "skip_slots (due + interval) interval now 0 = Some (due + interval + k * interval, 0 + k)"
    "now < due + interval + k * interval" "\<forall>j < k. due + interval + j * interval \<le> now"
    using skip_slots_ends [OF assms] by blast
  have "due + j * interval \<le> now" if "j \<in> {1..k}" for j
    using that k(3) [rule_format, of "j - 1"] by (cases j) auto
  then show ?thesis
    using k(1,2) by (intro exI [of _ k]) (simp add: advance_due_def algebra_simps)
qed

theorem advance_due_exact_witness:
  "advance_due 100 50 260 = Some (300, Some (3, 150, 250))"
proof -
  obtain k where k: "advance_due 100 50 260 = Some (100 + Suc k * 50,
      if k = 0 then None else Some (k, 100 + 50, 100 + k * 50))"
    "260 < 100 + Suc k * (50 :: nat)" "\<forall>j \<in> {1..k}. 100 + j * 50 \<le> (260 :: nat)"
    using advance_due_exact [of 50 100 260] by auto
  have "k \<le> 3" using k(3) [rule_format, of k] by (cases "k = 0") auto
  moreover have "3 \<le> k" using k(2) by simp
  ultimately have "k = 3" by simp
  then show ?thesis using k(1) by simp
qed

end
