(* ===== verification/Diagnostic_Job.thy ===== *)
theory Diagnostic_Job
  imports Text "HOL-Library.List_Lexorder" "HOL-Library.Char_ord"
begin

text \<open>
  The transport-neutral diagnostic jobs of \<open>src/diagnostic_job.rs\<close>: identifiers, scopes, plans,
  step outcomes and the immutable result of a job.  Identifiers of targets, responders and
  evidence are non-empty strings; they can only be built by their constructors.
\<close>

definition JOB_MODEL_VERSION :: u16 where
  "JOB_MODEL_VERSION = 1"

section \<open>Vocabulary\<close>

datatype job_id = DtcScanId

datatype job_kind = DtcScanKind

datatype job_error = UnknownJobId string

datatype scope_error =
  EmptyRole | EmptyTarget | EmptyResponder | EmptyResponderSet | DuplicateResponder

datatype evidence_error = EmptyReference

fun job_id_str :: "job_id \<Rightarrow> string" where
  "job_id_str DtcScanId = ''dtc.scan''"

definition job_id_parse :: "string \<Rightarrow> job_error + job_id" where
  "job_id_parse v = (if v = ''dtc.scan'' then Inr DtcScanId else Inl (UnknownJobId v))"

fun kind_job_id :: "job_kind \<Rightarrow> job_id" where
  "kind_job_id DtcScanKind = DtcScanId"

fun kind_of_id :: "job_id \<Rightarrow> job_kind" where
  "kind_of_id DtcScanId = DtcScanKind"

fun job_error_text :: "job_error \<Rightarrow> string" where
  "job_error_text (UnknownJobId v) = ''unsupported diagnostic job id: '' @ v"

fun scope_error_text :: "scope_error \<Rightarrow> string" where
  "scope_error_text EmptyRole = ''ECU role must not be empty''"
| "scope_error_text EmptyTarget = ''known target must not be empty''"
| "scope_error_text EmptyResponder = ''known responder must not be empty''"
| "scope_error_text EmptyResponderSet = ''known responder scope must not be empty''"
| "scope_error_text DuplicateResponder = ''known responder scope must not contain duplicates''"

section \<open>Scopes\<close>

datatype job_role = JobEngine | JobTransmission | JobGateway | JobRole_Unknown | JobRole_VendorSpecific string

definition vendor_specific :: "string \<Rightarrow> scope_error + job_role" where
  "vendor_specific v = (if trim v = [] then Inl EmptyRole else Inr (JobRole_VendorSpecific v))"

fun job_role_str :: "job_role \<Rightarrow> string" where
  "job_role_str JobEngine = ''engine''"
| "job_role_str JobTransmission = ''transmission''"
| "job_role_str JobGateway = ''gateway''"
| "job_role_str JobRole_Unknown = ''unknown''"
| "job_role_str (JobRole_VendorSpecific v) = v"

text \<open>\<open>KnownTarget\<close> and \<open>KnownResponder\<close>\<close>

type_synonym known_target = string
type_synonym known_responder = string

definition known_target_new :: "string \<Rightarrow> scope_error + known_target" where
  "known_target_new v = (if trim v = [] then Inl EmptyTarget else Inr v)"

definition known_responder_new :: "string \<Rightarrow> scope_error + known_responder" where
  "known_responder_new v = (if trim v = [] then Inl EmptyResponder else Inr v)"

datatype diagnostic_scope =
  KnownEcu job_role known_target | KnownObdResponders "known_responder list" | VehicleWide

datatype job_target = Target_KnownEcu job_role known_target | Target_Responder known_responder | Target_Vehicle

definition known_obd_responders :: "known_responder list \<Rightarrow> scope_error + diagnostic_scope" where
  "known_obd_responders rs =
     (if rs = [] then Inl EmptyResponderSet
      else let sorted_rs = sort rs
        in if list_ex (\<lambda>(a, b). a = b) (zip sorted_rs (tl sorted_rs)) then Inl DuplicateResponder
           else Inr (KnownObdResponders sorted_rs))"

fun scope_targets :: "diagnostic_scope \<Rightarrow> job_target list" where
  "scope_targets (KnownEcu role target) = [Target_KnownEcu role target]"
| "scope_targets (KnownObdResponders rs) = map Target_Responder rs"
| "scope_targets VehicleWide = [Target_Vehicle]"

section \<open>Jobs and plans\<close>

datatype safety_class = ReadOnly

record diagnostic_job =
  dj_id :: job_id
  dj_kind :: job_kind
  dj_scope :: diagnostic_scope
  dj_safety :: safety_class

definition diagnostic_job_new :: "job_kind \<Rightarrow> diagnostic_scope \<Rightarrow> diagnostic_job" where
  "diagnostic_job_new kind scope =
     \<lparr>dj_id = kind_job_id kind, dj_kind = kind, dj_scope = scope, dj_safety = ReadOnly\<rparr>"

definition diagnostic_job_from_id :: "string \<Rightarrow> diagnostic_scope \<Rightarrow> job_error + diagnostic_job" where
  "diagnostic_job_from_id v scope =
     and_then (job_id_parse v) (\<lambda>i. Inr (diagnostic_job_new (kind_of_id i) scope))"

datatype job_step_kind = ReadDtc

record job_step =
  js_sequence :: nat
  js_kind :: job_step_kind
  js_target :: job_target

record job_plan =
  jp_version :: u16
  jp_id :: job_id
  jp_kind :: job_kind
  jp_scope :: diagnostic_scope
  jp_safety :: safety_class
  jp_steps :: "job_step list"

definition plan_for_job :: "diagnostic_job \<Rightarrow> job_plan" where
  "plan_for_job j =
     \<lparr>jp_version = JOB_MODEL_VERSION, jp_id = dj_id j, jp_kind = dj_kind j, jp_scope = dj_scope j,
      jp_safety = dj_safety j,
      jp_steps = (case dj_kind j of
        DtcScanKind \<Rightarrow>
          map (\<lambda>(i, t). \<lparr>js_sequence = i, js_kind = ReadDtc, js_target = t\<rparr>)
            (List.enumerate 0 (scope_targets (dj_scope j))))\<rparr>"

section \<open>Outcomes\<close>

type_synonym evidence_ref = string

definition evidence_ref_new :: "string \<Rightarrow> evidence_error + evidence_ref" where
  "evidence_ref_new v = (if trim v = [] then Inl EmptyReference else Inr v)"

record step_evidence =
  se_reference :: evidence_ref
  se_responder :: "known_responder option"

datatype step_error =
  Step_Unsupported | NegativeResponse | Step_Timeout | MalformedEvidence | Step_Other string

datatype session_error = Session_Disconnected | Session_Transport | Session_Fault | Session_Other string

datatype skip_reason = SkipSessionFailed | SkipCancelled

datatype step_outcome =
    Succeeded "step_evidence list"
  | RecoverableError step_error "step_evidence list"
  | NotRun skip_reason

fun outcome_evidence :: "step_outcome \<Rightarrow> step_evidence list" where
  "outcome_evidence (Succeeded es) = es"
| "outcome_evidence (RecoverableError _ es) = es"
| "outcome_evidence (NotRun _) = []"

datatype job_termination = EndCompleted | EndSessionFailed session_error | EndCancelled

datatype job_status =
  JobPlanned | JobRunning | JobCompleted | JobCompletedWithErrors | JobFailed | JobCancelled

fun job_status_str :: "job_status \<Rightarrow> string" where
  "job_status_str JobPlanned = ''planned''"
| "job_status_str JobRunning = ''running''"
| "job_status_str JobCompleted = ''completed''"
| "job_status_str JobCompletedWithErrors = ''completed_with_errors''"
| "job_status_str JobFailed = ''failed''"
| "job_status_str JobCancelled = ''cancelled''"

datatype result_error =
    StepCountMismatch nat nat
  | IncompleteCompletedJob
  | TerminalWithoutSkippedSteps
  | InvalidSkippedSteps

record job_step_result =
  jsr_step :: job_step
  jsr_outcome :: step_outcome

record job_result =
  jr_version :: u16
  jr_id :: job_id
  jr_kind :: job_kind
  jr_status :: job_status
  jr_steps :: "job_step_result list"
  jr_session_error :: "session_error option"

fun is_not_run :: "step_outcome \<Rightarrow> bool" where
  "is_not_run (NotRun _) = True"
| "is_not_run _ = False"

fun is_recoverable :: "step_outcome \<Rightarrow> bool" where
  "is_recoverable (RecoverableError _ _) = True"
| "is_recoverable _ = False"

definition validate_not_run_suffix :: "step_outcome list \<Rightarrow> skip_reason \<Rightarrow> result_error + unit" where
  "validate_not_run_suffix outcomes reason =
     (case position is_not_run outcomes of
        None \<Rightarrow> Inl TerminalWithoutSkippedSteps
      | Some first_not_run \<Rightarrow>
          if list_ex is_not_run (take first_not_run outcomes) \<or>
             list_ex (\<lambda>out. out \<noteq> NotRun reason) (drop first_not_run outcomes)
          then Inl InvalidSkippedSteps else Inr ())"

definition validate_termination :: "step_outcome list \<Rightarrow> job_termination \<Rightarrow> result_error + unit" where
  "validate_termination outcomes t =
     (case t of
        EndCompleted \<Rightarrow>
          if position is_not_run outcomes \<noteq> None then Inl IncompleteCompletedJob else Inr ()
      | EndSessionFailed _ \<Rightarrow> validate_not_run_suffix outcomes SkipSessionFailed
      | EndCancelled \<Rightarrow> validate_not_run_suffix outcomes SkipCancelled)"

definition from_outcomes ::
  "job_plan \<Rightarrow> step_outcome list \<Rightarrow> job_termination \<Rightarrow> result_error + job_result" where
  "from_outcomes plan outcomes t =
     (if length outcomes \<noteq> length (jp_steps plan)
      then Inl (StepCountMismatch (length (jp_steps plan)) (length outcomes))
      else and_then (validate_termination outcomes t) (\<lambda>_.
        let (status, err) =
          (case t of
             EndCompleted \<Rightarrow>
               (if list_ex is_recoverable outcomes then JobCompletedWithErrors else JobCompleted, None)
           | EndSessionFailed e \<Rightarrow> (JobFailed, Some e)
           | EndCancelled \<Rightarrow> (JobCancelled, None))
        in Inr \<lparr>jr_version = jp_version plan, jr_id = jp_id plan, jr_kind = jp_kind plan,
                jr_status = status,
                jr_steps = map (\<lambda>(s, out). \<lparr>jsr_step = s, jsr_outcome = out\<rparr>) (zip (jp_steps plan) outcomes),
                jr_session_error = err\<rparr>))"

section \<open>Facts\<close>

text \<open>The shape of the outcomes a termination allows: a prefix that ran, and the skipped rest.\<close>

fun ends_as :: "job_termination \<Rightarrow> step_outcome list \<Rightarrow> bool" where
  "ends_as EndCompleted rest = (rest = [])"
| "ends_as (EndSessionFailed _) rest = (rest \<noteq> [] \<and> list_all (\<lambda>out. out = NotRun SkipSessionFailed) rest)"
| "ends_as EndCancelled rest = (rest \<noteq> [] \<and> list_all (\<lambda>out. out = NotRun SkipCancelled) rest)"

lemma position_after:
  "list_all (\<lambda>x. \<not> P x) xs \<Longrightarrow> P y \<Longrightarrow> position P (xs @ y # ys) = Some (length xs)"
  by (induction xs) simp_all

lemma suffix_iff:
  "validate_not_run_suffix outcomes reason = Inr () \<longleftrightarrow>
    (\<exists>ran rest. outcomes = ran @ rest \<and> list_all (\<lambda>out. \<not> is_not_run out) ran \<and> rest \<noteq> [] \<and>
      list_all (\<lambda>out. out = NotRun reason) rest)"
proof
  assume "validate_not_run_suffix outcomes reason = Inr ()"
  then obtain i where i: "position is_not_run outcomes = Some i"
    and split: "\<not> list_ex is_not_run (take i outcomes)" "\<not> list_ex (\<lambda>out. out \<noteq> NotRun reason) (drop i outcomes)"
    by (auto simp: validate_not_run_suffix_def split: option.splits if_splits)
  have "i < length outcomes" using position_Some [OF i] by simp
  then show "\<exists>ran rest. outcomes = ran @ rest \<and> list_all (\<lambda>out. \<not> is_not_run out) ran \<and> rest \<noteq> [] \<and>
      list_all (\<lambda>out. out = NotRun reason) rest"
    using split by (intro exI [of _ "take i outcomes"] exI [of _ "drop i outcomes"])
      (auto simp: list_all_iff list_ex_iff)
next
  assume "\<exists>ran rest. outcomes = ran @ rest \<and> list_all (\<lambda>out. \<not> is_not_run out) ran \<and> rest \<noteq> [] \<and>
      list_all (\<lambda>out. out = NotRun reason) rest"
  then obtain ran rest where o: "outcomes = ran @ rest" "list_all (\<lambda>out. \<not> is_not_run out) ran"
    "rest \<noteq> []" "list_all (\<lambda>out. out = NotRun reason) rest" by blast
  then have "position is_not_run outcomes = Some (length ran)"
    by (cases rest) (auto intro: position_after)
  then show "validate_not_run_suffix outcomes reason = Inr ()"
    using o by (auto simp: validate_not_run_suffix_def list_all_iff list_ex_iff)
qed

lemma validate_termination_iff:
  "validate_termination outcomes t = Inr () \<longleftrightarrow>
    (\<exists>ran rest. outcomes = ran @ rest \<and> list_all (\<lambda>out. \<not> is_not_run out) ran \<and> ends_as t rest)"
proof (cases t)
  case EndCompleted
  then show ?thesis using position_None_iff [of is_not_run outcomes]
    by (auto simp: validate_termination_def list_all_iff)
qed (simp_all add: validate_termination_def suffix_iff)

section \<open>Properties\<close>

fun end_status :: "job_termination \<Rightarrow> step_outcome list \<Rightarrow> job_status" where
  "end_status EndCompleted outcomes =
     (if \<exists>out \<in> set outcomes. is_recoverable out then JobCompletedWithErrors else JobCompleted)"
| "end_status (EndSessionFailed _) _ = JobFailed"
| "end_status EndCancelled _ = JobCancelled"

fun end_error :: "job_termination \<Rightarrow> session_error option" where
  "end_error (EndSessionFailed e) = Some e"
| "end_error _ = None"

text \<open>C32: a job result is exact: outcomes are accepted for a plan exactly when there is one per step
  and they are steps that ran followed by the skipped rest the termination calls for (none when
  completed, at least one and all with its reason when failed or cancelled), and the result is
  then the plan's steps in order, each with its outcome, under the status of the termination.\<close>

theorem job_result_exact:
  "from_outcomes plan outcomes t = Inr r \<longleftrightarrow>
    length outcomes = length (jp_steps plan) \<and>
    (\<exists>ran rest. outcomes = ran @ rest \<and> list_all (\<lambda>out. \<not> is_not_run out) ran \<and> ends_as t rest) \<and>
    map jsr_step (jr_steps r) = jp_steps plan \<and> map jsr_outcome (jr_steps r) = outcomes \<and>
    jr_version r = jp_version plan \<and> jr_id r = jp_id plan \<and> jr_kind r = jp_kind plan \<and>
    jr_status r = end_status t outcomes \<and> jr_session_error r = end_error t"
proof -
  let ?steps = "map (\<lambda>(s, out). \<lparr>jsr_step = s, jsr_outcome = out\<rparr>) (zip (jp_steps plan) outcomes)"
  have steps: "jr_steps r = ?steps \<longleftrightarrow> map jsr_step (jr_steps r) = jp_steps plan \<and> map jsr_outcome (jr_steps r) = outcomes"
    if len: "length outcomes = length (jp_steps plan)"
  proof
    assume "jr_steps r = ?steps"
    then show "map jsr_step (jr_steps r) = jp_steps plan \<and> map jsr_outcome (jr_steps r) = outcomes"
      using len by (simp add: comp_def case_prod_beta)
  next
    assume a: "map jsr_step (jr_steps r) = jp_steps plan \<and> map jsr_outcome (jr_steps r) = outcomes"
    have "xs = map (\<lambda>(s, out). \<lparr>jsr_step = s, jsr_outcome = out\<rparr>) (zip (map jsr_step xs) (map jsr_outcome xs))"
      for xs :: "job_step_result list" by (induction xs) simp_all
    from this [of "jr_steps r"] show "jr_steps r = ?steps" using a by simp
  qed
  have result: "(case t of
       EndCompleted \<Rightarrow> (if list_ex is_recoverable outcomes then JobCompletedWithErrors else JobCompleted, None)
     | EndSessionFailed e \<Rightarrow> (JobFailed, Some e)
     | EndCancelled \<Rightarrow> (JobCancelled, None)) = (end_status t outcomes, end_error t)"
    by (cases t) (simp_all add: list_ex_iff)
  show ?thesis
  proof (cases "length outcomes = length (jp_steps plan)")
    case True
    show ?thesis
      unfolding from_outcomes_def result validate_termination_iff [symmetric]
      using True steps [OF True] by (cases r) (auto simp: Let_def)
  qed (simp add: from_outcomes_def)
qed

text \<open>The plan of a job has one read per target, numbered from zero in order, and a scope of known
  responders is ascending without repetition.\<close>

lemma plan_steps:
  "map js_target (jp_steps (plan_for_job j)) = scope_targets (dj_scope j)"
  "map js_sequence (jp_steps (plan_for_job j)) = [0..<length (scope_targets (dj_scope j))]"
  by (cases "dj_kind j"; simp add: plan_for_job_def comp_def case_prod_beta)+

lemma known_obd_responders_Inr:
  assumes "known_obd_responders rs = Inr scope"
  shows "\<exists>rs'. scope = KnownObdResponders rs' \<and> sorted_wrt (<) rs' \<and> set rs' = set rs \<and> rs' \<noteq> []"
proof -
  from assms have rs: "rs \<noteq> []" "scope = KnownObdResponders (sort rs)"
    "\<forall>p \<in> set (zip (sort rs) (tl (sort rs))). fst p \<noteq> snd p"
    by (auto simp: known_obd_responders_def Let_def list_ex_iff split: if_splits)
  have strict: "sorted xs \<Longrightarrow> \<forall>p \<in> set (zip xs (tl xs)). fst p \<noteq> snd p \<Longrightarrow> sorted_wrt (<) xs"
    for xs :: "string list"
  proof (induction xs)
    case (Cons x xs)
    then show ?case by (cases xs) (auto intro: order.strict_trans1 simp: less_le)
  qed simp
  have "sorted_wrt (<) (sort rs)" by (rule strict) (simp_all add: rs(3))
  then show ?thesis using rs(1,2) by (metis length_0_conv length_sort set_sort)
qed

end
