(* ===== verification/Capture_Events.thy ===== *)
theory Capture_Events
  imports Diagnostic_Job Runtime_Reducer Vehicle Responses
begin

text \<open>
  The closed vocabulary of capture events, \<open>src/capture_events.rs\<close>, with the checks its
  constructors make.  Times are microseconds; values that come from a checked constructor are
  written with \<open>_new\<close> or as the function of that name.  A numeric value is an \<open>f64\<close>: the exact
  rational of a finite number, or \<open>None\<close> for the infinities and NaN.
\<close>

section \<open>Checks\<close>

type_synonym capture_time_us = nat

text \<open>\<open>char::is_control\<close>\<close>

definition is_control :: "char \<Rightarrow> bool" where
  "is_control c \<longleftrightarrow> code_point c < 0x20 \<or> code_point c = 0x7f"

definition validate_text :: "string \<Rightarrow> string \<Rightarrow> string \<Rightarrow> nat \<Rightarrow> string + unit" where
  "validate_text kind label v max_len =
     (if trim v = [] then Inl (kind @ label @ '' must not be empty'')
      else if max_len < length v
      then Inl (kind @ label @ '' exceeds '' @ show_nat max_len @ '' bytes'')
      else if list_ex is_control v
      then Inl (kind @ label @ '' must not contain control characters'')
      else Inr ())"

definition validate_optional :: "(string \<Rightarrow> string + unit) \<Rightarrow> string option \<Rightarrow> string + unit" where
  "validate_optional f v = (case v of None \<Rightarrow> Inr () | Some x \<Rightarrow> f x)"

definition validate_diagnostic_text :: "string \<Rightarrow> string \<Rightarrow> nat \<Rightarrow> string + unit" where
  "validate_diagnostic_text = validate_text ''diagnostic ''"

definition validate_capture_text :: "string \<Rightarrow> string \<Rightarrow> nat \<Rightarrow> string + unit" where
  "validate_capture_text = validate_text ''capture ''"

definition validate_diagnostic_job_id :: "string \<Rightarrow> string + unit" where
  "validate_diagnostic_job_id v = validate_diagnostic_text ''job id'' v 64"

definition validate_diagnostic_source :: "string option \<Rightarrow> string + unit" where
  "validate_diagnostic_source = validate_optional (\<lambda>v. validate_diagnostic_text ''source'' v 64)"

definition validate_diagnostic_error :: "string option \<Rightarrow> string + unit" where
  "validate_diagnostic_error = validate_optional (\<lambda>v. validate_diagnostic_text ''error'' v 256)"

definition validate_capture_optional_text :: "string \<Rightarrow> string option \<Rightarrow> nat \<Rightarrow> string + unit" where
  "validate_capture_optional_text label v max_len =
     validate_optional (\<lambda>x. validate_capture_text label x max_len) v"

definition validate_capture_commit :: "string option \<Rightarrow> string \<Rightarrow> string + unit" where
  "validate_capture_commit v label =
     (case v of
        None \<Rightarrow> Inr ()
      | Some x \<Rightarrow>
          and_then (validate_capture_text label x 40) (\<lambda>_.
            if length x \<noteq> 40 \<or> \<not> all_hex x
            then Inl (''capture '' @ label @ '' must be a 40-character hexadecimal Git commit'')
            else Inr ()))"

definition validate_diagnostic_mode :: "u8 \<Rightarrow> string + unit" where
  "validate_diagnostic_mode m =
     (if 1 \<le> m \<and> m \<le> 0x7f then Inr ()
      else Inl ''diagnostic mode must be between 0x01 and 0x7F'')"

section \<open>Data\<close>

record read_timing =
  rt_due_us :: capture_time_us
  rt_started_us :: capture_time_us
  rt_finished_us :: capture_time_us

definition is_monotonic :: "read_timing \<Rightarrow> bool" where
  "is_monotonic t \<longleftrightarrow> rt_due_us t \<le> rt_started_us t \<and> rt_started_us t \<le> rt_finished_us t"

definition responder_evidence_new :: "string option \<Rightarrow> bytes \<Rightarrow> string + responder_evidence" where
  "responder_evidence_new r p =
     (if p = [] then Inl ''responder evidence payload must not be empty''
      else Inr \<lparr>re_responder = r, re_payload = p\<rparr>)"

datatype subscription_filter_outcome = Filter_Scheduled | Filter_Unsupported | Filter_Unknown

record capture_subscription =
  cs_semantic :: string
  cs_interval_us :: capture_time_us
  cs_filter :: subscription_filter_outcome

record knowledge_context =
  kc_core_version :: string
  kc_core_commit :: "string option"
  kc_repository :: string
  kc_revision :: string
  kc_schema_version :: u32

definition knowledge_context_new ::
  "string \<Rightarrow> string option \<Rightarrow> string \<Rightarrow> string \<Rightarrow> u32 \<Rightarrow> string + knowledge_context" where
  "knowledge_context_new version commit repository revision schema =
     and_then (validate_capture_text ''core version'' version 64) (\<lambda>_.
     and_then (validate_capture_commit commit ''core commit'') (\<lambda>_.
     and_then (validate_capture_text ''knowledge repository'' repository 128) (\<lambda>_.
     and_then (validate_capture_commit (Some revision) ''knowledge revision'') (\<lambda>_.
       if schema = 0 then Inl ''knowledge schema version must be positive''
       else Inr \<lparr>kc_core_version = version, kc_core_commit = commit, kc_repository = repository,
                 kc_revision = revision, kc_schema_version = schema\<rparr>))))"

record definition_reference =
  dr_definition_id :: "string option"
  dr_definition_version :: "u32 option"
  dr_confidence :: "string option"
  dr_hardware_validation :: "string option"
  dr_local_ecu_id :: "string option"

definition definition_reference_new ::
  "string option \<Rightarrow> u32 option \<Rightarrow> string option \<Rightarrow> string option \<Rightarrow> string option \<Rightarrow>
     string + definition_reference" where
  "definition_reference_new i v c h l =
     (if (i \<noteq> None) \<noteq> (v \<noteq> None) then Inl ''definition id and version must be provided together''
      else if i = None then Inl ''definition reference requires an id and version''
      else if v = Some 0 then Inl ''definition version must be positive''
      else
        and_then (validate_capture_optional_text ''definition id'' i 128) (\<lambda>_.
        and_then (validate_capture_optional_text ''confidence'' c 32) (\<lambda>_.
        and_then (validate_capture_optional_text ''hardware validation'' h 64) (\<lambda>_.
        and_then (validate_capture_optional_text ''local ECU id'' l 64) (\<lambda>_.
          Inr \<lparr>dr_definition_id = i, dr_definition_version = v, dr_confidence = c,
               dr_hardware_validation = h, dr_local_ecu_id = l\<rparr>)))))"

type_synonym f64 = "rat option"

datatype capture_value =
  Number f64 | Boolean bool | Enum_Value string | Text_Value string | Unavailable string

datatype job_step_status = Step_Success | Step_Recoverable | Step_Fatal | Step_Skipped

fun job_step_status_str :: "job_step_status \<Rightarrow> string" where
  "job_step_status_str Step_Success = ''success''"
| "job_step_status_str Step_Recoverable = ''recoverable''"
| "job_step_status_str Step_Fatal = ''fatal''"
| "job_step_status_str Step_Skipped = ''skipped''"

datatype dtc_transport_outcome = Dtc_Response | Dtc_NoResponse | Dtc_Malformed | Dtc_Error string

datatype dtc_fact = Fact_Code string | Fact_NoDtcs | Fact_DecodeError string

text \<open>The fields of \<open>ReadSucceeded\<close>.\<close>

record read_success =
  rs_semantic :: string
  rs_requested_interval_us :: capture_time_us
  rs_due_us :: capture_time_us
  rs_started_us :: capture_time_us
  rs_finished_us :: capture_time_us
  rs_request :: bytes
  rs_response :: bytes
  rs_value :: capture_value
  rs_unit :: string
  rs_source :: string
  rs_profile :: string
  rs_decoder :: string
  rs_provenance :: string
  rs_definition :: "definition_reference option"

datatype capture_event =
    CaptureStarted "nat option" "string option"
  | KnowledgeContext knowledge_context
  | SessionInitialized
  | SubscriptionConfigured string capture_time_us subscription_filter_outcome
  | SupportDiscovery bytes "string option" bytes
  | ProtocolNegotiationObserved bytes "string option" bytes
  | ResponsesObserved "capture_time_us option" string bytes "responder_evidence list" "string option"
      "string option"
  | ReadSucceeded read_success
  | ReadFailed string capture_time_us "read_timing option" "bytes option" string
  | SlotsSkipped string nat capture_time_us capture_time_us
  | SessionErrorEvent string
  | RuntimeStateChanged u64 runtime_state runtime_state runtime_event
  | ShutdownRequestedEvent
  | SessionStopped capture_time_us
  | DiagnosticJobStartedEvent string u16 nat
  | DiagnosticJobStep string nat u8 "string option" job_step_status "string option"
  | DiagnosticJobCompletedEvent string job_status
  | DiagnosticJobFailedEvent string string
  | DiagnosticJobCancelledEvent string
  | DtcTransportObserved string nat "string option" dtc_transport_outcome
  | DtcObservationEvent string nat "string option" dtc_fact string string

section \<open>Constructors\<close>

definition into_event :: "capture_subscription \<Rightarrow> capture_event" where
  "into_event s = SubscriptionConfigured (cs_semantic s) (cs_interval_us s) (cs_filter s)"

definition protocol_negotiation_observed :: "bytes \<Rightarrow> string option \<Rightarrow> bytes \<Rightarrow> string + capture_event" where
  "protocol_negotiation_observed request responder response =
     (if request \<noteq> [0x01, 0x00] then Inl ''protocol negotiation request must be OBD-II 01 00''
      else if length response \<noteq> 6 \<or> response ! 0 \<noteq> 0x41 \<or> response ! 1 \<noteq> 0x00
      then Inl ''protocol negotiation evidence must be a normalized 41 00 response''
      else and_then (validate_diagnostic_source responder) (\<lambda>_.
        Inr (ProtocolNegotiationObserved request responder response)))"

definition responses_observed_with_offset ::
  "string \<Rightarrow> bytes \<Rightarrow> responder_evidence list \<Rightarrow> string option \<Rightarrow> string option \<Rightarrow>
     capture_time_us option \<Rightarrow> string + capture_event" where
  "responses_observed_with_offset semantic request responses selected err offset =
     (if request = [] then Inl ''observed response request payload must not be empty''
      else if responses = [] then Inl ''observed response list must not be empty''
      else if list_ex (\<lambda>r. re_payload r = []) responses
      then Inl ''observed response payload must not be empty''
      else Inr (ResponsesObserved offset semantic request responses selected err))"

definition responses_observed ::
  "string \<Rightarrow> bytes \<Rightarrow> responder_evidence list \<Rightarrow> string option \<Rightarrow> string option \<Rightarrow> string + capture_event"
where
  "responses_observed semantic request responses selected err =
     responses_observed_with_offset semantic request responses selected err None"

definition read_succeeded_with_definition ::
  "transaction \<Rightarrow> capture_time_us \<Rightarrow> read_timing \<Rightarrow> definition_reference option \<Rightarrow>
     string + capture_event" where
  "read_succeeded_with_definition t interval timing reference =
     and_then (ok_or (''unknown signal in transaction: '' @ tx_semantic t)
         (find (\<lambda>s. signal_semantic s = tx_semantic t) SIGNALS)) (\<lambda>s.
       Inr (ReadSucceeded \<lparr>rs_semantic = tx_semantic t, rs_requested_interval_us = interval,
         rs_due_us = rt_due_us timing, rs_started_us = rt_started_us timing,
         rs_finished_us = rt_finished_us timing, rs_request = tx_request t,
         rs_response = tx_response t, rs_value = Number (Some (tx_value t)), rs_unit = tx_unit t,
         rs_source = tx_source t, rs_profile = tx_profile t,
         rs_decoder = md_decoder (sg_metadata s), rs_provenance = md_provenance (sg_metadata s),
         rs_definition = reference\<rparr>))"

definition read_succeeded_from_transaction ::
  "transaction \<Rightarrow> capture_time_us \<Rightarrow> read_timing \<Rightarrow> string + capture_event" where
  "read_succeeded_from_transaction t interval timing =
     read_succeeded_with_definition t interval timing None"

fun step_error_name :: "step_error \<Rightarrow> string" where
  "step_error_name Step_Unsupported = ''unsupported''"
| "step_error_name NegativeResponse = ''negative_response''"
| "step_error_name Step_Timeout = ''timeout''"
| "step_error_name MalformedEvidence = ''malformed_evidence''"
| "step_error_name (Step_Other _) = ''other''"

fun session_error_name :: "session_error \<Rightarrow> string" where
  "session_error_name Session_Disconnected = ''disconnected''"
| "session_error_name Session_Transport = ''transport''"
| "session_error_name Session_Fault = ''fault''"
| "session_error_name (Session_Other _) = ''other''"

definition job_started_from_plan :: "job_plan \<Rightarrow> capture_event" where
  "job_started_from_plan plan =
     DiagnosticJobStartedEvent (job_id_str (jp_id plan)) (jp_version plan) (length (jp_steps plan))"

definition diagnostic_job_step ::
  "string \<Rightarrow> nat \<Rightarrow> u8 \<Rightarrow> string option \<Rightarrow> job_step_status \<Rightarrow> string option \<Rightarrow> string + capture_event" where
  "diagnostic_job_step job sequence_number mode source status err =
     and_then (validate_diagnostic_job_id job) (\<lambda>_.
     and_then (validate_diagnostic_mode mode) (\<lambda>_.
     and_then (validate_diagnostic_source source) (\<lambda>_.
     and_then (validate_diagnostic_error err) (\<lambda>_.
       Inr (DiagnosticJobStep job sequence_number mode source status err)))))"

definition diagnostic_job_step_outcome ::
  "diagnostic_job \<Rightarrow> job_step \<Rightarrow> u8 \<Rightarrow> string option \<Rightarrow> step_outcome \<Rightarrow> string + capture_event" where
  "diagnostic_job_step_outcome job step mode source out =
     (let (status, err) =
        (case out of
           Succeeded _ \<Rightarrow> (Step_Success, None)
         | RecoverableError e _ \<Rightarrow> (Step_Recoverable, Some (step_error_name e))
         | NotRun SkipSessionFailed \<Rightarrow> (Step_Fatal, Some ''session_failed'')
         | NotRun SkipCancelled \<Rightarrow> (Step_Skipped, Some ''cancelled''))
      in diagnostic_job_step (job_id_str (dj_id job)) (js_sequence step) mode source status err)"

definition diagnostic_job_completed :: "job_result \<Rightarrow> string + capture_event" where
  "diagnostic_job_completed r =
     (if jr_status r = JobCompleted \<or> jr_status r = JobCompletedWithErrors
      then Inr (DiagnosticJobCompletedEvent (job_id_str (jr_id r)) (jr_status r))
      else Inl (''diagnostic job result is not completed: '' @ job_status_str (jr_status r)))"

definition diagnostic_job_terminal :: "job_result \<Rightarrow> string + capture_event" where
  "diagnostic_job_terminal r =
     (case jr_status r of
        JobCompleted \<Rightarrow> diagnostic_job_completed r
      | JobCompletedWithErrors \<Rightarrow> diagnostic_job_completed r
      | JobFailed \<Rightarrow> Inr (DiagnosticJobFailedEvent (job_id_str (jr_id r))
          (case jr_session_error r of Some e \<Rightarrow> session_error_name e | None \<Rightarrow> ''session_failed''))
      | JobCancelled \<Rightarrow> Inr (DiagnosticJobCancelledEvent (job_id_str (jr_id r)))
      | status \<Rightarrow> Inl (''diagnostic job result is not terminal: '' @ job_status_str status))"

definition validate_dtc_code :: "string \<Rightarrow> string + unit" where
  "validate_dtc_code v =
     (if length v \<noteq> 5 \<or> hd v \<notin> set ''PCBU'' \<or> \<not> list_all (\<lambda>c. c \<in> set ''0123456789ABCDEF'') (tl v)
      then Inl ''DTC code must be an uppercase five-character OBD-II code'' else Inr ())"

fun validate_dtc_fact :: "dtc_fact \<Rightarrow> string + unit" where
  "validate_dtc_fact (Fact_Code c) = validate_dtc_code c"
| "validate_dtc_fact Fact_NoDtcs = Inr ()"
| "validate_dtc_fact (Fact_DecodeError e) = validate_diagnostic_error (Some e)"

definition dtc_transport_observed ::
  "string \<Rightarrow> nat \<Rightarrow> string option \<Rightarrow> dtc_transport_outcome \<Rightarrow> string + capture_event" where
  "dtc_transport_observed job sequence_number responder out =
     and_then (validate_diagnostic_job_id job) (\<lambda>_.
     and_then (validate_diagnostic_source responder) (\<lambda>_.
     and_then (case out of Dtc_Error e \<Rightarrow> validate_diagnostic_error (Some e) | _ \<Rightarrow> Inr ()) (\<lambda>_.
       Inr (DtcTransportObserved job sequence_number responder out))))"

definition dtc_observation ::
  "string \<Rightarrow> nat \<Rightarrow> string option \<Rightarrow> dtc_fact \<Rightarrow> string \<Rightarrow> string \<Rightarrow> string + capture_event" where
  "dtc_observation job sequence_number responder found decoder prov =
     and_then (validate_diagnostic_job_id job) (\<lambda>_.
     and_then (validate_diagnostic_source responder) (\<lambda>_.
     and_then (validate_dtc_fact found) (\<lambda>_.
     and_then (validate_diagnostic_text ''decoder'' decoder 128) (\<lambda>_.
     and_then (validate_diagnostic_text ''provenance'' prov 256) (\<lambda>_.
       Inr (DtcObservationEvent job sequence_number responder found decoder prov))))))"

section \<open>Facts\<close>

text \<open>The names the events carry always pass their own checks, so that the steps and the end of a
  job can be recorded whatever their outcome.\<close>

lemma job_names_valid:
  "validate_diagnostic_job_id (job_id_str i) = Inr ()"
  "validate_diagnostic_error (Some (step_error_name e)) = Inr ()"
  "validate_diagnostic_error (Some ''session_failed'') = Inr ()"
  "validate_diagnostic_error (Some ''cancelled'') = Inr ()"
  "validate_diagnostic_error None = Inr ()"
proof -
  show "validate_diagnostic_job_id (job_id_str i) = Inr ()" by (cases i) (simp, code_simp)
  show "validate_diagnostic_error (Some (step_error_name e)) = Inr ()"
    by (cases e) (simp, code_simp)+
qed code_simp+

lemma job_step_recorded:
  assumes "1 \<le> mode" and "mode \<le> 0x7f" and "validate_diagnostic_source source = Inr ()"
  shows "\<exists>ev. diagnostic_job_step_outcome job step mode source out = Inr ev"
  using assms job_names_valid
  by (auto simp: diagnostic_job_step_outcome_def diagnostic_job_step_def validate_diagnostic_mode_def
      split: step_outcome.splits skip_reason.splits)

lemma job_end_recorded:
  "from_outcomes plan outcomes t = Inr r \<Longrightarrow> \<exists>ev. diagnostic_job_terminal r = Inr ev"
  by (auto simp: from_outcomes_def Let_def diagnostic_job_terminal_def diagnostic_job_completed_def
      split: if_splits job_termination.splits)

end
