(* ===== verification/Evidence_Log.thy ===== *)
theory Evidence_Log
  imports Ordered_Map Vehicle Responses
begin

text \<open>
  What a session remembers of its reads: the audit log of \<open>src/audit.rs\<close>, two queues that keep
  their latest entries, and the telemetry of \<open>src/telemetry.rs\<close>, a bounded history per signal in
  the order of timestamps.  The interface \<open>bounded_log\<close> is shared by the queues of the audit.  The
  clock and the values of a transaction are parameters.
\<close>

section \<open>Bounded queues\<close>

definition take_last :: "nat \<Rightarrow> 'a list \<Rightarrow> 'a list" where
  "take_last n xs = drop (length xs - n) xs"

lemma take_last_all: "length xs \<le> n \<Longrightarrow> take_last n xs = xs"
  by (simp add: take_last_def)

lemma length_take_last: "length (take_last n xs) = min n (length xs)"
  by (simp add: take_last_def)

lemma take_last_append: "take_last n (take_last n xs @ ys) = take_last n (xs @ ys)"
  by (cases "length xs \<le> n") (simp_all add: take_last_def add.commute)

text \<open>A queue that makes room by dropping its oldest entry.\<close>

definition push_bounded :: "nat \<Rightarrow> 'a \<Rightarrow> 'a list \<Rightarrow> 'a list" where
  "push_bounded capacity x xs = (if length xs = capacity then tl xs else xs) @ [x]"

locale bounded_log =
  fixes capacity :: "'s \<Rightarrow> nat"
    and items :: "'s \<Rightarrow> 'a list"
    and push :: "'a \<Rightarrow> 's \<Rightarrow> 's"
  assumes push_capacity: "capacity (push x s) = capacity s"
    and push_items: "0 < capacity s \<Longrightarrow> length (items s) \<le> capacity s \<Longrightarrow>
      items (push x s) = take_last (capacity s) (items s @ [x])"
begin

lemma pushes:
  assumes "0 < capacity s" and "length (items s) \<le> capacity s"
  shows "items (fold push xs s) = take_last (capacity s) (items s @ xs) \<and>
    capacity (fold push xs s) = capacity s"
  using assms
proof (induction xs arbitrary: s)
  case (Cons x xs)
  have p: "items (push x s) = take_last (capacity s) (items s @ [x])"
    using push_items Cons.prems by blast
  then have "items (fold push xs (push x s)) =
      take_last (capacity s) (take_last (capacity s) (items s @ [x]) @ xs)"
    using Cons.IH [of "push x s"] Cons.prems push_capacity by (simp add: length_take_last)
  then show ?case
    using Cons.IH [of "push x s"] Cons.prems p push_capacity
    by (simp add: take_last_append length_take_last)
qed (simp add: take_last_all)

end

lemma push_bounded_take_last:
  assumes "0 < n" and "length xs \<le> n"
  shows "push_bounded n x xs = take_last n (xs @ [x])"
proof (cases "length xs = n")
  case True
  then have "drop (Suc (length xs) - n) (xs @ [x]) = tl xs @ [x]"
    using assms(1) by (cases xs) simp_all
  then show ?thesis using True by (simp add: push_bounded_def take_last_def)
next
  case False
  then show ?thesis using assms by (simp add: push_bounded_def take_last_def)
qed

section \<open>Audit\<close>

record audit_entry =
  ae_timestamp_ms :: nat
  ae_source :: string
  ae_semantic :: string
  ae_request :: bytes
  ae_response :: bytes

record response_audit_entry =
  rae_timestamp_ms :: nat
  rae_semantic :: string
  rae_request :: bytes
  rae_responses :: "responder_evidence list"
  rae_selected :: "string option"
  rae_error :: "string option"

record audit_state =
  as_capacity :: nat
  as_entries :: "audit_entry list"
  as_response_entries :: "response_audit_entry list"

definition audit_new :: "nat \<Rightarrow> string + audit_state" where
  "audit_new capacity =
     (if 0 < capacity
      then Inr \<lparr>as_capacity = capacity, as_entries = [], as_response_entries = []\<rparr>
      else Inl ''audit capacity must be greater than zero'')"

definition audit_push :: "audit_entry \<Rightarrow> audit_state \<Rightarrow> audit_state" where
  "audit_push e s = s\<lparr>as_entries := push_bounded (as_capacity s) e (as_entries s)\<rparr>"

definition response_push :: "response_audit_entry \<Rightarrow> audit_state \<Rightarrow> audit_state" where
  "response_push e s =
     s\<lparr>as_response_entries := push_bounded (as_capacity s) e (as_response_entries s)\<rparr>"

definition audit_ingest :: "transaction \<Rightarrow> audit_state \<Rightarrow> audit_state" where
  "audit_ingest t = audit_push
     \<lparr>ae_timestamp_ms = tx_timestamp_ms t, ae_source = tx_source t, ae_semantic = tx_semantic t,
      ae_request = tx_request t, ae_response = tx_response t\<rparr>"

text \<open>\<open>record_error\<close> at the clock's \<open>now\<close>.\<close>

definition audit_record_error :: "nat \<Rightarrow> string \<Rightarrow> audit_state \<Rightarrow> audit_state" where
  "audit_record_error now e = audit_push
     \<lparr>ae_timestamp_ms = now, ae_source = ''error: '' @ e, ae_semantic = ''scheduler.error'',
      ae_request = [], ae_response = []\<rparr>"

definition audit_ingest_responses ::
  "response_audit_entry \<Rightarrow> audit_state \<Rightarrow> (string + unit) \<times> audit_state" where
  "audit_ingest_responses e s =
     (if rae_request e = [] then (Inl ''response audit request must not be empty'', s)
      else if rae_responses e = [] then (Inl ''response audit list must not be empty'', s)
      else (Inr (), response_push e s))"

interpretation audit_log: bounded_log as_capacity as_entries audit_push
  by unfold_locales (simp_all add: audit_push_def push_bounded_take_last)

interpretation response_log: bounded_log as_capacity as_response_entries response_push
  by unfold_locales (simp_all add: response_push_def push_bounded_take_last)

text \<open>The operations of the audit, and what each adds to which queue.\<close>

datatype audit_op =
    Audit_Ingest transaction
  | Audit_Error nat string
  | Audit_Responses response_audit_entry

fun run_audit_op :: "audit_op \<Rightarrow> audit_state \<Rightarrow> audit_state" where
  "run_audit_op (Audit_Ingest t) s = audit_ingest t s"
| "run_audit_op (Audit_Error now e) s = audit_record_error now e s"
| "run_audit_op (Audit_Responses e) s = snd (audit_ingest_responses e s)"

definition op_entries :: "audit_op \<Rightarrow> audit_entry list" where
  "op_entries op = (case op of
     Audit_Ingest t \<Rightarrow>
       [\<lparr>ae_timestamp_ms = tx_timestamp_ms t, ae_source = tx_source t, ae_semantic = tx_semantic t,
         ae_request = tx_request t, ae_response = tx_response t\<rparr>]
   | Audit_Error now e \<Rightarrow>
       [\<lparr>ae_timestamp_ms = now, ae_source = ''error: '' @ e, ae_semantic = ''scheduler.error'',
         ae_request = [], ae_response = []\<rparr>]
   | Audit_Responses e \<Rightarrow> [])"

definition op_responses :: "audit_op \<Rightarrow> response_audit_entry list" where
  "op_responses op = (case op of
     Audit_Responses e \<Rightarrow> if rae_request e \<noteq> [] \<and> rae_responses e \<noteq> [] then [e] else []
   | _ \<Rightarrow> [])"

lemma audit_op_effect:
  "as_entries (run_audit_op op s) = as_entries (fold audit_push (op_entries op) s)"
  "as_response_entries (run_audit_op op s) = as_response_entries (fold response_push (op_responses op) s)"
  "as_capacity (run_audit_op op s) = as_capacity s"
  by (cases op; simp add: op_entries_def op_responses_def audit_ingest_def audit_record_error_def
      audit_ingest_responses_def audit_push_def response_push_def)+

lemma audit_ops_effect:
  assumes "0 < as_capacity s" and "length (as_entries s) \<le> as_capacity s"
    and "length (as_response_entries s) \<le> as_capacity s"
  shows "as_entries (fold run_audit_op ops s) =
      take_last (as_capacity s) (as_entries s @ concat (map op_entries ops)) \<and>
    as_response_entries (fold run_audit_op ops s) =
      take_last (as_capacity s) (as_response_entries s @ concat (map op_responses ops))"
  using assms
proof (induction ops arbitrary: s)
  case (Cons op ops)
  have e: "as_entries (run_audit_op op s) = take_last (as_capacity s) (as_entries s @ op_entries op)"
    unfolding audit_op_effect using audit_log.pushes Cons.prems by blast
  have r: "as_response_entries (run_audit_op op s) =
      take_last (as_capacity s) (as_response_entries s @ op_responses op)"
    unfolding audit_op_effect using response_log.pushes Cons.prems by blast
  show ?case
    using Cons.IH [of "run_audit_op op s"] Cons.prems(1) e r
    by (simp add: audit_op_effect(3) take_last_append length_take_last flip: append_assoc)
qed (simp add: take_last_all)

section \<open>Telemetry\<close>

record sample =
  sa_timestamp_ms :: nat
  sa_value :: rat
  sa_unit :: string

record telemetry_state =
  ts_capacity :: nat
  ts_samples :: "(string \<times> sample list) list"
  ts_timestamps :: "(string \<times> nat list) list"

definition telemetry_new :: "nat \<Rightarrow> string + telemetry_state" where
  "telemetry_new capacity =
     (if 0 < capacity then Inr \<lparr>ts_capacity = capacity, ts_samples = [], ts_timestamps = []\<rparr>
      else Inl ''telemetry capacity must be greater than zero'')"

definition insert_at :: "nat \<Rightarrow> 'a \<Rightarrow> 'a list \<Rightarrow> 'a list" where
  "insert_at i x xs = take i xs @ x # drop i xs"

text \<open>The position is found among the timestamps and used for both lists.\<close>

definition ingest_at_us :: "transaction \<Rightarrow> nat \<Rightarrow> telemetry_state \<Rightarrow> telemetry_state" where
  "ingest_at_us t timestamp_us s =
     (let semantic = tx_semantic t;
          samples = (case map_of (ts_samples s) semantic of None \<Rightarrow> [] | Some xs \<Rightarrow> xs);
          timestamps = (case map_of (ts_timestamps s) semantic of None \<Rightarrow> [] | Some xs \<Rightarrow> xs);
          sample = \<lparr>sa_timestamp_ms = timestamp_us div 1000, sa_value = tx_value t, sa_unit = tx_unit t\<rparr>;
          position = (case position (\<lambda>current. timestamp_us < current) timestamps of
                        Some i \<Rightarrow> i | None \<Rightarrow> length timestamps);
          timestamps' = insert_at position timestamp_us timestamps;
          samples' = insert_at position sample samples;
          full = ts_capacity s < length samples'
      in s\<lparr>ts_samples := bt_insert semantic (if full then tl samples' else samples') (ts_samples s),
           ts_timestamps := bt_insert semantic (if full then tl timestamps' else timestamps') (ts_timestamps s)\<rparr>)"

text \<open>\<open>saturating_mul\<close> of a \<open>u128\<close>.\<close>

definition telemetry_ingest :: "transaction \<Rightarrow> telemetry_state \<Rightarrow> telemetry_state" where
  "telemetry_ingest t = ingest_at_us t (min (tx_timestamp_ms t * 1000) (2 ^ 128 - 1))"

definition telemetry_history :: "telemetry_state \<Rightarrow> string \<Rightarrow> sample list option" where
  "telemetry_history s semantic = map_of (ts_samples s) semantic"

definition telemetry_current :: "telemetry_state \<Rightarrow> string \<Rightarrow> sample option" where
  "telemetry_current s semantic =
     (case map_of (ts_samples s) semantic of
        None \<Rightarrow> None | Some xs \<Rightarrow> if xs = [] then None else Some (last xs))"

definition timed_history :: "telemetry_state \<Rightarrow> string \<Rightarrow> (nat \<times> sample) list option" where
  "timed_history s semantic =
     (case (map_of (ts_samples s) semantic, map_of (ts_timestamps s) semantic) of
        (Some samples, Some timestamps) \<Rightarrow> Some (zip timestamps samples)
      | _ \<Rightarrow> None)"

definition telemetry_signals :: "telemetry_state \<Rightarrow> string list" where
  "telemetry_signals s = map fst (ts_samples s)"

section \<open>One history\<close>

text \<open>Insertion behind the entries that are not later.\<close>

definition insert_timed :: "nat \<times> 'a \<Rightarrow> (nat \<times> 'a) list \<Rightarrow> (nat \<times> 'a) list" where
  "insert_timed x h =
     takeWhile (\<lambda>y. fst y \<le> fst x) h @ x # dropWhile (\<lambda>y. fst y \<le> fst x) h"

definition push_timed :: "nat \<Rightarrow> nat \<times> 'a \<Rightarrow> (nat \<times> 'a) list \<Rightarrow> (nat \<times> 'a) list" where
  "push_timed capacity x h =
     (let h' = insert_timed x h in if capacity < length h' then tl h' else h')"

lemma position_takeWhile:
  "(case position P xs of Some i \<Rightarrow> i | None \<Rightarrow> length xs) = length (takeWhile (\<lambda>x. \<not> P x) xs)"
  by (induction xs) (auto split: option.splits)

lemma insert_at_position:
  "insert_at (case position (\<lambda>y. fst x < y) (map fst h) of Some i \<Rightarrow> i | None \<Rightarrow> length (map fst h)) x h
    = insert_timed x h"
proof -
  let ?n = "length (takeWhile (\<lambda>y. fst y \<le> fst x) h)"
  have "(case position (\<lambda>y. fst x < y) (map fst h) of Some i \<Rightarrow> i | None \<Rightarrow> length (map fst h)) = ?n"
    unfolding position_takeWhile by (simp add: takeWhile_map not_less comp_def)
  then show ?thesis
    by (simp add: insert_at_def insert_timed_def flip: takeWhile_eq_take dropWhile_eq_drop)
qed

lemma map_insert_at: "map f (insert_at i x xs) = insert_at i (f x) (map f xs)"
  by (simp add: insert_at_def take_map drop_map)

lemma mset_insert_timed: "mset (insert_timed x h) = add_mset x (mset h)"
proof -
  have "mset h = mset (takeWhile (\<lambda>y. fst y \<le> fst x) h) + mset (dropWhile (\<lambda>y. fst y \<le> fst x) h)"
    by (metis mset_append takeWhile_dropWhile_id)
  then show ?thesis by (simp add: insert_timed_def)
qed

lemma set_insert_timed: "set (insert_timed x h) = insert x (set h)"
  using arg_cong [OF mset_insert_timed, of set_mset x h] by simp

lemma length_insert_timed: "length (insert_timed x h) = Suc (length h)"
  using arg_cong [OF mset_insert_timed, of size x h] by simp

lemma sorted_insert_timed: "sorted (map fst h) \<Longrightarrow> sorted (map fst (insert_timed x h))"
proof (induction h)
  case (Cons y h)
  show ?case
  proof (cases "fst y \<le> fst x")
    case True
    then have "insert_timed x (y # h) = y # insert_timed x h" by (simp add: insert_timed_def)
    then show ?thesis using Cons True by (auto simp: set_insert_timed)
  next
    case False
    then show ?thesis using Cons.prems by (auto simp: insert_timed_def)
  qed
qed (simp add: insert_timed_def)

lemma filter_insert_timed:
  assumes "sorted (map fst h)"
  shows "filter (\<lambda>y. fst y = k) (insert_timed x h) = filter (\<lambda>y. fst y = k) (h @ [x])"
proof (cases "fst x = k")
  case True
  have "y \<in> set (dropWhile (\<lambda>y. fst y \<le> fst x) h) \<Longrightarrow> fst y \<noteq> k" for y
    using assms True
    by (induction h) (auto split: if_splits)
  then have d: "filter (\<lambda>y. fst y = k) (dropWhile (\<lambda>y. fst y \<le> fst x) h) = []"
    by (simp add: filter_empty_conv)
  then have "filter (\<lambda>y. fst y = k) h = filter (\<lambda>y. fst y = k) (takeWhile (\<lambda>y. fst y \<le> fst x) h)"
    by (metis append_Nil2 filter_append takeWhile_dropWhile_id)
  then show ?thesis using True d by (simp add: insert_timed_def)
next
  case False
  moreover have "filter (\<lambda>y. fst y = k) h =
      filter (\<lambda>y. fst y = k) (takeWhile (\<lambda>y. fst y \<le> fst x) h) @
      filter (\<lambda>y. fst y = k) (dropWhile (\<lambda>y. fst y \<le> fst x) h)"
    by (metis filter_append takeWhile_dropWhile_id)
  ultimately show ?thesis by (simp add: insert_timed_def)
qed

text \<open>Inserting one by one is the stable sort.\<close>

lemma insert_timed_sort: "insert_timed x (sort_key fst xs) = sort_key fst (xs @ [x])"
proof (rule properties_for_sort_key [symmetric])
  show "mset (insert_timed x (sort_key fst xs)) = mset (xs @ [x])" by (simp add: mset_insert_timed)
  show "filter (\<lambda>y. fst k = fst y) (insert_timed x (sort_key fst xs)) = filter (\<lambda>y. fst k = fst y) (xs @ [x])" for k
    using filter_insert_timed [OF sorted_sort_key, of "fst k" x xs] by (simp add: eq_commute [of "fst k"] sort_key_stable)
  show "sorted (map fst (insert_timed x (sort_key fst xs)))"
    by (rule sorted_insert_timed) simp
qed

text \<open>Dropping the first whenever there are too many keeps the latest.\<close>

lemma push_timed_latest:
  assumes h: "sorted (map fst h)" and n: "0 < n"
  shows "push_timed n x (take_last n h) = take_last n (insert_timed x h)"
proof (cases "length h < n")
  case True
  then show ?thesis
    by (simp add: take_last_all push_timed_def Let_def length_insert_timed)
next
  case False
  define d where "d = take (length h - n) h"
  define l where "l = drop (length h - n) h"
  have hdl: "h = d @ l" "length l = n" "take_last n h = l"
    using False by (simp_all add: d_def l_def take_last_def)
  show ?thesis
  proof (cases "\<forall>y \<in> set d. fst y \<le> fst x")
    case True
    then have "insert_timed x h = d @ insert_timed x l"
      by (simp add: hdl(1) insert_timed_def takeWhile_append2 dropWhile_append2)
    then show ?thesis using n
      by (simp add: hdl push_timed_def Let_def take_last_def length_insert_timed drop_Suc)
  next
    case False
    then obtain y where "y \<in> set d" "fst x < fst y" by auto
    then have late: "\<forall>z \<in> set l. fst x < fst z"
      using h hdl(1) by (force simp: sorted_append)
    then have "insert_timed x l = x # l" by (cases l) (auto simp: insert_timed_def)
    moreover have "insert_timed x h = insert_timed x d @ l"
    proof -
      show ?thesis using False
        by (auto simp: hdl(1) insert_timed_def takeWhile_append dropWhile_append)
    qed
    ultimately show ?thesis using n
      by (simp add: hdl push_timed_def Let_def take_last_def length_insert_timed)
  qed
qed

section \<open>All histories\<close>

type_synonym timed_transaction = "transaction \<times> nat"

definition own_samples :: "timed_transaction list \<Rightarrow> string \<Rightarrow> (nat \<times> sample) list" where
  "own_samples events semantic =
     map (\<lambda>(t, us). (us, \<lparr>sa_timestamp_ms = us div 1000, sa_value = tx_value t, sa_unit = tx_unit t\<rparr>))
       (filter (\<lambda>(t, _). tx_semantic t = semantic) events)"

definition telemetry_of :: "nat \<Rightarrow> timed_transaction list \<Rightarrow> telemetry_state \<Rightarrow> bool" where
  "telemetry_of capacity events s \<longleftrightarrow>
     ts_capacity s = capacity \<and> bt_wf (ts_samples s) \<and> bt_wf (ts_timestamps s) \<and>
     (\<forall>k. let own = own_samples events k; kept = take_last capacity (sort_key fst own)
          in map_of (ts_samples s) k = (if own = [] then None else Some (map snd kept)) \<and>
             map_of (ts_timestamps s) k = (if own = [] then None else Some (map fst kept)))"

lemma own_samples_snoc:
  "own_samples (events @ [(t, us)]) k =
     own_samples events k @ (if tx_semantic t = k
       then [(us, \<lparr>sa_timestamp_ms = us div 1000, sa_value = tx_value t, sa_unit = tx_unit t\<rparr>)] else [])"
  by (simp add: own_samples_def)

lemma push_timed_lists:
  fixes h :: "(nat \<times> 'a) list"
  assumes "p = (case position (\<lambda>current. us < current) (map fst h) of Some i \<Rightarrow> i | None \<Rightarrow> length (map fst h))"
  shows "(if n < length (insert_at p x (map snd h)) then tl (insert_at p x (map snd h))
      else insert_at p x (map snd h)) = map snd (push_timed n (us, x) h)"
    and "(if n < length (insert_at p x (map snd h)) then tl (insert_at p us (map fst h))
      else insert_at p us (map fst h)) = map fst (push_timed n (us, x) h)"
proof -
  have "insert_timed (us, x) h = insert_at p (us, x) h"
    using insert_at_position [where x = "(us, x)" and h = h] assms by simp
  then have "map snd (insert_timed (us, x) h) = insert_at p x (map snd h)"
    "map fst (insert_timed (us, x) h) = insert_at p us (map fst h)"
    by (simp_all add: map_insert_at)
  moreover have "length (insert_at p x (map snd h)) = length (insert_timed (us, x) h)"
    using calculation(1) by (metis length_map)
  ultimately show "(if n < length (insert_at p x (map snd h)) then tl (insert_at p x (map snd h))
      else insert_at p x (map snd h)) = map snd (push_timed n (us, x) h)"
    "(if n < length (insert_at p x (map snd h)) then tl (insert_at p us (map fst h))
      else insert_at p us (map fst h)) = map fst (push_timed n (us, x) h)"
    by (simp_all add: push_timed_def Let_def map_tl)
qed

lemma telemetry_of_ingest:
  assumes s: "telemetry_of capacity events s" and n: "0 < capacity"
  shows "telemetry_of capacity (events @ [(t, us)]) (ingest_at_us t us s)"
proof -
  let ?k = "tx_semantic t"
  let ?x = "\<lparr>sa_timestamp_ms = us div 1000, sa_value = tx_value t, sa_unit = tx_unit t\<rparr>"
  define h where "h = take_last capacity (sort_key fst (own_samples events ?k))"
  have old: "(case map_of (ts_samples s) ?k of None \<Rightarrow> [] | Some xs \<Rightarrow> xs) = map snd h"
    "(case map_of (ts_timestamps s) ?k of None \<Rightarrow> [] | Some xs \<Rightarrow> xs) = map fst h"
    using s by (simp_all add: telemetry_of_def Let_def h_def take_last_def)
  have new: "take_last capacity (sort_key fst (own_samples (events @ [(t, us)]) ?k)) =
      push_timed capacity (us, ?x) h"
    by (simp add: h_def own_samples_snoc push_timed_latest [OF sorted_sort_key n] insert_timed_sort)
  have "ingest_at_us t us s = s\<lparr>
      ts_samples := bt_insert ?k (map snd (push_timed capacity (us, ?x) h)) (ts_samples s),
      ts_timestamps := bt_insert ?k (map fst (push_timed capacity (us, ?x) h)) (ts_timestamps s)\<rparr>"
    unfolding ingest_at_us_def Let_def old
    by (subst push_timed_lists(1) [OF refl], subst push_timed_lists(2) [OF refl])
      (use s in \<open>simp add: telemetry_of_def\<close>)
  then show ?thesis
    using s new by (auto simp: telemetry_of_def Let_def own_samples_snoc bt_wf_insert)
qed

lemma telemetry_of_run:
  assumes "telemetry_of capacity before s" and "0 < capacity"
  shows "telemetry_of capacity (before @ events) (foldl (\<lambda>s (t, us). ingest_at_us t us s) s events)"
  using assms
proof (induction events arbitrary: before s)
  case (Cons e events)
  obtain t us where e: "e = (t, us)" by (cases e)
  show ?case
    using Cons.IH [OF telemetry_of_ingest [OF Cons.prems, of t us] Cons.prems(2)] e by simp
qed simp

section \<open>Properties\<close>

text \<open>The audit keeps the latest entries, in order, and nothing else: after any operations on a
  new audit the two queues are the last \<open>capacity\<close> entries of everything ingested and of every
  well-formed response list; a malformed response list is refused and changes nothing.\<close>

lemma audit_keeps_latest:
  assumes "audit_new capacity = Inr s"
  shows "as_entries (fold run_audit_op ops s) = take_last capacity (concat (map op_entries ops)) \<and>
    as_response_entries (fold run_audit_op ops s) = take_last capacity (concat (map op_responses ops)) \<and>
    (rae_request e = [] \<or> rae_responses e = [] \<longrightarrow> snd (audit_ingest_responses e s) = s)"
  using audit_ops_effect [of s ops] assms
  by (auto simp: audit_new_def audit_ingest_responses_def split: if_splits)

lemma audit_keeps_latest_witness:
  "map ae_source (as_entries (fold run_audit_op
      [Audit_Error 1 ''a'', Audit_Error 2 ''b'', Audit_Error 3 ''c'']
      \<lparr>as_capacity = 2, as_entries = [], as_response_entries = []\<rparr>)) = [''error: b'', ''error: c'']"
proof -
  have "audit_new 2 = Inr \<lparr>as_capacity = 2, as_entries = [], as_response_entries = []\<rparr>"
    by (simp add: audit_new_def)
  from conjunct1 [OF audit_keeps_latest [OF this, of "[Audit_Error 1 ''a'', Audit_Error 2 ''b'', Audit_Error 3 ''c'']"]]
  show ?thesis by (simp add: op_entries_def take_last_def)
qed

text \<open>A signal's history is the latest samples in the order of time.  However the transactions
  arrive, live or replayed out of order, the history of a semantic, its timestamps in lock-step, is
  the stable sort by timestamp of that semantic's transactions cut to the last \<open>capacity\<close>; other
  semantics do not influence it, and the current value is its last.\<close>

lemma telemetry_history_latest:
  assumes "telemetry_new capacity = Inr s"
  shows "let own = own_samples events k;
      kept = take_last capacity (sort_key fst own);
      s' = foldl (\<lambda>s (t, us). ingest_at_us t us s) s events
    in timed_history s' k = (if own = [] then None else Some kept) \<and>
       telemetry_current s' k = (if own = [] then None else Some (snd (last kept)))"
proof -
  let ?s' = "foldl (\<lambda>s (t, us). ingest_at_us t us s) s events"
  have n: "0 < capacity" using assms by (simp add: telemetry_new_def split: if_splits)
  have "telemetry_of capacity [] s"
    using assms by (auto simp: telemetry_new_def telemetry_of_def own_samples_def bt_wf_def split: if_splits)
  from telemetry_of_run [OF this n, of events] have h: "telemetry_of capacity events ?s'" by simp
  let ?own = "own_samples events k"
  let ?kept = "take_last capacity (sort_key fst ?own)"
  have lists: "map_of (ts_samples ?s') k = (if ?own = [] then None else Some (map snd ?kept))"
    "map_of (ts_timestamps ?s') k = (if ?own = [] then None else Some (map fst ?kept))"
    using h by (simp_all only: telemetry_of_def Let_def)
  show ?thesis
  proof (cases "?own = []")
    case True
    then show ?thesis using lists by (simp add: Let_def timed_history_def telemetry_current_def)
  next
    case False
    then have "length ?kept > 0" using n by (simp add: length_take_last)
    then have "?kept \<noteq> []" by blast
    then show ?thesis using lists False
      by (simp add: Let_def timed_history_def telemetry_current_def last_map zip_map_fst_snd)
  qed
qed

definition example_transaction :: "rat \<Rightarrow> transaction" where
  "example_transaction v =
     \<lparr>tx_timestamp_ms = 0, tx_source = ''test'', tx_profile = ''obd2'', tx_semantic = ''engine.rpm'',
      tx_request = [], tx_response = [], tx_value = v, tx_unit = ''rpm''\<rparr>"

lemma telemetry_history_latest_witness:
  "map_option (map fst) (timed_history
     (foldl (\<lambda>s (t, us). ingest_at_us t us s) \<lparr>ts_capacity = 2, ts_samples = [], ts_timestamps = []\<rparr>
       [(example_transaction 1, 5000), (example_transaction 2, 9000), (example_transaction 3, 7000)])
     ''engine.rpm'') = Some [7000, 9000]"
proof -
  have "telemetry_new 2 = Inr \<lparr>ts_capacity = 2, ts_samples = [], ts_timestamps = []\<rparr>"
    by (simp add: telemetry_new_def)
  from telemetry_history_latest [OF this, of "[(example_transaction 1, 5000), (example_transaction 2, 9000),
      (example_transaction 3, 7000)]" "''engine.rpm''"]
  show ?thesis by (simp add: Let_def own_samples_def example_transaction_def take_last_def)
qed

end
