(* ===== verification/Topology_Provider.thy ===== *)
theory Topology_Provider
  imports Topology
begin

text \<open>
  The topology providers of \<open>src/topology_provider.rs\<close>: facts about configured controllers with
  their coverage, and the merge of provider results into the topology observed on the bus.
  Collections the code sorts and deduplicates are \<open>canon\<close> (theory \<open>Topology\<close>) under the key of their derived order.
\<close>

section \<open>Provider data\<close>

datatype provider_error =
    EmptyProviderName | ZeroProviderVersion | EmptyManufacturer | EmptyPlatform
  | EmptyEvidenceReference | InvalidStatusCoverage | NonApplicableProviderHasEntries
  | BlockedOrUnavailableProviderHasEntries

fun provider_error_text :: "provider_error \<Rightarrow> string" where
  "provider_error_text EmptyProviderName = ''topology provider name must not be empty''"
| "provider_error_text ZeroProviderVersion = ''topology provider version must be greater than zero''"
| "provider_error_text EmptyManufacturer = ''topology provider manufacturer must not be empty''"
| "provider_error_text EmptyPlatform = ''topology provider platform must not be empty''"
| "provider_error_text EmptyEvidenceReference =
     ''topology provider evidence reference must not be empty''"
| "provider_error_text InvalidStatusCoverage =
     ''topology provider status and coverage are inconsistent''"
| "provider_error_text NonApplicableProviderHasEntries =
     ''a not-applicable topology provider must not contain installed ECU entries''"
| "provider_error_text BlockedOrUnavailableProviderHasEntries =
     ''a blocked or unavailable topology provider must not contain installed ECU entries''"

definition normalize_non_empty :: "string \<Rightarrow> provider_error \<Rightarrow> provider_error + string" where
  "normalize_non_empty v e = (if trim v = [] then Inl e else Inr (trim v))"

record provider_id =
  pi_name :: string
  pi_version :: u32

definition provider_id_new :: "string \<Rightarrow> u32 \<Rightarrow> provider_error + provider_id" where
  "provider_id_new name version =
     and_then (normalize_non_empty name EmptyProviderName) (\<lambda>n.
       if version = 0 then Inl ZeroProviderVersion
       else Inr \<lparr>pi_name = n, pi_version = version\<rparr>)"

record provider_scope =
  sc_manufacturer :: "string option"
  sc_platform :: "string option"

definition scope_generic :: provider_scope where
  "scope_generic = \<lparr>sc_manufacturer = None, sc_platform = None\<rparr>"

definition scope_manufacturer :: "string \<Rightarrow> provider_error + provider_scope" where
  "scope_manufacturer m =
     and_then (normalize_non_empty m EmptyManufacturer) (\<lambda>m.
       Inr \<lparr>sc_manufacturer = Some m, sc_platform = None\<rparr>)"

definition scope_platform :: "string \<Rightarrow> string \<Rightarrow> provider_error + provider_scope" where
  "scope_platform m p =
     and_then (normalize_non_empty m EmptyManufacturer) (\<lambda>m.
     and_then (normalize_non_empty p EmptyPlatform) (\<lambda>p.
       Inr \<lparr>sc_manufacturer = Some m, sc_platform = Some p\<rparr>))"

record provider_applicability =
  pa_scope :: provider_scope
  pa_provenance :: provenance

type_synonym evidence_reference = string

definition evidence_reference_new :: "string \<Rightarrow> provider_error + evidence_reference" where
  "evidence_reference_new r = normalize_non_empty r EmptyEvidenceReference"

datatype provider_status =
  Provider_Completed | Provider_Unavailable | Provider_Blocked | Provider_NotApplicable | Provider_Failed

datatype provider_coverage =
  Coverage_Unknown | Coverage_Partial | Coverage_Complete | Coverage_NotApplicable

fun provider_status_str :: "provider_status \<Rightarrow> string" where
  "provider_status_str Provider_Completed = ''completed''"
| "provider_status_str Provider_Unavailable = ''unavailable''"
| "provider_status_str Provider_Blocked = ''blocked''"
| "provider_status_str Provider_NotApplicable = ''not-applicable''"
| "provider_status_str Provider_Failed = ''failed''"

fun provider_coverage_str :: "provider_coverage \<Rightarrow> string" where
  "provider_coverage_str Coverage_Unknown = ''unknown''"
| "provider_coverage_str Coverage_Partial = ''partial''"
| "provider_coverage_str Coverage_Complete = ''complete''"
| "provider_coverage_str Coverage_NotApplicable = ''not-applicable''"

section \<open>Installed controllers\<close>

record installed_evidence =
  ie_context :: protocol_context
  ie_configured :: configured_controller
  ie_target :: "request_target_evidence option"
  ie_references :: "evidence_reference list"

definition installed_evidence_new :: "protocol_context \<Rightarrow> configured_controller \<Rightarrow> installed_evidence" where
  "installed_evidence_new c configured =
     \<lparr>ie_context = c, ie_configured = configured, ie_target = None, ie_references = []\<rparr>"

definition installed_with_target :: "request_target_evidence \<Rightarrow> installed_evidence \<Rightarrow> installed_evidence" where
  "installed_with_target t e = e\<lparr>ie_target := Some t\<rparr>"

definition with_evidence_reference :: "evidence_reference \<Rightarrow> installed_evidence \<Rightarrow> installed_evidence" where
  "with_evidence_reference r e = e\<lparr>ie_references := canon id (ie_references e @ [r])\<rparr>"

definition to_topology_node :: "installed_evidence \<Rightarrow> ecu_node" where
  "to_topology_node e =
     (let node = with_configured_controller (ie_configured e)
                   (ecu_node_new (ie_context e) (cc_provenance (ie_configured e)))
      in case ie_target e of Some t \<Rightarrow> with_request_target t node | None \<Rightarrow> node)"

text \<open>The derived orders.\<close>

type_synonym installed_order =
  "context_order \<times> configured_order \<times> target_evidence_order option \<times> string list"

definition installed_key :: "installed_evidence \<Rightarrow> installed_order" where
  "installed_key e =
     (context_key (ie_context e), configured_key (ie_configured e),
      map_option target_evidence_key (ie_target e), ie_references e)"

fun provider_status_key :: "provider_status \<Rightarrow> nat" where
  "provider_status_key Provider_Completed = 0"
| "provider_status_key Provider_Unavailable = 1"
| "provider_status_key Provider_Blocked = 2"
| "provider_status_key Provider_NotApplicable = 3"
| "provider_status_key Provider_Failed = 4"

fun provider_coverage_key :: "provider_coverage \<Rightarrow> nat" where
  "provider_coverage_key Coverage_Unknown = 0"
| "provider_coverage_key Coverage_Partial = 1"
| "provider_coverage_key Coverage_Complete = 2"
| "provider_coverage_key Coverage_NotApplicable = 3"

type_synonym coverage_order =
  "(string \<times> u32) \<times> ((string option \<times> string option) \<times> provenance_order) \<times> nat \<times> nat"

type_synonym provider_order =
  "(string \<times> u32) \<times> ((string option \<times> string option) \<times> provenance_order) \<times> nat \<times> nat \<times>
     installed_order list \<times> string list"

definition provider_id_key :: "provider_id \<Rightarrow> string \<times> u32" where
  "provider_id_key i = (pi_name i, pi_version i)"

definition applicability_key :: "provider_applicability \<Rightarrow> (string option \<times> string option) \<times> provenance_order" where
  "applicability_key a =
     ((sc_manufacturer (pa_scope a), sc_platform (pa_scope a)), provenance_key (pa_provenance a))"

section \<open>Results\<close>

record provider_result =
  pr_id :: provider_id
  pr_applicability :: provider_applicability
  pr_status :: provider_status
  pr_coverage :: provider_coverage
  pr_entries :: "installed_evidence list"
  pr_references :: "evidence_reference list"

definition provider_result_key :: "provider_result \<Rightarrow> provider_order" where
  "provider_result_key r =
     (provider_id_key (pr_id r), applicability_key (pr_applicability r),
      provider_status_key (pr_status r), provider_coverage_key (pr_coverage r),
      map installed_key (pr_entries r), pr_references r)"

fun coverage_fits :: "provider_status \<Rightarrow> provider_coverage \<Rightarrow> bool \<Rightarrow> bool" where
  "coverage_fits Provider_Completed c _ = (c \<in> {Coverage_Partial, Coverage_Complete})"
| "coverage_fits Provider_Blocked c _ = (c = Coverage_Unknown)"
| "coverage_fits Provider_Unavailable c _ = (c = Coverage_Unknown)"
| "coverage_fits Provider_NotApplicable c _ = (c = Coverage_NotApplicable)"
| "coverage_fits Provider_Failed c entries_empty =
     (if entries_empty then c = Coverage_Unknown else c = Coverage_Partial)"

definition validate_status_coverage ::
  "provider_status \<Rightarrow> provider_coverage \<Rightarrow> bool \<Rightarrow> provider_error + unit" where
  "validate_status_coverage status coverage entries_empty =
     (if status \<in> {Provider_Blocked, Provider_Unavailable} \<and> \<not> entries_empty
      then Inl BlockedOrUnavailableProviderHasEntries
      else if status = Provider_NotApplicable \<and> \<not> entries_empty
      then Inl NonApplicableProviderHasEntries
      else if coverage_fits status coverage entries_empty then Inr ()
      else Inl InvalidStatusCoverage)"

definition provider_result_new ::
  "provider_id \<Rightarrow> provider_applicability \<Rightarrow> provider_status \<Rightarrow> provider_coverage \<Rightarrow>
     installed_evidence list \<Rightarrow> evidence_reference list \<Rightarrow> provider_error + provider_result" where
  "provider_result_new i applicability status coverage entries references =
     (let entries = canon installed_key entries in
      and_then (validate_status_coverage status coverage (entries = [])) (\<lambda>_.
        Inr \<lparr>pr_id = i, pr_applicability = applicability, pr_status = status,
             pr_coverage = coverage, pr_entries = entries, pr_references = canon id references\<rparr>))"

definition provider_topology :: "provider_result \<Rightarrow> ecu_topology" where
  "provider_topology r = topology_from_nodes (map to_topology_node (pr_entries r))"

definition reviewed_topology_provider_results :: "provider_error + provider_result list" where
  "reviewed_topology_provider_results =
     and_then (provider_id_new ''vw.pq35.gateway-installation-list'' 1) (\<lambda>i.
     and_then (scope_platform ''Volkswagen'' ''PQ35 / EA189'') (\<lambda>scope.
     and_then (evidence_reference_new ''issue #35 negative safety gate'') (\<lambda>reference.
     and_then (provider_result_new i
         \<lparr>pa_scope = scope,
          pa_provenance = \<lparr>pv_source = ''docs/research/vw-gateway-installation-list.md'', pv_confidence = High\<rparr>\<rparr>
         Provider_Blocked Coverage_Unknown [] [reference]) (\<lambda>r. Inr [r]))))"

section \<open>Coverage\<close>

record coverage_record =
  cr_id :: provider_id
  cr_applicability :: provider_applicability
  cr_status :: provider_status
  cr_coverage :: provider_coverage

definition coverage_record_of :: "provider_result \<Rightarrow> coverage_record" where
  "coverage_record_of r =
     \<lparr>cr_id = pr_id r, cr_applicability = pr_applicability r, cr_status = pr_status r,
      cr_coverage = pr_coverage r\<rparr>"

definition coverage_record_key :: "coverage_record \<Rightarrow> coverage_order" where
  "coverage_record_key r =
     (provider_id_key (cr_id r), applicability_key (cr_applicability r),
      provider_status_key (cr_status r), provider_coverage_key (cr_coverage r))"

datatype coverage_class =
  FunctionalObdOnly | ProviderEvidenceAvailable | ProviderUnavailableOrBlocked

fun coverage_class_str :: "coverage_class \<Rightarrow> string" where
  "coverage_class_str FunctionalObdOnly = ''functional-obd-only''"
| "coverage_class_str ProviderEvidenceAvailable = ''manufacturer-provider-evidence-available''"
| "coverage_class_str ProviderUnavailableOrBlocked = ''manufacturer-provider-unavailable-or-blocked''"

record inventory_coverage =
  iv_functional_present :: bool
  iv_providers :: "coverage_record list"

definition inventory_coverage_new :: "bool \<Rightarrow> coverage_record list \<Rightarrow> inventory_coverage" where
  "inventory_coverage_new present providers =
     \<lparr>iv_functional_present = present, iv_providers = canon coverage_record_key providers\<rparr>"

definition inventory_class :: "inventory_coverage \<Rightarrow> coverage_class" where
  "inventory_class c =
     (if list_ex (\<lambda>r. cr_coverage r \<in> {Coverage_Partial, Coverage_Complete}) (iv_providers c)
      then ProviderEvidenceAvailable
      else if list_ex (\<lambda>r. cr_status r \<in> {Provider_Blocked, Provider_Unavailable, Provider_Failed}) (iv_providers c)
      then ProviderUnavailableOrBlocked
      else FunctionalObdOnly)"

record topology_inventory =
  ti_topology :: ecu_topology
  ti_coverage :: inventory_coverage

definition functional_obd_present :: "ecu_topology \<Rightarrow> bool" where
  "functional_obd_present t =
     list_ex (\<lambda>n. pc_protocol (en_context n) = Obd2 \<and> pc_addressing (en_context n) = Functional \<and>
       en_responders n \<noteq> []) t"

definition merge_topology_provider_results :: "ecu_topology \<Rightarrow> provider_result list \<Rightarrow> topology_inventory" where
  "merge_topology_provider_results functional results =
     (let results = canon provider_result_key results in
      \<lparr>ti_topology = foldl (\<lambda>t r. topology_merge t (provider_topology r)) functional results,
       ti_coverage = inventory_coverage_new (functional_obd_present functional)
                       (map coverage_record_of results)\<rparr>)"

section \<open>The keys are injective\<close>

lemma installed_key_inj [key_simps]: "installed_key a = installed_key b \<longleftrightarrow> a = b"
  by (cases a; cases b)
    (simp add: installed_key_def key_simps map_option_key [where f = target_evidence_key, OF target_evidence_key_inj])

lemma provider_status_key_inj [key_simps]: "provider_status_key a = provider_status_key b \<longleftrightarrow> a = b"
  by (cases a; cases b) simp_all

lemma provider_coverage_key_inj [key_simps]: "provider_coverage_key a = provider_coverage_key b \<longleftrightarrow> a = b"
  by (cases a; cases b) simp_all

lemma provider_id_key_inj [key_simps]: "provider_id_key a = provider_id_key b \<longleftrightarrow> a = b"
  by (cases a; cases b) (simp add: provider_id_key_def)

lemma applicability_key_inj [key_simps]: "applicability_key a = applicability_key b \<longleftrightarrow> a = b"
proof (cases a; cases b)
  fix s p s' p'
  assume "a = \<lparr>pa_scope = s, pa_provenance = p\<rparr>" "b = \<lparr>pa_scope = s', pa_provenance = p'\<rparr>"
  then show ?thesis by (cases s; cases s') (simp add: applicability_key_def key_simps)
qed

lemma provider_result_key_inj [key_simps]: "provider_result_key a = provider_result_key b \<longleftrightarrow> a = b"
  by (cases a; cases b)
    (simp add: provider_result_key_def key_simps map_list_key [where f = installed_key, OF installed_key_inj])

lemma coverage_record_key_inj [key_simps]: "coverage_record_key a = coverage_record_key b \<longleftrightarrow> a = b"
  by (cases a; cases b) (simp add: coverage_record_key_def key_simps)

interpretation text_order: canonical_order "id :: string \<Rightarrow> string"
  by unfold_locales simp

interpretation installed_order: canonical_order installed_key
  by unfold_locales (simp add: key_simps)

interpretation provider_order: canonical_order provider_result_key
  by unfold_locales (simp add: key_simps)

interpretation coverage_order: canonical_order coverage_record_key
  by unfold_locales (simp add: key_simps)

section \<open>What a merge adds\<close>

text \<open>The results the constructors build.\<close>

definition provider_result_ok :: "provider_result \<Rightarrow> bool" where
  "provider_result_ok r \<longleftrightarrow>
     validate_status_coverage (pr_status r) (pr_coverage r) (pr_entries r = []) = Inr () \<and>
     canon installed_key (pr_entries r) = pr_entries r \<and> canon id (pr_references r) = pr_references r"

lemma provider_result_new_ok: "provider_result_new i a s c es rs = Inr r \<Longrightarrow> provider_result_ok r"
  by (auto simp: provider_result_new_def Let_def provider_result_ok_def)

lemma provider_result_rebuild:
  "provider_result_ok r \<Longrightarrow>
    provider_result_new (pr_id r) (pr_applicability r) (pr_status r) (pr_coverage r) (pr_entries r) (pr_references r)
      = Inr r"
  by (simp add: provider_result_ok_def provider_result_new_def Let_def)

lemma to_topology_node_simps [simp]:
  "en_responders (to_topology_node e) = []" "en_reachability (to_topology_node e) = None"
  "en_role (to_topology_node e) = None" "en_target (to_topology_node e) = ie_target e"
  "en_configured (to_topology_node e) = Some (ie_configured e)"
  by (simp_all add: to_topology_node_def Let_def ecu_node_new_def with_configured_controller_def
      with_request_target_def split: option.splits)

lemma merged_nodes:
  "mset (foldl (\<lambda>t r. topology_merge t (provider_topology r)) t rs) =
    mset t + mset (concat (map (\<lambda>r. map to_topology_node (pr_entries r)) rs))"
  by (induction rs arbitrary: t)
    (simp_all add: topology_merge_def provider_topology_def topology_from_nodes_def add.assoc)

lemma merged_sorted:
  "sorted (map node_key t) \<Longrightarrow> sorted (map node_key (foldl (\<lambda>t r. topology_merge t (provider_topology r)) t rs))"
  by (induction rs arbitrary: t) (simp_all add: topology_merge_def)

lemma filter_mset_list: "mset xs = mset ys + mset zs \<Longrightarrow> filter P zs = [] \<Longrightarrow>
    mset (filter P xs) = mset (filter P ys)"
proof -
  assume m: "mset xs = mset ys + mset zs" and z: "filter P zs = []"
  have "mset (filter P xs) = filter_mset P (mset xs)" by (rule mset_filter)
  also have "\<dots> = filter_mset P (mset ys) + filter_mset P (mset zs)" unfolding m by (rule filter_union_mset)
  also have "\<dots> = mset (filter P ys) + mset (filter P zs)" by (simp only: mset_filter)
  finally show ?thesis unfolding z by simp
qed

definition observed_node :: "ecu_node \<Rightarrow> bool" where
  "observed_node n \<longleftrightarrow> en_responders n \<noteq> [] \<or> en_role n \<noteq> None \<or> en_reachability n \<noteq> None"


definition example_provider :: "string \<Rightarrow> provider_result" where
  "example_provider name =
     \<lparr>pr_id = \<lparr>pi_name = name, pi_version = 1\<rparr>,
      pr_applicability = \<lparr>pa_scope = scope_generic, pa_provenance = \<lparr>pv_source = name, pv_confidence = Low\<rparr>\<rparr>,
      pr_status = Provider_Blocked, pr_coverage = Coverage_Unknown, pr_entries = [], pr_references = []\<rparr>"


end
