(* ===== verification/Ecu_Identification.thy ===== *)
theory Ecu_Identification
  imports Topology
begin

text \<open>
  The persistable evidence of ECU identification, \<open>src/ecu_identification.rs\<close>: one observation per
  candidate and target, with the consistency check every constructor runs.  The plan over the
  Knowledge catalog is not part of this theory.
\<close>

datatype identification_status =
    Ident_Supported | Ident_Unsupported | Ident_NegativeResponse | Ident_Unavailable
  | Ident_Malformed | Ident_Timeout | Ident_TransportError | Ident_NotProbed

record identification_response =
  ir_responder :: "topology_identity option"
  ir_payload :: bytes

record identification_observation =
  io_target :: request_target
  io_responder :: topology_identity
  io_semantic :: string
  io_definition_id :: string
  io_definition_version :: u32
  io_repository :: string
  io_revision :: string
  io_request :: "u8 \<times> u8 \<times> u8"
  io_status :: identification_status
  io_responses :: "identification_response list"
  io_nrc :: "u8 option"
  io_value :: "bytes option"
  io_errors :: "string list"

fun validate_identification_status ::
  "identification_status \<Rightarrow> identification_response list \<Rightarrow> u8 option \<Rightarrow> bytes option \<Rightarrow> string list \<Rightarrow> string + unit" where
  "validate_identification_status Ident_Supported responses nrc v errors =
     (if v = None \<or> nrc \<noteq> None
      then Inl ''supported ECU identification evidence is inconsistent'' else Inr ())"
| "validate_identification_status Ident_Unsupported responses nrc v errors =
     (if nrc = None \<or> v \<noteq> None
      then Inl ''negative ECU identification evidence requires NRC and no value'' else Inr ())"
| "validate_identification_status Ident_NegativeResponse responses nrc v errors =
     (if nrc = None \<or> v \<noteq> None
      then Inl ''negative ECU identification evidence requires NRC and no value'' else Inr ())"
| "validate_identification_status Ident_Unavailable responses nrc v errors =
     (if v \<noteq> None \<or> nrc = None \<and> errors = []
      then Inl ''unavailable ECU identification evidence requires NRC or explicit error and no value''
      else Inr ())"
| "validate_identification_status Ident_Malformed responses nrc v errors =
     (if v \<noteq> None then Inl ''malformed ECU identification evidence cannot carry a value'' else Inr ())"
| "validate_identification_status Ident_Timeout responses nrc v errors =
     (if nrc \<noteq> None \<or> v \<noteq> None \<or> errors = []
      then Inl ''transport ECU identification evidence requires an error only'' else Inr ())"
| "validate_identification_status Ident_TransportError responses nrc v errors =
     (if nrc \<noteq> None \<or> v \<noteq> None \<or> errors = []
      then Inl ''transport ECU identification evidence requires an error only'' else Inr ())"
| "validate_identification_status Ident_NotProbed responses nrc v errors =
     (if nrc \<noteq> None \<or> v \<noteq> None \<or> responses \<noteq> []
      then Inl ''not-probed ECU identification evidence cannot contain a response'' else Inr ())"

definition validate_identification :: "identification_observation \<Rightarrow> string + unit" where
  "validate_identification ob =
     (if trim (io_semantic ob) = [] \<or> trim (io_definition_id ob) = [] \<or> io_definition_version ob = 0 \<or>
         trim (io_repository ob) = [] \<or> trim (io_revision ob) = []
      then Inl ''ECU identification evidence metadata is incomplete''
      else if fst (io_request ob) \<noteq> 0x22
      then Inl ''ECU identification evidence must use ReadDataByIdentifier''
      else if io_request ob = (0x22, 0xF1, 0x90)
      then Inl ''VIN/F190 must not be persisted as ECU identification evidence''
      else if rt_context (io_target ob) \<noteq> identity_context (io_responder ob)
      then Inl ''ECU identification target and responder contexts differ''
      else if rt_address (io_target ob) = None
      then Inl ''ECU identification evidence requires a concrete target''
      else validate_identification_status (io_status ob) (io_responses ob) (io_nrc ob) (io_value ob) (io_errors ob))"

definition identification_observation_new ::
  "request_target \<Rightarrow> topology_identity \<Rightarrow> string \<Rightarrow> string \<Rightarrow> u32 \<Rightarrow> string \<Rightarrow> string \<Rightarrow> u8 \<times> u8 \<times> u8 \<Rightarrow>
     identification_status \<Rightarrow> identification_response list \<Rightarrow> u8 option \<Rightarrow> bytes option \<Rightarrow> string list \<Rightarrow>
     string + identification_observation" where
  "identification_observation_new target responder semantic definition_id version repository revision
       request status responses nrc v errors =
     (let ob = \<lparr>io_target = target, io_responder = responder, io_semantic = semantic,
                io_definition_id = definition_id, io_definition_version = version,
                io_repository = repository, io_revision = revision, io_request = request,
                io_status = status, io_responses = responses, io_nrc = nrc, io_value = v,
                io_errors = errors\<rparr>
      in and_then (validate_identification ob) (\<lambda>_. Inr ob))"

section \<open>The derived order\<close>

fun identification_status_key :: "identification_status \<Rightarrow> nat" where
  "identification_status_key Ident_Supported = 0"
| "identification_status_key Ident_Unsupported = 1"
| "identification_status_key Ident_NegativeResponse = 2"
| "identification_status_key Ident_Unavailable = 3"
| "identification_status_key Ident_Malformed = 4"
| "identification_status_key Ident_Timeout = 5"
| "identification_status_key Ident_TransportError = 6"
| "identification_status_key Ident_NotProbed = 7"

type_synonym response_order = "identity_order option \<times> bytes"

definition identification_response_key :: "identification_response \<Rightarrow> response_order" where
  "identification_response_key r = (map_option identity_key (ir_responder r), ir_payload r)"

type_synonym identification_order =
  "target_order \<times> identity_order \<times> string \<times> string \<times> u32 \<times> string \<times> string \<times> (u8 \<times> u8 \<times> u8) \<times>
     nat \<times> response_order list \<times> u8 option \<times> bytes option \<times> string list"

definition identification_key :: "identification_observation \<Rightarrow> identification_order" where
  "identification_key ob =
     (target_order_key (io_target ob), identity_key (io_responder ob), io_semantic ob,
      io_definition_id ob, io_definition_version ob, io_repository ob, io_revision ob, io_request ob,
      identification_status_key (io_status ob), map identification_response_key (io_responses ob),
      io_nrc ob, io_value ob, io_errors ob)"

lemma identification_status_key_inj [key_simps]:
  "identification_status_key a = identification_status_key b \<longleftrightarrow> a = b"
  by (cases a; cases b) simp_all

lemma identification_response_key_inj:
  "identification_response_key a = identification_response_key b \<longleftrightarrow> a = b"
  by (cases a; cases b)
    (simp add: identification_response_key_def map_option_key [where f = identity_key, OF identity_key_inj])

lemma identification_key_inj [key_simps]: "identification_key a = identification_key b \<longleftrightarrow> a = b"
  by (cases a; cases b)
    (auto simp add: identification_key_def key_simps
      map_list_key [where f = identification_response_key, OF identification_response_key_inj])

interpretation identification_order: canonical_order identification_key
  by unfold_locales (simp add: key_simps)

text \<open>The constructor returns the value it was given, checked.\<close>

lemma identification_new_Inr:
  "identification_observation_new t r s d v p c q st rs n x es = Inr ob \<longleftrightarrow>
    ob = \<lparr>io_target = t, io_responder = r, io_semantic = s, io_definition_id = d,
          io_definition_version = v, io_repository = p, io_revision = c, io_request = q,
          io_status = st, io_responses = rs, io_nrc = n, io_value = x, io_errors = es\<rparr> \<and>
    validate_identification ob = Inr ()"
  by (auto simp: identification_observation_new_def Let_def)

lemma identification_rebuild:
  "validate_identification ob = Inr () \<Longrightarrow>
    identification_observation_new (io_target ob) (io_responder ob) (io_semantic ob) (io_definition_id ob)
      (io_definition_version ob) (io_repository ob) (io_revision ob) (io_request ob) (io_status ob)
      (io_responses ob) (io_nrc ob) (io_value ob) (io_errors ob) = Inr ob"
  by (cases ob) (simp add: identification_observation_new_def Let_def)

end
