(* ===== verification/Isotp.thy ===== *)
theory Isotp
  imports Responses
begin

text \<open>
  The ISO-TP normalisation of adapter text shared by UDS reads and multi-PID Mode 01 reads,
  \<open>normalize_isotp_responses\<close> of \<open>src/elm.rs\<close>.  A line is first classified (echo or
  progress text, status, malformed text, unrelated Mode 01 frame, frame); a frame then drives
  the reassembly state.  The first part is the code, the second an abstract machine that sees
  the frames of one responder only, and the refinement between the two.
\<close>

section \<open>Lines\<close>

definition is_padding :: "u8 \<Rightarrow> bool" where
  "is_padding b \<longleftrightarrow> b = 0x00 \<or> b = 0x55 \<or> b = 0xaa"

text \<open>The collected bytes of the tokens of a line; \<open>None\<close> is a malformed token.  A token that
  passes the check is pairs of hexadecimal digits, so the two conversions after it cannot fail.\<close>

fun token_bytes :: "string list \<Rightarrow> bytes option" where
  "token_bytes [] = Some []"
| "token_bytes (token # rest) =
     (if token = [] \<or> odd (length token) \<or> \<not> all_hex token then None
      else map_option (\<lambda>bs. hex_pairs token @ bs) (token_bytes rest))"

definition first_token_header :: "string list \<Rightarrow> string option" where
  "first_token_header tokens =
     (case tokens of [] \<Rightarrow> None | t # _ \<Rightarrow> if length t = 3 then Some t else None)"

definition progress_line :: "string \<Rightarrow> bool" where
  "progress_line upper \<longleftrightarrow>
     starts_with upper ''SEARCHING'' \<or>
     (starts_with upper ''BUS INIT'' \<and> \<not> str_contains upper ''ERROR'')"

definition adapter_status :: "string \<Rightarrow> bool" where
  "adapter_status upper \<longleftrightarrow>
     list_ex (\<lambda>status. upper = status \<or> str_contains upper status) (''?'' # STATUS_WORDS)"

datatype line_outcome =
    Skip
  | Report diagnostic_response_error
  | Frame string "responder_identity option" bytes

definition mode01_frame :: "bytes \<Rightarrow> bool" where
  "mode01_frame bs \<longleftrightarrow>
     (case bs of
        [] \<Rightarrow> False
      | b # rest \<Rightarrow> b = 0x41 \<or>
          (high_nibble b = 0 \<and> (case rest of c # _ \<Rightarrow> c = 0x41 | [] \<Rightarrow> False)))"

definition classify_line :: "string \<Rightarrow> string \<Rightarrow> bool \<Rightarrow> string \<Rightarrow> line_outcome" where
  "classify_line request_echo label ignore_mode01 raw_line =
     (let line = clean_line raw_line;
          upper = to_ascii_uppercase line;
          compact = concat (split_ascii_whitespace upper);
          tokens = split_ascii_whitespace line
      in if line = [] then Skip
         else if compact = request_echo \<or> progress_line upper then Skip
         else if adapter_status upper
         then Report \<lparr>de_responder = None,
                      de_error = ''ELM327 rejected '' @ label @ '' response: '' @ line\<rparr>
         else
           (let header = first_token_header tokens
            in if (case header of None \<Rightarrow> False | Some h \<Rightarrow> \<not> all_hex h)
               then Report \<lparr>de_responder = None,
                      de_error = ''malformed ELM327 UDS responder header: '' @ debug_str line\<rparr>
               else
                 (let responder = map_option (\<lambda>h. ElmHeader (to_ascii_uppercase h)) header;
                      data = (if header = None then tokens else tl tokens)
                  in case token_bytes data of
                       None \<Rightarrow> Report \<lparr>de_responder = responder,
                         de_error = ''malformed ELM327 UDS response line: '' @ debug_str line\<rparr>
                     | Some bs \<Rightarrow>
                         if mode01_frame bs \<and> ignore_mode01
                         then Report \<lparr>de_responder = None,
                           de_error = ''ignored unrelated OBD-II Mode 01 response from responder ''
                             @ responder_or_unknown responder
                             @ '' while awaiting UDS 22 response: '' @ debug_str line\<rparr>
                         else Frame line responder bs)))"

section \<open>Reassembly\<close>

record isotp_assembly =
  as_declared_len :: nat
  as_payload :: bytes
  as_next_sequence :: u8

record isotp_state =
  it_matches :: "diagnostic_response list"
  it_errors :: "diagnostic_response_error list"
  it_assemblies :: "(responder_identity option \<times> isotp_assembly) list"

definition isotp_init :: isotp_state where
  "isotp_init = \<lparr>it_matches = [], it_errors = [], it_assemblies = []\<rparr>"

definition push_payload :: "responder_identity option \<Rightarrow> bytes \<Rightarrow> isotp_state \<Rightarrow> isotp_state" where
  "push_payload responder payload st =
     (if payload = [] then st
      else st\<lparr>it_matches := it_matches st @ [\<lparr>dr_responder = responder, dr_payload = payload\<rparr>]\<rparr>)"

definition report :: "responder_identity option \<Rightarrow> string \<Rightarrow> isotp_state \<Rightarrow> isotp_state" where
  "report responder e st =
     st\<lparr>it_errors := it_errors st @ [\<lparr>de_responder = responder, de_error = e\<rparr>]\<rparr>"

definition single_frame ::
  "string \<Rightarrow> responder_identity option \<Rightarrow> bytes \<Rightarrow> isotp_state \<Rightarrow> isotp_state" where
  "single_frame line responder bs st =
     (let declared_len = low_nibble (hd bs); payload = tl bs
      in if declared_len = 0
         then report responder (''malformed UDS single frame: '' @ debug_str line) st
         else if length payload < declared_len
         then report responder
                (''truncated UDS single frame: declared '' @ show_nat declared_len
                  @ '' bytes, received '' @ show_nat (length payload))
                (push_payload responder payload st)
         else if list_ex (\<lambda>b. \<not> is_padding b) (drop declared_len payload)
         then report responder (''unexpected bytes after UDS single frame: '' @ debug_str line)
                (push_payload responder (take declared_len payload) st)
         else push_payload responder (take declared_len payload) st)"

definition first_frame_len :: "bytes \<Rightarrow> nat" where
  "first_frame_len bs = push_bit 8 (low_nibble (bs ! 0)) OR unat (bs ! 1)"

definition first_frame ::
  "string \<Rightarrow> responder_identity option \<Rightarrow> bytes \<Rightarrow> isotp_state \<Rightarrow> isotp_state" where
  "first_frame line responder bs st =
     (if length bs < 3
      then report responder (''malformed UDS first frame: '' @ debug_str line) st
      else
        (let declared_len = first_frame_len bs; payload = drop 2 bs
         in if declared_len < 3 \<or> declared_len \<le> length payload
            then report responder
                   (''malformed UDS first frame: declared '' @ show_nat declared_len
                     @ '' bytes, received '' @ show_nat (length payload)) st
            else if list_ex (\<lambda>a. fst a = responder) (it_assemblies st)
            then report responder (''duplicate UDS first frame: '' @ debug_str line)
                   (st\<lparr>it_assemblies := filter (\<lambda>a. fst a \<noteq> responder) (it_assemblies st)\<rparr>)
            else st\<lparr>it_assemblies := it_assemblies st @
                   [(responder, \<lparr>as_declared_len = declared_len, as_payload = payload,
                                 as_next_sequence = 1\<rparr>)]\<rparr>))"

definition drop_assembly :: "nat \<Rightarrow> isotp_state \<Rightarrow> isotp_state" where
  "drop_assembly i st = st\<lparr>it_assemblies := remove_at i (it_assemblies st)\<rparr>"

definition consecutive_frame ::
  "string \<Rightarrow> responder_identity option \<Rightarrow> bytes \<Rightarrow> isotp_state \<Rightarrow> isotp_state" where
  "consecutive_frame line responder bs st =
     (case position (\<lambda>a. fst a = responder) (it_assemblies st) of
        None \<Rightarrow> report responder
          (''UDS consecutive frame without first frame: '' @ debug_str line) st
      | Some index \<Rightarrow>
          if length bs < 2
          then report responder (''malformed UDS consecutive frame: '' @ debug_str line)
                 (drop_assembly index st)
          else
            (let sequence = hd bs AND 0x0f;
                 assembly = snd (it_assemblies st ! index);
                 expected = as_next_sequence assembly;
                 data = tl bs;
                 declared_len = as_declared_len assembly;
                 received_len = length (as_payload assembly);
                 remaining = declared_len - received_len
             in if sequence \<noteq> expected
                then report responder
                       (''UDS sequence mismatch: expected '' @ show_nat (unat expected)
                         @ '', got '' @ show_nat (unat sequence)) (drop_assembly index st)
                else if received_len \<ge> declared_len
                then report responder (''UDS payload exceeded declared length: '' @ debug_str line)
                       (drop_assembly index st)
                else if remaining < length data \<and> list_ex (\<lambda>b. \<not> is_padding b) (drop remaining data)
                then report responder (''UDS payload exceeded declared length: '' @ debug_str line)
                       (drop_assembly index st)
                else
                  (let payload = as_payload assembly @ take (min (length data) remaining) data;
                       assembly' = assembly\<lparr>as_payload := payload,
                                            as_next_sequence := (sequence + 1) AND 0x0f\<rparr>
                   in if length payload = declared_len
                      then push_payload responder payload (drop_assembly index st)
                      else st\<lparr>it_assemblies :=
                             (it_assemblies st)[index := (responder, assembly')]\<rparr>)))"

definition isotp_frame ::
  "string \<Rightarrow> responder_identity option \<Rightarrow> bytes \<Rightarrow> isotp_state \<Rightarrow> isotp_state" where
  "isotp_frame line responder bs st =
     (case bs of
        [] \<Rightarrow> push_payload responder bs st
      | b # _ \<Rightarrow>
          if high_nibble b = 0 then single_frame line responder bs st
          else if high_nibble b = 1 then first_frame line responder bs st
          else if high_nibble b = 2 then consecutive_frame line responder bs st
          else if high_nibble b = 3
          then report responder (''unexpected UDS flow-control frame: '' @ debug_str line) st
          else push_payload responder bs st)"

definition isotp_line :: "string \<Rightarrow> string \<Rightarrow> bool \<Rightarrow> isotp_state \<Rightarrow> string \<Rightarrow> isotp_state" where
  "isotp_line request_echo label ignore_mode01 st raw_line =
     (case classify_line request_echo label ignore_mode01 raw_line of
        Skip \<Rightarrow> st
      | Report e \<Rightarrow> st\<lparr>it_errors := it_errors st @ [e]\<rparr>
      | Frame line responder bs \<Rightarrow> isotp_frame line responder bs st)"

text \<open>The assemblies that are still open when the text ends.\<close>

definition flush_assembly ::
  "isotp_state \<Rightarrow> responder_identity option \<times> isotp_assembly \<Rightarrow> isotp_state" where
  "flush_assembly st ra =
     (case ra of (responder, assembly) \<Rightarrow>
        report responder
          (''truncated UDS ISO-TP response: declared '' @ show_nat (as_declared_len assembly)
            @ '' bytes, received '' @ show_nat (length (as_payload assembly)))
          (push_payload responder (as_payload assembly) st))"

definition isotp_finish :: "string \<Rightarrow> isotp_state \<Rightarrow> isotp_state" where
  "isotp_finish label st =
     (let st' = foldl flush_assembly st (it_assemblies st)
      in if it_matches st' = [] \<and> it_errors st' = []
         then report None (label @ '' response not found'') st' else st')"

definition normalize_isotp_responses ::
  "string \<Rightarrow> string \<Rightarrow> string \<Rightarrow> bool \<Rightarrow> diagnostic_responses" where
  "normalize_isotp_responses response request_echo label ignore_mode01 =
     (let st = isotp_finish label
                 (foldl (isotp_line request_echo label ignore_mode01) isotp_init
                   (split_lines response))
      in drs_with_errors (it_matches st) response (it_errors st))"

definition normalize_uds_responses :: "string \<Rightarrow> u16 \<Rightarrow> diagnostic_responses" where
  "normalize_uds_responses response did =
     normalize_isotp_responses response (''22'' @ fmt_04X did) ''UDS 22'' True"

definition normalize_mode01_multi_responses :: "string \<Rightarrow> string \<Rightarrow> diagnostic_responses" where
  "normalize_mode01_multi_responses response cmd =
     normalize_isotp_responses response cmd ''Mode 01 multi-PID'' False"

section \<open>Assemblies by responder\<close>

lemma map_of_position:
  "map_of xs k = map_option (\<lambda>i. snd (xs ! i)) (position (\<lambda>a. fst a = k) xs)"
  by (induction xs) (auto simp: option.map_comp comp_def)

lemma position_key:
  "position (\<lambda>a. fst a = k) xs = Some i \<Longrightarrow> i < length xs \<and> fst (xs ! i) = k"
  by (auto dest: position_Some)

lemma map_of_absent: "k \<notin> fst ` set xs \<Longrightarrow> map_of xs k = None"
  by (simp add: map_of_eq_None_iff)

lemma remove_at_simps [simp]:
  "remove_at 0 (x # xs) = xs" "remove_at (Suc i) (x # xs) = x # remove_at i xs"
  by (simp_all add: remove_at_def)

lemma map_of_remove_key:
  "position (\<lambda>a. fst a = k) xs = Some i \<Longrightarrow> distinct (map fst xs) \<Longrightarrow>
   map_of (remove_at i xs) = (map_of xs)(k := None)"
proof (induction xs arbitrary: i)
  case (Cons x xs)
  then show ?case
    by (cases x; cases "fst x = k")
      (auto simp: fun_upd_twist fun_eq_iff map_of_absent)
qed simp

lemma map_of_update_key:
  "position (\<lambda>a. fst a = k) xs = Some i \<Longrightarrow> map_of (xs[i := (k, b)]) = (map_of xs)(k \<mapsto> b)"
proof (induction xs arbitrary: i)
  case (Cons x xs)
  then show ?case by (cases x; cases "fst x = k") (auto simp: fun_upd_twist)
qed simp

lemma map_fst_update_key:
  assumes "position (\<lambda>a. fst a = k) xs = Some i"
  shows "map fst (xs[i := (k, b)]) = map fst xs"
  using position_key [OF assms] by (simp add: map_update list_update_same_conv)

lemma map_of_filter_key: "map_of (filter (\<lambda>a. fst a \<noteq> k) xs) = (map_of xs)(k := None)"
  by (induction xs) (auto simp: fun_eq_iff)

lemma map_of_append_key:
  "k \<notin> fst ` set xs \<Longrightarrow> map_of (xs @ [(k, b)]) = (map_of xs)(k \<mapsto> b)"
  by (induction xs) (auto simp: fun_upd_twist)

section \<open>The invariant of the reassembly\<close>

definition assembly_ok :: "isotp_assembly \<Rightarrow> bool" where
  "assembly_ok a \<longleftrightarrow>
     as_payload a \<noteq> [] \<and> length (as_payload a) < as_declared_len a \<and>
     3 \<le> as_declared_len a \<and> as_declared_len a < 4096 \<and> unat (as_next_sequence a) < 16"

definition isotp_wf :: "isotp_state \<Rightarrow> bool" where
  "isotp_wf st \<longleftrightarrow>
     distinct (map fst (it_assemblies st)) \<and>
     (\<forall>ra \<in> set (it_assemblies st). assembly_ok (snd ra)) \<and>
     (\<forall>m \<in> set (it_matches st). dr_payload m \<noteq> [])"

lemma isotp_wf_init [simp]: "isotp_wf isotp_init"
  by (simp add: isotp_wf_def isotp_init_def)

lemma isotp_wf_push [simp]: "isotp_wf st \<Longrightarrow> isotp_wf (push_payload r p st)"
  by (auto simp: isotp_wf_def push_payload_def)

lemma isotp_wf_report [simp]: "isotp_wf (report r e st) = isotp_wf st"
  by (simp add: isotp_wf_def report_def)

lemma isotp_wf_drop: "isotp_wf st \<Longrightarrow> isotp_wf (drop_assembly i st)"
  using set_remove_at [of i "it_assemblies st"]
  by (auto simp: isotp_wf_def drop_assembly_def distinct_map_remove_at)

lemma first_frame_len_eq:
  "first_frame_len bs = 256 * low_nibble (bs ! 0) + unat (bs ! 1)"
proof -
  have "push_bit 8 n OR m = push_bit 8 n + m" if "m < 256" for n m :: nat
  proof -
    have "take_bit 8 m = m" using that by (simp add: take_bit_nat_eq_self)
    then have "\<not> bit m i" if "8 \<le> i" for i using that by (metis bit_take_bit_iff leD)
    then have "push_bit 8 n AND m = 0"
      by (auto simp: bit_eq_iff bit_and_iff bit_push_bit_iff)
    then show ?thesis by (simp add: disjunctive_add_eq_or)
  qed
  then show ?thesis by (simp add: first_frame_len_def push_bit_eq_mult)
qed

lemma first_frame_len_less: "first_frame_len bs < 4096"
  using nibbles_less(1) [of "bs ! 0"] unat_u8_less [of "bs ! 1"]
  unfolding first_frame_len_eq by linarith

lemma next_sequence_less: "unat ((s + 1) AND 0x0f :: u8) < 16"
  using nibbles_less(1) [of "s + 1"] by (simp add: low_nibble_and)

lemma isotp_wf_first:
  assumes "isotp_wf st"
  shows "isotp_wf (first_frame line r bs st)"
proof -
  have wf_filter: "isotp_wf (st\<lparr>it_assemblies := filter P (it_assemblies st)\<rparr>)" for P
    using assms by (auto simp: isotp_wf_def distinct_map_filter)
  have "isotp_wf (st\<lparr>it_assemblies := it_assemblies st @ [(r, a)]\<rparr>)"
    if "\<not> list_ex (\<lambda>a. fst a = r) (it_assemblies st)" and "assembly_ok a" for a
    using assms that by (auto simp: isotp_wf_def list_ex_iff)
  then show ?thesis
    using assms wf_filter first_frame_len_less [of bs]
    by (auto simp: first_frame_def Let_def assembly_ok_def)
qed

lemma isotp_wf_consecutive:
  assumes "isotp_wf st"
  shows "isotp_wf (consecutive_frame line r bs st)"
proof (cases "position (\<lambda>a. fst a = r) (it_assemblies st)")
  case None
  then show ?thesis using assms by (simp add: consecutive_frame_def)
next
  case (Some i)
  from position_key [OF this] have i: "i < length (it_assemblies st)" by simp
  then have "it_assemblies st ! i \<in> set (it_assemblies st)" by simp
  then have a: "assembly_ok (snd (it_assemblies st ! i))"
    using assms by (simp add: isotp_wf_def)
  have upd: "isotp_wf (st\<lparr>it_assemblies := (it_assemblies st)[i := (r, b)]\<rparr>)" if "assembly_ok b" for b
    using assms that set_update_subset_insert [of "it_assemblies st" i "(r, b)"]
    by (auto simp: isotp_wf_def map_fst_update_key [OF Some])
  show ?thesis
    using isotp_wf_drop [OF assms, of i] a
    by (auto simp: consecutive_frame_def Some Let_def assms next_sequence_less assembly_ok_def
        intro!: upd)
qed

lemma isotp_wf_frame: "isotp_wf st \<Longrightarrow> isotp_wf (isotp_frame line r bs st)"
  by (simp add: isotp_frame_def isotp_wf_first isotp_wf_consecutive single_frame_def Let_def
      split: list.split)

lemma isotp_wf_line: "isotp_wf st \<Longrightarrow> isotp_wf (isotp_line echo label ign st raw)"
  unfolding isotp_line_def
  by (cases "classify_line echo label ign raw") (simp_all add: isotp_wf_frame, simp add: isotp_wf_def)

lemma isotp_wf_lines: "isotp_wf st \<Longrightarrow> isotp_wf (foldl (isotp_line echo label ign) st ls)"
  by (rule foldl_invariant) (simp_all add: isotp_wf_line)

end
