(* ===== verification/Isotp_Reassembly.thy ===== *)
theory Isotp_Reassembly
  imports Isotp "HOL-Library.Multiset"
begin

text \<open>
  Correctness of the ISO-TP normalisation.  First isolation: what is reported of one responder
  depends only on the lines of that responder, whatever the others interleave.  Then
  reassembly: the segments a responder sends of a payload come back as that payload.
\<close>

section \<open>The view of one responder\<close>

definition view ::
  "responder_identity option \<Rightarrow> isotp_state \<Rightarrow>
     diagnostic_response list \<times> diagnostic_response_error list \<times> isotp_assembly option" where
  "view r st =
     (filter (\<lambda>m. dr_responder m = r) (it_matches st),
      filter (\<lambda>e. de_responder e = r) (it_errors st),
      map_of (it_assemblies st) r)"

lemma view_push:
  "view r (push_payload r' p st) =
     (if r' = r \<and> p \<noteq> []
      then apfst (\<lambda>ms. ms @ [\<lparr>dr_responder = r, dr_payload = p\<rparr>]) (view r st) else view r st)"
  by (simp add: view_def push_payload_def)

lemma view_report:
  "view r (report r' e st) =
     (if r' = r
      then apsnd (apfst (\<lambda>es. es @ [\<lparr>de_responder = r, de_error = e\<rparr>])) (view r st) else view r st)"
  by (simp add: view_def report_def)

lemma view_drop:
  assumes "isotp_wf st" and "position (\<lambda>a. fst a = r') (it_assemblies st) = Some i"
  shows "view r (drop_assembly i st) =
     (if r' = r then apsnd (apsnd (\<lambda>a. None)) (view r st) else view r st)"
  using assms by (simp add: view_def drop_assembly_def isotp_wf_def map_of_remove_key)

lemma view_update:
  assumes "position (\<lambda>a. fst a = r') (it_assemblies st) = Some i"
  shows "view r (st\<lparr>it_assemblies := (it_assemblies st)[i := (r', b)]\<rparr>) =
     (if r' = r then apsnd (apsnd (\<lambda>a. Some b)) (view r st) else view r st)"
  using assms by (simp add: view_def map_of_update_key)

lemma view_filter:
  "view r (st\<lparr>it_assemblies := filter (\<lambda>a. fst a \<noteq> r') (it_assemblies st)\<rparr>) =
     (if r' = r then apsnd (apsnd (\<lambda>a. None)) (view r st) else view r st)"
  by (simp add: view_def map_of_filter_key)

lemma list_ex_key: "list_ex (\<lambda>a. fst a = r) xs \<longleftrightarrow> map_of xs r \<noteq> None"
  by (induction xs) auto

lemma view_open:
  assumes "map_of (it_assemblies st) r' = None"
  shows "view r (st\<lparr>it_assemblies := it_assemblies st @ [(r', b)]\<rparr>) =
     (if r' = r then apsnd (apsnd (\<lambda>a. Some b)) (view r st) else view r st)"
  using assms by (simp add: view_def map_of_append_key map_of_eq_None_iff del: map_of_append)

lemmas view_simps = view_push view_report view_filter

lemma map_of_view: "map_of (it_assemblies st) r = snd (snd (view r st))"
  by (simp add: view_def)

lemma position_view:
  "position (\<lambda>a. fst a = r) (it_assemblies st) = None \<longleftrightarrow> snd (snd (view r st)) = None"
  by (simp add: map_of_position flip: map_of_view)

lemma assembly_view:
  "position (\<lambda>a. fst a = r) (it_assemblies st) = Some i \<Longrightarrow>
   snd (snd (view r st)) = Some (snd (it_assemblies st ! i))"
  by (simp add: map_of_position flip: map_of_view)

section \<open>A frame touches its own responder only\<close>

lemma first_frame_view:
  "view r (first_frame line r' bs st) =
     (if r' \<noteq> r then view r st
      else if length bs < 3
      then view r (report r (''malformed UDS first frame: '' @ debug_str line) st)
      else if first_frame_len bs < 3 \<or> first_frame_len bs \<le> length (drop 2 bs)
      then view r (report r (''malformed UDS first frame: declared '' @ show_nat (first_frame_len bs)
                     @ '' bytes, received '' @ show_nat (length (drop 2 bs))) st)
      else if snd (snd (view r st)) \<noteq> None
      then apsnd (apsnd (\<lambda>a. None))
             (view r (report r (''duplicate UDS first frame: '' @ debug_str line) st))
      else apsnd (apsnd (\<lambda>a. Some \<lparr>as_declared_len = first_frame_len bs, as_payload = drop 2 bs,
             as_next_sequence = 1\<rparr>)) (view r st))"
  by (cases "view r st")
    (auto simp: first_frame_def Let_def view_simps view_open list_ex_key map_of_view
      simp del: length_drop)

lemma consecutive_frame_view_other:
  assumes "isotp_wf st" and "r' \<noteq> r"
  shows "view r (consecutive_frame line r' bs st) = view r st"
proof (cases "position (\<lambda>a. fst a = r') (it_assemblies st)")
  case None
  then show ?thesis using assms by (simp add: consecutive_frame_def view_report)
next
  case (Some i)
  then show ?thesis
    using assms by (simp add: consecutive_frame_def Let_def view_simps view_drop view_update)
qed

lemma isotp_frame_view_other:
  "isotp_wf st \<Longrightarrow> r' \<noteq> r \<Longrightarrow> view r (isotp_frame line r' bs st) = view r st"
  by (simp add: isotp_frame_def single_frame_def Let_def view_simps first_frame_view
      consecutive_frame_view_other split: list.split)

text \<open>For its own responder a consecutive frame is a function of the open assembly.\<close>

definition consecutive_step ::
  "string \<Rightarrow> responder_identity option \<Rightarrow> bytes \<Rightarrow> isotp_assembly \<Rightarrow>
     diagnostic_response list \<times> diagnostic_response_error list \<times> isotp_assembly option" where
  "consecutive_step line r bs a =
     (let err = (\<lambda>e. ([], [\<lparr>de_responder = r, de_error = e\<rparr>], None));
          remaining = as_declared_len a - length (as_payload a);
          payload = as_payload a @ take (min (length (tl bs)) remaining) (tl bs)
      in if length bs < 2 then err (''malformed UDS consecutive frame: '' @ debug_str line)
         else if hd bs AND 0x0f \<noteq> as_next_sequence a
         then err (''UDS sequence mismatch: expected '' @ show_nat (unat (as_next_sequence a))
                @ '', got '' @ show_nat (unat (hd bs AND 0x0f)))
         else if as_declared_len a \<le> length (as_payload a) \<or>
                 (remaining < length (tl bs) \<and> list_ex (\<lambda>b. \<not> is_padding b) (drop remaining (tl bs)))
         then err (''UDS payload exceeded declared length: '' @ debug_str line)
         else if length payload = as_declared_len a
         then ([\<lparr>dr_responder = r, dr_payload = payload\<rparr>], [], None)
         else ([], [], Some (a\<lparr>as_payload := payload,
                               as_next_sequence := ((hd bs AND 0x0f) + 1) AND 0x0f\<rparr>)))"

lemma consecutive_frame_view:
  assumes "isotp_wf st"
  shows "view r (consecutive_frame line r bs st) =
     (case snd (snd (view r st)) of
        None \<Rightarrow> view r (report r (''UDS consecutive frame without first frame: '' @ debug_str line) st)
      | Some a \<Rightarrow>
          (case consecutive_step line r bs a of
             (ms, es, a') \<Rightarrow> (fst (view r st) @ ms, fst (snd (view r st)) @ es, a')))"
proof (cases "position (\<lambda>a. fst a = r) (it_assemblies st)")
  case None
  then have "snd (snd (view r st)) = None" by (simp only: position_view)
  then show ?thesis by (simp add: consecutive_frame_def None)
next
  case (Some i)
  let ?a = "snd (it_assemblies st ! i)"
  from position_key [OF Some] have "it_assemblies st ! i \<in> set (it_assemblies st)" by simp
  then have ne: "as_payload ?a \<noteq> []" using assms by (auto simp: isotp_wf_def assembly_ok_def)
  obtain ms es where v: "view r st = (ms, es, Some ?a)"
    using assembly_view [OF Some] by (metis prod.collapse)
  show ?thesis
    using assms Some ne
    by (simp add: consecutive_frame_def consecutive_step_def Let_def view_simps view_drop view_update v)
qed

lemma isotp_frame_view_cong:
  assumes "isotp_wf st" and "isotp_wf st'" and "view r st = view r st'"
  shows "view r (isotp_frame line r bs st) = view r (isotp_frame line r bs st')"
proof -
  have "view r (push_payload r p st) = view r (push_payload r p st')" for p
    by (simp add: view_push assms(3))
  moreover have "view r (report r e st) = view r (report r e st')" for e
    by (simp add: view_report assms(3))
  moreover have "view r (single_frame line r bs st) = view r (single_frame line r bs st')"
    by (simp add: single_frame_def Let_def view_push view_report assms(3))
  moreover have "view r (first_frame line r bs st) = view r (first_frame line r bs st')"
    unfolding first_frame_view view_report assms(3) by (rule refl)
  moreover have "view r (consecutive_frame line r bs st) = view r (consecutive_frame line r bs st')"
    unfolding consecutive_frame_view [OF assms(1)] consecutive_frame_view [OF assms(2)]
      view_report assms(3) by (rule refl)
  ultimately show ?thesis
    by (cases bs) (simp_all only: isotp_frame_def list.case if_distrib [of "view r"])
qed

section \<open>Isolation\<close>

text \<open>The responder a line is about; \<open>None\<close> for a line that is skipped.\<close>

definition concerns :: "string \<Rightarrow> string \<Rightarrow> bool \<Rightarrow> responder_identity option \<Rightarrow> string \<Rightarrow> bool" where
  "concerns echo label ign r raw =
     (case classify_line echo label ign raw of
        Skip \<Rightarrow> False
      | Report e \<Rightarrow> de_responder e = r
      | Frame line r' bs \<Rightarrow> r' = r)"

lemma isotp_line_view_other:
  assumes "isotp_wf st" and "\<not> concerns echo label ign r raw"
  shows "view r (isotp_line echo label ign st raw) = view r st"
  using assms unfolding isotp_line_def concerns_def
  by (cases "classify_line echo label ign raw")
    (simp_all add: isotp_frame_view_other, simp add: view_def)

lemma isotp_line_view_cong:
  assumes "isotp_wf st" and "isotp_wf st'" and "view r st = view r st'"
    and "concerns echo label ign r raw"
  shows "view r (isotp_line echo label ign st raw) = view r (isotp_line echo label ign st' raw)"
proof (cases "classify_line echo label ign raw")
  case (Report e)
  then show ?thesis using assms by (simp add: isotp_line_def view_def)
next
  case (Frame line r' bs)
  then have "r' = r" using assms(4) by (simp add: concerns_def)
  then show ?thesis using Frame isotp_frame_view_cong [OF assms(1-3)] by (simp add: isotp_line_def)
qed (use assms in \<open>simp add: isotp_line_def\<close>)

lemma isotp_lines_view:
  assumes "isotp_wf st" and "isotp_wf st'" and "view r st = view r st'"
  shows "view r (foldl (isotp_line echo label ign) st ls) =
    view r (foldl (isotp_line echo label ign) st' (filter (concerns echo label ign r) ls))"
  using assms
proof (induction ls arbitrary: st st')
  case (Cons raw ls)
  show ?case
  proof (cases "concerns echo label ign r raw")
    case True
    then show ?thesis
      using Cons.IH isotp_line_view_cong [OF Cons.prems True] Cons.prems(1,2)
      by (simp add: isotp_wf_line)
  next
    case False
    have "view r (isotp_line echo label ign st raw) = view r st'"
      using isotp_line_view_other [OF Cons.prems(1) False] Cons.prems(3) by simp
    from Cons.IH [OF isotp_wf_line [OF Cons.prems(1)] Cons.prems(2) this] False
    show ?thesis by simp
  qed
qed simp

text \<open>The end of the text flushes the assembly of each responder.\<close>

lemma flush_view:
  "view r (flush_assembly st (r', a)) =
     (if r' = r then view r (flush_assembly st (r, a)) else view r st)"
  by (simp add: flush_assembly_def view_push view_report)

lemma flush_view_cong:
  "view r st = view r st' \<Longrightarrow> view r (flush_assembly st (r, a)) = view r (flush_assembly st' (r, a))"
  by (simp add: flush_assembly_def view_push view_report)

lemma flush_all_view:
  "distinct (map fst xs) \<Longrightarrow>
   view r (foldl flush_assembly st xs) =
     (case map_of xs r of None \<Rightarrow> view r st | Some a \<Rightarrow> view r (flush_assembly st (r, a)))"
proof (induction xs arbitrary: st)
  case (Cons x xs)
  obtain r' a where x: "x = (r', a)" by (cases x)
  show ?case
  proof (cases "r' = r")
    case True
    then have "map_of xs r = None" using Cons.prems x by (simp add: map_of_absent)
    then show ?thesis using Cons True x by simp
  next
    case False
    then have v: "view r (flush_assembly st x) = view r st" using x flush_view by simp
    have "view r (flush_assembly (flush_assembly st x) (r, b)) = view r (flush_assembly st (r, b))" for b
      using v by (rule flush_view_cong)
    then show ?thesis using Cons False x v by (simp split: option.split)
  qed
qed simp

lemma isotp_finish_view:
  assumes "isotp_wf st" and "isotp_wf st'" and "view (Some i) st = view (Some i) st'"
  shows "view (Some i) (isotp_finish label st) = view (Some i) (isotp_finish label st')"
proof -
  have *: "view (Some i) (isotp_finish label s) =
      (case snd (snd (view (Some i) s)) of None \<Rightarrow> view (Some i) s
       | Some a \<Rightarrow> view (Some i) (flush_assembly s (Some i, a)))" if "isotp_wf s" for s
    using that flush_all_view [of "it_assemblies s" "Some i" s]
    by (simp add: isotp_finish_def Let_def view_report isotp_wf_def map_of_view)
  show ?thesis
    unfolding * [OF assms(1)] * [OF assms(2)] assms(3)
    using flush_view_cong [OF assms(3)] by (simp split: option.split)
qed

text \<open>What is reported of a responder.\<close>

definition responses_of :: "responder_identity \<Rightarrow> diagnostic_responses \<Rightarrow> bytes list" where
  "responses_of i d =
     map dr_payload (filter (\<lambda>m. dr_responder m = Some i) (drs_responses d))"

definition errors_of :: "responder_identity \<Rightarrow> diagnostic_responses \<Rightarrow> string list" where
  "errors_of i d = map de_error (filter (\<lambda>e. de_responder e = Some i) (drs_errors d))"

lemma normalize_view:
  "responses_of i (normalize_isotp_responses response echo label ign) =
     map dr_payload (fst (view (Some i) (isotp_finish label
       (foldl (isotp_line echo label ign) isotp_init (split_lines response)))))"
  "errors_of i (normalize_isotp_responses response echo label ign) =
     map de_error (fst (snd (view (Some i) (isotp_finish label
       (foldl (isotp_line echo label ign) isotp_init (split_lines response))))))"
  by (simp_all add: responses_of_def errors_of_def normalize_isotp_responses_def Let_def view_def)

lemma normalize_isolated:
  assumes "filter (concerns echo label ign (Some i)) (split_lines response) =
      filter (concerns echo label ign (Some i)) (split_lines response')"
  shows "responses_of i (normalize_isotp_responses response echo label ign) =
      responses_of i (normalize_isotp_responses response' echo label ign) \<and>
    errors_of i (normalize_isotp_responses response echo label ign) =
      errors_of i (normalize_isotp_responses response' echo label ign)"
proof -
  let ?run = "\<lambda>ls. foldl (isotp_line echo label ign) isotp_init ls"
  have "view (Some i) (?run (split_lines response)) = view (Some i) (?run (split_lines response'))"
    using isotp_lines_view [OF isotp_wf_init isotp_wf_init refl] assms by metis
  then have "view (Some i) (isotp_finish label (?run (split_lines response))) =
      view (Some i) (isotp_finish label (?run (split_lines response')))"
    by (intro isotp_finish_view isotp_wf_lines isotp_wf_init)
  then show ?thesis by (simp add: normalize_view)
qed

section \<open>The text of a frame\<close>

text \<open>The adapter prints a frame as the header and the byte pairs, separated by spaces.\<close>

definition hex_chars :: "char set" where
  "hex_chars = set ''0123456789ABCDEF''"

definition valid_header :: "string \<Rightarrow> bool" where
  "valid_header h \<longleftrightarrow> length h = 3 \<and> set h \<subseteq> hex_chars"

definition frame_text :: "string \<Rightarrow> bytes \<Rightarrow> string" where
  "frame_text h bs = join '' '' (h # map fmt_02X bs)"

lemma hex_char_digit: "c \<in> hex_chars \<Longrightarrow> \<exists>n < 16. c = hex_digit n"
proof -
  assume "c \<in> hex_chars"
  then obtain i where "i < length ''0123456789ABCDEF''" "''0123456789ABCDEF'' ! i = c"
    unfolding hex_chars_def in_set_conv_nth by blast
  then show ?thesis unfolding hex_digit_def by (intro exI [of _ i]) simp
qed

lemma set_join_space: "set (join '' '' ws) \<subseteq> insert (CHR '' '') (\<Union> (set ` set ws))"
  by (induction ws rule: induct_list012) auto

lemma hd_join: "w \<noteq> [] \<Longrightarrow> hd (join sep (w # ws)) = hd w"
  by (cases ws) simp_all

lemma last_join: "(\<forall>w \<in> set ws. w \<noteq> []) \<Longrightarrow> ws \<noteq> [] \<Longrightarrow> join sep ws \<noteq> [] \<and> last (join sep ws) = last (last ws)"
  by (induction ws rule: induct_list012) simp_all

lemma fmt_02X_set: "set (fmt_02X b) \<subseteq> hex_chars"
proof -
  have "hex_digit (unat b div 16) \<in> hex_chars" "hex_digit (unat b mod 16) \<in> hex_chars"
    unfolding hex_chars_def by (rule hex_digit_in, simp)+
  then show ?thesis by (simp add: fmt_02X_def)
qed

lemma fmt_02X_not_Nil [simp]: "fmt_02X b \<noteq> []"
  by (simp add: fmt_02X_def)

lemma hex_char_plain:
  assumes "c \<in> hex_chars"
  shows "\<not> is_whitespace c" "\<not> is_ascii_whitespace c" "\<not> is_line_end c" "ascii_upper c = c"
    "is_ascii_hexdigit c"
  using hex_char_digit [OF assms] by auto

lemma frame_text_set:
  assumes "valid_header h"
  shows "set (frame_text h bs) \<subseteq> insert (CHR '' '') (hex_chars)"
proof -
  have "\<Union> (set ` set (h # map fmt_02X bs)) \<subseteq> hex_chars"
    using assms fmt_02X_set unfolding valid_header_def by auto
  then show ?thesis
    using set_join_space [of "h # map fmt_02X bs"] unfolding frame_text_def by blast
qed

lemma frame_text_upper:
  assumes "valid_header h"
  shows "to_ascii_uppercase (frame_text h bs) = frame_text h bs"
proof -
  have "ascii_upper (CHR '' '') = CHR '' ''" by (simp add: ascii_upper_def code_point_def)
  then have "ascii_upper c = c" if "c \<in> set (frame_text h bs)" for c
    using frame_text_set [OF assms] that hex_char_plain(4) by blast
  then show ?thesis by (simp add: to_ascii_uppercase_def map_idI)
qed

lemma frame_text_tokens:
  assumes "valid_header h"
  shows "split_ascii_whitespace (frame_text h bs) = h # map fmt_02X bs"
proof -
  have "\<forall>w \<in> set (h # map fmt_02X bs). \<forall>c \<in> set w. \<not> is_ascii_whitespace c"
    using assms fmt_02X_set hex_char_plain(2) unfolding valid_header_def by fastforce
  then have "split_on is_ascii_whitespace (frame_text h bs) = h # map fmt_02X bs"
    unfolding frame_text_def by (intro split_on_join) (simp_all add: is_ascii_whitespace_def)
  moreover have "h \<noteq> []" using assms by (auto simp: valid_header_def)
  ultimately show ?thesis by (simp add: split_ascii_whitespace_def filter_True)
qed

lemma frame_text_clean:
  assumes "valid_header h"
  shows "clean_line (frame_text h bs) = frame_text h bs"
proof -
  let ?ws = "h # map fmt_02X bs"
  have h: "h \<noteq> []" using assms by (auto simp: valid_header_def)
  have ne: "\<forall>w \<in> set ?ws. w \<noteq> []" using h by auto
  have hexes: "\<forall>w \<in> set ?ws. set w \<subseteq> hex_chars"
    using assms fmt_02X_set unfolding valid_header_def by auto
  have "hd (frame_text h bs) = hd h" unfolding frame_text_def by (rule hd_join) (rule h)
  then have hd: "hd (frame_text h bs) \<in> hex_chars"
    using assms h hd_in_set [of h] unfolding valid_header_def by auto
  have "last (frame_text h bs) = last (last ?ws)"
    unfolding frame_text_def using last_join [of ?ws "'' ''"] ne by simp
  moreover have "last ?ws \<in> set ?ws" by (rule last_in_set) simp
  then have "last (last ?ws) \<in> set (last ?ws)" "set (last ?ws) \<subseteq> hex_chars"
    using ne hexes by (blast intro: last_in_set)+
  ultimately have last: "last (frame_text h bs) \<in> hex_chars" by auto
  have "frame_text h bs \<noteq> []" using h by (cases bs) (simp_all add: frame_text_def)
  then show ?thesis
    using hex_char_plain(1) [OF hd] hex_char_plain(1) [OF last] last
    by (intro clean_line_id) (auto simp: hex_chars_def)
qed

lemma frame_text_no_line_end:
  "valid_header h \<Longrightarrow> c \<in> set (frame_text h bs) \<Longrightarrow> \<not> is_line_end c"
  using frame_text_set [of h bs] hex_char_plain(3) [of c]
  by (auto simp: is_line_end_def)

lemma token_bytes_fmt: "token_bytes (map fmt_02X bs) = Some bs"
  by (induction bs) simp_all

text \<open>None of the texts the classifier looks for occurs in a frame.\<close>

lemma frame_text_without:
  assumes "valid_header h" and "c \<in> set p" and "c \<notin> insert (CHR '' '') hex_chars"
  shows "\<not> str_contains (frame_text h bs) p \<and> \<not> starts_with (frame_text h bs) p"
proof -
  have "\<not> set p \<subseteq> set (frame_text h bs)"
    using assms(2,3) frame_text_set [OF assms(1), of bs] by blast
  then show ?thesis using str_contains_set starts_with_set by blast
qed

lemma frame_text_plain:
  assumes "valid_header h"
  shows "\<not> progress_line (frame_text h bs)" "\<not> adapter_status (frame_text h bs)"
proof -
  let ?t = "frame_text h bs"
  have outside: "c \<notin> insert (CHR '' '') hex_chars"
    if "c \<in> {CHR ''?'', CHR ''N'', CHR ''S'', CHR ''U'', CHR ''R''}" for c
    using that by (auto simp: hex_chars_def)
  have "\<not> starts_with ?t ''SEARCHING''" "\<not> starts_with ?t ''BUS INIT''"
    using frame_text_without [OF assms _ outside, of "CHR ''S''" "''SEARCHING''" bs]
      frame_text_without [OF assms _ outside, of "CHR ''U''" "''BUS INIT''" bs] by simp_all
  then show "\<not> progress_line ?t" by (simp add: progress_line_def)
  have absent: "\<forall>p \<in> set (''?'' # STATUS_WORDS). \<not> str_contains ?t p"
    using frame_text_without [OF assms _ outside, of "CHR ''?''" "''?''" bs]
      frame_text_without [OF assms _ outside, of "CHR ''N''" "''NO DATA''" bs]
      frame_text_without [OF assms _ outside, of "CHR ''S''" "''STOPPED''" bs]
      frame_text_without [OF assms _ outside, of "CHR ''U''" "''UNABLE TO CONNECT''" bs]
      frame_text_without [OF assms _ outside, of "CHR ''R''" "''ERROR''" bs]
    by (simp add: STATUS_WORDS_def)
  have "str_contains ?t ?t" by (cases ?t) (simp_all add: starts_with_def)
  then have "\<forall>p \<in> set (''?'' # STATUS_WORDS). ?t \<noteq> p" using absent by metis
  then show "\<not> adapter_status ?t"
    using absent by (auto simp: adapter_status_def list_ex_iff)
qed

lemma classify_frame_text:
  assumes h: "valid_header h" and "even (length echo)" and "ign \<longrightarrow> \<not> mode01_frame bs"
  shows "classify_line echo label ign (frame_text h bs) =
    Frame (frame_text h bs) (Some (ElmHeader h)) bs"
proof -
  have len: "length h = 3" "h \<noteq> []" and hex: "set h \<subseteq> hex_chars"
    using h by (auto simp: valid_header_def)
  have "length (concat (map fmt_02X bs)) = 2 * length bs" by (induction bs) simp_all
  then have compact: "concat (h # map fmt_02X bs) \<noteq> echo"
    using assms(2) len by (auto simp: dest: arg_cong [where f = length])
  have "all_hex h" unfolding all_hex_def list_all_iff using hex hex_char_plain(5) by blast
  moreover have "to_ascii_uppercase h = h"
    unfolding to_ascii_uppercase_def using hex hex_char_plain(4) by (intro map_idI) blast
  moreover have "frame_text h bs \<noteq> []" using len by (cases bs) (simp_all add: frame_text_def)
  moreover have "\<not> (mode01_frame bs \<and> ign)" using assms(3) by blast
  ultimately show ?thesis
    using len compact
    by (simp add: classify_line_def frame_text_clean [OF h] frame_text_upper [OF h]
        frame_text_tokens [OF h] frame_text_plain [OF h] token_bytes_fmt first_token_header_def Let_def del: concat.simps)
qed

section \<open>Segments\<close>

text \<open>What a responder sends of a payload (ISO 15765-2): up to seven bytes in a single frame,
  longer ones in a first frame with six bytes and consecutive frames with seven each and a
  sequence number modulo sixteen; the last frame may be padded.\<close>

fun consecutive_frames :: "nat \<Rightarrow> bytes \<Rightarrow> bytes \<Rightarrow> bytes list" where
  "consecutive_frames n pad [] = []"
| "consecutive_frames n pad (b # bs) =
     (if length (b # bs) \<le> 7 then [word_of_nat (32 + n mod 16) # (b # bs) @ pad]
      else (word_of_nat (32 + n mod 16) # take 7 (b # bs))
             # consecutive_frames (Suc n) pad (drop 7 (b # bs)))"

definition isotp_segments :: "bytes \<Rightarrow> bytes \<Rightarrow> bytes list" where
  "isotp_segments pad p =
     (if length p \<le> 7 then [word_of_nat (length p) # p @ pad]
      else (word_of_nat (16 + length p div 256) # word_of_nat (length p mod 256) # take 6 p)
             # consecutive_frames 1 pad (drop 6 p))"

lemma sequence_byte:
  "unat (word_of_nat (32 + n mod 16) :: u8) = 32 + n mod 16"
  by (rule unat_u8_of_nat) simp

lemma sequence_of_byte:
  "(word_of_nat (32 + n mod 16) :: u8) AND 0x0f = word_of_nat (n mod 16)"
proof -
  have "unat ((word_of_nat (32 + n mod 16) :: u8) AND 0x0f) = n mod 16"
  proof -
    have "(32 + n mod 16) mod 16 = (n mod 16 + 2 * 16) mod 16" by (simp add: add.commute)
    also have "\<dots> = n mod 16" by (simp only: mod_mult_self1 mod_mod_trivial)
    finally have "(32 + n mod 16) mod 16 = n mod 16" .
    then show ?thesis by (simp only: low_nibble_and [symmetric] low_nibble_def sequence_byte)
  qed
  moreover have "unat (word_of_nat (n mod 16) :: u8) = n mod 16" by (rule unat_u8_of_nat) simp
  ultimately show ?thesis by (simp only: word_unat_eq_iff)
qed

lemma next_sequence_byte:
  "((word_of_nat (n mod 16) :: u8) + 1) AND 0x0f = word_of_nat (Suc n mod 16)"
proof -
  have w: "(word_of_nat (n mod 16) + 1 :: u8) = word_of_nat (Suc (n mod 16))"
    by (simp add: add.commute)
  have "Suc (n mod 16) < 256" using mod_less_divisor [of 16 n] by linarith
  then have "unat (word_of_nat (n mod 16) + 1 :: u8) = Suc (n mod 16)"
    unfolding w by (rule unat_u8_of_nat)
  then have "unat (((word_of_nat (n mod 16) :: u8) + 1) AND 0x0f) = Suc n mod 16"
    unfolding low_nibble_and [symmetric] low_nibble_def by (simp only: mod_Suc_eq)
  moreover have "unat (word_of_nat (Suc n mod 16) :: u8) = Suc n mod 16"
    by (rule unat_u8_of_nat) simp
  ultimately show ?thesis by (simp only: word_unat_eq_iff)
qed

lemma high_nibble_of_nat:
  assumes "n < 16" shows "high_nibble (word_of_nat n :: u8) = 0"
  using unat_u8_of_nat [of n] assms by (simp add: high_nibble_def)

lemma high_nibble_sequence: "high_nibble (word_of_nat (32 + n mod 16) :: u8) = 2"
  unfolding high_nibble_def sequence_byte by presburger

text \<open>Every segment but a single frame starts with a nibble of its own, so that it is not taken
  for a Mode 01 response.\<close>

lemma not_mode01_frame: "high_nibble b \<in> {1, 2} \<Longrightarrow> \<not> mode01_frame (b # bs)"
proof -
  have "high_nibble 0x41 = 4" by (simp add: high_nibble_def)
  then show "high_nibble b \<in> {1, 2} \<Longrightarrow> \<not> mode01_frame (b # bs)"
    by (auto simp: mode01_frame_def)
qed

lemma high_nibble_first:
  assumes "n < 16" shows "high_nibble (word_of_nat (16 + n) :: u8) = 1"
    "low_nibble (word_of_nat (16 + n) :: u8) = n"
  using unat_u8_of_nat [of "16 + n"] assms
  by (simp_all only: high_nibble_def low_nibble_def) simp_all

lemma consecutive_not_mode01: "f \<in> set (consecutive_frames n pad bs) \<Longrightarrow> \<not> mode01_frame f"
  using high_nibble_sequence
  by (induction n pad bs rule: consecutive_frames.induct)
    (auto simp: not_mode01_frame simp del: of_nat_add split: if_splits)

lemma segments_not_mode01:
  assumes "f \<in> set (isotp_segments pad p)" and "1 \<le> length p" "length p \<le> 4095" "hd p \<noteq> 0x41"
  shows "\<not> mode01_frame f"
proof (cases "length p \<le> 7")
  case True
  have "(0x41 :: u8) \<noteq> word_of_nat (length p)"
    using high_nibble_of_nat [of "length p"] True by (auto simp: high_nibble_def)
  then show ?thesis using assms True
    by (cases p) (auto simp: isotp_segments_def mode01_frame_def)
next
  case False
  have "high_nibble (word_of_nat (16 + length p div 256) :: u8) = 1"
    by (rule high_nibble_first) (use assms(3) in simp)
  then show ?thesis using assms False not_mode01_frame consecutive_not_mode01
    by (auto simp: isotp_segments_def simp del: of_nat_add)
qed

section \<open>Reassembly\<close>

definition run_frames ::
  "responder_identity option \<Rightarrow> isotp_state \<Rightarrow> (string \<times> bytes) list \<Rightarrow> isotp_state" where
  "run_frames r st fs = foldl (\<lambda>st (line, bs). isotp_frame line r bs st) st fs"

lemma no_padding_error:
  "\<forall>b \<in> set pad. is_padding b \<Longrightarrow> \<not> list_ex (\<lambda>b. \<not> is_padding b) pad"
  by (auto simp: list_ex_iff)

lemma consecutive_frames_view:
  assumes "isotp_wf st" and "rest \<noteq> []"
    and "view r st = (ms, es, Some a)" and "as_next_sequence a = word_of_nat (n mod 16)"
    and "as_declared_len a = length (as_payload a) + length rest"
    and "\<forall>b \<in> set pad. is_padding b"
    and "map snd fs = consecutive_frames n pad rest"
  shows "view r (run_frames r st fs) =
    (ms @ [\<lparr>dr_responder = r, dr_payload = as_payload a @ rest\<rparr>], es, None)"
  using assms
proof (induction n pad rest arbitrary: st a fs rule: consecutive_frames.induct)
  case (2 n pad b bs)
  let ?rest = "b # bs" and ?h = "word_of_nat (32 + n mod 16) :: u8"
  have cons: "high_nibble ?h = 2" by (rule high_nibble_sequence)
  show ?case
  proof (cases "length ?rest \<le> 7")
    case True
    then obtain line where fs: "fs = [(line, ?h # ?rest @ pad)]"
      using "2.prems"(7) by (auto simp: map_eq_Cons_conv)
    have "consecutive_step line r (?h # ?rest @ pad) a =
        ([\<lparr>dr_responder = r, dr_payload = as_payload a @ ?rest\<rparr>], [], None)"
      using "2.prems"(4,5) no_padding_error [OF "2.prems"(6)]
      by (simp add: consecutive_step_def Let_def sequence_of_byte del: of_nat_add)
    then show ?thesis
      using consecutive_frame_view [OF "2.prems"(1), of r line "?h # ?rest @ pad"] "2.prems"(3) cons
      by (simp add: fs run_frames_def isotp_frame_def del: of_nat_add)
  next
    case False
    then obtain line gs where fs: "fs = (line, ?h # take 7 ?rest) # gs"
      and gs: "map snd gs = consecutive_frames (Suc n) pad (drop 7 ?rest)"
      using "2.prems"(7) by (auto simp: map_eq_Cons_conv simp del: of_nat_add)
    let ?a = "a\<lparr>as_payload := as_payload a @ take 7 ?rest,
                as_next_sequence := word_of_nat (Suc n mod 16)\<rparr>"
    let ?st = "isotp_frame line r (?h # take 7 ?rest) st"
    have "consecutive_step line r (?h # take 7 ?rest) a = ([], [], Some ?a)"
      using "2.prems"(4,5) False next_sequence_byte [of n]
      by (simp add: consecutive_step_def Let_def sequence_of_byte del: of_nat_add)
    then have v: "view r ?st = (ms, es, Some ?a)"
      using consecutive_frame_view [OF "2.prems"(1), of r line "?h # take 7 ?rest"] "2.prems"(3) cons
      by (simp add: isotp_frame_def del: of_nat_add)
    have "view r (run_frames r ?st gs) =
        (ms @ [\<lparr>dr_responder = r, dr_payload = as_payload ?a @ drop 7 ?rest\<rparr>], es, None)"
      using False by (intro "2.IH" isotp_wf_frame "2.prems"(1,6) v gs) (simp_all add: "2.prems"(5))
    then show ?thesis by (simp add: fs run_frames_def)
  qed
qed simp

lemma segments_view:
  assumes "isotp_wf st" and "1 \<le> length p" and "length p \<le> 4095"
    and "view r st = (ms, es, None)" and pad: "\<forall>b \<in> set pad. is_padding b"
    and "map snd fs = isotp_segments pad p"
  shows "view r (run_frames r st fs) =
    (ms @ [\<lparr>dr_responder = r, dr_payload = p\<rparr>], es, None)"
proof (cases "length p \<le> 7")
  case True
  let ?h = "word_of_nat (length p) :: u8"
  obtain line where fs: "fs = [(line, ?h # p @ pad)]"
    using assms(6) True by (auto simp: isotp_segments_def map_eq_Cons_conv)
  have "low_nibble ?h = length p"
    using unat_u8_of_nat [of "length p"] True by (simp add: low_nibble_def)
  moreover have "high_nibble ?h = 0" by (rule high_nibble_of_nat) (use True in simp)
  moreover have "p \<noteq> []" using assms(2) by auto
  ultimately show ?thesis
    using assms(4) no_padding_error [OF pad]
    by (simp add: fs run_frames_def isotp_frame_def single_frame_def view_push)
next
  case False
  let ?n = "length p"
  let ?h = "word_of_nat (16 + ?n div 256) :: u8" and ?l = "word_of_nat (?n mod 256) :: u8"
  let ?first = "?h # ?l # take 6 p"
  obtain line gs where fs: "fs = (line, ?first) # gs"
    and gs: "map snd gs = consecutive_frames 1 pad (drop 6 p)"
    using assms(6) False by (auto simp: isotp_segments_def map_eq_Cons_conv simp del: of_nat_add)
  let ?st = "isotp_frame line r ?first st"
  let ?a = "\<lparr>as_declared_len = ?n, as_payload = take 6 p, as_next_sequence = 1\<rparr>"
  have lt: "?n div 256 < 16" using assms(3) by simp
  have "unat ?l = ?n mod 256" by (rule unat_u8_of_nat) simp
  then have len: "first_frame_len ?first = ?n"
    using high_nibble_first(2) [OF lt] by (simp add: first_frame_len_eq del: of_nat_add)
  have v: "view r ?st = (ms, es, Some ?a)"
    using False high_nibble_first(1) [OF lt] assms(4)
    by (simp add: isotp_frame_def first_frame_view len del: of_nat_add)
  have "view r (run_frames r ?st gs) =
      (ms @ [\<lparr>dr_responder = r, dr_payload = as_payload ?a @ drop 6 p\<rparr>], es, None)"
    using False
    by (intro consecutive_frames_view [OF isotp_wf_frame [OF assms(1)] _ v _ _ pad gs]) simp_all
  then show ?thesis by (simp add: fs run_frames_def)
qed

lemma run_frames_lines:
  assumes "valid_header h" and "even (length echo)"
    and "\<forall>f \<in> set fs. ign \<longrightarrow> \<not> mode01_frame f"
  shows "foldl (isotp_line echo label ign) st (map (frame_text h) fs) =
    run_frames (Some (ElmHeader h)) st (map (\<lambda>f. (frame_text h f, f)) fs)"
  using assms(3)
  by (induction fs arbitrary: st)
    (simp_all add: run_frames_def isotp_line_def classify_frame_text [OF assms(1,2)])

lemma split_lines_join:
  assumes "ws \<noteq> []" and "\<forall>w \<in> set ws. \<forall>c \<in> set w. \<not> is_line_end c"
  shows "split_lines (join [CHR 0x0D] ws) = ws"
  unfolding split_lines_def using assms by (intro split_on_join) (simp_all add: is_line_end_def)

lemma normalize_segments:
  assumes "valid_header h" and "even (length echo)"
    and "1 \<le> length p" and "length p \<le> 4095" and "ign \<longrightarrow> hd p \<noteq> 0x41"
    and pad: "\<forall>b \<in> set pad. is_padding b"
    and lines: "filter (concerns echo label ign (Some (ElmHeader h))) (split_lines response)
      = map (frame_text h) (isotp_segments pad p)"
  shows "responses_of (ElmHeader h) (normalize_isotp_responses response echo label ign) = [p] \<and>
    errors_of (ElmHeader h) (normalize_isotp_responses response echo label ign) = []"
proof -
  let ?i = "Some (ElmHeader h)" and ?segs = "isotp_segments pad p"
  let ?run = "foldl (isotp_line echo label ign) isotp_init"
  have not01: "\<forall>f \<in> set ?segs. ign \<longrightarrow> \<not> mode01_frame f"
    using segments_not_mode01 assms(3-5) by blast
  have "view ?i (?run (split_lines response)) =
      view ?i (?run (map (frame_text h) ?segs))"
    by (subst isotp_lines_view [OF isotp_wf_init isotp_wf_init refl]) (simp only: lines)
  also have "\<dots> = view ?i (run_frames ?i isotp_init (map (\<lambda>f. (frame_text h f, f)) ?segs))"
    by (simp only: run_frames_lines [OF assms(1,2) not01])
  also have "\<dots> = ([] @ [\<lparr>dr_responder = ?i, dr_payload = p\<rparr>], [], None)"
    by (rule segments_view [OF isotp_wf_init assms(3,4) _ pad])
      (simp_all add: view_def isotp_init_def comp_def)
  finally have v: "view ?i (?run (split_lines response)) =
      ([\<lparr>dr_responder = ?i, dr_payload = p\<rparr>], [], None)" by simp
  have wf: "isotp_wf (?run (split_lines response))" by (intro isotp_wf_lines isotp_wf_init)
  then have "view ?i (isotp_finish label (?run (split_lines response))) =
      view ?i (?run (split_lines response))"
    using flush_all_view [of "it_assemblies (?run (split_lines response))" ?i] v
    by (simp add: isotp_finish_def Let_def view_report isotp_wf_def map_of_view)
  then show ?thesis by (simp add: normalize_view v)
qed

text \<open>A whole answer ends with an empty line and the prompt.\<close>

definition answer_text :: "string list \<Rightarrow> string" where
  "answer_text lines = join [CHR 0x0D] (lines @ [[], ''>''])"

lemma split_lines_answer:
  assumes "\<forall>w \<in> set lines. \<forall>c \<in> set w. \<not> is_line_end c"
  shows "split_lines (answer_text lines) = lines @ [[], ''>'']"
  unfolding answer_text_def using assms by (intro split_lines_join) (auto simp: is_line_end_def)

section \<open>No silent truncation\<close>

text \<open>The payload length a frame announces.\<close>

definition announced :: "bytes \<Rightarrow> nat multiset" where
  "announced bs =
     (case bs of
        [] \<Rightarrow> {#}
      | b # _ \<Rightarrow>
          if high_nibble b = 0 then {#low_nibble b#}
          else if high_nibble b = 1 then {#first_frame_len bs#}
          else if high_nibble b = 2 \<or> high_nibble b = 3 then {#}
          else {#length bs#})"

definition frame_of :: "string \<Rightarrow> string \<Rightarrow> bool \<Rightarrow> responder_identity \<Rightarrow> string \<Rightarrow> bytes option" where
  "frame_of echo label ign i raw =
     (case classify_line echo label ign raw of
        Frame line r bs \<Rightarrow> if r = Some i then Some bs else None
      | _ \<Rightarrow> None)"

definition frames_of :: "string \<Rightarrow> string \<Rightarrow> bool \<Rightarrow> responder_identity \<Rightarrow> string \<Rightarrow> bytes list" where
  "frames_of echo label ign i response =
     List.map_filter (frame_of echo label ign i) (split_lines response)"

fun view_lengths ::
  "diagnostic_response list \<times> diagnostic_response_error list \<times> isotp_assembly option \<Rightarrow> nat multiset"
where
  "view_lengths (ms, es, a) =
     mset (map (length \<circ> dr_payload) ms) + (case a of None \<Rightarrow> {#} | Some a \<Rightarrow> {#as_declared_len a#})"

lemma consecutive_step_lengths:
  "consecutive_step line r bs a = (ms, [], a') \<Longrightarrow>
   view_lengths (ms, [], a') = {#as_declared_len a#}"
  by (auto simp: consecutive_step_def Let_def split: if_splits)

lemma consecutive_step_errors:
  "consecutive_step line r bs a = (ms, es, a') \<Longrightarrow> es = [] \<or> (\<exists>e. es = [e])"
  by (auto simp: consecutive_step_def Let_def split: if_splits)

lemma single_frame_lengths:
  assumes "high_nibble b = 0" and "fst (snd (view r (single_frame line r (b # bs) st))) = []"
  shows "fst (snd (view r st)) = [] \<and>
    view_lengths (view r (single_frame line r (b # bs) st)) =
      view_lengths (view r st) + {#low_nibble b#}"
proof -
  obtain ms es a where v: "view r st = (ms, es, a)" by (cases "view r st") auto
  show ?thesis
    using assms by (auto simp: single_frame_def Let_def view_push view_report v split: if_splits)
qed

lemma first_frame_lengths:
  assumes "fst (snd (view r (first_frame line r bs st))) = []"
  shows "fst (snd (view r st)) = [] \<and>
    view_lengths (view r (first_frame line r bs st)) =
      view_lengths (view r st) + {#first_frame_len bs#}"
proof -
  obtain ms es a where v: "view r st = (ms, es, a)" by (cases "view r st") auto
  show ?thesis
    using assms by (auto simp: first_frame_view view_report v split: if_splits)
qed

lemma consecutive_frame_lengths:
  assumes "isotp_wf st" and "fst (snd (view r (consecutive_frame line r bs st))) = []"
  shows "fst (snd (view r st)) = [] \<and>
    view_lengths (view r (consecutive_frame line r bs st)) = view_lengths (view r st)"
proof -
  obtain ms es a where v: "view r st = (ms, es, a)" by (cases "view r st") auto
  show ?thesis
  proof (cases a)
    case None
    then show ?thesis
      using assms by (simp add: consecutive_frame_view [OF assms(1)] view_report v)
  next
    case (Some a')
    obtain ms' es' b where c: "consecutive_step line r bs a' = (ms', es', b)"
      by (cases "consecutive_step line r bs a'") auto
    then have "es' = []" "es = []"
      using assms(2) by (simp_all add: consecutive_frame_view [OF assms(1)] v Some)
    then show ?thesis
      using consecutive_step_lengths [of line r bs a' ms' b] c
      by (simp add: consecutive_frame_view [OF assms(1)] v Some)
  qed
qed

lemma isotp_frame_lengths:
  assumes "isotp_wf st" and "fst (snd (view r (isotp_frame line r bs st))) = []"
  shows "fst (snd (view r st)) = [] \<and>
    view_lengths (view r (isotp_frame line r bs st)) = view_lengths (view r st) + announced bs"
proof (cases bs)
  case Nil
  then show ?thesis using assms by (simp add: isotp_frame_def push_payload_def announced_def)
next
  case (Cons b rest)
  obtain ms es a where v: "view r st = (ms, es, a)" by (cases "view r st") auto
  consider "high_nibble b = 0" | "high_nibble b = 1" | "high_nibble b = 2" | "high_nibble b = 3"
    | "3 < high_nibble b" by linarith
  then show ?thesis
  proof cases
    case 1
    then have f: "isotp_frame line r bs st = single_frame line r bs st" and "announced bs = {#low_nibble b#}"
      by (simp_all add: isotp_frame_def announced_def Cons)
    then show ?thesis
      using single_frame_lengths [OF 1, of r line rest st] assms(2) unfolding f Cons by (simp only: add_0_right)
  next
    case 2
    then have f: "isotp_frame line r bs st = first_frame line r bs st" and "announced bs = {#first_frame_len bs#}"
      by (simp_all add: isotp_frame_def announced_def Cons)
    then show ?thesis
      using first_frame_lengths [of r line bs st] assms(2) unfolding f by (simp only: add_0_right)
  next
    case 3
    then have f: "isotp_frame line r bs st = consecutive_frame line r bs st" and "announced bs = {#}"
      by (simp_all add: isotp_frame_def announced_def Cons)
    then show ?thesis
      using consecutive_frame_lengths [OF assms(1), of r line bs] assms(2) unfolding f by (simp only: add_0_right)
  next
    case 4
    then show ?thesis using assms(2) by (simp add: isotp_frame_def view_report Cons v)
  next
    case 5
    then show ?thesis using assms(2)
      by (simp add: isotp_frame_def view_push Cons v announced_def)
  qed
qed

lemma isotp_lines_lengths:
  assumes "isotp_wf st"
    and "fst (snd (view (Some i) (foldl (isotp_line echo label ign) st ls))) = []"
  shows "fst (snd (view (Some i) st)) = [] \<and>
    view_lengths (view (Some i) (foldl (isotp_line echo label ign) st ls)) =
      view_lengths (view (Some i) st)
      + (\<Sum>f \<leftarrow> List.map_filter (frame_of echo label ign i) ls. announced f)"
  using assms
proof (induction ls arbitrary: st)
  case Nil
  then show ?case by (simp add: List.map_filter_def)
next
  case (Cons raw ls)
  let ?st = "isotp_line echo label ign st raw"
  have ih: "fst (snd (view (Some i) ?st)) = []"
    "view_lengths (view (Some i) (foldl (isotp_line echo label ign) ?st ls)) =
      view_lengths (view (Some i) ?st)
      + (\<Sum>f \<leftarrow> List.map_filter (frame_of echo label ign i) ls. announced f)"
    using Cons.IH [OF isotp_wf_line [OF Cons.prems(1)], of echo label ign raw] Cons.prems by simp_all
  show ?case
  proof (cases "classify_line echo label ign raw")
    case Skip
    then have "?st = st" "frame_of echo label ign i raw = None"
      by (simp_all add: isotp_line_def frame_of_def)
    then show ?thesis using ih by (simp add: List.map_filter_simps)
  next
    case (Report e)
    then have "de_responder e \<noteq> Some i" using ih(1) by (auto simp: isotp_line_def view_def)
    then have "view (Some i) ?st = view (Some i) st" "frame_of echo label ign i raw = None"
      using Report by (simp_all add: isotp_line_def frame_of_def view_def)
    then show ?thesis using ih by (simp add: List.map_filter_simps)
  next
    case (Frame line r bs)
    then have st: "?st = isotp_frame line r bs st" by (simp add: isotp_line_def)
    show ?thesis
    proof (cases "r = Some i")
      case True
      then have "frame_of echo label ign i raw = Some bs" using Frame by (simp add: frame_of_def)
      then show ?thesis
        using ih st True isotp_frame_lengths [OF Cons.prems(1), of "Some i" line bs]
        by (simp add: List.map_filter_simps ac_simps)
    next
      case False
      then have "frame_of echo label ign i raw = None" using Frame by (simp add: frame_of_def)
      then show ?thesis
        using ih st isotp_frame_view_other [OF Cons.prems(1) False]
        by (simp add: List.map_filter_simps)
    qed
  qed
qed

section \<open>Responders\<close>

definition responder_ok :: "responder_identity option \<Rightarrow> bool" where
  "responder_ok r \<longleftrightarrow> r = None \<or> (\<exists>h. r = Some (ElmHeader h) \<and> valid_header h)"

definition responders_ok :: "isotp_state \<Rightarrow> bool" where
  "responders_ok st \<longleftrightarrow>
     (\<forall>m \<in> set (it_matches st). responder_ok (dr_responder m)) \<and>
     (\<forall>e \<in> set (it_errors st). responder_ok (de_responder e)) \<and>
     (\<forall>a \<in> set (it_assemblies st). responder_ok (fst a))"

lemma hex_code_points:
  "set ([48..<58] @ [65..<71] @ [97..<103]) = code_point ` set ''0123456789ABCDEFabcdef''"
  by code_simp

lemma upper_hex_digits: "\<forall>c \<in> set ''0123456789ABCDEFabcdef''. ascii_upper c \<in> hex_chars"
  by code_simp

lemma ascii_upper_hex:
  assumes "is_ascii_hexdigit c"
  shows "ascii_upper c \<in> hex_chars"
proof -
  have "code_point c \<in> set ([48..<58] @ [65..<71] @ [97..<103])"
    using assms unfolding set_append set_upt
    by (auto simp: is_ascii_hexdigit_def hex_value_def Let_def split: if_splits)
  then obtain d where "d \<in> set ''0123456789ABCDEFabcdef''" "code_point c = code_point d"
    unfolding hex_code_points by blast
  then have "c \<in> set ''0123456789ABCDEFabcdef''" by (simp only: code_point_def of_char_eq_iff)
  then show ?thesis using upper_hex_digits by blast
qed

lemma upper_header_valid:
  assumes "length h = 3" and "all_hex h"
  shows "valid_header (to_ascii_uppercase h)"
  using assms ascii_upper_hex
  by (auto simp: valid_header_def to_ascii_uppercase_def all_hex_def list_all_iff)

lemma classify_responder_ok:
  "classify_line echo label ign raw = Frame line r bs \<Longrightarrow> responder_ok r"
  "classify_line echo label ign raw = Report e \<Longrightarrow> responder_ok (de_responder e)"
  by (auto simp: classify_line_def first_token_header_def Let_def responder_ok_def upper_header_valid
      split: if_splits option.splits list.splits)

lemma responders_ok_push: "responders_ok st \<Longrightarrow> responder_ok r \<Longrightarrow> responders_ok (push_payload r p st)"
  by (auto simp: responders_ok_def push_payload_def)

lemma responders_ok_report: "responders_ok st \<Longrightarrow> responder_ok r \<Longrightarrow> responders_ok (report r e st)"
  by (auto simp: responders_ok_def report_def)

lemma responders_ok_drop: "responders_ok st \<Longrightarrow> responders_ok (drop_assembly i st)"
  using set_remove_at [of i "it_assemblies st"]
  by (auto simp: responders_ok_def drop_assembly_def)

lemma responders_ok_first:
  "responders_ok st \<Longrightarrow> responder_ok r \<Longrightarrow> responders_ok (first_frame line r bs st)"
  by (auto simp: first_frame_def Let_def responders_ok_def report_def)

lemma responders_ok_consecutive:
  assumes "responders_ok st" and "responder_ok r"
  shows "responders_ok (consecutive_frame line r bs st)"
proof -
  have "responders_ok (st\<lparr>it_assemblies := (it_assemblies st)[i := (r, b)]\<rparr>)" for i b
    using assms set_update_subset_insert [of "it_assemblies st" i "(r, b)"]
    by (auto simp: responders_ok_def)
  then show ?thesis
    using assms
    by (simp add: consecutive_frame_def Let_def responders_ok_push responders_ok_report
        responders_ok_drop split: option.split)
qed

lemma responders_ok_frame:
  "responders_ok st \<Longrightarrow> responder_ok r \<Longrightarrow> responders_ok (isotp_frame line r bs st)"
  by (simp add: isotp_frame_def single_frame_def Let_def responders_ok_push responders_ok_report
      responders_ok_first responders_ok_consecutive split: list.split)

lemma responders_ok_line:
  assumes "responders_ok st"
  shows "responders_ok (isotp_line echo label ign st raw)"
proof (cases "classify_line echo label ign raw")
  case (Report e)
  then show ?thesis using assms classify_responder_ok(2) [OF Report]
    by (simp add: isotp_line_def responders_ok_def)
next
  case (Frame line r bs)
  then show ?thesis using assms classify_responder_ok(1) [OF Frame]
    by (simp add: isotp_line_def responders_ok_frame)
qed (simp add: isotp_line_def assms)

lemma finish_invariant:
  assumes "isotp_wf st" and "responders_ok st"
  shows "isotp_wf (isotp_finish label st) \<and> responders_ok (isotp_finish label st)"
proof -
  have "isotp_wf (flush_assembly s ra) \<and> responders_ok (flush_assembly s ra)"
    if "isotp_wf s \<and> responders_ok s" and "ra \<in> set (it_assemblies st)" for s ra
  proof -
    have "responder_ok (fst ra)" using assms(2) that(2) by (simp add: responders_ok_def)
    then show ?thesis
      using that(1) unfolding flush_assembly_def
      by (cases ra) (simp add: responders_ok_report responders_ok_push)
  qed
  then have "isotp_wf (foldl flush_assembly st (it_assemblies st)) \<and>
      responders_ok (foldl flush_assembly st (it_assemblies st))"
    using assms by (intro foldl_invariant [where P = "\<lambda>s. isotp_wf s \<and> responders_ok s"]) auto
  then show ?thesis
    by (simp add: isotp_finish_def Let_def responders_ok_report responder_ok_def)
qed

lemma finish_not_silent: "it_matches (isotp_finish label st) \<noteq> [] \<or> it_errors (isotp_finish label st) \<noteq> []"
  by (auto simp: isotp_finish_def Let_def report_def)

section \<open>Properties\<close>

text \<open>C1: ISO-TP reassembly at the level of adapter text.  If the lines about responder \<open>h\<close>
  are the segments of a payload of 1 to 4095 bytes, in order, then that responder's answer is
  exactly that payload and no error is attributed to it, whatever other lines (other
  responders, their errors, noise, status text) are interleaved; so selecting the responder
  returns the payload.  The first byte 41 is excluded where Mode 01 frames are ignored.\<close>

theorem isotp_reassembly:
  assumes "valid_header h" and "even (length echo)"
    and "1 \<le> length p" and "length p \<le> 4095" and "ign \<longrightarrow> hd p \<noteq> 0x41"
    and "\<forall>b \<in> set pad. is_padding b"
    and "filter (concerns echo label ign (Some (ElmHeader h))) (split_lines response)
      = map (frame_text h) (isotp_segments pad p)"
  shows "select_responder (normalize_isotp_responses response echo label ign) (ElmHeader h) = Inr p
    \<and> responses_of (ElmHeader h) (normalize_isotp_responses response echo label ign) = [p]
    \<and> errors_of (ElmHeader h) (normalize_isotp_responses response echo label ign) = []"
proof -
  have *: "select_responder d i = Inr p" if "responses_of i d = [p]" for d i
    using that by (auto simp: select_responder_def responses_of_def Let_def map_eq_Cons_conv)
  show ?thesis using normalize_segments [OF assms] * by blast
qed

theorem isotp_reassembly_witness:
  "select_responder (normalize_isotp_responses
     (''SEARCHING...'' @ [CHR 0x0D] @ ''7E8 10 08 62 F1 90 31 32 33'' @ [CHR 0x0D]
       @ ''7E9 03 7F 22 31'' @ [CHR 0x0D] @ ''7E8 21 34 35 00 00'' @ [CHR 0x0D, CHR ''>''])
     ''22F190'' ''UDS 22'' True) (ElmHeader ''7E8'')
   = Inr [0x62, 0xF1, 0x90, 0x31, 0x32, 0x33, 0x34, 0x35]"
proof -
  let ?r = "''SEARCHING...'' @ [CHR 0x0D] @ ''7E8 10 08 62 F1 90 31 32 33'' @ [CHR 0x0D]
       @ ''7E9 03 7F 22 31'' @ [CHR 0x0D] @ ''7E8 21 34 35 00 00'' @ [CHR 0x0D, CHR ''>'']"
  have "filter (concerns ''22F190'' ''UDS 22'' True (Some (ElmHeader ''7E8''))) (split_lines ?r)
      = map (frame_text ''7E8'')
          (isotp_segments [0, 0] [0x62, 0xF1, 0x90, 0x31, 0x32, 0x33, 0x34, 0x35])"
    by code_simp
  then show ?thesis
    using isotp_reassembly [of "''7E8''" "''22F190''"
        "[0x62, 0xF1, 0x90, 0x31, 0x32, 0x33, 0x34, 0x35]" True "[0, 0]" "''UDS 22''" ?r]
    by (simp add: valid_header_def hex_chars_def is_padding_def)
qed

text \<open>C2: isolation of responders: what the normalisation reports of a responder, payloads
  and errors, is what it would report if the adapter text held only the lines about that
  responder.  No other responder's traffic can change, add or hide anything.\<close>

theorem isotp_isolation:
  "responses_of i (normalize_isotp_responses response echo label ign) =
     responses_of i (normalize_isotp_responses
       (join [CHR 0x0D] (filter (concerns echo label ign (Some i)) (split_lines response)))
       echo label ign) \<and>
   errors_of i (normalize_isotp_responses response echo label ign) =
     errors_of i (normalize_isotp_responses
       (join [CHR 0x0D] (filter (concerns echo label ign (Some i)) (split_lines response)))
       echo label ign)"
proof (rule normalize_isolated)
  let ?ws = "filter (concerns echo label ign (Some i)) (split_lines response)"
  show "?ws = filter (concerns echo label ign (Some i)) (split_lines (join [CHR 0x0D] ?ws))"
  proof (cases "?ws = []")
    case True
    have "\<not> concerns echo label ign (Some i) []"
      by (simp add: concerns_def classify_line_def clean_line_def trim_def trim_end_def)
    then show ?thesis using True by (simp add: split_lines_def)
  next
    case False
    have "\<forall>w \<in> set ?ws. \<forall>c \<in> set w. \<not> is_line_end c"
      unfolding split_lines_def by (auto dest: split_on_chars)
    then show ?thesis using split_lines_join [OF False] by simp
  qed
qed

text \<open>C12: no silent truncation: when no error is attributed to a responder, the lengths of the
  payloads reported of it are exactly the lengths its single and first frames announced (and
  those of its unframed lines).  A payload that came back short, or not at all, has an error.\<close>

theorem isotp_no_silent_truncation:
  assumes "errors_of i (normalize_isotp_responses response echo label ign) = []"
  shows "mset (map length (responses_of i (normalize_isotp_responses response echo label ign))) =
    (\<Sum>f \<leftarrow> frames_of echo label ign i response. announced f)"
proof -
  let ?st = "foldl (isotp_line echo label ign) isotp_init (split_lines response)"
  have wf: "isotp_wf ?st" by (intro isotp_wf_lines isotp_wf_init)
  obtain ms es a where v: "view (Some i) ?st = (ms, es, a)" by (cases "view (Some i) ?st") auto
  have fin: "view (Some i) (isotp_finish label ?st) =
      (case a of None \<Rightarrow> view (Some i) ?st
       | Some b \<Rightarrow> view (Some i) (flush_assembly ?st (Some i, b)))"
    using wf flush_all_view [of "it_assemblies ?st" "Some i" ?st] v
    by (simp add: isotp_finish_def Let_def view_report isotp_wf_def map_of_view)
  have none: "fst (snd (view (Some i) (isotp_finish label ?st))) = []"
    using assms by (simp add: normalize_view)
  then have "a = None" "es = []"
    by (cases a; simp add: fin v flush_assembly_def view_report view_push split: if_splits)+
  moreover have "view (Some i) isotp_init = ([], [], None)"
    by (simp add: view_def isotp_init_def)
  ultimately have "mset (map (length \<circ> dr_payload) ms) =
      (\<Sum>f \<leftarrow> List.map_filter (frame_of echo label ign i) (split_lines response). announced f)"
    using isotp_lines_lengths [OF isotp_wf_init, of i echo label ign "split_lines response"] v
    by simp
  then show ?thesis
    using fin \<open>a = None\<close> by (simp add: normalize_view v frames_of_def)
qed

theorem isotp_no_silent_truncation_witness:
  "mset (map length (responses_of (ElmHeader ''7E8'') (normalize_isotp_responses
     (''7E8 03 7F 22 31'' @ [CHR 0x0D] @ ''7E9 05 62'') ''22F190'' ''UDS 22'' True)))
   = (\<Sum>f \<leftarrow> frames_of ''22F190'' ''UDS 22'' True (ElmHeader ''7E8'')
       (''7E8 03 7F 22 31'' @ [CHR 0x0D] @ ''7E9 05 62''). announced f)"
proof (rule isotp_no_silent_truncation)
  show "errors_of (ElmHeader ''7E8'') (normalize_isotp_responses
     (''7E8 03 7F 22 31'' @ [CHR 0x0D] @ ''7E9 05 62'') ''22F190'' ''UDS 22'' True) = []"
    by code_simp
qed

text \<open>Whatever text the adapter sends, the normalised result is well formed: the raw text
  is kept, every reported payload is non-empty, every responder is a three-digit upper-case
  header or unknown, and a result without responses has at least one error.\<close>

lemma isotp_result_wf:
  "drs_raw (normalize_isotp_responses response echo label ign) = response \<and>
   (\<forall>m \<in> set (drs_responses (normalize_isotp_responses response echo label ign)).
      dr_payload m \<noteq> [] \<and> responder_ok (dr_responder m)) \<and>
   (\<forall>e \<in> set (drs_errors (normalize_isotp_responses response echo label ign)).
      responder_ok (de_responder e)) \<and>
   (drs_responses (normalize_isotp_responses response echo label ign) = [] \<longrightarrow>
    drs_errors (normalize_isotp_responses response echo label ign) \<noteq> [])"
proof -
  let ?st = "foldl (isotp_line echo label ign) isotp_init (split_lines response)"
  have "responders_ok ?st"
    by (rule foldl_invariant) (simp_all add: responders_ok_line, simp add: responders_ok_def isotp_init_def)
  then have "isotp_wf (isotp_finish label ?st)" "responders_ok (isotp_finish label ?st)"
    using finish_invariant isotp_wf_lines [OF isotp_wf_init] by blast+
  then show ?thesis
    using finish_not_silent [of label ?st]
    by (auto simp: normalize_isotp_responses_def Let_def isotp_wf_def responders_ok_def)
qed

lemma isotp_result_wf_witness:
  "drs_errors (normalize_isotp_responses [] ''22F190'' ''UDS 22'' True) \<noteq> []"
proof -
  have "drs_responses (normalize_isotp_responses [] ''22F190'' ''UDS 22'' True) = []"
    by code_simp
  then show ?thesis using isotp_result_wf [of "[]" "''22F190''" "''UDS 22''" True] by blast
qed

end
