(* ===== verification/Mode01_Text.thy ===== *)
theory Mode01_Text
  imports Isotp_Reassembly Protocol "HOL-Library.List_Lexorder"
begin

text \<open>
  Mode 01 answers as adapter text, \<open>mode01_responses\<close>, the support-page normalisation and the
  stale-answer normalisation of \<open>src/elm.rs\<close>.  The search for the positive response is a
  terminating recursion on the position; the one slice that may be out of range is a panic of
  the model.  The properties give the shape of every accepted payload, the exact reading of a
  well-formed answer, and when the panic can happen.
\<close>

section \<open>\<open>mode01_responses\<close>\<close>

text \<open>\<open>slice.windows(2).position(|pair| pair == [a, b])\<close>\<close>

fun find_pair :: "u8 \<Rightarrow> u8 \<Rightarrow> bytes \<Rightarrow> nat option" where
  "find_pair a b (x # y # rest) =
     (if x = a \<and> y = b then Some 0 else map_option Suc (find_pair a b (y # rest)))"
| "find_pair a b _ = None"

lemma find_pair_Some:
  "find_pair a b xs = Some i \<Longrightarrow> Suc i < length xs \<and> xs ! i = a \<and> xs ! Suc i = b"
  by (induction a b xs arbitrary: i rule: find_pair.induct) (auto split: if_splits)

fun mode01_token_bytes :: "string \<Rightarrow> bool \<Rightarrow> nat \<Rightarrow> string list \<Rightarrow> string failure + bytes" where
  "mode01_token_bytes line has_separators index [] = Inr []"
| "mode01_token_bytes line has_separators index (token # rest) =
     (if odd (length token) \<or> \<not> all_hex token
      then Inl (Failed ((if index = 0 \<and> has_separators
                         then ''malformed ELM327 responder header: ''
                         else ''malformed ELM327 response line: '') @ debug_str line))
      else and_then (mode01_token_bytes line has_separators (Suc index) rest)
             (\<lambda>bs. Inr (hex_pairs token @ bs)))"

text \<open>The responder of a match: the header, or the tokens before the frame; the slice
  \<open>tokens[..frame_start]\<close> panics when the frame starts beyond the tokens.\<close>

definition mode01_responder ::
  "string option \<Rightarrow> string list \<Rightarrow> nat \<Rightarrow> string failure + responder_identity option" where
  "mode01_responder header_token tokens frame_start =
     (case header_token of
        Some h \<Rightarrow> Inr (Some (ElmHeader (to_ascii_uppercase h)))
      | None \<Rightarrow>
          if 1 < length tokens \<and> 0 < frame_start
          then (if length tokens < frame_start then Inl Panicked
                else Inr (Some (ElmHeader
                       (join '' '' (map to_ascii_uppercase (take frame_start tokens))))))
          else Inr None)"

function mode01_search ::
  "u8 \<Rightarrow> nat \<Rightarrow> string option \<Rightarrow> string list \<Rightarrow> string \<Rightarrow> bytes \<Rightarrow> nat \<Rightarrow>
     string failure + diagnostic_response list"
where
  "mode01_search pid expected_len header_token tokens line bs search_from =
     (case find_pair 0x41 pid (drop search_from bs) of
        None \<Rightarrow> Inr []
      | Some relative \<Rightarrow>
          let payload_start = search_from + relative;
              payload_end = payload_start + expected_len
          in if length bs < payload_end then Inr []
             else
               let has_length_prefix =
                     0 < payload_start \<and> bs ! (payload_start - 1) = word_of_nat expected_len
               in if \<not> has_length_prefix \<and> payload_start \<noteq> 0
                  then (if payload_end \<le> search_from then Inr []
                        else mode01_search pid expected_len header_token tokens line bs payload_end)
                  else
                    let frame_start = (if has_length_prefix then payload_start - 1 else payload_start)
                    in if list_ex (\<lambda>b. \<not> (b = 0x00 \<or> b = 0xaa) \<and> \<not> (has_length_prefix \<and> b = 0x55))
                            (drop payload_end bs)
                       then Inl (Failed (''unexpected bytes after OBD-II response: '' @ line))
                       else and_then (mode01_responder header_token tokens frame_start) (\<lambda>responder.
                            and_then
                              (if payload_end \<le> search_from then Inr []
                               else mode01_search pid expected_len header_token tokens line bs
                                      payload_end)
                              (\<lambda>rest. Inr (\<lparr>dr_responder = responder,
                                 dr_payload = take expected_len (drop payload_start bs)\<rparr> # rest))))"
  by pat_completeness auto

text \<open>The position grows with every round.  (The code's \<open>expected_len\<close> is at least two; the
  guard against an empty step makes the recursion total for every argument.)\<close>

termination
  by (relation "measure (\<lambda>(pid, n, h, ts, l, bs, from). Suc (length bs) - from)") auto

declare mode01_search.simps [simp del]

text \<open>The bytes of the tokens after the header, the negative response, the search.\<close>

definition mode01_negative :: "bytes \<Rightarrow> bool" where
  "mode01_negative bs =
     (let negative =
            (if 1 < length bs \<and> bs ! 1 = 0x7f \<and> unat (bs ! 0) < length bs then drop 1 bs else bs)
      in case negative of [] \<Rightarrow> False | b # _ \<Rightarrow> b = 0x7f)"

definition mode01_decode ::
  "u8 \<Rightarrow> nat \<Rightarrow> string option \<Rightarrow> string list \<Rightarrow> string \<Rightarrow> string failure + diagnostic_response list" where
  "mode01_decode pid expected_len header_token tokens line =
     (let has_separators = (1 < length tokens)
      in and_then
           (case header_token of
              None \<Rightarrow> mode01_token_bytes line has_separators 0 tokens
            | Some _ \<Rightarrow> mode01_token_bytes line has_separators 1 (tl tokens))
           (\<lambda>bs. if mode01_negative bs
                 then Inl (Failed (''negative OBD-II response: '' @ line))
                 else mode01_search pid expected_len header_token tokens line bs 0))"

definition mode01_line :: "u8 \<Rightarrow> nat \<Rightarrow> string \<Rightarrow> string failure + diagnostic_response list" where
  "mode01_line pid data_len raw_line =
     (let line = clean_line raw_line;
          upper = to_ascii_uppercase line;
          compact = concat (split_ascii_whitespace upper);
          tokens = split_ascii_whitespace line;
          header_token = first_token_header tokens
      in if line = [] then Inr []
         else if compact = ''01'' @ fmt_02X pid \<or> progress_line upper then Inr []
         else if status_line upper
         then Inl (Failed (''ELM327 rejected 01'' @ fmt_02X pid @ '': '' @ line))
         else if header_token = None \<and> (odd (length compact) \<or> \<not> all_hex compact)
         then Inl (Failed (''malformed ELM327 response line: '' @ debug_str line))
         else if (case header_token of None \<Rightarrow> False | Some h \<Rightarrow> \<not> all_hex h)
         then Inl (Failed (''malformed ELM327 responder header: '' @ debug_str line))
         else mode01_decode pid (data_len + 2) header_token tokens line)"

definition mode01_responses :: "string \<Rightarrow> u8 \<Rightarrow> nat \<Rightarrow> string failure + diagnostic_response list" where
  "mode01_responses response pid data_len =
     and_then (collect_results (map (mode01_line pid data_len) (split_lines response)))
       (\<lambda>ms. if concat ms = []
             then Inl (Failed (''01'' @ fmt_02X pid @ '' response not found in '' @ debug_str response))
             else Inr (concat ms))"

definition normalize_mode01_responses ::
  "string \<Rightarrow> u8 \<Rightarrow> nat \<Rightarrow> string failure + diagnostic_responses" where
  "normalize_mode01_responses response pid data_len =
     and_then (mode01_responses response pid data_len) (\<lambda>ms. Inr (drs_new ms response))"

section \<open>Support pages\<close>

definition be_bytes4 :: "u32 \<Rightarrow> bytes" where
  "be_bytes4 w = map (\<lambda>i. ucast (drop_bit (8 * i) w)) [3, 2, 1, 0]"

text \<open>\<open>u32::from_be_bytes(value.payload[2..].try_into().unwrap())\<close>: a panic unless four bytes.\<close>

definition page_bitmap :: "bytes \<Rightarrow> string failure + u32" where
  "page_bitmap payload =
     (if length payload = 6 then Inr (word_of_nat (be_nat (drop 2 payload))) else Inl Panicked)"

text \<open>\<open>Option<&str>\<close> and then the response bytes, in lexicographic order.\<close>

definition discovery_key :: "support_discovery \<Rightarrow> nat list" where
  "discovery_key d =
     (case sd_responder d of
        None \<Rightarrow> [0]
      | Some i \<Rightarrow> 1 # map (\<lambda>c. Suc (code_point c)) (responder_str i) @ [0])
     @ map unat (sd_response d)"

definition sort_discoveries :: "support_discovery list \<Rightarrow> support_discovery list" where
  "sort_discoveries ds = sort_key discovery_key ds"

definition normalize_pid_support_page_with_evidence ::
  "string \<Rightarrow> u8 \<Rightarrow> string failure + bytes \<times> support_discovery list" where
  "normalize_pid_support_page_with_evidence response page =
     and_then (normalize_mode01_responses response page 4) (\<lambda>d.
     and_then (collect_results (map (\<lambda>r. page_bitmap (dr_payload r)) (drs_responses d))) (\<lambda>bitmaps.
       Inr ([0x41, page] @ be_bytes4 (foldl (OR) 0 bitmaps),
            sort_discoveries
              (map (\<lambda>r. \<lparr>sd_request = [0x01, page], sd_responder = dr_responder r,
                         sd_response = dr_payload r\<rparr>) (drs_responses d)))))"

section \<open>Stale answers\<close>

definition stale_line ::
  "string \<Rightarrow> u8 \<Rightarrow> string \<Rightarrow> string + (diagnostic_response \<times> diagnostic_response_error) list" where
  "stale_line response requested_pid raw_line =
     (let line = clean_line raw_line;
          upper = to_ascii_uppercase line;
          compact = concat (split_ascii_whitespace upper);
          tokens = split_ascii_whitespace line;
          header = first_token_header tokens;
          not_found = ''01'' @ fmt_02X requested_pid @ '' response not found in '' @ debug_str response
      in if line = [] then Inr []
         else if compact = ''01'' @ fmt_02X requested_pid \<or> progress_line upper then Inr []
         else if status_line upper
         then Inl (''ELM327 rejected 01'' @ fmt_02X requested_pid @ '': '' @ line)
         else if (case header of None \<Rightarrow> False | Some h \<Rightarrow> \<not> all_hex h)
         then Inl (''malformed ELM327 responder header: '' @ debug_str line)
         else case token_bytes (if header = None then tokens else tl tokens) of
           None \<Rightarrow> Inl (''malformed ELM327 response line: '' @ debug_str line)
         | Some [] \<Rightarrow> Inl not_found
         | Some (b # payload_and_padding) \<Rightarrow>
             let declared_len = unat b
             in if declared_len < 2 \<or> length payload_and_padding < declared_len
                  \<or> payload_and_padding ! 0 \<noteq> 0x41 \<or> payload_and_padding ! 1 = requested_pid
                  \<or> list_ex (\<lambda>b. \<not> is_padding b) (drop declared_len payload_and_padding)
                then Inl not_found
                else let responder = map_option (\<lambda>h. ElmHeader (to_ascii_uppercase h)) header
                     in Inr [(\<lparr>dr_responder = responder,
                               dr_payload = take declared_len payload_and_padding\<rparr>,
                              \<lparr>de_responder = responder,
                               de_error = ''stale unrelated OBD-II Mode 01 response from responder ''
                                 @ responder_or_unknown responder @ '' while awaiting 01''
                                 @ fmt_02X requested_pid @ '': '' @ debug_str line\<rparr>)])"

definition normalize_stale_mode01_responses :: "string \<Rightarrow> u8 \<Rightarrow> string + diagnostic_responses" where
  "normalize_stale_mode01_responses response requested_pid =
     and_then (collect_results (map (stale_line response requested_pid) (split_lines response)))
       (\<lambda>ms. let rs = concat ms
             in if rs = []
                then Inl (''01'' @ fmt_02X requested_pid @ '' response not found in ''
                       @ debug_str response)
                else Inr (drs_with_errors (map fst rs) response (map snd rs)))"

section \<open>The shape of accepted payloads\<close>

definition mode01_shape :: "u8 \<Rightarrow> nat \<Rightarrow> bytes \<Rightarrow> bool" where
  "mode01_shape pid data_len p \<longleftrightarrow> (\<exists>data. p = 0x41 # pid # data \<and> length data = data_len)"

lemma find_pair_drop:
  assumes "find_pair a b (drop from bs) = Some r"
  shows "Suc (from + r) < length bs" "bs ! (from + r) = a" "bs ! Suc (from + r) = b"
proof -
  from find_pair_Some [OF assms] have "Suc r < length bs - from" and
    v: "drop from bs ! r = a" "drop from bs ! Suc r = b" by simp_all
  then show "Suc (from + r) < length bs" by linarith
  then show "bs ! (from + r) = a" "bs ! Suc (from + r) = b" using v by simp_all
qed

lemma take_drop_shape:
  assumes "find_pair 0x41 pid (drop from bs) = Some r" and "from + r + (n + 2) \<le> length bs"
  shows "mode01_shape pid n (take (n + 2) (drop (from + r) bs))"
proof -
  from find_pair_drop [OF assms(1)]
  have "drop (from + r) bs = 0x41 # pid # drop (from + r + 2) bs"
    by (metis Cons_nth_drop_Suc Suc_lessD add_2_eq_Suc')
  then have "take (n + 2) (drop (from + r) bs) = 0x41 # pid # take n (drop (from + r + 2) bs)"
    by simp
  moreover have "length (take n (drop (from + r + 2) bs)) = n" using assms(2) by simp
  ultimately show ?thesis by (auto simp: mode01_shape_def)
qed

lemma mode01_search_shape:
  "mode01_search pid k h ts line bs from = Inr ms \<Longrightarrow> m \<in> set ms \<Longrightarrow> k = n + 2 \<Longrightarrow>
   mode01_shape pid n (dr_payload m)"
proof (induction pid k h ts line bs "from" arbitrary: ms m rule: mode01_search.induct)
  case (1 pid k h ts line bs "from")
  show ?case
  proof (cases "find_pair 0x41 pid (drop from bs)")
    case None
    then show ?thesis using "1.prems" by (simp add: mode01_search.simps)
  next
    case (Some r)
    show ?thesis
      using "1.prems"(1,2) "1.IH"(1) [OF Some refl refl _ refl]
        "1.IH"(2) [OF Some refl refl _ refl _ refl]
        take_drop_shape [OF Some, of n] "1.prems"(3)
      by (subst (asm) mode01_search.simps) (auto simp: Some Let_def split: if_splits)
  qed
qed

lemma collect_results_mem:
  "collect_results (map f xs) = Inr ys \<Longrightarrow> y \<in> set ys \<Longrightarrow> \<exists>x \<in> set xs. f x = Inr y"
  by (induction xs arbitrary: ys) auto

lemma collect_results_Inl:
  "collect_results (map f xs) = Inl e \<Longrightarrow> \<exists>x \<in> set xs. f x = Inl e"
proof (induction xs)
  case (Cons x xs)
  then show ?case by (cases "f x"; cases "collect_results (map f xs)") auto
qed simp

lemma mode01_line_shape:
  assumes "mode01_line pid n raw = Inr ms" and "m \<in> set ms"
  shows "mode01_shape pid n (dr_payload m)"
proof -
  have "mode01_decode pid (n + 2) (first_token_header (split_ascii_whitespace (clean_line raw)))
      (split_ascii_whitespace (clean_line raw)) (clean_line raw) = Inr ms"
    using assms unfolding mode01_line_def Let_def by (simp split: if_splits)
  then show ?thesis
    using assms(2) mode01_search_shape [OF _ _ refl, of pid n]
    by (auto simp: mode01_decode_def Let_def simp del: add_2_eq_Suc' split: if_splits)
qed

lemma mode01_responses_shape:
  assumes "mode01_responses response pid n = Inr ms"
  shows "ms \<noteq> [] \<and> (\<forall>m \<in> set ms. mode01_shape pid n (dr_payload m))"
proof -
  from assms obtain rs where rs: "collect_results (map (mode01_line pid n) (split_lines response)) = Inr rs"
    and ms: "ms = concat rs" "ms \<noteq> []"
    by (auto simp: mode01_responses_def split: if_splits)
  show ?thesis using ms collect_results_mem [OF rs] mode01_line_shape by fastforce
qed

section \<open>Panics\<close>

lemma mode01_token_bytes_no_panic: "mode01_token_bytes line s i ts \<noteq> Inl Panicked"
proof (induction line s i ts rule: mode01_token_bytes.induct)
  case (2 line s i t ts)
  then show ?case by (cases "mode01_token_bytes line s (Suc i) ts") auto
qed simp

lemma mode01_token_bytes_Inr:
  "mode01_token_bytes line s i ts = Inr bs \<Longrightarrow>
   bs = concat (map hex_pairs ts) \<and> (\<forall>t \<in> set ts. even (length t) \<and> all_hex t)"
proof (induction line s i ts arbitrary: bs rule: mode01_token_bytes.induct)
  case (2 line s i t ts)
  from "2.prems" have t: "\<not> (odd (length t) \<or> \<not> all_hex t)" by (simp split: if_splits)
  then obtain cs where "mode01_token_bytes line s (Suc i) ts = Inr cs" "bs = hex_pairs t @ cs"
    using "2.prems" by auto
  then show ?case using "2.IH" [OF t] t by simp
qed simp

text \<open>A length byte with the positive response after it, at a position beyond the tokens.\<close>

definition frame_beyond :: "u8 \<Rightarrow> nat \<Rightarrow> nat \<Rightarrow> bytes \<Rightarrow> bool" where
  "frame_beyond pid len tokens bs \<longleftrightarrow>
     (\<exists>k > tokens. Suc (k + len) \<le> length bs \<and>
        bs ! k = word_of_nat len \<and> bs ! Suc k = 0x41 \<and> bs ! Suc (Suc k) = pid)"

lemma mode01_search_panic:
  "mode01_search pid n h ts line bs from = Inl Panicked \<Longrightarrow>
   h = None \<and> 1 < length ts \<and> frame_beyond pid n (length ts) bs"
proof (induction pid n h ts line bs "from" rule: mode01_search.induct)
  case (1 pid n h ts line bs "from")
  show ?case
  proof (cases "find_pair 0x41 pid (drop from bs)")
    case None
    then show ?thesis using "1.prems" by (simp add: mode01_search.simps)
  next
    case (Some r)
    have resp: "mode01_responder h ts (from + r - 1) = Inl Panicked \<Longrightarrow> 0 < from + r \<Longrightarrow>
        bs ! (from + r - 1) = word_of_nat n \<Longrightarrow> from + r + n \<le> length bs \<Longrightarrow> ?thesis"
      using find_pair_drop [OF Some]
      by (auto simp: mode01_responder_def frame_beyond_def
          intro!: exI [of _ "from + r - 1"] split: option.splits if_splits)
    have start: "mode01_responder h ts 0 \<noteq> Inl Panicked"
      by (auto simp: mode01_responder_def split: option.splits)
    let ?ps = "from + r"
    let ?prefixed = "0 < ?ps \<and> bs ! (?ps - 1) = word_of_nat n"
    have fits: "\<not> length bs < ?ps + n"
      using "1.prems" by (subst (asm) mode01_search.simps) (auto simp: Some)
    show ?thesis
    proof (cases "\<not> ?prefixed \<and> ?ps \<noteq> 0")
      case True
      then have "\<not> ?ps + n \<le> from \<and> mode01_search pid n h ts line bs (?ps + n) = Inl Panicked"
        using "1.prems" fits
        by (subst (asm) mode01_search.simps) (simp only: Some option.case Let_def if_True if_False simp_thms split: if_splits; simp)
      then show ?thesis using "1.IH"(1) [OF Some refl refl fits refl True] by blast
    next
      case False
      let ?start = "if ?prefixed then ?ps - 1 else ?ps"
      have pad: "\<not> list_ex (\<lambda>b. \<not> (b = 0x00 \<or> b = 0xaa) \<and> \<not> (?prefixed \<and> b = 0x55)) (drop (?ps + n) bs)"
        using "1.prems" fits False
        by (subst (asm) mode01_search.simps) (simp only: Some option.case Let_def if_False split: if_splits; simp)
      have "mode01_responder h ts ?start = Inl Panicked \<or>
          (\<exists>i. mode01_responder h ts ?start = Inr i) \<and> \<not> ?ps + n \<le> from \<and>
           mode01_search pid n h ts line bs (?ps + n) = Inl Panicked"
        using "1.prems" fits False pad
        by (subst (asm) mode01_search.simps)
          (simp only: Some option.case Let_def if_False and_then_Panicked split: if_splits; auto)
      then show ?thesis
      proof
        assume "mode01_responder h ts ?start = Inl Panicked"
        then show ?thesis using resp start False fits by (cases ?prefixed) auto
      next
        assume "(\<exists>i. mode01_responder h ts ?start = Inr i) \<and> \<not> ?ps + n \<le> from \<and>
           mode01_search pid n h ts line bs (?ps + n) = Inl Panicked"
        then show ?thesis using "1.IH"(2) [OF Some refl refl fits refl False refl pad] by blast
      qed
    qed
  qed
qed

lemma mode01_decode_panic:
  assumes "mode01_decode pid k h ts line = Inl Panicked"
  shows "h = None \<and> 1 < length ts \<and> (\<forall>t \<in> set ts. even (length t) \<and> all_hex t) \<and>
    frame_beyond pid k (length ts) (concat (map hex_pairs ts))"
proof -
  obtain bs where "h = None" "mode01_token_bytes line (1 < length ts) 0 ts = Inr bs"
      "1 < length ts \<and> frame_beyond pid k (length ts) bs"
    using assms mode01_search_panic [of pid k h ts line _ 0]
    by (cases h) (auto simp: mode01_decode_def Let_def and_then_Panicked mode01_token_bytes_no_panic
        split: if_splits)
  then show ?thesis using mode01_token_bytes_Inr by blast
qed

lemma mode01_line_panic:
  assumes "mode01_line pid n raw = Inl Panicked"
  shows "\<exists>ts. ts = split_ascii_whitespace (clean_line raw) \<and> 1 < length ts \<and>
    length (hd ts) \<noteq> 3 \<and> (\<forall>t \<in> set ts. even (length t) \<and> all_hex t) \<and>
    frame_beyond pid (n + 2) (length ts) (concat (map hex_pairs ts))"
proof -
  let ?ts = "split_ascii_whitespace (clean_line raw)"
  have "mode01_decode pid (n + 2) (first_token_header ?ts) ?ts (clean_line raw) = Inl Panicked"
    using assms unfolding mode01_line_def Let_def by (auto split: if_splits)
  from mode01_decode_panic [OF this] show ?thesis
    by (cases ?ts) (auto simp: first_token_header_def split: if_splits)
qed

section \<open>Reading a well-formed answer\<close>

text \<open>A single frame with a positive Mode 01 response: length, \<open>41\<close>, PID, data, padding.\<close>

definition mode01_frame_bytes :: "u8 \<Rightarrow> bytes \<Rightarrow> bytes \<Rightarrow> bytes" where
  "mode01_frame_bytes pid data pad = word_of_nat (length data + 2) # 0x41 # pid # data @ pad"

lemma mode01_token_bytes_fmt: "mode01_token_bytes line s i (map fmt_02X bs) = Inr bs"
  by (induction bs arbitrary: i) simp_all

lemma find_pair_absent: "a \<notin> set xs \<Longrightarrow> find_pair a b xs = None"
  by (induction a b xs rule: find_pair.induct) auto

lemma frame_text_not_status: "valid_header h \<Longrightarrow> \<not> status_line (frame_text h bs)"
  using frame_text_plain(2) [of h bs] by (auto simp: adapter_status_def status_line_def list_ex_iff)

lemma mode01_length_byte:
  assumes "n \<le> 5"
  shows "unat (word_of_nat (n + 2) :: u8) = n + 2" "(word_of_nat (n + 2) :: u8) \<noteq> 0x41"
    "(word_of_nat (n + 2) :: u8) \<noteq> 0x7f"
proof -
  show u: "unat (word_of_nat (n + 2) :: u8) = n + 2" by (rule unat_u8_of_nat) (use assms in simp)
  have "unat (0x41 :: u8) = 65" "unat (0x7f :: u8) = 127" by simp_all
  then show "(word_of_nat (n + 2) :: u8) \<noteq> 0x41" "(word_of_nat (n + 2) :: u8) \<noteq> 0x7f"
    using u assms by (auto simp del: of_nat_add)
qed

lemma mode01_search_frame:
  assumes "length data \<le> 5" and "\<forall>b \<in> set pad. is_padding b"
  shows "mode01_search pid (length data + 2) (Some h) ts line (mode01_frame_bytes pid data pad) 0 =
    Inr [\<lparr>dr_responder = Some (ElmHeader (to_ascii_uppercase h)),
          dr_payload = 0x41 # pid # data\<rparr>]"
proof -
  let ?n = "length data" and ?bs = "mode01_frame_bytes pid data pad"
  let ?w = "word_of_nat (length data + 2) :: u8"
  have w: "?w \<noteq> 0x41" by (rule mode01_length_byte(2) [OF assms(1)])
  have find: "find_pair 0x41 pid (drop 0 ?bs) = Some 1"
    using w by (simp add: mode01_frame_bytes_def del: of_nat_add add_2_eq_Suc')
  have rest: "drop (1 + (?n + 2)) ?bs = pad" by (simp add: mode01_frame_bytes_def)
  have "0x41 \<notin> set pad" using assms(2) by (auto simp: is_padding_def)
  then have "find_pair 0x41 pid pad = None" by (rule find_pair_absent)
  then have tail: "mode01_search pid (?n + 2) (Some h) ts line ?bs (1 + (?n + 2)) = Inr []"
    by (subst mode01_search.simps) (simp only: rest option.case)
  have pad: "\<not> list_ex (\<lambda>b. \<not> (b = 0x00 \<or> b = 0xaa) \<and> b \<noteq> 0x55) pad"
    using assms(2) by (auto simp: list_ex_iff is_padding_def)
  have prefix: "?bs ! (1 - 1) = ?w" by (simp add: mode01_frame_bytes_def)
  have take: "take (?n + 2) (drop 1 ?bs) = 0x41 # pid # data"
    by (simp add: mode01_frame_bytes_def)
  have len: "\<not> length ?bs < 1 + (?n + 2)" by (simp add: mode01_frame_bytes_def)
  show ?thesis
    by (subst mode01_search.simps)
      (simp only: find option.case Let_def add_0 len prefix rest pad tail take mode01_responder_def
        if_False if_True and_then.simps simp_thms zero_less_one le_zero_eq add_is_0 one_neq_zero)
qed

lemma length_concat_fmt: "length (concat (map fmt_02X bs)) = 2 * length bs"
  by (induction bs) simp_all

lemma mode01_line_frame:
  assumes "valid_header h" and "length data \<le> 5" and "\<forall>b \<in> set pad. is_padding b"
  shows "mode01_line pid (length data) (frame_text h (mode01_frame_bytes pid data pad)) =
    Inr [\<lparr>dr_responder = Some (ElmHeader h), dr_payload = 0x41 # pid # data\<rparr>]"
proof -
  let ?bs = "mode01_frame_bytes pid data pad" and ?t = "frame_text h (mode01_frame_bytes pid data pad)"
  note h = assms(1)
  have len: "length h = 3" and hex: "set h \<subseteq> hex_chars" using h by (auto simp: valid_header_def)
  have "length (concat (h # map fmt_02X ?bs)) = 3 + 2 * length ?bs" using len by (simp add: length_concat_fmt)
  moreover have "length (''01'' @ fmt_02X pid) = 4" by simp
  ultimately have compact: "concat (h # map fmt_02X ?bs) \<noteq> ''01'' @ fmt_02X pid"
    by (metis even_add even_mult_iff even_numeral odd_numeral)
  have "all_hex h" unfolding all_hex_def list_all_iff using hex hex_char_plain(5) by blast
  moreover have upper: "to_ascii_uppercase h = h"
    unfolding to_ascii_uppercase_def using hex hex_char_plain(4) by (intro map_idI) blast
  moreover have "?t \<noteq> []" using len by (simp add: frame_text_def mode01_frame_bytes_def)
  moreover have "first_token_header (h # map fmt_02X ?bs) = Some h"
    using len by (simp add: first_token_header_def)
  moreover have "mode01_decode pid (length data + 2) (Some h) (h # map fmt_02X ?bs) ?t =
      Inr [\<lparr>dr_responder = Some (ElmHeader h), dr_payload = 0x41 # pid # data\<rparr>]"
  proof -
    have "\<not> mode01_negative ?bs"
      using mode01_length_byte(3) [OF assms(2)]
      by (simp add: mode01_negative_def mode01_frame_bytes_def del: of_nat_add add_2_eq_Suc')
    then show ?thesis
      using mode01_search_frame [OF assms(2,3), of pid h] upper
      by (simp add: mode01_decode_def mode01_token_bytes_fmt del: add_2_eq_Suc')
  qed
  ultimately show ?thesis
    using compact
    by (simp add: mode01_line_def frame_text_clean [OF h] frame_text_upper [OF h]
        frame_text_tokens [OF h] frame_text_plain [OF h] frame_text_not_status [OF h] Let_def
        del: concat.simps add_2_eq_Suc')
qed

lemma mode01_line_end [simp]: "mode01_line pid n [] = Inr []" "mode01_line pid n ''>'' = Inr []"
  by (simp_all add: mode01_line_def clean_line_def trim_def trim_end_def is_whitespace_def
      is_ascii_whitespace_def)

lemma mode01_responses_answer:
  assumes "fs \<noteq> []" and "n \<le> 5"
    and frames: "\<forall>(h, data, pad) \<in> set fs. valid_header h \<and> length data = n \<and> (\<forall>b \<in> set pad. is_padding b)"
  shows "mode01_responses
      (answer_text (map (\<lambda>(h, data, pad). frame_text h (mode01_frame_bytes pid data pad)) fs)) pid n =
    Inr (map (\<lambda>(h, data, pad). \<lparr>dr_responder = Some (ElmHeader h), dr_payload = 0x41 # pid # data\<rparr>) fs)"
proof -
  let ?text = "\<lambda>(h, data, pad). frame_text h (mode01_frame_bytes pid data pad)"
  let ?resp = "\<lambda>(h, data, pad :: bytes). \<lparr>dr_responder = Some (ElmHeader h), dr_payload = 0x41 # pid # data\<rparr>"
  have "mode01_line pid n (?text f) = Inr [?resp f]" if "f \<in> set fs" for f
    using frames that assms(2) mode01_line_frame by (cases f) fastforce
  then have "map (mode01_line pid n) (map ?text fs) = map Inr (map (\<lambda>f. [?resp f]) fs)" by simp
  then have "map (mode01_line pid n) (map ?text fs @ [[], ''>'']) =
      map Inr (map (\<lambda>f. [?resp f]) fs @ [[], []])"
    by (simp only: map_append mode01_line_end list.map)
  moreover have "split_lines (answer_text (map ?text fs)) = map ?text fs @ [[], ''>'']"
    by (rule split_lines_answer) (use frames frame_text_no_line_end in fastforce)
  moreover have "concat (map (\<lambda>f. [?resp f]) fs @ [[], []]) = map ?resp fs"
    by (simp add: concat_map_singleton)
  ultimately show ?thesis
    using assms(1) by (simp only: mode01_responses_def collect_results_Inr and_then.simps) simp
qed

section \<open>The support bitmap\<close>

lemma unat_byte_of: "unat (ucast (drop_bit k (w :: u32)) :: u8) = unat w div 2 ^ k mod 256"
proof -
  have "take_bit 32 (unat w) = unat w"
    by (rule take_bit_nat_eq_self) simp
  then have "unat (drop_bit k w) = drop_bit k (unat w)" by (simp add: unsigned_drop_bit_eq)
  then have "unat (drop_bit k w) = unat w div 2 ^ k" by (simp only: drop_bit_eq_div)
  then show ?thesis by (simp add: unsigned_ucast_eq take_bit_eq_mod)
qed

lemma four_bytes:
  fixes n :: nat
  assumes "n < 4294967296"
  shows "n div 16777216 mod 256 * 16777216 + (n div 65536 mod 256 * 65536
    + (n div 256 mod 256 * 256 + n mod 256)) = n"
proof -
  define a b c where "a = n div 256" and "b = a div 256" and "c = b div 256"
  have "c = n div 16777216" "b = n div 65536" by (simp_all add: a_def b_def c_def flip: div_mult2_eq)
  moreover have "c < 256" using assms by (simp add: a_def b_def c_def less_mult_imp_div_less flip: div_mult2_eq)
  moreover have "n = 256 * a + n mod 256" "a = 256 * b + a mod 256" "b = 256 * c + b mod 256"
    by (simp_all add: a_def b_def c_def)
  ultimately show ?thesis by (simp add: a_def [symmetric])
qed

lemma be_bytes4_inverse: "word_of_nat (be_nat (be_bytes4 w)) = w"
proof -
  have "unat w < 4294967296" by simp
  note n = four_bytes [OF this]
  have p: "2 ^ 24 = (16777216 :: nat)" "2 ^ 16 = (65536 :: nat)" "2 ^ 8 = (256 :: nat)" by simp_all
  have "be_bytes4 w = [ucast (drop_bit 24 w), ucast (drop_bit 16 w), ucast (drop_bit 8 w),
      ucast (drop_bit 0 w)]"
    by (simp add: be_bytes4_def)
  moreover have "be_nat [a, b, c, d] =
      unat a * 16777216 + (unat b * 65536 + (unat c * 256 + unat d))" for a b c d :: u8
    by (simp add: be_nat_Cons)
  ultimately have "be_nat (be_bytes4 w) = unat w"
    by (simp only: unat_byte_of p power_0 div_by_1 n)
  then show ?thesis by simp
qed

lemma length_be_bytes4 [simp]: "length (be_bytes4 w) = 4"
  by (simp add: be_bytes4_def)

lemma bit_foldl_OR: "bit (foldl (OR) a ws) i \<longleftrightarrow> bit (a :: u32) i \<or> (\<exists>w \<in> set ws. bit w i)"
  by (induction ws arbitrary: a) (auto simp: bit_or_iff)

definition payload_bitmap :: "bytes \<Rightarrow> u32" where
  "payload_bitmap p = word_of_nat (be_nat (drop 2 p))"

lemma page_bitmaps:
  assumes "\<forall>m \<in> set ms. mode01_shape page 4 (dr_payload m)"
  shows "collect_results (map (\<lambda>r. page_bitmap (dr_payload r)) ms) =
    Inr (map (payload_bitmap \<circ> dr_payload) ms)"
  using assms
  by (induction ms) (auto simp: page_bitmap_def payload_bitmap_def mode01_shape_def)

lemma support_page_iff:
  "normalize_pid_support_page_with_evidence response page =
     and_then (mode01_responses response page 4) (\<lambda>ms.
       Inr ([0x41, page] @ be_bytes4 (foldl (OR) 0 (map (payload_bitmap \<circ> dr_payload) ms)),
            sort_discoveries (map (\<lambda>r. \<lparr>sd_request = [0x01, page], sd_responder = dr_responder r,
              sd_response = dr_payload r\<rparr>) ms)))"
proof (cases "mode01_responses response page 4")
  case (Inr ms)
  then show ?thesis
    using page_bitmaps [of ms page] mode01_responses_shape [OF Inr]
    by (simp add: normalize_pid_support_page_with_evidence_def normalize_mode01_responses_def)
qed (simp add: normalize_pid_support_page_with_evidence_def normalize_mode01_responses_def)

lemma mode01_responses_panic:
  "mode01_responses response pid n = Inl Panicked \<Longrightarrow>
   \<exists>raw \<in> set (split_lines response). mode01_line pid n raw = Inl Panicked"
  unfolding mode01_responses_def
  by (auto simp: and_then_Panicked split: if_splits dest!: collect_results_Inl)

section \<open>Properties\<close>

text \<open>An answer made of well-formed single frames of any number of responders, with any
  allowed padding, is read completely: one response per frame, in order, with the responder of
  its header and exactly its PID and data.\<close>

lemma mode01_reads_all:
  assumes "fs \<noteq> []" and "n \<le> 5"
    and "\<forall>(h, data, pad) \<in> set fs. valid_header h \<and> length data = n \<and> (\<forall>b \<in> set pad. is_padding b)"
  shows "mode01_responses
      (answer_text (map (\<lambda>(h, data, pad). frame_text h (mode01_frame_bytes pid data pad)) fs)) pid n =
    Inr (map (\<lambda>(h, data, pad). \<lparr>dr_responder = Some (ElmHeader h), dr_payload = 0x41 # pid # data\<rparr>) fs)"
  by (rule mode01_responses_answer [OF assms])

lemma mode01_reads_all_witness:
  "mode01_responses
     (''7E8 04 41 0C 1A F8 00 00 00'' @ [CHR 0x0D] @ ''7EA 04 41 0C 1A F9'' @ [CHR 0x0D, CHR 0x0D, CHR ''>''])
     0x0C 2
   = Inr [\<lparr>dr_responder = Some (ElmHeader ''7E8''), dr_payload = [0x41, 0x0C, 0x1A, 0xF8]\<rparr>,
          \<lparr>dr_responder = Some (ElmHeader ''7EA''), dr_payload = [0x41, 0x0C, 0x1A, 0xF9]\<rparr>]"
proof -
  let ?fs = "[(''7E8'', [0x1A, 0xF8], [0, 0, 0]), (''7EA'', [0x1A, 0xF9], [])] :: (string \<times> bytes \<times> bytes) list"
  have "answer_text (map (\<lambda>(h, data, pad). frame_text h (mode01_frame_bytes 0x0C data pad)) ?fs) =
      ''7E8 04 41 0C 1A F8 00 00 00'' @ [CHR 0x0D] @ ''7EA 04 41 0C 1A F9'' @ [CHR 0x0D, CHR 0x0D, CHR ''>'']"
    by code_simp
  then show ?thesis
    using mode01_reads_all [of ?fs 2 "0x0C"]
    by (simp add: valid_header_def hex_chars_def is_padding_def)
qed

text \<open>Whatever text the adapter sends, an accepted Mode 01 answer has at least one response
  and every one is \<open>41\<close>, the requested PID, and exactly the expected number of data bytes; so
  the fixed-size conversions of the support-page normalisation never fail, and that
  normalisation panics only if the search itself does.\<close>

lemma mode01_accepted_shape:
  "(mode01_responses response pid n = Inr ms \<longrightarrow>
     ms \<noteq> [] \<and> (\<forall>m \<in> set ms. \<exists>data. dr_payload m = 0x41 # pid # data \<and> length data = n)) \<and>
   (normalize_pid_support_page_with_evidence response pid = Inl Panicked \<longrightarrow>
     mode01_responses response pid 4 = Inl Panicked)"
  using mode01_responses_shape [of response pid n ms]
  by (auto simp: mode01_shape_def support_page_iff and_then_Panicked)

lemma mode01_accepted_shape_witness:
  "\<exists>data. dr_payload \<lparr>dr_responder = Some (ElmHeader ''7E8''), dr_payload = [0x41, 0x0D, 0x20]\<rparr>
     = 0x41 # 0x0D # data \<and> length data = 1"
proof -
  have "mode01_responses ''7E8 03 41 0D 20'' 0x0D 1 =
      Inr [\<lparr>dr_responder = Some (ElmHeader ''7E8''), dr_payload = [0x41, 0x0D, 0x20]\<rparr>]"
    by code_simp
  then show ?thesis
    using mode01_accepted_shape [of "''7E8 03 41 0D 20''" "0x0D" 1
        "[\<lparr>dr_responder = Some (ElmHeader ''7E8''), dr_payload = [0x41, 0x0D, 0x20]\<rparr>]"] by simp
qed

text \<open>The support page is the union of the responders' pages: the bitmap in the normalised
  bytes, read back as the discovery does, has exactly the bits some responder reported, and
  every response is kept as evidence.\<close>

lemma support_page_union:
  assumes "normalize_pid_support_page_with_evidence response page = Inr (normalized, observations)"
  shows "take 2 normalized = [0x41, page] \<and> length normalized = 6 \<and>
    (\<forall>i. bit (payload_bitmap normalized) i \<longleftrightarrow>
       (\<exists>d \<in> set observations. bit (payload_bitmap (sd_response d)) i)) \<and>
    (\<exists>ms. mode01_responses response page 4 = Inr ms \<and> ms \<noteq> [] \<and>
       mset (map sd_response observations) = mset (map dr_payload ms))"
proof -
  from assms obtain ms where ms: "mode01_responses response page 4 = Inr ms"
    and n: "normalized = [0x41, page] @ be_bytes4 (foldl (OR) 0 (map (payload_bitmap \<circ> dr_payload) ms))"
    and obs: "observations = sort_discoveries (map (\<lambda>r. \<lparr>sd_request = [0x01, page],
      sd_responder = dr_responder r, sd_response = dr_payload r\<rparr>) ms)"
    by (auto simp: support_page_iff)
  have bm: "payload_bitmap normalized = foldl (OR) 0 (map (payload_bitmap \<circ> dr_payload) ms)"
    by (simp add: n payload_bitmap_def be_bytes4_inverse)
  have "bit (payload_bitmap normalized) i \<longleftrightarrow>
      (\<exists>d \<in> set observations. bit (payload_bitmap (sd_response d)) i)" for i
    unfolding bm bit_foldl_OR by (auto simp: obs sort_discoveries_def)
  moreover have "mset (map sd_response observations) = mset (map dr_payload ms)"
  proof -
    have "mset (map sd_response (sort_key discovery_key ds)) = mset (map sd_response ds)" for ds
      by (metis mset_map mset_sort)
    then show ?thesis by (simp add: obs sort_discoveries_def multiset.map_comp comp_def)
  qed
  ultimately show ?thesis using ms mode01_responses_shape [OF ms] by (simp add: n)
qed

lemma support_page_union_witness:
  "\<exists>normalized observations. normalize_pid_support_page_with_evidence
       (''7E8 06 41 00 80 00 00 00'' @ [CHR 0x0D] @ ''7E9 06 41 00 00 00 00 01'') 0
       = Inr (normalized, observations) \<and> length normalized = 6 \<and>
     mset (map sd_response observations) =
       {#[0x41, 0x00, 0x80, 0, 0, 0], [0x41, 0x00, 0, 0, 0, 1]#}"
proof -
  let ?t = "''7E8 06 41 00 80 00 00 00'' @ [CHR 0x0D] @ ''7E9 06 41 00 00 00 00 01''"
  let ?ms = "[\<lparr>dr_responder = Some (ElmHeader ''7E8''), dr_payload = [0x41, 0x00, 0x80, 0, 0, 0]\<rparr>,
     \<lparr>dr_responder = Some (ElmHeader ''7E9''), dr_payload = [0x41, 0x00, 0, 0, 0, 1]\<rparr>]"
  have ms: "mode01_responses ?t 0 4 = Inr ?ms" by code_simp
  then obtain normalized observations where
    r: "normalize_pid_support_page_with_evidence ?t 0 = Inr (normalized, observations)"
    by (auto simp: support_page_iff)
  then show ?thesis using support_page_union [OF r] ms by auto
qed

text \<open>C17: the panics of the search are pinned down.  When it panics, some line of the answer has
  no three-character header but several tokens, all of them hexadecimal with an even number of
  digits, and among the bytes they decode to there is a complete length-prefixed positive
  response that starts at a byte position greater than the number of tokens.  In particular a
  line with a header never panics, nor does one whose tokens are single bytes.\<close>

theorem mode01_panics_only_on_packed_tokens:
  assumes "mode01_responses response pid n = Inl Panicked"
  shows "\<exists>raw \<in> set (split_lines response). \<exists>tokens bs k.
    tokens = split_ascii_whitespace (clean_line raw) \<and> bs = concat (map hex_pairs tokens) \<and>
    1 < length tokens \<and> length (hd tokens) \<noteq> 3 \<and>
    (\<forall>t \<in> set tokens. even (length t) \<and> all_hex t) \<and>
    length tokens < k \<and> k + n + 3 \<le> length bs \<and>
    bs ! k = word_of_nat (n + 2) \<and> bs ! Suc k = 0x41 \<and> bs ! Suc (Suc k) = pid"
proof -
  obtain raw where raw: "raw \<in> set (split_lines response)" "mode01_line pid n raw = Inl Panicked"
    using mode01_responses_panic [OF assms] by blast
  let ?ts = "split_ascii_whitespace (clean_line raw)"
  let ?bs = "concat (map hex_pairs ?ts)"
  have ts: "1 < length ?ts" "length (hd ?ts) \<noteq> 3" "\<forall>t \<in> set ?ts. even (length t) \<and> all_hex t"
    using mode01_line_panic [OF raw(2)] by blast+
  have "frame_beyond pid (n + 2) (length ?ts) ?bs" using mode01_line_panic [OF raw(2)] by blast
  then obtain k where k: "length ?ts < k" "Suc (k + (n + 2)) \<le> length ?bs"
      "?bs ! k = word_of_nat (n + 2)" "?bs ! Suc k = 0x41" "?bs ! Suc (Suc k) = pid"
    unfolding frame_beyond_def by blast
  have "k + n + 3 \<le> length ?bs" using k(2) by linarith
  then show ?thesis using raw(1) ts k by blast
qed

theorem mode01_panics_only_on_packed_tokens_witness:
  "mode01_responses ''AABBCC 04410C1AF8'' 0x0C 2 = Inl Panicked \<and>
   (\<exists>k. 2 < k \<and> concat (map hex_pairs [''AABBCC'', ''04410C1AF8'']) ! k = 0x04)"
proof -
  have p: "mode01_responses ''AABBCC 04410C1AF8'' 0x0C 2 = Inl Panicked"
    and l: "split_lines ''AABBCC 04410C1AF8'' = [''AABBCC 04410C1AF8'']"
    and t: "split_ascii_whitespace (clean_line ''AABBCC 04410C1AF8'') = [''AABBCC'', ''04410C1AF8'']"
    by code_simp+
  have "\<exists>k. 2 < k \<and> concat (map hex_pairs [''AABBCC'', ''04410C1AF8'']) ! k = 0x04"
    using mode01_panics_only_on_packed_tokens [OF p] unfolding l
    by (auto simp only: t set_simps list.map) (auto simp: numeral_2_eq_2)
  then show ?thesis using p by simp
qed

end
