(* ===== verification/Identity.thy ===== *)
theory Identity
  imports Text
begin

text \<open>
  The vehicle identification number, \<open>src/identity.rs\<close>: the validated VIN and its decoding from
  the segments of a Mode 09 PID 02 answer.  The lemmas give the round trip from the wire form.
\<close>

definition VIN_LENGTH :: nat where
  "VIN_LENGTH = 17"

definition is_vin_character :: "u8 \<Rightarrow> bool" where
  "is_vin_character b \<longleftrightarrow>
     (0x30 \<le> b \<and> b \<le> 0x39) \<or> (0x41 \<le> b \<and> b \<le> 0x48) \<or> (0x4A \<le> b \<and> b \<le> 0x4E) \<or>
     (0x50 \<le> b \<and> b \<le> 0x52) \<or> (0x53 \<le> b \<and> b \<le> 0x5A)"

datatype vin_error = InvalidLength | InvalidCharacter

datatype vin = Vin bytes

definition vin_from_bytes :: "bytes \<Rightarrow> vin_error + vin" where
  "vin_from_bytes value =
     (if length value \<noteq> VIN_LENGTH then Inl InvalidLength
      else if \<exists>b \<in> set value. \<not> is_vin_character b then Inl InvalidCharacter
      else Inr (Vin value))"

datatype identity_source = ObdMode09Pid02

datatype identity_provenance = SaeJ1979Mode09Pid02

record vehicle_identity =
  vi_vin :: vin
  vi_source :: identity_source
  vi_provenance :: identity_provenance

datatype identity_decode_error =
  EmptyResponse | Identity_Malformed | InvalidVinLength | InvalidVinCharacter

text \<open>The loop over the segments after the first; the header may be repeated.\<close>

fun append_segments :: "bytes \<Rightarrow> bytes list \<Rightarrow> identity_decode_error + bytes" where
  "append_segments bs [] = Inr bs"
| "append_segments bs (segment # rest) =
     (if segment = [] then Inl Identity_Malformed
      else if starts_with segment [0x49, 0x02, 0x01] then append_segments (bs @ drop 3 segment) rest
      else if starts_with segment [0x49, 0x02] then Inl Identity_Malformed
      else append_segments (bs @ segment) rest)"

definition decode_mode09_pid02 :: "bytes list \<Rightarrow> identity_decode_error + vehicle_identity" where
  "decode_mode09_pid02 segments =
     (case segments of
        [] \<Rightarrow> Inl EmptyResponse
      | first # rest \<Rightarrow>
          if length first < 3 \<or> take 2 first \<noteq> [0x49, 0x02] \<or> first ! 2 \<noteq> 0x01
          then Inl Identity_Malformed
          else and_then (append_segments (drop 3 first) rest) (\<lambda>bs.
            if length bs < VIN_LENGTH then Inl InvalidVinLength
            else if \<exists>b \<in> set (drop VIN_LENGTH bs). b \<noteq> 0 then Inl InvalidVinLength
            else (case vin_from_bytes (take VIN_LENGTH bs) of
                    Inr v \<Rightarrow> Inr \<lparr>vi_vin = v, vi_source = ObdMode09Pid02,
                                  vi_provenance = SaeJ1979Mode09Pid02\<rparr>
                  | Inl InvalidLength \<Rightarrow> Inl InvalidVinLength
                  | Inl InvalidCharacter \<Rightarrow> Inl InvalidVinCharacter)))"

definition identity_decode_error_text :: "identity_decode_error \<Rightarrow> string" where
  "identity_decode_error_text e = (case e of
      EmptyResponse \<Rightarrow> ''Mode 09 PID 02 response is empty''
    | Identity_Malformed \<Rightarrow> ''malformed Mode 09 PID 02 response''
    | InvalidVinLength \<Rightarrow> ''Mode 09 PID 02 response contains an invalid VIN length''
    | InvalidVinCharacter \<Rightarrow> ''Mode 09 PID 02 response contains an invalid VIN character'')"

text \<open>A VIN is seventeen VIN characters.\<close>

definition vin_bytes_ok :: "bytes \<Rightarrow> bool" where
  "vin_bytes_ok v \<longleftrightarrow> length v = 17 \<and> (\<forall>b \<in> set v. is_vin_character b)"

lemma vin_from_bytes_iff: "vin_from_bytes bs = Inr (Vin v) \<longleftrightarrow> bs = v \<and> vin_bytes_ok v"
  by (auto simp: vin_from_bytes_def vin_bytes_ok_def VIN_LENGTH_def)

lemma decode_mode09_vin_ok:
  assumes "decode_mode09_pid02 segments = Inr i"
  shows "\<exists>v. vi_vin i = Vin v \<and> vin_bytes_ok v"
proof -
  from assms obtain bs v where "vin_from_bytes (take VIN_LENGTH bs) = Inr v" "vi_vin i = v"
    by (auto simp: decode_mode09_pid02_def split: list.splits if_splits sum.splits vin_error.splits)
  then show ?thesis by (cases v) (auto simp: vin_from_bytes_iff)
qed

lemma decode_mode09_one_segment:
  assumes "vin_bytes_ok v"
  shows "decode_mode09_pid02 [[0x49, 0x02, 0x01] @ v] =
    Inr \<lparr>vi_vin = Vin v, vi_source = ObdMode09Pid02, vi_provenance = SaeJ1979Mode09Pid02\<rparr>"
proof -
  have len: "length v = 17" using assms by (simp add: vin_bytes_ok_def)
  have "vin_from_bytes v = Inr (Vin v)" using assms by (simp add: vin_from_bytes_iff)
  then show ?thesis using len by (simp add: decode_mode09_pid02_def VIN_LENGTH_def numeral_2_eq_2)
qed

end
