(* ===== verification/Mode09_Text.thy ===== *)
theory Mode09_Text
  imports Isotp_Reassembly Identity
begin

text \<open>
  Mode 09 answers as adapter text, \<open>normalize_mode09_responses\<close> and
  \<open>normalize_mode09_segments\<close> of \<open>src/elm.rs\<close>: the targeted calibration reads and the VIN read.
  The properties: only positive responses to the requested PID are reported, and the text of
  the three frames of a VIN decodes to that VIN.
\<close>

section \<open>Targeted Mode 09 reads\<close>

text \<open>The reassembly state is the one of the UDS reads (the code reuses the assembly type).\<close>

definition push_mode09_payload ::
  "responder_identity option \<Rightarrow> bytes \<Rightarrow> u8 \<Rightarrow> string \<Rightarrow> isotp_state \<Rightarrow> isotp_state" where
  "push_mode09_payload responder payload pid line st =
     (if starts_with payload [0x49, pid]
      then st\<lparr>it_matches := it_matches st @ [\<lparr>dr_responder = responder, dr_payload = payload\<rparr>]\<rparr>
      else report responder
             (''unexpected Mode 09 PID '' @ fmt_02X pid @ '' response: '' @ debug_str line) st)"

definition mode09_single ::
  "u8 \<Rightarrow> string \<Rightarrow> responder_identity option \<Rightarrow> bytes \<Rightarrow> isotp_state \<Rightarrow> isotp_state" where
  "mode09_single pid line responder bs st =
     (let declared_len = low_nibble (hd bs); payload = tl bs
      in if declared_len = 0 \<or> length payload < declared_len
         then report responder (''malformed Mode 09 single frame: '' @ debug_str line) st
         else if list_ex (\<lambda>b. \<not> is_padding b) (drop declared_len payload)
         then report responder (''unexpected bytes after Mode 09 response: '' @ debug_str line) st
         else push_mode09_payload responder (take declared_len payload) pid line st)"

definition mode09_first ::
  "string \<Rightarrow> responder_identity option \<Rightarrow> bytes \<Rightarrow> isotp_state \<Rightarrow> isotp_state" where
  "mode09_first line responder bs st =
     (if length bs < 3
      then report responder (''malformed Mode 09 first frame: '' @ debug_str line) st
      else
        (let declared_len = first_frame_len bs; payload = drop 2 bs
         in if declared_len < 3 \<or> declared_len \<le> length payload
            then report responder (''malformed Mode 09 first frame: '' @ debug_str line) st
            else st\<lparr>it_assemblies := it_assemblies st @
                   [(responder, \<lparr>as_declared_len = declared_len, as_payload = payload,
                                 as_next_sequence = 1\<rparr>)]\<rparr>))"

definition mode09_consecutive ::
  "u8 \<Rightarrow> string \<Rightarrow> responder_identity option \<Rightarrow> bytes \<Rightarrow> isotp_state \<Rightarrow> isotp_state" where
  "mode09_consecutive pid line responder bs st =
     (case position (\<lambda>a. fst a = responder) (it_assemblies st) of
        None \<Rightarrow> report responder
          (''Mode 09 consecutive frame without first frame: '' @ debug_str line) st
      | Some index \<Rightarrow>
          if length bs < 2
          then report responder (''malformed Mode 09 consecutive frame: '' @ debug_str line) st
          else
            (let sequence = hd bs AND 0x0f;
                 assembly = snd (it_assemblies st ! index);
                 declared_len = as_declared_len assembly;
                 received_len = length (as_payload assembly);
                 remaining = declared_len - received_len;
                 data = tl bs
             in if sequence \<noteq> as_next_sequence assembly \<or> declared_len \<le> received_len
                then report responder (''malformed Mode 09 consecutive frame: '' @ debug_str line)
                       (drop_assembly index st)
                else if remaining < length data \<and> list_ex (\<lambda>b. \<not> is_padding b) (drop remaining data)
                then report responder (''unexpected bytes after Mode 09 response: '' @ debug_str line)
                       (drop_assembly index st)
                else
                  (let payload = as_payload assembly @ take (min (length data) remaining) data
                   in if length payload = declared_len
                      then push_mode09_payload responder payload pid line (drop_assembly index st)
                      else st\<lparr>it_assemblies := (it_assemblies st)[index :=
                             (responder, assembly\<lparr>as_payload := payload,
                                as_next_sequence := (sequence + 1) AND 0x0f\<rparr>)]\<rparr>)))"

definition mode09_frame ::
  "u8 \<Rightarrow> string \<Rightarrow> responder_identity option \<Rightarrow> bytes \<Rightarrow> isotp_state \<Rightarrow> isotp_state" where
  "mode09_frame pid line responder bs st =
     (case bs of
        [] \<Rightarrow> push_mode09_payload responder bs pid line st
      | b # _ \<Rightarrow>
          if high_nibble b = 0 then mode09_single pid line responder bs st
          else if high_nibble b = 1 then mode09_first line responder bs st
          else if high_nibble b = 2 then mode09_consecutive pid line responder bs st
          else if high_nibble b = 3
          then report responder (''unexpected Mode 09 flow-control frame: '' @ debug_str line) st
          else push_mode09_payload responder bs pid line st)"

definition mode09_line :: "u8 \<Rightarrow> isotp_state \<Rightarrow> string \<Rightarrow> isotp_state" where
  "mode09_line pid st raw_line =
     (let line = clean_line raw_line;
          upper = to_ascii_uppercase line;
          tokens = split_ascii_whitespace line;
          header = first_token_header tokens;
          responder = map_option (\<lambda>h. ElmHeader (to_ascii_uppercase h)) header;
          data = (if header = None then tokens else tl tokens)
      in if line = [] \<or> eq_ignore_ascii_case line (''09'' @ fmt_02X pid) \<or> progress_line upper then st
         else if adapter_status upper
         then report responder (''ELM327 rejected Mode 09 PID '' @ fmt_02X pid @ '' response: '' @ line) st
         else if (case header of None \<Rightarrow> False | Some h \<Rightarrow> \<not> all_hex h)
         then report None (''malformed ELM327 Mode 09 responder header: '' @ debug_str line) st
         else (case token_bytes data of
             None \<Rightarrow> report responder (''malformed ELM327 Mode 09 response line: '' @ debug_str line) st
           | Some bs \<Rightarrow>
               if mode01_frame bs
               then report None (''ignored unrelated OBD-II Mode 01 response while awaiting 090''
                      @ fmt_X pid @ '': '' @ debug_str line) st
               else mode09_frame pid line responder bs st))"

definition mode09_flush ::
  "isotp_state \<Rightarrow> responder_identity option \<times> isotp_assembly \<Rightarrow> isotp_state" where
  "mode09_flush st ra =
     report (fst ra) (''truncated Mode 09 response: declared '' @ show_nat (as_declared_len (snd ra))
       @ '' bytes, received '' @ show_nat (length (as_payload (snd ra)))) st"

definition normalize_mode09_responses :: "string \<Rightarrow> u8 \<Rightarrow> diagnostic_responses" where
  "normalize_mode09_responses response pid =
     (let st = foldl (mode09_line pid) isotp_init (split_lines response);
          st' = foldl mode09_flush st (it_assemblies st);
          st'' = (if it_matches st' = [] \<and> it_errors st' = []
                  then report None (''Mode 09 PID '' @ fmt_02X pid @ '' response not found'') st'
                  else st')
      in drs_with_errors (it_matches st'') response (it_errors st''))"

section \<open>The VIN segments\<close>

text \<open>At most one multi-frame message at a time: its header, length, payload and next sequence.\<close>

record vin_assembly =
  va_header :: "string option"
  va_declared_len :: nat
  va_payload :: bytes
  va_sequence :: u8

record vin_state =
  vs_segments :: "bytes list"
  vs_isotp :: "vin_assembly option"

definition vin_first :: "string option \<Rightarrow> bytes \<Rightarrow> vin_state \<Rightarrow> string + vin_state" where
  "vin_first header bs st =
     (if length bs < 3 \<or> vs_isotp st \<noteq> None then Inl ''malformed ISO-TP Mode 09 first frame''
      else let declared_len = first_frame_len bs; payload = drop 2 bs
           in if declared_len < 3 \<or> declared_len \<le> length payload
              then Inl ''malformed ISO-TP Mode 09 first frame''
              else Inr (st\<lparr>vs_isotp := Some \<lparr>va_header = header, va_declared_len = declared_len,
                                             va_payload = payload, va_sequence = 1\<rparr>\<rparr>))"

definition vin_consecutive :: "string option \<Rightarrow> bytes \<Rightarrow> vin_state \<Rightarrow> string + vin_state" where
  "vin_consecutive header bs st =
     (case vs_isotp st of
        None \<Rightarrow> Inl ''Mode 09 consecutive frame without first frame''
      | Some a \<Rightarrow>
          if va_header a \<noteq> header \<or> hd bs AND 0x0f \<noteq> va_sequence a
          then Inl ''malformed ISO-TP Mode 09 consecutive frame''
          else
            (let remaining = va_declared_len a - length (va_payload a);
                 frame_payload = tl bs
             in if remaining < length frame_payload \<and>
                   list_ex (\<lambda>b. \<not> (b = 0x00 \<or> b = 0xaa)) (drop remaining frame_payload)
                then Inl ''unexpected bytes after ISO-TP Mode 09 response''
                else
                  (let payload = va_payload a @
                         take (min (length frame_payload) remaining) frame_payload
                   in if length payload = va_declared_len a
                      then Inr (st\<lparr>vs_segments := vs_segments st @ [payload], vs_isotp := None\<rparr>)
                      else Inr (st\<lparr>vs_isotp := Some (a\<lparr>va_payload := payload,
                                    va_sequence := (va_sequence a + 1) AND 0x0f\<rparr>)\<rparr>))))"

definition vin_line :: "vin_state \<Rightarrow> string \<Rightarrow> string + vin_state" where
  "vin_line st raw_line =
     (let line = clean_line raw_line;
          upper = to_ascii_uppercase line
      in if line = [] \<or> eq_ignore_ascii_case line ''0902'' \<or> starts_with upper ''SEARCHING''
            \<or> starts_with upper ''BUS INIT'' then Inr st
         else if status_line upper then Inl (''ELM327 rejected 0902: '' @ line)
         else
           (let words = split_ascii_whitespace line;
                header = (case words of
                            [] \<Rightarrow> None
                          | t # _ \<Rightarrow> if length t = 3 \<and> all_hex t then Some (to_ascii_uppercase t)
                                     else None);
                tokens = (if header = None then words else tl words)
            in case token_bytes tokens of
                 None \<Rightarrow> Inl (''malformed ELM327 Mode 09 response line: '' @ debug_str line)
               | Some [] \<Rightarrow> Inr st
               | Some (b # bs) \<Rightarrow>
                   if high_nibble b = 1 then vin_first header (b # bs) st
                   else if high_nibble b = 2 then vin_consecutive header (b # bs) st
                   else Inr (st\<lparr>vs_segments := vs_segments st @ [b # bs]\<rparr>)))"

fun fold_result :: "('s \<Rightarrow> 'a \<Rightarrow> 'e + 's) \<Rightarrow> 's \<Rightarrow> 'a list \<Rightarrow> 'e + 's" where
  "fold_result f s [] = Inr s"
| "fold_result f s (x # xs) = and_then (f s x) (\<lambda>s'. fold_result f s' xs)"

definition normalize_mode09_segments :: "string \<Rightarrow> string + bytes list" where
  "normalize_mode09_segments response =
     and_then (fold_result vin_line \<lparr>vs_segments = [], vs_isotp = None\<rparr> (split_lines response))
       (\<lambda>st. if vs_isotp st \<noteq> None then Inl ''truncated ISO-TP Mode 09 response''
             else if vs_segments st = [] then Inl ''0902 response not found''
             else Inr (vs_segments st))"

section \<open>Only the requested payloads\<close>

definition mode09_only :: "u8 \<Rightarrow> isotp_state \<Rightarrow> bool" where
  "mode09_only pid st \<longleftrightarrow> (\<forall>m \<in> set (it_matches st). starts_with (dr_payload m) [0x49, pid])"

lemma mode09_only_push: "mode09_only pid st \<Longrightarrow> mode09_only pid (push_mode09_payload r p pid line st)"
  by (auto simp: mode09_only_def push_mode09_payload_def report_def)

lemma mode09_only_report [simp]: "mode09_only pid (report r e st) = mode09_only pid st"
  by (simp add: mode09_only_def report_def)

lemma mode09_only_drop [simp]: "mode09_only pid (drop_assembly i st) = mode09_only pid st"
  by (simp add: mode09_only_def drop_assembly_def)

lemma mode09_only_assemblies [simp]:
  "mode09_only pid (st\<lparr>it_assemblies := xs\<rparr>) = mode09_only pid st"
  by (simp add: mode09_only_def)

lemma mode09_only_frame: "mode09_only pid st \<Longrightarrow> mode09_only pid (mode09_frame pid line r bs st)"
  by (simp add: mode09_frame_def mode09_single_def mode09_first_def mode09_consecutive_def Let_def
      mode09_only_push split: list.split option.split)

lemma mode09_only_line: "mode09_only pid st \<Longrightarrow> mode09_only pid (mode09_line pid st raw)"
  by (simp add: mode09_line_def Let_def mode09_only_frame split: option.split)

lemma normalize_mode09_only:
  assumes "m \<in> set (drs_responses (normalize_mode09_responses response pid))"
  shows "starts_with (dr_payload m) [0x49, pid]"
proof -
  let ?st = "foldl (mode09_line pid) isotp_init (split_lines response)"
  have "mode09_only pid ?st"
    by (rule foldl_invariant) (simp_all add: mode09_only_line, simp add: mode09_only_def isotp_init_def)
  then have "mode09_only pid (foldl mode09_flush ?st (it_assemblies ?st))"
    by (rule foldl_invariant) (simp add: mode09_flush_def)
  then show ?thesis
    using assms by (auto simp: normalize_mode09_responses_def Let_def mode09_only_def report_def split: if_splits)
qed

section \<open>The VIN round trip\<close>

text \<open>A VIN answer has three frames: twenty bytes, six of them in the first.\<close>

lemma vin_line_frame:
  assumes h: "valid_header h"
  shows "vin_line st (frame_text h (b # bs)) =
    (if high_nibble b = 1 then vin_first (Some h) (b # bs) st
     else if high_nibble b = 2 then vin_consecutive (Some h) (b # bs) st
     else Inr (st\<lparr>vs_segments := vs_segments st @ [b # bs]\<rparr>))"
proof -
  let ?t = "frame_text h (b # bs)"
  have len: "length h = 3" and hex: "set h \<subseteq> hex_chars" using h by (auto simp: valid_header_def)
  have "all_hex h" unfolding all_hex_def list_all_iff using hex hex_char_plain(5) by blast
  moreover have upper: "to_ascii_uppercase h = h"
    unfolding to_ascii_uppercase_def using hex hex_char_plain(4) by (intro map_idI) blast
  moreover have ne: "?t \<noteq> []" using len by (simp add: frame_text_def)
  moreover have "\<not> eq_ignore_ascii_case ?t ''0902''"
  proof
    assume "eq_ignore_ascii_case ?t ''0902''"
    then have "?t = ''0902''"
      unfolding eq_ignore_ascii_case_def frame_text_upper [OF h]
      by (simp add: to_ascii_uppercase_def ascii_upper_def code_point_def)
    moreover have "CHR '' '' \<in> set ?t" by (simp add: frame_text_def)
    ultimately show False by simp
  qed
  moreover have "\<not> starts_with ?t ''SEARCHING''" "\<not> starts_with ?t ''BUS INIT''"
    using frame_text_without [OF h, of "CHR ''S''" "''SEARCHING''" "b # bs"]
      frame_text_without [OF h, of "CHR ''U''" "''BUS INIT''" "b # bs"]
    by (simp_all add: hex_chars_def)
  moreover have "\<not> status_line ?t"
    using frame_text_plain(2) [OF h, of "b # bs"]
    by (auto simp: adapter_status_def status_line_def list_ex_iff)
  ultimately show ?thesis
    using len
    by (simp add: vin_line_def frame_text_clean [OF h] frame_text_upper [OF h]
        frame_text_tokens [OF h] token_bytes_fmt Let_def del: list.map token_bytes.simps)
qed

lemma vin_line_end: "vin_line st [] = Inr st" "vin_line st ''>'' = Inr st"
  by (simp_all add: vin_line_def clean_line_def trim_def trim_end_def is_whitespace_def
      is_ascii_whitespace_def Let_def)

lemma fold_result_append:
  "fold_result f s (xs @ ys) = and_then (fold_result f s xs) (\<lambda>s'. fold_result f s' ys)"
proof (induction xs arbitrary: s)
  case (Cons x xs)
  then show ?case by (cases "f s x") simp_all
qed simp

lemma consecutive_frames_ne:
  "rest \<noteq> [] \<Longrightarrow> consecutive_frames n pad rest =
     (if length rest \<le> 7 then [word_of_nat (32 + n mod 16) # rest @ pad]
      else (word_of_nat (32 + n mod 16) # take 7 rest)
             # consecutive_frames (Suc n) pad (drop 7 rest))"
  by (cases rest) simp_all

lemma vin_segments:
  assumes "length a = 3" and "length b = 7" and "length c = 7"
  shows "isotp_segments pad ([0x49, 0x02, 0x01] @ a @ b @ c) =
    [0x10 # 0x14 # [0x49, 0x02, 0x01] @ a, 0x21 # b, 0x22 # c @ pad]"
proof -
  have "b \<noteq> []" "c \<noteq> []" using assms by auto
  then have "consecutive_frames 1 pad (b @ c) = [0x21 # b, 0x22 # c @ pad]"
    using assms by (simp add: consecutive_frames_ne)
  moreover have "take 6 ([0x49, 0x02, 0x01] @ a @ b @ c) = [0x49, 0x02, 0x01] @ a"
    "drop 6 ([0x49, 0x02, 0x01] @ a @ b @ c) = b @ c"
    using assms by (simp_all add: eval_nat_numeral)
  ultimately show ?thesis using assms by (simp add: isotp_segments_def)
qed

lemma vin_segments_answer:
  assumes "valid_header h" and "length v = 17" and "\<forall>b \<in> set pad. b = 0x00 \<or> b = 0xaa"
  shows "normalize_mode09_segments
      (answer_text (map (frame_text h) (isotp_segments pad ([0x49, 0x02, 0x01] @ v)))) =
    Inr [[0x49, 0x02, 0x01] @ v]"
proof -
  define a b c where "a = take 3 v" and "b = take 7 (drop 3 v)" and "c = drop 7 (drop 3 v)"
  have v: "v = a @ b @ c" "length a = 3" "length b = 7" "length c = 7"
    using assms(2) by (simp_all only: a_def b_def c_def append_take_drop_id) simp_all
  let ?p = "[0x49, 0x02, 0x01] @ a"
  let ?a1 = "\<lparr>va_header = Some h, va_declared_len = 20, va_payload = ?p, va_sequence = 1\<rparr>"
  let ?a2 = "\<lparr>va_header = Some h, va_declared_len = 20, va_payload = ?p @ b, va_sequence = 2\<rparr>"
  have "first_frame_len (0x10 # 0x14 # ?p) = 20" by (simp add: first_frame_len_eq low_nibble_def)
  then have f1: "vin_line \<lparr>vs_segments = [], vs_isotp = None\<rparr> (frame_text h (0x10 # 0x14 # ?p)) =
      Inr \<lparr>vs_segments = [], vs_isotp = Some ?a1\<rparr>"
    using v by (simp add: vin_line_frame [OF assms(1)] vin_first_def high_nibble_def)
  have f2: "vin_line \<lparr>vs_segments = [], vs_isotp = Some ?a1\<rparr> (frame_text h (0x21 # b)) =
      Inr \<lparr>vs_segments = [], vs_isotp = Some ?a2\<rparr>"
    using v by (simp add: vin_line_frame [OF assms(1)] vin_consecutive_def high_nibble_def)
  have "\<not> list_ex (\<lambda>b. \<not> (b = 0x00 \<or> b = 0xaa)) pad" using assms(3) by (auto simp: list_ex_iff)
  then have f3: "vin_line \<lparr>vs_segments = [], vs_isotp = Some ?a2\<rparr> (frame_text h (0x22 # c @ pad)) =
      Inr \<lparr>vs_segments = [?p @ b @ c], vs_isotp = None\<rparr>"
    using v by (simp add: vin_line_frame [OF assms(1)] vin_consecutive_def high_nibble_def)
  let ?lines = "map (frame_text h) [0x10 # 0x14 # ?p, 0x21 # b, 0x22 # c @ pad]"
  have "split_lines (answer_text ?lines) = ?lines @ [[], ''>'']"
    by (rule split_lines_answer) (use frame_text_no_line_end [OF assms(1)] in fastforce)
  then have "normalize_mode09_segments (answer_text ?lines) = Inr [?p @ b @ c]"
    using f1 f2 f3 by (simp add: normalize_mode09_segments_def vin_line_end)
  then show ?thesis using vin_segments [OF v(2-4), of pad] v(1) by simp
qed

section \<open>Properties\<close>

text \<open>C15: the VIN round trip over the adapter text: for every three-character hexadecimal header and
  every VIN of the code's alphabet (seventeen digits and capitals without I and O; Q is admitted),
  the three-frame answer with that VIN, padded with bytes 00 and AA only, normalises and decodes to
  that VIN; and conversely whatever an answer decodes to is a VIN of that alphabet.\<close>

theorem vin_roundtrip:
  "(valid_header h \<longrightarrow> vin_bytes_ok v \<longrightarrow> (\<forall>b \<in> set pad. b = 0x00 \<or> b = 0xaa) \<longrightarrow>
      and_then (map_err (\<lambda>e. EmptyResponse) (normalize_mode09_segments
        (answer_text (map (frame_text h) (isotp_segments pad ([0x49, 0x02, 0x01] @ v))))))
        decode_mode09_pid02
      = Inr \<lparr>vi_vin = Vin v, vi_source = ObdMode09Pid02, vi_provenance = SaeJ1979Mode09Pid02\<rparr>) \<and>
   (decode_mode09_pid02 segments = Inr i \<longrightarrow> (\<exists>w. vi_vin i = Vin w \<and> vin_bytes_ok w))"
  using vin_segments_answer [of h v pad] decode_mode09_one_segment [of v] decode_mode09_vin_ok
  by (auto simp: vin_bytes_ok_def)

definition example_vin :: bytes where
  "example_vin = [0x57, 0x56, 0x57, 0x5A, 0x5A, 0x5A, 0x31, 0x4B, 0x5A, 0x41, 0x57, 0x30,
                  0x30, 0x30, 0x30, 0x30, 0x31]"

theorem vin_roundtrip_witness:
  "and_then (map_err (\<lambda>e. EmptyResponse) (normalize_mode09_segments
     (answer_text [''7E8 10 14 49 02 01 57 56 57'', ''7E8 21 5A 5A 5A 31 4B 5A 41'',
       ''7E8 22 57 30 30 30 30 30 31'']))) decode_mode09_pid02
   = Inr \<lparr>vi_vin = Vin example_vin, vi_source = ObdMode09Pid02,
          vi_provenance = SaeJ1979Mode09Pid02\<rparr>"
proof -
  have "map (frame_text ''7E8'') (isotp_segments [] ([0x49, 0x02, 0x01] @ example_vin)) =
      [''7E8 10 14 49 02 01 57 56 57'', ''7E8 21 5A 5A 5A 31 4B 5A 41'',
       ''7E8 22 57 30 30 30 30 30 31'']"
    by code_simp
  moreover have "vin_bytes_ok example_vin" by code_simp
  moreover have "valid_header ''7E8''" by (simp add: valid_header_def hex_chars_def)
  ultimately show ?thesis using vin_roundtrip [of "''7E8''" example_vin "[]"] by simp
qed

text \<open>A targeted Mode 09 read reports nothing but positive responses to the requested PID,
  whatever the adapter sent, and never an empty result without an error.\<close>

lemma mode09_only_requested:
  "(\<forall>m \<in> set (drs_responses (normalize_mode09_responses response pid)).
      starts_with (dr_payload m) [0x49, pid]) \<and>
   (drs_responses (normalize_mode09_responses response pid) \<noteq> [] \<or>
    drs_errors (normalize_mode09_responses response pid) \<noteq> [])"
  using normalize_mode09_only [of _ response pid]
  by (auto simp: normalize_mode09_responses_def Let_def report_def)

lemma mode09_only_requested_witness:
  "starts_with (dr_payload \<lparr>dr_responder = Some (ElmHeader ''7E8''),
     dr_payload = [0x49, 0x00, 0x55, 0x40, 0x00, 0x00]\<rparr>) [0x49, 0x00]"
proof -
  have "drs_responses (normalize_mode09_responses ''7E8 06 49 00 55 40 00 00'' 0x00) =
      [\<lparr>dr_responder = Some (ElmHeader ''7E8''), dr_payload = [0x49, 0x00, 0x55, 0x40, 0x00, 0x00]\<rparr>]"
    by code_simp
  then show ?thesis
    using mode09_only_requested [of "''7E8 06 49 00 55 40 00 00''" "0x00"] by simp
qed

end
