(* ===== verification/Mode03_Text.thy ===== *)
theory Mode03_Text
  imports Isotp_Reassembly Dtc
begin

text \<open>
  Mode 03 answers as adapter text, \<open>normalize_mode03_responses\<close> of \<open>src/elm.rs\<close>.  Partial
  payloads of malformed lines are kept as evidence beside an error of their responder; the
  property says that this is the only way a payload that is not a positive response can appear.
\<close>

section \<open>Frames\<close>

definition push_mode03_payload ::
  "responder_identity option \<Rightarrow> bytes \<Rightarrow> string \<Rightarrow> bool \<Rightarrow> isotp_state \<Rightarrow> isotp_state" where
  "push_mode03_payload responder bs line strict st =
     (let start = (if strict then (case bs of b # _ \<Rightarrow> if b = 0x43 then Some 0 else None | [] \<Rightarrow> None)
                   else position (\<lambda>b. b = 0x43) bs)
      in case start of
           None \<Rightarrow> report responder (''Mode 03 positive response not found: '' @ debug_str line)
                     (if strict then st else push_payload responder bs st)
         | Some i \<Rightarrow>
             let payload = drop i bs;
                 malformed = (payload \<noteq> [0x43, 0x00] \<and>
                              (length payload < 3 \<or> odd (length payload - 1)));
                 st' = (if malformed
                        then report responder
                               (''malformed normalized Mode 03 payload: '' @ debug_str line) st
                        else st)
             in if malformed \<and> strict then st'
                else st'\<lparr>it_matches := it_matches st' @
                       [\<lparr>dr_responder = responder, dr_payload = payload\<rparr>]\<rparr>)"

definition mode03_padding :: "u8 \<Rightarrow> bool" where
  "mode03_padding b \<longleftrightarrow> b = 0x00 \<or> b = 0xaa"

text \<open>The part of a partial payload from the first \<open>43\<close> on, kept as evidence.\<close>

definition push_evidence ::
  "responder_identity option \<Rightarrow> bytes \<Rightarrow> (nat \<Rightarrow> nat) \<Rightarrow> isotp_state \<Rightarrow> isotp_state" where
  "push_evidence responder bs limit st =
     (case position (\<lambda>b. b = 0x43) bs of
        None \<Rightarrow> st
      | Some start \<Rightarrow> st\<lparr>it_matches := it_matches st @
          [\<lparr>dr_responder = responder,
            dr_payload = take (min (length bs) (limit start) - start) (drop start bs)\<rparr>]\<rparr>)"

definition mode03_single ::
  "string \<Rightarrow> responder_identity option \<Rightarrow> bytes \<Rightarrow> isotp_state \<Rightarrow> isotp_state" where
  "mode03_single line responder bs st =
     (let declared_len = low_nibble (hd bs); payload = tl bs
      in if declared_len = 0
         then report responder (''malformed Mode 03 single frame: '' @ debug_str line) st
         else if length payload < declared_len
         then report responder
                (''truncated Mode 03 single frame: declared '' @ show_nat declared_len
                  @ '' bytes, received '' @ show_nat (length payload))
                (push_evidence responder payload (\<lambda>start. length payload) st)
         else if list_ex (\<lambda>b. \<not> mode03_padding b) (drop declared_len payload)
         then report responder (''unexpected bytes after Mode 03 single frame: '' @ debug_str line) st
         else push_mode03_payload responder (take declared_len payload) line False st)"

definition mode03_first ::
  "string \<Rightarrow> responder_identity option \<Rightarrow> bytes \<Rightarrow> isotp_state \<Rightarrow> isotp_state" where
  "mode03_first line responder bs st =
     (if length bs < 3
      then report responder (''malformed Mode 03 first frame: '' @ debug_str line) st
      else
        (let declared_len = first_frame_len bs; payload = drop 2 bs
         in if declared_len < 3 \<or> declared_len \<le> length payload
            then report responder
                   (''malformed Mode 03 first frame: declared '' @ show_nat declared_len
                     @ '' bytes, received '' @ show_nat (length payload)) st
            else if list_ex (\<lambda>a. fst a = responder) (it_assemblies st)
            then report responder (''duplicate Mode 03 first frame: '' @ debug_str line)
                   (st\<lparr>it_assemblies := filter (\<lambda>a. fst a \<noteq> responder) (it_assemblies st)\<rparr>)
            else st\<lparr>it_assemblies := it_assemblies st @
                   [(responder, \<lparr>as_declared_len = declared_len, as_payload = payload,
                                 as_next_sequence = 1\<rparr>)]\<rparr>))"

definition mode03_consecutive ::
  "string \<Rightarrow> responder_identity option \<Rightarrow> bytes \<Rightarrow> isotp_state \<Rightarrow> isotp_state" where
  "mode03_consecutive line responder bs st =
     (case position (\<lambda>a. fst a = responder) (it_assemblies st) of
        None \<Rightarrow> report responder
          (''Mode 03 consecutive frame without first frame: '' @ debug_str line) st
      | Some index \<Rightarrow>
          if length bs < 2
          then report responder (''malformed Mode 03 consecutive frame: '' @ debug_str line)
                 (drop_assembly index st)
          else
            (let sequence = hd bs AND 0x0f;
                 assembly = snd (it_assemblies st ! index);
                 expected = as_next_sequence assembly;
                 declared_len = as_declared_len assembly;
                 received_len = length (as_payload assembly);
                 remaining = declared_len - received_len;
                 data = tl bs
             in if sequence \<noteq> expected
                then report responder
                       (''Mode 03 sequence mismatch: expected '' @ show_nat (unat expected)
                         @ '', got '' @ show_nat (unat sequence)) (drop_assembly index st)
                else if declared_len \<le> received_len
                then report responder
                       (''Mode 03 ISO-TP payload exceeded declared length: '' @ debug_str line)
                       (drop_assembly index st)
                else if remaining < length data \<and>
                        list_ex (\<lambda>b. \<not> mode03_padding b) (drop remaining data)
                then report responder
                       (''Mode 03 ISO-TP payload exceeded declared length: '' @ debug_str line)
                       (drop_assembly index st)
                else
                  (let payload = as_payload assembly @ take (min (length data) remaining) data
                   in if length payload = declared_len
                      then push_mode03_payload responder payload line True (drop_assembly index st)
                      else st\<lparr>it_assemblies := (it_assemblies st)[index :=
                             (responder, assembly\<lparr>as_payload := payload,
                                as_next_sequence := (sequence + 1) AND 0x0f\<rparr>)]\<rparr>)))"

definition drop_responder :: "responder_identity option \<Rightarrow> isotp_state \<Rightarrow> isotp_state" where
  "drop_responder responder st =
     (case position (\<lambda>a. fst a = responder) (it_assemblies st) of
        None \<Rightarrow> st | Some index \<Rightarrow> drop_assembly index st)"

definition mode03_other ::
  "string \<Rightarrow> responder_identity option \<Rightarrow> bytes \<Rightarrow> isotp_state \<Rightarrow> isotp_state" where
  "mode03_other line responder bs st =
     (if list_ex (\<lambda>a. fst a = responder) (it_assemblies st)
      then report responder (''interleaved Mode 03 response frame: '' @ debug_str line)
             (st\<lparr>it_assemblies := filter (\<lambda>a. fst a \<noteq> responder) (it_assemblies st)\<rparr>)
      else push_mode03_payload responder bs line False st)"

definition mode03_frame ::
  "string \<Rightarrow> responder_identity option \<Rightarrow> bytes \<Rightarrow> isotp_state \<Rightarrow> isotp_state" where
  "mode03_frame line responder bs st =
     (case bs of
        [] \<Rightarrow> mode03_other line responder bs st
      | b # _ \<Rightarrow>
          if high_nibble b = 0 then mode03_single line responder bs st
          else if high_nibble b = 1 then mode03_first line responder bs st
          else if high_nibble b = 2 then mode03_consecutive line responder bs st
          else if high_nibble b = 3
          then report responder (''unexpected Mode 03 flow-control frame: '' @ debug_str line)
                 (drop_responder responder st)
          else mode03_other line responder bs st)"

text \<open>A malformed token ends the line; the bytes before it decide what is kept.\<close>

fun mode03_token_bytes :: "string list \<Rightarrow> bytes \<times> bool" where
  "mode03_token_bytes [] = ([], False)"
| "mode03_token_bytes (token # rest) =
     (if odd (length token) \<or> \<not> all_hex token then ([], True)
      else case mode03_token_bytes rest of (bs, malformed) \<Rightarrow> (hex_pairs token @ bs, malformed))"

definition mode03_malformed ::
  "string \<Rightarrow> responder_identity option \<Rightarrow> bytes \<Rightarrow> isotp_state \<Rightarrow> isotp_state" where
  "mode03_malformed line responder bs st =
     report responder (''malformed ELM327 Mode 03 response line: '' @ debug_str line)
       (case bs of
          [] \<Rightarrow> st
        | b # payload \<Rightarrow>
            if high_nibble b = 1 \<or> high_nibble b = 2 then drop_responder responder st
            else if high_nibble b = 0
            then push_evidence responder payload (\<lambda>start. start + low_nibble b) st
            else push_evidence responder bs (\<lambda>start. length bs) st)"

definition mode03_line :: "isotp_state \<Rightarrow> string \<Rightarrow> isotp_state" where
  "mode03_line st raw_line =
     (let line = clean_line raw_line;
          upper = to_ascii_uppercase line;
          compact = concat (split_ascii_whitespace upper);
          tokens = split_ascii_whitespace line;
          header = first_token_header tokens;
          responder = map_option (\<lambda>h. ElmHeader (to_ascii_uppercase h)) header
      in if line = [] then st
         else if compact = ''03'' \<or> progress_line upper then st
         else if adapter_status upper
         then report responder (''ELM327 rejected Mode 03 response: '' @ line) st
         else if (case header of None \<Rightarrow> False | Some h \<Rightarrow> \<not> all_hex h)
         then report responder (''malformed ELM327 responder header: '' @ debug_str line) st
         else (case mode03_token_bytes (if header = None then tokens else tl tokens) of
                 (bs, malformed) \<Rightarrow>
                   if malformed then mode03_malformed line responder bs st
                   else mode03_frame line responder bs st))"

definition mode03_flush ::
  "isotp_state \<Rightarrow> responder_identity option \<times> isotp_assembly \<Rightarrow> isotp_state" where
  "mode03_flush st ra =
     report (fst ra) (''truncated Mode 03 ISO-TP response: declared ''
       @ show_nat (as_declared_len (snd ra)) @ '' bytes, received ''
       @ show_nat (length (as_payload (snd ra)))) st"

definition normalize_mode03_responses :: "string \<Rightarrow> diagnostic_responses" where
  "normalize_mode03_responses response =
     (let st = foldl mode03_line isotp_init (split_lines response);
          st' = foldl mode03_flush st (it_assemblies st);
          st'' = (if it_matches st' = [] \<and> it_errors st' = []
                  then report None ''Mode 03 response not found'' st' else st')
      in drs_with_errors (it_matches st'') response (it_errors st''))"

section \<open>Honest evidence\<close>

definition blamed :: "isotp_state \<Rightarrow> responder_identity option \<Rightarrow> bool" where
  "blamed st r \<longleftrightarrow> (\<exists>e \<in> set (it_errors st). de_responder e = r)"

text \<open>A payload the decoder accepts as a Mode 03 response, or an error of the responder.\<close>

definition mode03_honest :: "isotp_state \<Rightarrow> bool" where
  "mode03_honest st \<longleftrightarrow>
     (\<forall>m \<in> set (it_matches st). blamed st (dr_responder m) \<or>
        (\<exists>rest. dr_payload m = 0x43 # rest \<and> (rest = [0] \<or> (rest \<noteq> [] \<and> even (length rest)))))"

lemma blamed_report: "blamed (report r' e st) r \<longleftrightarrow> r' = r \<or> blamed st r"
  by (auto simp: blamed_def report_def)

lemma mode03_honest_report: "mode03_honest st \<Longrightarrow> mode03_honest (report r e st)"
  unfolding mode03_honest_def blamed_report by (auto simp: report_def)

lemma mode03_honest_push_report:
  assumes "mode03_honest st"
  shows "mode03_honest (report r e (st\<lparr>it_matches := it_matches st @ [\<lparr>dr_responder = r, dr_payload = p\<rparr>]\<rparr>))"
  using assms unfolding mode03_honest_def blamed_report
  by (auto simp: report_def blamed_def)

lemma mode03_honest_drop: "mode03_honest (drop_assembly i st) = mode03_honest st"
  by (simp add: mode03_honest_def drop_assembly_def blamed_def)

lemma mode03_honest_assemblies: "mode03_honest (st\<lparr>it_assemblies := xs\<rparr>) = mode03_honest st"
  by (simp add: mode03_honest_def blamed_def)

lemma position_drop: "position P xs = Some i \<Longrightarrow> \<exists>x ys. drop i xs = x # ys \<and> P x"
  using position_Some [of P xs i] by (metis Cons_nth_drop_Suc)

lemma mode03_honest_push:
  assumes "mode03_honest st"
  shows "mode03_honest (push_mode03_payload r bs line strict st)"
proof -
  let ?start = "if strict then (case bs of b # _ \<Rightarrow> if b = 0x43 then Some 0 else None | [] \<Rightarrow> None)
                else position (\<lambda>b. b = 0x43) bs"
  show ?thesis
  proof (cases ?start)
    case None
    have "mode03_honest (report r e (push_payload r bs st))" for e
      using assms mode03_honest_report mode03_honest_push_report by (simp add: push_payload_def)
    then show ?thesis
      using None mode03_honest_report [OF assms] by (simp add: push_mode03_payload_def Let_def)
  next
    case (Some i)
    then obtain rest where d: "drop i bs = 0x43 # rest"
      using position_drop [of "\<lambda>b. b = 0x43" bs i]
      by (auto split: if_splits list.splits)
    let ?bad = "drop i bs \<noteq> [0x43, 0x00] \<and> (length (drop i bs) < 3 \<or> odd (length (drop i bs) - 1))"
    show ?thesis
    proof (cases ?bad)
      case True
      have swap: "(report r e st)\<lparr>it_matches := it_matches (report r e st) @ xs\<rparr> =
          report r e (st\<lparr>it_matches := it_matches st @ xs\<rparr>)" for e xs
        by (simp add: report_def)
      show ?thesis
        unfolding push_mode03_payload_def Let_def Some option.case if_P [OF True]
        using True mode03_honest_report [OF assms] mode03_honest_push_report [OF assms]
        by (simp only: swap if_split simp_thms)
    next
      case False
      then have "rest = [0] \<or> (rest \<noteq> [] \<and> even (length rest))" unfolding d by (cases rest) auto
      then have "mode03_honest (st\<lparr>it_matches := it_matches st @
          [\<lparr>dr_responder = r, dr_payload = drop i bs\<rparr>]\<rparr>)"
        using assms d by (auto simp: mode03_honest_def blamed_def)
      then show ?thesis
        unfolding push_mode03_payload_def Let_def Some option.case if_not_P [OF False]
        using False by (simp only: if_split simp_thms)
    qed
  qed
qed

lemma mode03_honest_evidence: "mode03_honest st \<Longrightarrow> mode03_honest (report r e (push_evidence r bs l st))"
  using mode03_honest_report mode03_honest_push_report
  by (auto simp: push_evidence_def split: option.split)

lemma mode03_honest_frame: "mode03_honest st \<Longrightarrow> mode03_honest (mode03_frame line r bs st)"
  by (simp add: mode03_frame_def mode03_single_def mode03_first_def mode03_consecutive_def
      mode03_other_def drop_responder_def Let_def mode03_honest_push mode03_honest_evidence
      mode03_honest_report mode03_honest_drop mode03_honest_assemblies
      split: list.split option.split)

lemma mode03_honest_line: "mode03_honest st \<Longrightarrow> mode03_honest (mode03_line st raw)"
  by (simp add: mode03_line_def mode03_malformed_def drop_responder_def Let_def
      mode03_honest_frame mode03_honest_evidence mode03_honest_report mode03_honest_drop
      split: prod.split list.split option.split)

lemma normalize_mode03_honest:
  assumes "m \<in> set (drs_responses (normalize_mode03_responses response))"
    and "\<forall>e \<in> set (drs_errors (normalize_mode03_responses response)). de_responder e \<noteq> dr_responder m"
  shows "\<exists>rest. dr_payload m = 0x43 # rest \<and> (rest = [0] \<or> (rest \<noteq> [] \<and> even (length rest)))"
proof -
  let ?st = "foldl mode03_line isotp_init (split_lines response)"
  let ?st' = "foldl mode03_flush ?st (it_assemblies ?st)"
  have "mode03_honest ?st"
    by (rule foldl_invariant) (simp_all add: mode03_honest_line, simp add: mode03_honest_def isotp_init_def)
  then have "mode03_honest ?st'"
    by (rule foldl_invariant) (simp add: mode03_flush_def mode03_honest_report)
  then show ?thesis
    using assms by (auto simp: normalize_mode03_responses_def Let_def mode03_honest_def blamed_def
        report_def split: if_splits)
qed

lemma decode_pairs_error: "decode_pairs bs acc = Inl e \<Longrightarrow> e = MalformedResponse"
  by (induction bs acc rule: decode_pairs.induct) (auto split: if_splits)

lemma decode_even_payload: "decode_mode03_payload (0x43 # rest) \<noteq> Inl UnknownResponse"
proof (cases "decode_pairs rest []")
  case (Inl e)
  then show ?thesis using decode_pairs_error [OF Inl]
    by (simp add: decode_mode03_payload_def MODE03_POSITIVE_RESPONSE_def)
qed (simp add: decode_mode03_payload_def MODE03_POSITIVE_RESPONSE_def)

section \<open>Properties\<close>

text \<open>C16: Mode 03 evidence is honest: every payload reported of a responder to which no error is
  attributed is a positive response of a shape the trouble-code decoder understands (\<open>43 00\<close>,
  or \<open>43\<close> and a positive even number of bytes), whatever text the adapter sent; the partial
  payloads of damaged lines appear only beside an error of the same responder.\<close>

theorem mode03_evidence_honest:
  assumes "m \<in> set (drs_responses (normalize_mode03_responses response))"
    and "\<forall>e \<in> set (drs_errors (normalize_mode03_responses response)). de_responder e \<noteq> dr_responder m"
  shows "(\<exists>rest. dr_payload m = 0x43 # rest \<and> (rest = [0] \<or> (rest \<noteq> [] \<and> even (length rest))))
    \<and> decode_mode03_payload (dr_payload m) \<noteq> Inl UnknownResponse"
  using normalize_mode03_honest [OF assms] decode_even_payload by auto

theorem mode03_evidence_honest_witness:
  "decode_mode03_payload [0x43, 0x01, 0x43] \<noteq> Inl UnknownResponse"
proof -
  let ?d = "normalize_mode03_responses (''7E8 03 43 01 43'' @ [CHR 0x0D] @ ''7E9 03 43 01'')"
  let ?m = "\<lparr>dr_responder = Some (ElmHeader ''7E8''), dr_payload = [0x43, 0x01, 0x43]\<rparr>"
  have "drs_responses ?d = [?m, \<lparr>dr_responder = Some (ElmHeader ''7E9''), dr_payload = [0x43, 0x01]\<rparr>]"
    by code_simp
  moreover have "map de_responder (drs_errors ?d) = [Some (ElmHeader ''7E9'')]" by code_simp
  then have "\<forall>e \<in> set (drs_errors ?d). de_responder e \<noteq> Some (ElmHeader ''7E8'')" by auto
  ultimately show ?thesis
    using mode03_evidence_honest [of ?m "''7E8 03 43 01 43'' @ [CHR 0x0D] @ ''7E9 03 43 01''"] by simp
qed

end
