(* ===== verification/Exchange.thy ===== *)
theory Exchange
  imports Requests Mode01_Text Mode09_Text Mode03_Text
begin

text \<open>
  The conversation with the adapter, the free functions of \<open>src/elm.rs\<close> over the trait
  \<open>ElmExchange\<close>.  The adapter is the parameter \<open>ex\<close> of every definition, a function of its
  own state \<open>'e\<close>, the command and the timeout in milliseconds; nothing is assumed of it.  An
  \<open>async\<close> function is a step on that state which returns or fails.
\<close>

section \<open>Steps\<close>

datatype transport_failure =
  WriteTimedOut string | WriteFailed string | CommandTimedOut string | NotificationStreamEnded

datatype exchange_error = Transport transport_failure | Response string

fun transport_failure_text :: "transport_failure \<Rightarrow> string" where
  "transport_failure_text (WriteTimedOut c) = ''Carly write timed out: '' @ c"
| "transport_failure_text (WriteFailed e) = ''Carly write failed: '' @ e"
| "transport_failure_text (CommandTimedOut c) = ''Carly command timed out: '' @ c"
| "transport_failure_text NotificationStreamEnded = ''Carly notification stream ended''"

fun exchange_error_text :: "exchange_error \<Rightarrow> string" where
  "exchange_error_text (Transport f) = transport_failure_text f"
| "exchange_error_text (Response m) = m"

type_synonym 'e exchange = "'e \<Rightarrow> string \<Rightarrow> nat \<Rightarrow> (exchange_error + string) \<times> 'e"

type_synonym ('s, 'x, 'a) step = "'s \<Rightarrow> ('x failure + 'a) \<times> 's"

definition ret :: "'a \<Rightarrow> ('s, 'x, 'a) step" where
  "ret a s = (Inr a, s)"

definition lift_result :: "'x failure + 'a \<Rightarrow> ('s, 'x, 'a) step" where
  "lift_result r s = (r, s)"

definition bind_step :: "('s, 'x, 'a) step \<Rightarrow> ('a \<Rightarrow> ('s, 'x, 'b) step) \<Rightarrow> ('s, 'x, 'b) step" where
  "bind_step m f s = (case m s of (Inl e, s') \<Rightarrow> (Inl e, s') | (Inr a, s') \<Rightarrow> f a s')"

text \<open>\<open>match\<close> on the outcome of a step; a panic is not caught.\<close>

definition catch_step ::
  "('s, 'x, 'a) step \<Rightarrow> ('x \<Rightarrow> ('s, 'y, 'b) step) \<Rightarrow> ('a \<Rightarrow> ('s, 'y, 'b) step) \<Rightarrow> ('s, 'y, 'b) step"
where
  "catch_step m h f s =
     (case m s of
        (Inl (Failed e), s') \<Rightarrow> h e s'
      | (Inl Panicked, s') \<Rightarrow> (Inl Panicked, s')
      | (Inr a, s') \<Rightarrow> f a s')"

definition fail_step :: "'x \<Rightarrow> ('s, 'x, 'a) step" where
  "fail_step e = lift_result (Inl (Failed e))"

text \<open>\<open>result?\<close> on a pure result with a string error.\<close>

definition require :: "string + 'a \<Rightarrow> ('s, string, 'a) step" where
  "require r = lift_result (map_err Failed r)"

section \<open>Commands with an expected reply\<close>

definition COMMAND_TIMEOUT :: nat where
  "COMMAND_TIMEOUT = 5000"

text \<open>\<open>exchange.exchange(..).await?\<close>\<close>

definition send :: "'e exchange \<Rightarrow> string \<Rightarrow> nat \<Rightarrow> ('e, string, string) step" where
  "send ex command timeout e =
     (case ex e command timeout of
        (Inl err, e') \<Rightarrow> (Inl (Failed (exchange_error_text err)), e')
      | (Inr response, e') \<Rightarrow> (Inr response, e'))"

text \<open>The loops \<open>for (command, error) in [..]\<close> over setup commands.\<close>

fun send_setup :: "'e exchange \<Rightarrow> (string \<times> string) list \<Rightarrow> ('e, string, unit) step" where
  "send_setup ex [] = ret ()"
| "send_setup ex ((command, error) # rest) =
     bind_step (send ex (cr command) 3000) (\<lambda>response.
     bind_step (require (require_response response ''OK'' True error)) (\<lambda>_.
       send_setup ex rest))"

definition verify_elm327 :: "'e exchange \<Rightarrow> ('e, string, unit) step" where
  "verify_elm327 ex =
     bind_step (send ex (cr ''ATI'') 3000) (\<lambda>response.
       require (require_response response ''ELM327'' False ''ATI did not identify an ELM327 adapter''))"

definition INIT_COMMANDS :: "string list" where
  "INIT_COMMANDS = [''ATE0'', ''ATL0'', ''ATS1'', ''ATH1'', ''ATSP0'']"

definition initialize_elm :: "'e exchange \<Rightarrow> ('e, string, unit) step" where
  "initialize_elm ex =
     bind_step (send ex (cr ''ATZ'') 3000) (\<lambda>reset.
     bind_step (require (require_response reset ''ELM327'' False ''ATZ did not reset an ELM327 adapter''))
       (\<lambda>_. send_setup ex (map (\<lambda>c. (c, c @ '' failed'')) INIT_COMMANDS)))"

definition configure_target ::
  "'e exchange \<Rightarrow> request_target \<Rightarrow> responder_identity \<Rightarrow> ('e, string, unit) step" where
  "configure_target ex target expected =
     bind_step (lift_result (target_key target expected)) (\<lambda>(target_header, expected_header).
       send_setup ex
         [(''ATSH '' @ target_header, ''target request header setup failed''),
          (''ATCRA '' @ expected_header, ''target response filter setup failed'')])"

definition restore_functional :: "'e exchange \<Rightarrow> ('e, string, unit) step" where
  "restore_functional ex =
     send_setup ex
       [(''ATSH 7DF'', ''functional request header reset failed''),
        (''ATCRA'', ''functional response filter reset failed'')]"

section \<open>PID support\<close>

lemma page_step: "\<not> 256 \<le> unat (page :: u8) + 0x20 \<Longrightarrow> unat (page + 0x20) = unat page + 0x20"
proof -
  assume "\<not> 256 \<le> unat page + 0x20"
  then have "unat (word_of_nat (unat page + 32) :: u8) = unat page + 32"
    by (intro unat_u8_of_nat) simp
  then show ?thesis by simp
qed

text \<open>The discovery loop.  Each page asks for the next only when it advertises it; the page
  number grows by 32 and stops before the byte overflows (\<open>checked_add\<close>).\<close>

function discover_pages ::
  "'e exchange \<Rightarrow> u8 \<Rightarrow> u8 \<Rightarrow> u32 list \<Rightarrow> support_discovery list \<Rightarrow> ('e, string, pid_support) step"
where
  "discover_pages ex highest_page page pages discovery e =
     (case send ex (support_command page) 10000 e of
        (Inl err, e') \<Rightarrow> (Inl err, e')
      | (Inr response, e') \<Rightarrow>
          (case normalize_pid_support_page_with_evidence response page of
             Inl err \<Rightarrow> (Inl err, e')
           | Inr (normalized, observations) \<Rightarrow>
               let bitmap = payload_bitmap normalized;
                   pages' = pages @ [bitmap];
                   discovery' = discovery @ observations;
                   done = (Inr \<lparr>ps_pages = pages', ps_discovery = discovery'\<rparr>, e')
               in if highest_page \<le> page then done
                  else if 256 \<le> unat page + 0x20 then done
                  else if \<not> bitmap_supports_pid bitmap (page + 0x20) then done
                  else discover_pages ex highest_page (page + 0x20) pages' discovery' e'))"
  by pat_completeness auto

termination
  by (relation "measure (\<lambda>(ex, h, page, ps, ds, e). 256 - unat page)")
    (auto simp: page_step)

declare discover_pages.simps [simp del]

definition discover_pid_support :: "'e exchange \<Rightarrow> u8 \<Rightarrow> ('e, string, pid_support) step" where
  "discover_pid_support ex highest_page = discover_pages ex highest_page 0 [] []"

definition validate_functional_support_exchange ::
  "'e exchange \<Rightarrow> ('e, string, support_discovery list) step" where
  "validate_functional_support_exchange ex =
     bind_step (send ex (cr ''0100'') COMMAND_TIMEOUT) (\<lambda>response.
     bind_step (lift_result (normalize_pid_support_page_with_evidence response 0x00))
       (\<lambda>(_, observations). ret observations))"

text \<open>\<open>ProtocolNegotiation\<close> wraps the observations.\<close>

definition establish_elm_protocol :: "'e exchange \<Rightarrow> ('e, string, support_discovery list) step" where
  "establish_elm_protocol ex = validate_functional_support_exchange ex"

section \<open>Reads\<close>

definition read_elm_identity :: "'e exchange \<Rightarrow> ('e, string, vehicle_identity) step" where
  "read_elm_identity ex =
     bind_step (establish_elm_protocol ex) (\<lambda>_.
     bind_step (send ex (cr ''0902'') COMMAND_TIMEOUT) (\<lambda>response.
     bind_step (require (normalize_mode09_segments response)) (\<lambda>segments.
       require (map_err identity_decode_error_text (decode_mode09_pid02 segments)))))"

definition read_elm_responses :: "'e exchange \<Rightarrow> read_request \<Rightarrow> ('e, string, diagnostic_responses) step" where
  "read_elm_responses ex r =
     bind_step (send ex (obd_command r) COMMAND_TIMEOUT) (\<lambda>response.
       case normalize_mode01_responses response (rr_pid r) (rr_data_len r) of
         Inr responses \<Rightarrow> ret responses
       | Inl Panicked \<Rightarrow> lift_result (Inl Panicked)
       | Inl (Failed error) \<Rightarrow>
           (case normalize_stale_mode01_responses response (rr_pid r) of
              Inr responses \<Rightarrow> ret responses
            | Inl _ \<Rightarrow> fail_step error))"

definition read_elm_mode03_responses :: "'e exchange \<Rightarrow> ('e, string, diagnostic_responses) step" where
  "read_elm_mode03_responses ex =
     bind_step (send ex (cr ''03'') COMMAND_TIMEOUT) (\<lambda>response.
       ret (normalize_mode03_responses response))"

definition read_elm_ecu_identification_responses ::
  "'e exchange \<Rightarrow> targeted_identification_request \<Rightarrow> ('e, string, diagnostic_responses) step" where
  "read_elm_ecu_identification_responses ex r =
     bind_step (send ex (uds_command (ti_did r)) COMMAND_TIMEOUT) (\<lambda>response.
       ret (normalize_uds_responses response (ti_did r)))"

definition accept_serial :: "diagnostic_response \<Rightarrow> bool" where
  "accept_serial r \<longleftrightarrow> starts_with (dr_payload r) [0x62, 0xF1, 0x8C]"

definition read_elm_functional_ecu_serial_responses ::
  "'e exchange \<Rightarrow> functional_serial_probe \<Rightarrow> ('e, string, diagnostic_responses) step" where
  "read_elm_functional_ecu_serial_responses ex probe =
     bind_step (send ex (uds_command (ic_did (fp_candidate probe))) COMMAND_TIMEOUT) (\<lambda>response.
       let responses = normalize_uds_responses response (ic_did (fp_candidate probe))
       in ret (drs_with_errors (filter accept_serial (drs_responses responses))
            (drs_raw responses)
            (drs_errors responses @
              map (\<lambda>r. \<lparr>de_responder = dr_responder r,
                        de_error = ''unexpected response while awaiting UDS 22 F18C''\<rparr>)
                (filter (\<lambda>r. \<not> accept_serial r) (drs_responses responses)))))"

definition read_elm_mode09_responses ::
  "'e exchange \<Rightarrow> targeted_mode09_request \<Rightarrow> ('e, string, diagnostic_responses) step" where
  "read_elm_mode09_responses ex r =
     bind_step (send ex (mode09_command (t9_pid r)) COMMAND_TIMEOUT) (\<lambda>response.
       ret (normalize_mode09_responses response (mode09_pid_byte (t9_pid r))))"

section \<open>Stale answers and retries\<close>

definition STALE_MODE01_RESPONSE_PREFIX :: string where
  "STALE_MODE01_RESPONSE_PREFIX = ''stale unrelated OBD-II Mode 01 response from responder''"

definition IGNORED_MODE01_RESPONSE_PREFIX :: string where
  "IGNORED_MODE01_RESPONSE_PREFIX =
     ''ignored unrelated OBD-II Mode 01 response from responder''"

definition is_ignored_mode01_response :: "diagnostic_response_error \<Rightarrow> bool" where
  "is_ignored_mode01_response e \<longleftrightarrow>
     de_responder e = None \<and> starts_with (de_error e) IGNORED_MODE01_RESPONSE_PREFIX"

definition should_retry_stale_uds_response :: "diagnostic_responses \<Rightarrow> bool" where
  "should_retry_stale_uds_response d \<longleftrightarrow>
     drs_responses d = [] \<and> drs_errors d \<noteq> [] \<and> list_all is_ignored_mode01_response (drs_errors d)"

definition should_retry_stale_mode01_response :: "diagnostic_responses \<Rightarrow> u8 \<Rightarrow> bool" where
  "should_retry_stale_mode01_response d pid \<longleftrightarrow>
     drs_responses d \<noteq> [] \<and> length (drs_responses d) = length (drs_errors d) \<and>
     list_all (\<lambda>r. case dr_payload r of a # b # _ \<Rightarrow> a = 0x41 \<and> b \<noteq> pid | _ \<Rightarrow> False)
       (drs_responses d) \<and>
     list_all (\<lambda>e. starts_with (de_error e) STALE_MODE01_RESPONSE_PREFIX) (drs_errors d)"

definition merge_response_attempts ::
  "diagnostic_responses \<Rightarrow> diagnostic_responses \<Rightarrow> diagnostic_responses" where
  "merge_response_attempts first retry =
     drs_with_errors (drs_responses first @ drs_responses retry)
       (drs_raw first @ [CHR 0x0A] @ drs_raw retry) (drs_errors first @ drs_errors retry)"

record read_evidence =
  rx_payload :: bytes
  rx_observations :: "response_observation list"

record read_evidence_error =
  rxe_error :: string
  rxe_observations :: "response_observation list"

text \<open>The second and last attempt of a functional read; the code spells it out twice, for a
  stale and for a conflicting first answer.\<close>

definition retry_read ::
  "'e exchange \<Rightarrow> read_request \<Rightarrow> diagnostic_responses \<Rightarrow> string \<Rightarrow>
     ('e, read_evidence_error, read_evidence) step" where
  "retry_read ex r first error =
     (let observations = [observation first (Some error)];
          first_text = ''; first ELM response='' @ escape_default (drs_raw first)
      in catch_step (read_elm_responses ex r)
           (\<lambda>retry_error. fail_step
              \<lparr>rxe_error = error @ first_text @ ''; retry failed: '' @ retry_error,
               rxe_observations = observations\<rparr>)
           (\<lambda>retry. case unambiguous_payload retry (rr_pid r) of
              Inr payload \<Rightarrow> ret \<lparr>rx_payload = payload,
                rx_observations = observations @ [observation retry None]\<rparr>
            | Inl retry_error \<Rightarrow> fail_step
                \<lparr>rxe_error = retry_error @ first_text @ ''; retry ELM response=''
                    @ escape_default (drs_raw retry),
                 rxe_observations = observations @ [observation retry (Some retry_error)]\<rparr>))"

definition read_elm_with_evidence ::
  "'e exchange \<Rightarrow> read_request \<Rightarrow> ('e, read_evidence_error, read_evidence) step" where
  "read_elm_with_evidence ex r =
     catch_step (read_elm_responses ex r)
       (\<lambda>error. fail_step \<lparr>rxe_error = error, rxe_observations = []\<rparr>)
       (\<lambda>first. case unambiguous_payload first (rr_pid r) of
          Inr payload \<Rightarrow> ret \<lparr>rx_payload = payload, rx_observations = [observation first None]\<rparr>
        | Inl error \<Rightarrow>
            if should_retry_stale_mode01_response first (rr_pid r)
               \<or> starts_with error (''conflicting 01'' @ fmt_02X (rr_pid r) @ '' responses'')
            then retry_read ex r first error
            else fail_step \<lparr>rxe_error = error, rxe_observations = [observation first (Some error)]\<rparr>)"

end
