(* ===== verification/Session.thy ===== *)
theory Session
  imports Exchange
begin

text \<open>
  \<open>ElmSession\<close> of \<open>src/elm.rs\<close>: the adapter, the discovered PID support, the mark that a
  targeted operation ran, and the target the adapter is configured for.  Every operation of the
  session that talks to the adapter is a step here; the last part closes the operations into
  one type of calls, so that properties speak of any sequence of them.
\<close>

section \<open>State\<close>

record 'e elm_session =
  es_exchange :: 'e
  es_supported :: pid_support
  es_functional_dirty :: bool
  es_configured :: "target_key option"

definition session_new :: "'e \<Rightarrow> 'e elm_session" where
  "session_new e =
     \<lparr>es_exchange = e, es_supported = \<lparr>ps_pages = [], ps_discovery = []\<rparr>,
      es_functional_dirty = False, es_configured = None\<rparr>"

definition on_exchange :: "('e, 'x, 'a) step \<Rightarrow> ('e elm_session, 'x, 'a) step" where
  "on_exchange m s = (case m (es_exchange s) of (r, e') \<Rightarrow> (r, s\<lparr>es_exchange := e'\<rparr>))"

definition modify :: "('s \<Rightarrow> 's) \<Rightarrow> ('s, 'x, unit) step" where
  "modify f s = (Inr (), f s)"

definition set_configured :: "target_key option \<Rightarrow> ('e elm_session, 'x, unit) step" where
  "set_configured k = modify (\<lambda>s. s\<lparr>es_configured := k\<rparr>)"

definition set_dirty :: "bool \<Rightarrow> ('e elm_session, 'x, unit) step" where
  "set_dirty b = modify (\<lambda>s. s\<lparr>es_functional_dirty := b\<rparr>)"

text \<open>\<open>map_err(|error| ReadEvidenceError { error, observations: Vec::new() })\<close>\<close>

definition evidence_error :: "string \<Rightarrow> read_evidence_error" where
  "evidence_error e = \<lparr>rxe_error = e, rxe_observations = []\<rparr>"

definition map_error :: "('x \<Rightarrow> 'y) \<Rightarrow> ('s, 'x, 'a) step \<Rightarrow> ('s, 'y, 'a) step" where
  "map_error f m = catch_step m (\<lambda>e. fail_step (f e)) ret"

section \<open>Functional operations\<close>

definition discover_support :: "'e exchange \<Rightarrow> u8 \<Rightarrow> ('e elm_session, string, unit) step" where
  "discover_support ex highest_page =
     bind_step (on_exchange (discover_pid_support ex highest_page)) (\<lambda>support.
       modify (\<lambda>s. s\<lparr>es_supported := support\<rparr>))"

definition reinitialize :: "'e exchange \<Rightarrow> ('e elm_session, string, unit) step" where
  "reinitialize ex =
     bind_step (on_exchange (initialize_elm ex)) (\<lambda>_.
     bind_step (discover_support ex highest_catalog_page) (\<lambda>_.
     bind_step (set_dirty False) (\<lambda>_.
       set_configured None)))"

definition ensure_functional :: "'e exchange \<Rightarrow> ('e elm_session, string, unit) step" where
  "ensure_functional ex s = (if es_functional_dirty s then reinitialize ex s else ret () s)"

definition restore_functional_addressing :: "'e exchange \<Rightarrow> ('e elm_session, string, unit) step" where
  "restore_functional_addressing ex =
     bind_step (set_configured None) (\<lambda>_.
     bind_step (set_dirty True) (\<lambda>_.
       on_exchange (restore_functional ex)))"

definition establish_protocol ::
  "'e exchange \<Rightarrow> ('e elm_session, string, support_discovery list) step" where
  "establish_protocol ex =
     bind_step (ensure_functional ex) (\<lambda>_. on_exchange (establish_elm_protocol ex))"

definition identify :: "'e exchange \<Rightarrow> ('e elm_session, string, vehicle_identity) step" where
  "identify ex = bind_step (ensure_functional ex) (\<lambda>_. on_exchange (read_elm_identity ex))"

definition validate_functional_support ::
  "'e exchange \<Rightarrow> ('e elm_session, string, support_discovery list) step" where
  "validate_functional_support ex =
     bind_step (ensure_functional ex) (\<lambda>_. on_exchange (validate_functional_support_exchange ex))"

definition read_with_evidence ::
  "'e exchange \<Rightarrow> read_request \<Rightarrow> ('e elm_session, read_evidence_error, read_evidence) step" where
  "read_with_evidence ex r =
     bind_step (map_error evidence_error (ensure_functional ex)) (\<lambda>_ s.
       if \<not> supports_pid (es_supported s) (rr_pid r)
       then fail_step (evidence_error
              (''vehicle does not advertise support for '' @ hex (rr_bytes r))) s
       else on_exchange (read_elm_with_evidence ex r) s)"

definition read_stored_dtcs :: "'e exchange \<Rightarrow> ('e elm_session, string, diagnostic_responses) step" where
  "read_stored_dtcs ex =
     bind_step (ensure_functional ex) (\<lambda>_. on_exchange (read_elm_mode03_responses ex))"

definition read_functional_ecu_serials ::
  "'e exchange \<Rightarrow> functional_serial_probe \<Rightarrow> ('e elm_session, string, diagnostic_responses) step" where
  "read_functional_ecu_serials ex probe =
     bind_step (ensure_functional ex) (\<lambda>_.
       on_exchange (read_elm_functional_ecu_serial_responses ex probe))"

section \<open>Targeted operations\<close>

text \<open>The preamble of the operations that keep the target configured: the setup is skipped
  when the adapter is configured for the same target already.\<close>

definition ensure_configured ::
  "'e exchange \<Rightarrow> request_target \<Rightarrow> responder_identity \<Rightarrow>
     ('e elm_session, read_evidence_error, unit) step" where
  "ensure_configured ex target expected =
     bind_step (lift_result (map_sum (map_failure evidence_error) id (target_key target expected)))
       (\<lambda>key s.
          if es_configured s = Some key then ret () s
          else bind_step (set_configured None) (\<lambda>_.
               bind_step (map_error evidence_error (on_exchange (configure_target ex target expected)))
                 (\<lambda>_. set_configured (Some key))) s)"

text \<open>One exchange whose failure makes the adapter state unknown.\<close>

definition exchange_configured ::
  "'e exchange \<Rightarrow> string \<Rightarrow> ('e elm_session, read_evidence_error, string) step" where
  "exchange_configured ex command =
     catch_step (on_exchange (send ex command COMMAND_TIMEOUT))
       (\<lambda>error. bind_step (set_configured None) (\<lambda>_. fail_step (evidence_error error)))
       ret"

definition select_payload ::
  "(string \<Rightarrow> string) \<Rightarrow> diagnostic_responses \<Rightarrow> responder_identity \<Rightarrow>
     ('e elm_session, read_evidence_error, read_evidence) step" where
  "select_payload explain responses expected =
     (case targeted_payload responses expected of
        Inr payload \<Rightarrow> ret \<lparr>rx_payload = payload,
          rx_observations = [observation_for_target responses expected None]\<rparr>
      | Inl error \<Rightarrow> fail_step \<lparr>rxe_error = explain error,
          rxe_observations = [observation_for_target responses expected (Some (explain error))]\<rparr>)"

text \<open>Without any response the first parser error explains the failure better.\<close>

definition explain_empty :: "diagnostic_responses \<Rightarrow> string \<Rightarrow> string" where
  "explain_empty responses error =
     (case drs_errors responses of
        issue # _ \<Rightarrow> if drs_responses responses = [] then de_error issue else error
      | [] \<Rightarrow> error)"

definition read_targeted_with_evidence ::
  "'e exchange \<Rightarrow> targeted_read_request \<Rightarrow> ('e elm_session, read_evidence_error, read_evidence) step"
where
  "read_targeted_with_evidence ex r =
     bind_step (set_dirty True) (\<lambda>_.
     bind_step (ensure_configured ex (tr_target r) (tr_expected r)) (\<lambda>_.
       catch_step (on_exchange (read_elm_responses ex (tr_request r)))
         (\<lambda>error. bind_step (set_configured None) (\<lambda>_. fail_step (evidence_error error)))
         (\<lambda>responses. select_payload id responses (tr_expected r))))"

definition read_multi_targeted_with_evidence ::
  "'e exchange \<Rightarrow> targeted_multi_request \<Rightarrow> ('e elm_session, read_evidence_error, read_evidence) step"
where
  "read_multi_targeted_with_evidence ex r =
     bind_step (set_dirty True) (\<lambda>_.
     bind_step (ensure_configured ex (tm_target r) (tm_expected r)) (\<lambda>_.
     bind_step (exchange_configured ex (multi_command r)) (\<lambda>response.
       let responses = normalize_mode01_multi_responses response (trim (multi_command r))
       in select_payload (explain_empty responses) responses (tm_expected r))))"

definition read_did_once ::
  "'e exchange \<Rightarrow> u16 \<Rightarrow> request_target \<Rightarrow> responder_identity \<Rightarrow>
     ('e elm_session, read_evidence_error, read_evidence) step" where
  "read_did_once ex did target expected =
     bind_step (set_dirty True) (\<lambda>_.
     bind_step (ensure_configured ex target expected) (\<lambda>_.
     bind_step (exchange_configured ex (did_command did)) (\<lambda>response.
       let responses = normalize_uds_responses response did
       in select_payload (explain_empty responses) responses expected)))"

definition no_data_reply :: "string \<Rightarrow> bool" where
  "no_data_reply response \<longleftrightarrow>
     list_ex (\<lambda>line. trim line = ''NO DATA'')
       (split_on (\<lambda>c. is_line_end c \<or> c = CHR ''>'') response)"

definition uds_session_command ::
  "'e exchange \<Rightarrow> uds_session_command \<Rightarrow> request_target \<Rightarrow> responder_identity \<Rightarrow>
     ('e elm_session, read_evidence_error, read_evidence) step" where
  "uds_session_command ex command target expected =
     bind_step (set_dirty True) (\<lambda>_.
     bind_step (ensure_configured ex target expected) (\<lambda>_.
       case session_wire command of (wire, positive) \<Rightarrow>
     bind_step (exchange_configured ex (cr wire)) (\<lambda>response.
       let responses = normalize_isotp_responses response wire ''UDS session'' False
       in if command = TesterPresent \<and> drs_responses responses = [] \<and> no_data_reply response
          then ret \<lparr>rx_payload = [], rx_observations = [observation responses None]\<rparr>
          else
            (let reject = (\<lambda>error. fail_step \<lparr>rxe_error = error,
                   rxe_observations = [observation_for_target responses expected (Some error)]\<rparr>)
             in case targeted_payload responses expected of
                  Inr payload \<Rightarrow>
                    if starts_with payload positive
                    then ret \<lparr>rx_payload = payload,
                           rx_observations = [observation_for_target responses expected None]\<rparr>
                    else reject (''UDS session rejected: '' @ hex payload)
                | Inl error \<Rightarrow> reject error))))"

text \<open>The two operations that configure and restore around one read.\<close>

definition restore_failed :: "string \<Rightarrow> string \<Rightarrow> string" where
  "restore_failed error restore = error @ ''; restoring functional addressing failed: '' @ restore"

definition read_mode09 ::
  "'e exchange \<Rightarrow> targeted_mode09_request \<Rightarrow> ('e elm_session, string, diagnostic_responses) step" where
  "read_mode09 ex r =
     bind_step (set_dirty True) (\<lambda>_.
     bind_step (set_configured None) (\<lambda>_.
       catch_step (on_exchange (configure_target ex (t9_target r) (t9_expected r)))
         (\<lambda>error. catch_step (on_exchange (restore_functional ex))
            (\<lambda>restore. fail_step (restore_failed error restore)) (\<lambda>_. fail_step error))
         (\<lambda>_. catch_step
            (bind_step (on_exchange (read_elm_mode09_responses ex r)) (\<lambda>responses.
             bind_step (require (targeted_payload responses (t9_expected r))) (\<lambda>_. ret responses)))
            (\<lambda>error. catch_step (on_exchange (restore_functional ex))
               (\<lambda>restore. fail_step (restore_failed error restore)) (\<lambda>_. fail_step error))
            (\<lambda>responses. catch_step (on_exchange (restore_functional ex))
               (\<lambda>error. fail_step
                  (''Mode 09 read succeeded; restoring functional addressing failed: '' @ error))
               (\<lambda>_. ret responses)))))"

record identification_evidence =
  ie_responses :: diagnostic_responses
  ie_observations :: "response_observation list"

definition selection_error :: "diagnostic_responses \<Rightarrow> responder_identity \<Rightarrow> string option" where
  "selection_error responses expected =
     (case targeted_payload responses expected of Inl e \<Rightarrow> Some e | Inr _ \<Rightarrow> None)"

definition identification_result ::
  "diagnostic_responses \<Rightarrow> responder_identity \<Rightarrow> identification_evidence" where
  "identification_result responses expected =
     \<lparr>ie_responses = responses,
      ie_observations =
        [observation_for_target responses expected (selection_error responses expected)]\<rparr>"

text \<open>The read with its one retry after a stale answer.\<close>

definition identification_read ::
  "'e exchange \<Rightarrow> targeted_identification_request \<Rightarrow>
     ('e, read_evidence_error, identification_evidence) step" where
  "identification_read ex r =
     catch_step (read_elm_ecu_identification_responses ex r)
       (\<lambda>error. fail_step (evidence_error error))
       (\<lambda>first.
          if should_retry_stale_uds_response first
          then catch_step (read_elm_ecu_identification_responses ex r)
                 (\<lambda>retry_error.
                    let first_error = ''ECU identification retry failed: '' @ retry_error
                          @ ''; first ELM response='' @ escape_default (drs_raw first)
                    in fail_step \<lparr>rxe_error = first_error,
                         rxe_observations = [observation first (Some first_error)]\<rparr>)
                 (\<lambda>retry. ret (identification_result (merge_response_attempts first retry)
                    (ti_expected r)))
          else ret (identification_result first (ti_expected r)))"

definition read_ecu_identification_with_evidence ::
  "'e exchange \<Rightarrow> targeted_identification_request \<Rightarrow>
     ('e elm_session, read_evidence_error, identification_evidence) step" where
  "read_ecu_identification_with_evidence ex r =
     bind_step (set_dirty True) (\<lambda>_.
     bind_step (set_configured None) (\<lambda>_.
       catch_step (on_exchange (configure_target ex (ti_target r) (ti_expected r)))
         (\<lambda>error. catch_step (on_exchange (restore_functional ex))
            (\<lambda>restore. fail_step (evidence_error (restore_failed error restore)))
            (\<lambda>_. fail_step (evidence_error error)))
         (\<lambda>_. catch_step (on_exchange (identification_read ex r))
            (\<lambda>error. catch_step (on_exchange (restore_functional ex))
               (\<lambda>restore. fail_step (error\<lparr>rxe_error := restore_failed (rxe_error error) restore\<rparr>))
               (\<lambda>_. fail_step error))
            (\<lambda>read. catch_step (on_exchange (restore_functional ex))
               (\<lambda>error. fail_step \<lparr>rxe_error =
                  ''ECU identification read succeeded; restoring functional addressing failed: ''
                    @ error, rxe_observations = ie_observations read\<rparr>)
               (\<lambda>_. ret read)))))"

section \<open>Calls\<close>

text \<open>The session's public surface; a failed call leaves the session as it ended.\<close>

datatype session_call =
    Call_Reinitialize
  | Call_Restore
  | Call_Establish
  | Call_Identify
  | Call_ValidateSupport
  | Call_Read read_request
  | Call_Dtcs
  | Call_Serials functional_serial_probe
  | Call_Targeted targeted_read_request
  | Call_Multi targeted_multi_request
  | Call_Did u16 request_target responder_identity
  | Call_Session uds_session_command request_target responder_identity
  | Call_Mode09 targeted_mode09_request
  | Call_Identification targeted_identification_request

fun run_call :: "'e exchange \<Rightarrow> session_call \<Rightarrow> 'e elm_session \<Rightarrow> 'e elm_session" where
  "run_call ex Call_Reinitialize s = snd (reinitialize ex s)"
| "run_call ex Call_Restore s = snd (restore_functional_addressing ex s)"
| "run_call ex Call_Establish s = snd (establish_protocol ex s)"
| "run_call ex Call_Identify s = snd (identify ex s)"
| "run_call ex Call_ValidateSupport s = snd (validate_functional_support ex s)"
| "run_call ex (Call_Read r) s = snd (read_with_evidence ex r s)"
| "run_call ex Call_Dtcs s = snd (read_stored_dtcs ex s)"
| "run_call ex (Call_Serials p) s = snd (read_functional_ecu_serials ex p s)"
| "run_call ex (Call_Targeted r) s = snd (read_targeted_with_evidence ex r s)"
| "run_call ex (Call_Multi r) s = snd (read_multi_targeted_with_evidence ex r s)"
| "run_call ex (Call_Did did t i) s = snd (read_did_once ex did t i s)"
| "run_call ex (Call_Session c t i) s = snd (uds_session_command ex c t i s)"
| "run_call ex (Call_Mode09 r) s = snd (read_mode09 ex r s)"
| "run_call ex (Call_Identification r) s = snd (read_ecu_identification_with_evidence ex r s)"

end
