(* ===== verification/Step_Logic.thy ===== *)
theory Step_Logic
  imports Session
begin

text \<open>
  A program logic for the steps of \<open>Exchange\<close> and \<open>Session\<close>.  \<open>triple R P m Q E\<close> says that the step
  \<open>m\<close>, started where \<open>P\<close> holds, moves along \<open>R\<close> and ends with \<open>Q\<close> when it returns and with \<open>E\<close> when it
  fails or panics.  \<open>R\<close> is what a step may do on its way, such as the commands it may send; it
  must be closed under sequencing, which is the interface \<open>step_order\<close>.  The section on the log
  gives the relation used for sessions: the commands a step appends, each judged by a guard that
  sees the log before it.
\<close>

section \<open>Triples\<close>

definition triple ::
  "('s \<Rightarrow> 's \<Rightarrow> bool) \<Rightarrow> ('s \<Rightarrow> bool) \<Rightarrow> ('s, 'x, 'a) step \<Rightarrow> ('a \<Rightarrow> 's \<Rightarrow> bool) \<Rightarrow> ('s \<Rightarrow> bool) \<Rightarrow> bool"
where
  "triple R P m Q E \<longleftrightarrow>
     (\<forall>s. P s \<longrightarrow> R s (snd (m s)) \<and>
        (case fst (m s) of Inr a \<Rightarrow> Q a (snd (m s)) | Inl _ \<Rightarrow> E (snd (m s))))"

abbreviation keeps :: "('s \<Rightarrow> 's \<Rightarrow> bool) \<Rightarrow> ('s \<Rightarrow> bool) \<Rightarrow> ('s, 'x, 'a) step \<Rightarrow> bool" where
  "keeps R I m \<equiv> triple R I m (\<lambda>_. I) I"

lemma tripleI:
  assumes "\<And>s. P s \<Longrightarrow> R s (snd (m s))"
    and "\<And>s a. P s \<Longrightarrow> fst (m s) = Inr a \<Longrightarrow> Q a (snd (m s))"
    and "\<And>s e. P s \<Longrightarrow> fst (m s) = Inl e \<Longrightarrow> E (snd (m s))"
  shows "triple R P m Q E"
  using assms unfolding triple_def by (auto split: sum.split)

lemma triple_moves: "triple R P m Q E \<Longrightarrow> P s \<Longrightarrow> R s (snd (m s))"
  by (simp add: triple_def)

lemma triple_returns: "triple R P m Q E \<Longrightarrow> P s \<Longrightarrow> m s = (Inr a, s') \<Longrightarrow> R s s' \<and> Q a s'"
  unfolding triple_def by force

lemma triple_fails: "triple R P m Q E \<Longrightarrow> P s \<Longrightarrow> m s = (Inl e, s') \<Longrightarrow> R s s' \<and> E s'"
  unfolding triple_def by force

lemma keeps_ends: "keeps R I m \<Longrightarrow> I s \<Longrightarrow> I (snd (m s))"
  unfolding triple_def by (cases "fst (m s)") force+

lemma triple_outcome:
  "triple R P m Q E \<Longrightarrow> P s \<Longrightarrow>
    R s (snd (m s)) \<and> (\<forall>a. fst (m s) = Inr a \<longrightarrow> Q a (snd (m s))) \<and>
    (\<forall>e. fst (m s) = Inl e \<longrightarrow> E (snd (m s)))"
  unfolding triple_def by (auto split: sum.splits)

lemma triple_weaken:
  assumes "triple R P m Q E"
    and "\<And>s. P' s \<Longrightarrow> P s" and "\<And>a s. Q a s \<Longrightarrow> Q' a s" and "\<And>s. E s \<Longrightarrow> E' s"
  shows "triple R P' m Q' E'"
  unfolding triple_def
  using assms(2-4) triple_outcome [OF assms(1)] by (auto split: sum.split)

lemma triple_cases: "(\<And>b. triple R (\<lambda>s. P s \<and> f s = b) m Q E) \<Longrightarrow> triple R P m Q E"
  by (simp add: triple_def)

lemma triple_branches:
  assumes "triple R (\<lambda>s. P s \<and> b s) m Q E" and "triple R (\<lambda>s. P s \<and> \<not> b s) m' Q E"
  shows "triple R P (\<lambda>s. if b s then m s else m' s) Q E"
  using assms unfolding triple_def by simp

lemma triple_relax: "triple R P m Q E \<Longrightarrow> (\<And>s t. R s t \<Longrightarrow> R' s t) \<Longrightarrow> triple R' P m Q E"
  by (auto simp: triple_def)

lemma bind_lift: "bind_step (lift_result (Inr a)) f = f a" "bind_step (lift_result (Inl e)) f = lift_result (Inl e)"
  by (rule ext, simp add: bind_step_def lift_result_def)+

section \<open>Sequencing\<close>

locale step_order =
  fixes R :: "'s \<Rightarrow> 's \<Rightarrow> bool"
  assumes refl: "R s s"
    and trans: "R s t \<Longrightarrow> R t u \<Longrightarrow> R s u"
begin

lemma still: "(\<And>s. snd (m s) = s) \<Longrightarrow> (\<And>s a. P s \<Longrightarrow> fst (m s) = Inr a \<Longrightarrow> Q a s) \<Longrightarrow> (\<And>s. P s \<Longrightarrow> E s)
    \<Longrightarrow> triple R P m Q E"
  by (rule tripleI) (auto simp: refl)

lemma returns: "triple R (Q a) (ret a) Q E"
  by (rule tripleI) (auto simp: ret_def refl)

lemma returned: "(\<And>s. P s \<Longrightarrow> Q a s) \<Longrightarrow> triple R P (ret a) Q E"
  by (rule tripleI) (auto simp: ret_def refl)

lemma lifts: "keeps R I (lift_result r)"
  by (rule still) (auto simp: lift_result_def)

lemma requires: "keeps R I (require r)"
  by (simp add: require_def lifts)

lemma required: "(\<And>s. P s \<Longrightarrow> E s) \<Longrightarrow> triple R P (require r) (\<lambda>a s. r = Inr a \<and> P s) E"
  unfolding require_def by (rule still) (cases r; simp add: lift_result_def)+

lemma raises: "triple R E (fail_step e) Q E"
  unfolding fail_step_def by (rule tripleI) (auto simp: lift_result_def refl)

lemma sequence:
  assumes m: "triple R P m Q E" and f: "\<And>a. triple R (Q a) (f a) Q' E"
  shows "triple R P (bind_step m f) Q' E"
proof -
  have "R s (snd (bind_step m f s)) \<and>
      (case fst (bind_step m f s) of Inr b \<Rightarrow> Q' b (snd (bind_step m f s))
       | Inl _ \<Rightarrow> E (snd (bind_step m f s)))" if P: "P s" for s
  proof (cases "m s")
    case (Pair r s')
    show ?thesis
    proof (cases r)
      case (Inl e)
      then show ?thesis using triple_fails [OF m P] Pair by (simp add: bind_step_def)
    next
      case (Inr a)
      have ok: "R s s' \<and> Q a s'" using triple_returns [OF m P] Pair Inr by simp
      then show ?thesis using triple_outcome [OF f, of a s'] Pair Inr
        by (auto simp: bind_step_def split: sum.split intro: trans)
    qed
  qed
  then show ?thesis by (simp add: triple_def)
qed

lemma handles:
  assumes m: "triple R P m Q F" and h: "\<And>e. triple R F (h e) Q' E"
    and f: "\<And>a. triple R (Q a) (f a) Q' E" and panic: "\<And>s. F s \<Longrightarrow> E s"
  shows "triple R P (catch_step m h f) Q' E"
proof -
  have "R s (snd (catch_step m h f s)) \<and>
      (case fst (catch_step m h f s) of Inr b \<Rightarrow> Q' b (snd (catch_step m h f s))
       | Inl _ \<Rightarrow> E (snd (catch_step m h f s)))" if P: "P s" for s
  proof (cases "m s")
    case (Pair r s')
    show ?thesis
    proof (cases r)
      case (Inl x)
      have "R s s' \<and> F s'" using triple_fails [OF m P] Pair Inl by simp
      then show ?thesis using triple_outcome [OF h, of s'] Pair Inl panic
        by (cases x) (auto simp: catch_step_def split: sum.split intro: trans)
    next
      case (Inr a)
      have "R s s' \<and> Q a s'" using triple_returns [OF m P] Pair Inr by simp
      then show ?thesis using triple_outcome [OF f, of a s'] Pair Inr
        by (auto simp: catch_step_def split: sum.split intro: trans)
    qed
  qed
  then show ?thesis by (simp add: triple_def)
qed

lemma maps_error: "triple R P m Q E \<Longrightarrow> triple R P (map_error f m) Q E"
  unfolding map_error_def by (rule handles [OF _ raises returns])

lemmas keep_steps = returns lifts requires raises sequence handles maps_error

end

section \<open>The log\<close>

text \<open>The adapter with the log of its exchanges.  The operations are the same for every adapter, so
  what is proved of the log holds of the commands they send.\<close>

type_synonym log = "(string \<times> (exchange_error + string)) list"

definition logged :: "'e exchange \<Rightarrow> ('e \<times> log) exchange" where
  "logged ex el command timeout =
     (case ex (fst el) command timeout of (r, e') \<Rightarrow> (r, (e', snd el @ [(command, r)])))"

fun allowed :: "(log \<Rightarrow> string \<Rightarrow> bool) \<Rightarrow> log \<Rightarrow> log \<Rightarrow> bool" where
  "allowed G l [] \<longleftrightarrow> True"
| "allowed G l (entry # new) \<longleftrightarrow> G l (fst entry) \<and> allowed G (l @ [entry]) new"

lemma allowed_append: "allowed G l (new @ later) \<longleftrightarrow> allowed G l new \<and> allowed G (l @ new) later"
  by (induction new arbitrary: l) auto

lemma allowed_mono: "(\<And>l c. G l c \<Longrightarrow> H l c) \<Longrightarrow> allowed G l new \<Longrightarrow> allowed H l new"
  by (induction new arbitrary: l) auto

lemma allowed_all: "allowed (\<lambda>_ c. V c) l new \<longleftrightarrow> list_all (\<lambda>entry. V (fst entry)) new"
  by (induction new arbitrary: l) auto

text \<open>What happened between two logs: the second extends the first by allowed commands.\<close>

definition sends :: "(log \<Rightarrow> string \<Rightarrow> bool) \<Rightarrow> ('s \<Rightarrow> log) \<Rightarrow> 's \<Rightarrow> 's \<Rightarrow> bool" where
  "sends G l s s' \<longleftrightarrow>
     take (length (l s)) (l s') = l s \<and> allowed G (l s) (drop (length (l s)) (l s'))"

lemma sendsI: "l s' = l s @ new \<Longrightarrow> allowed G (l s) new \<Longrightarrow> sends G l s s'"
  by (simp add: sends_def)

lemma sendsE:
  assumes "sends G l s s'"
  obtains new where "l s' = l s @ new" "allowed G (l s) new"
  using assms unfolding sends_def by (metis append_take_drop_id)

interpretation sent: step_order "sends G l" for G l
proof
  show "sends G l s s" for s by (rule sendsI [where new = "[]"]) simp_all
  show "sends G l s u" if "sends G l s t" "sends G l t u" for s t u
    using that by (elim sendsE) (metis allowed_append append.assoc sendsI)
qed

lemma sends_same: "l s' = l s \<Longrightarrow> sends G l s s'"
  by (rule sendsI [where new = "[]"]) simp_all

lemma sends_mono: "sends G l s s' \<Longrightarrow> (\<And>l c. G l c \<Longrightarrow> H l c) \<Longrightarrow> sends H l s s'"
  unfolding sends_def using allowed_mono by blast

lemma send_result:
  "\<exists>r. (fst (send (logged ex) c t el) = (case r of Inl x \<Rightarrow> Inl (Failed (exchange_error_text x)) | Inr y \<Rightarrow> Inr y)) \<and>
       snd (snd (send (logged ex) c t el)) = snd el @ [(c, r)]"
proof -
  obtain r e' where "ex (fst el) c t = (r, e')" by (cases "ex (fst el) c t")
  then show ?thesis by (intro exI [of _ r]) (cases r; simp add: send_def logged_def)
qed

lemma send_triple:
  assumes "\<And>l. P l \<Longrightarrow> G l c"
    and "\<And>l y. P l \<Longrightarrow> Q y (l @ [(c, Inr y)])"
    and "\<And>l x. P l \<Longrightarrow> E (l @ [(c, Inl x)])"
  shows "triple (sends G snd) (\<lambda>el. P (snd el)) (send (logged ex) c t) (\<lambda>y el. Q y (snd el)) (\<lambda>el. E (snd el))"
proof (rule tripleI)
  fix el :: "'a \<times> log" assume P: "P (snd el)"
  obtain r where r: "fst (send (logged ex) c t el) =
      (case r of Inl x \<Rightarrow> Inl (Failed (exchange_error_text x)) | Inr y \<Rightarrow> Inr y)"
    "snd (snd (send (logged ex) c t el)) = snd el @ [(c, r)]"
    using send_result [of ex c t el] by blast
  show "sends G snd el (snd (send (logged ex) c t el))"
    using assms(1) [OF P] r(2) by (intro sendsI [where new = "[(c, r)]"]) simp_all
  show "Q y (snd (snd (send (logged ex) c t el)))" if "fst (send (logged ex) c t el) = Inr y" for y
    using that r assms(2) [OF P] by (cases r) simp_all
  show "E (snd (snd (send (logged ex) c t el)))" if "fst (send (logged ex) c t el) = Inl y" for y
    using that r assms(3) [OF P] by (cases r) simp_all
qed

section \<open>Sessions\<close>

definition slog :: "('e \<times> log) elm_session \<Rightarrow> log" where
  "slog s = snd (es_exchange s)"

lemma on_exchange_triple:
  assumes m: "triple (sends G snd) (\<lambda>el. P (snd el)) m (\<lambda>a el. Q a (snd el)) (\<lambda>el. E (snd el))"
    and K: "\<And>s x. K (s\<lparr>es_exchange := x\<rparr>) = K s"
  shows "triple (sends G slog) (\<lambda>s. P (slog s) \<and> K s) (on_exchange m)
     (\<lambda>a s. Q a (slog s) \<and> K s) (\<lambda>s. E (slog s) \<and> K s)"
proof (rule tripleI)
  fix s :: "('a \<times> log) elm_session" assume P: "P (slog s) \<and> K s"
  let ?m = "m (es_exchange s)"
  have on: "on_exchange m s = (fst ?m, s\<lparr>es_exchange := snd ?m\<rparr>)"
    by (simp add: on_exchange_def split: prod.split)
  have P': "P (snd (es_exchange s))" using P by (simp add: slog_def)
  show "sends G slog s (snd (on_exchange m s))"
    using triple_moves [OF m P'] by (simp add: on sends_def slog_def)
  show "Q a (slog (snd (on_exchange m s))) \<and> K (snd (on_exchange m s))"
    if "fst (on_exchange m s) = Inr a" for a
    using triple_returns [OF m P', of a "snd ?m"] that P K by (simp add: on slog_def prod_eq_iff)
  show "E (slog (snd (on_exchange m s))) \<and> K (snd (on_exchange m s))"
    if "fst (on_exchange m s) = Inl a" for a
    using triple_fails [OF m P', of a "snd ?m"] that P K by (simp add: on slog_def prod_eq_iff)
qed

lemma modify_triple:
  "(\<And>s. slog (f s) = slog s) \<Longrightarrow> (\<And>s. P s \<Longrightarrow> Q () (f s)) \<Longrightarrow>
    triple (sends G slog) P (modify f) Q E"
  by (rule tripleI) (auto simp: modify_def intro: sends_same)

lemma set_configured_triple:
  "(\<And>s. P s \<Longrightarrow> Q () (s\<lparr>es_configured := k\<rparr>)) \<Longrightarrow> triple (sends G slog) P (set_configured k) Q E"
  unfolding set_configured_def by (rule modify_triple) (simp_all add: slog_def)

lemma set_dirty_triple:
  "(\<And>s. P s \<Longrightarrow> Q () (s\<lparr>es_functional_dirty := b\<rparr>)) \<Longrightarrow> triple (sends G slog) P (set_dirty b) Q E"
  unfolding set_dirty_def by (rule modify_triple) (simp_all add: slog_def)

end
