(* ===== verification/Session_Safety.thy ===== *)
theory Session_Safety
  imports Step_Logic Isotp_Reassembly
begin

text \<open>
  What a session may put on the wire, and to whom.  The adapter's header setting is read back from
  the log (\<open>header_view\<close>); a guard on every appended command says that it is either a setup
  command or a request of the closed vocabulary sent under the header setting of its recipient.
  The guard and the session invariants are carried through every operation by the rules of
  \<open>Step_Logic\<close>.
\<close>

section \<open>The vocabulary\<close>

definition SETUP_COMMANDS :: "string list" where
  "SETUP_COMMANDS = [''ATZ'', ''ATSH 7DF'', ''ATCRA''] @ INIT_COMMANDS"

text \<open>A command \<open>prefix header\<close> with a three-digit header.\<close>

definition header_setup :: "string \<Rightarrow> string \<Rightarrow> bool" where
  "header_setup p c \<longleftrightarrow>
     starts_with c p \<and> valid_header (butlast (drop (length p) c)) \<and> last c = CHR 0x0D"

definition adapter_command :: "string \<Rightarrow> bool" where
  "adapter_command c \<longleftrightarrow>
     c \<in> set (map cr SETUP_COMMANDS) \<or> header_setup ''ATSH '' c \<or> header_setup ''ATCRA '' c"

text \<open>A read service (current data, stored codes, vehicle information, data by identifier) with
  its arguments, in hexadecimal.\<close>

definition diagnostic_read :: "string \<Rightarrow> bool" where
  "diagnostic_read c \<longleftrightarrow>
     list_ex (\<lambda>service. starts_with c service) [''01'', ''03'', ''09'', ''22''] \<and>
     set (butlast c) \<subseteq> hex_chars \<and> even (length (butlast c)) \<and> last c = CHR 0x0D"

definition session_control :: "string \<Rightarrow> bool" where
  "session_control c \<longleftrightarrow> c \<in> set (map cr [''1003'', ''1001'', ''3E80''])"

lemma fmt_services: "fmt_02X 0x01 = ''01''" "fmt_02X 0x03 = ''03''" "fmt_02X 0x09 = ''09''"
    "fmt_02X 0x22 = ''22''" "fmt_02X 0x00 = ''00''" "fmt_02X 0x02 = ''02''"
  by (simp_all add: fmt_02X_def hex_digit_def)

lemma length_concat_bytes: "length (concat (map fmt_02X bs)) = 2 * length bs"
  by (induction bs) (simp_all add: length_fmt_02X)

lemma diagnostic_read_bytes:
  assumes "service \<in> {0x01, 0x03, 0x09, 0x22}"
  shows "diagnostic_read (cr (concat (map fmt_02X (service # bs))))"
proof -
  let ?c = "concat (map fmt_02X (service # bs))"
  have "set ?c \<subseteq> hex_chars" using fmt_02X_set by (auto simp del: list.map)
  moreover have "list_ex (\<lambda>s. starts_with (cr ?c) s) [''01'', ''03'', ''09'', ''22'']"
    using assms by (auto simp: fmt_services cr_def starts_with_def)
  moreover have "even (length ?c)" unfolding length_concat_bytes by (rule dvd_triv_left)
  moreover have "butlast (cr ?c) = ?c" "last (cr ?c) = CHR 0x0D"
    unfolding cr_def by (rule butlast_snoc, rule last_snoc)
  ultimately show ?thesis unfolding diagnostic_read_def by (simp only: simp_thms)
qed

lemma diagnostic_reads:
  "diagnostic_read (support_command page)" "diagnostic_read (obd_command r)"
  "diagnostic_read (uds_command did)" "diagnostic_read (did_command did)"
  "diagnostic_read (multi_command q)" "diagnostic_read (mode09_command p)"
  "diagnostic_read (cr ''0100'')" "diagnostic_read (cr ''0902'')" "diagnostic_read (cr ''03'')"
proof -
  show "diagnostic_read (support_command page)"
    using diagnostic_read_bytes [of "0x01" "[page]"] by (simp add: support_command_def fmt_services)
  show "diagnostic_read (obd_command r)"
    using diagnostic_read_bytes [of "0x01" "[rr_pid r]"]
    by (simp add: obd_command_def rr_bytes_def rr_pid_def mode01_bytes_def)
  show u: "diagnostic_read (uds_command did)"
    using diagnostic_read_bytes [of "0x22" "[did_high did, did_low did]"] by (simp add: uds_command_def)
  then show "diagnostic_read (did_command did)" by (simp only: did_command_uds)
  show "diagnostic_read (multi_command q)"
    using diagnostic_read_bytes [of "0x01" "map rr_pid (tm_requests q)"]
    by (simp add: multi_command_def fmt_services comp_def)
  show "diagnostic_read (mode09_command p)"
    using diagnostic_read_bytes [of "0x09" "[mode09_pid_byte p]"]
    by (simp add: mode09_command_def fmt_services)
  show "diagnostic_read (cr ''0100'')" "diagnostic_read (cr ''0902'')" "diagnostic_read (cr ''03'')"
    using diagnostic_read_bytes [of "0x01" "[0x00]"] diagnostic_read_bytes [of "0x09" "[0x02]"]
      diagnostic_read_bytes [of "0x03" "[]"] by (simp_all add: fmt_services)
qed

section \<open>The header setting\<close>

text \<open>A setting of the adapter: its default, a header, or not known.\<close>

datatype setting = Default | Header string | Unsettled

type_synonym headers = "setting \<times> setting"

text \<open>A rejected or lost command may have been carried out or not.\<close>

definition settle :: "setting \<Rightarrow> setting \<Rightarrow> bool \<Rightarrow> setting" where
  "settle old new accepted = (if accepted \<or> old = new then new else Unsettled)"

definition acknowledged :: "exchange_error + string \<Rightarrow> string \<Rightarrow> bool \<Rightarrow> bool" where
  "acknowledged r expected exact =
     (case r of Inl _ \<Rightarrow> False | Inr response \<Rightarrow> require_response response expected exact '''' = Inr ())"

fun header_step :: "headers \<Rightarrow> string \<times> (exchange_error + string) \<Rightarrow> headers" where
  "header_step (header, filt) (c, r) =
     (if c = cr ''ATZ''
      then let ok = acknowledged r ''ELM327'' False in (settle header Default ok, settle filt Default ok)
      else if starts_with c ''ATSH ''
      then (settle header (Header (butlast (drop 5 c))) (acknowledged r ''OK'' True), filt)
      else if starts_with c ''ATCRA''
      then (header, settle filt (Header (butlast (drop 6 c))) (acknowledged r ''OK'' True))
      else (header, filt))"

definition header_view :: "log \<Rightarrow> headers" where
  "header_view l = foldl header_step (Unsettled, Unsettled) l"

definition FUNCTIONAL :: headers where
  "FUNCTIONAL = (Default, Default)"

fun target_headers :: "target_key \<Rightarrow> headers" where
  "target_headers (h, f) = (Header h, Header f)"

definition header_command :: "string \<Rightarrow> bool" where
  "header_command c \<longleftrightarrow> c = cr ''ATZ'' \<or> starts_with c ''ATSH '' \<or> starts_with c ''ATCRA''"

lemma header_view_plain: "\<not> header_command c \<Longrightarrow> header_view (l @ [(c, r)]) = header_view l"
  by (cases "header_view l") (simp add: header_view_def header_command_def)

lemma digit_first_plain: "c = d # rest \<Longrightarrow> d \<noteq> CHR ''A'' \<Longrightarrow> \<not> header_command c"
  by (simp add: header_command_def cr_def starts_with_def)

lemma diagnostic_read_plain: "diagnostic_read c \<Longrightarrow> \<not> header_command c"
  by (cases c) (auto simp: diagnostic_read_def starts_with_def header_command_def cr_def)

lemma session_control_plain: "session_control c \<Longrightarrow> \<not> header_command c"
  by (auto simp: session_control_def starts_with_def header_command_def cr_def)

lemma require_response_error:
  "require_response response expected exact e = Inr () \<longleftrightarrow>
   require_response response expected exact e' = Inr ()"
  by (simp add: require_response_def Let_def)

lemma acknowledged_iff:
  "acknowledged (Inr response) expected exact \<longleftrightarrow> require_response response expected exact e = Inr ()"
  unfolding acknowledged_def using require_response_error by simp

section \<open>The guard\<close>

text \<open>A command is a setup command, or one of the vocabulary sent under one of the settings.\<close>

definition addressed :: "(string \<Rightarrow> bool) \<Rightarrow> headers set \<Rightarrow> log \<Rightarrow> string \<Rightarrow> bool" where
  "addressed V W l c \<longleftrightarrow> adapter_command c \<or> (V c \<and> header_view l \<in> W)"

abbreviation under :: "headers set \<Rightarrow> 'e \<times> log \<Rightarrow> bool" where
  "under W el \<equiv> header_view (snd el) \<in> W"

abbreviation asks :: "headers set \<Rightarrow> ('e \<times> log, 'x, 'a) step \<Rightarrow> bool" where
  "asks W m \<equiv> keeps (sends (addressed diagnostic_read W) snd) (under W) m"

lemma asked_keeps:
  assumes "V c" and "\<not> header_command c"
  shows "keeps (sends (addressed V W) snd) (under W) (send (logged ex) c t)"
  by (rule send_triple [where P = "\<lambda>l. header_view l \<in> W" and Q = "\<lambda>_ l. header_view l \<in> W"
        and E = "\<lambda>l. header_view l \<in> W"])
    (use assms in \<open>simp_all add: addressed_def header_view_plain\<close>)

lemma asks_send: "diagnostic_read c \<Longrightarrow> asks W (send (logged ex) c t)"
  by (rule asked_keeps [OF _ diagnostic_read_plain])

lemmas asks_reads = diagnostic_reads [THEN asks_send]

lemma discover_pages_bind:
  "discover_pages ex highest page pages discovery =
     bind_step (send ex (support_command page) 10000) (\<lambda>response.
       case normalize_pid_support_page_with_evidence response page of
         Inl err \<Rightarrow> lift_result (Inl err)
       | Inr (normalized, observations) \<Rightarrow>
           let bitmap = payload_bitmap normalized;
               found = \<lparr>ps_pages = pages @ [bitmap], ps_discovery = discovery @ observations\<rparr>
           in if highest \<le> page \<or> 256 \<le> unat page + 0x20 \<or> \<not> bitmap_supports_pid bitmap (page + 0x20)
              then ret found
              else discover_pages ex highest (page + 0x20) (ps_pages found) (ps_discovery found))"
  by (rule ext, subst discover_pages.simps)
    (auto simp: bind_step_def ret_def lift_result_def Let_def split: prod.split sum.split)

lemma asks_discover: "asks W (discover_pages (logged ex) highest page pages discovery)"
proof (induction "256 - unat page" arbitrary: page pages discovery rule: less_induct)
  case less
  have "asks W (discover_pages (logged ex) highest (page + 0x20) ps ds)"
    if "\<not> 256 \<le> unat page + 0x20" for ps ds
  proof (rule less)
    show "256 - unat (page + 0x20) < 256 - unat page" using page_step [OF that] that by simp
  qed
  then show ?case
    by (subst discover_pages_bind, intro sent.sequence [OF asks_reads(1)])
      (auto simp: Let_def intro: sent.lifts sent.returns split: sum.split)
qed

lemma asks_validate: "asks W (validate_functional_support_exchange (logged ex))"
  unfolding validate_functional_support_exchange_def
  by (intro sent.sequence [OF asks_reads(7)] sent.sequence [OF sent.lifts])
    (auto intro: sent.returns)

lemma asks_read_responses: "asks W (read_elm_responses (logged ex) r)"
  unfolding read_elm_responses_def
  by (intro sent.sequence [OF asks_reads(2)])
    (auto intro: sent.lifts sent.returns sent.raises split: sum.split failure.split)

lemma asks_retry: "asks W (retry_read (logged ex) r first e)"
  unfolding retry_read_def Let_def
  by (intro sent.handles [OF asks_read_responses])
    (auto intro: sent.returns sent.raises split: sum.split)

lemma asks_simple_reads:
  "asks W (establish_elm_protocol (logged ex))"
  "asks W (read_elm_identity (logged ex))"
  "asks W (read_elm_mode03_responses (logged ex))"
  "asks W (read_elm_ecu_identification_responses (logged ex) i)"
  "asks W (read_elm_functional_ecu_serial_responses (logged ex) p)"
  "asks W (read_elm_mode09_responses (logged ex) m)"
  "asks W (discover_pid_support (logged ex) highest)"
  unfolding establish_elm_protocol_def read_elm_identity_def
    read_elm_mode03_responses_def read_elm_ecu_identification_responses_def
    read_elm_functional_ecu_serial_responses_def read_elm_mode09_responses_def
    discover_pid_support_def Let_def
  by (intro asks_validate asks_discover sent.sequence [OF asks_reads(8)] sent.sequence [OF asks_reads(9)]
      sent.sequence [OF asks_reads(3)] sent.sequence [OF asks_reads(6)]
      sent.sequence [OF asks_validate] sent.sequence [OF sent.requires] sent.requires sent.returns)+

lemma asks_read_evidence: "asks W (read_elm_with_evidence (logged ex) r)"
  unfolding read_elm_with_evidence_def
  by (intro sent.handles [OF asks_read_responses])
    (auto intro: sent.returns sent.raises asks_retry split: sum.split)

lemma asks_identification: "asks W (identification_read (logged ex) i)"
  unfolding identification_read_def Let_def
  by (intro sent.handles [OF asks_simple_reads(4)])
    (auto intro: sent.returns sent.raises sent.handles [OF asks_simple_reads(4)])

section \<open>Setup\<close>

text \<open>Settings a reset keeps inside the set, whether it is acknowledged or not.\<close>

definition resettable :: "headers set \<Rightarrow> bool" where
  "resettable W \<longleftrightarrow> FUNCTIONAL \<in> W \<and> (\<forall>v \<in> W. \<forall>r. header_step v (cr ''ATZ'', r) \<in> W)"

lemma resettable_sets: "resettable {FUNCTIONAL}" "resettable UNIV"
  by (simp_all add: resettable_def FUNCTIONAL_def settle_def Let_def)

lemma header_view_snoc: "header_view (l @ [entry]) = header_step (header_view l) entry"
  by (simp add: header_view_def)

lemma setup_allowed: "c \<in> set SETUP_COMMANDS \<Longrightarrow> addressed V W l (cr c)"
  by (simp add: addressed_def adapter_command_def)

lemma init_plain: "c \<in> set INIT_COMMANDS \<Longrightarrow> \<not> header_command (cr c)"
  by (auto simp: INIT_COMMANDS_def header_command_def cr_def starts_with_def)

lemma init_setup_keeps:
  "set (map fst cs) \<subseteq> set INIT_COMMANDS \<Longrightarrow>
    keeps (sends (addressed V W) snd) (\<lambda>el. b \<longrightarrow> under U el) (send_setup (logged ex) cs)"
proof (induction cs)
  case (Cons entry cs)
  obtain c e where entry: "entry = (c, e)" by (cases entry)
  have c: "c \<in> set INIT_COMMANDS" using Cons.prems entry by simp
  have "keeps (sends (addressed V W) snd) (\<lambda>el. b \<longrightarrow> under U el) (send (logged ex) (cr c) t)" for t
    by (rule send_triple [where P = "\<lambda>l. b \<longrightarrow> header_view l \<in> U" and Q = "\<lambda>_ l. b \<longrightarrow> header_view l \<in> U"
          and E = "\<lambda>l. b \<longrightarrow> header_view l \<in> U"])
      (use c init_plain [OF c] in \<open>simp_all add: setup_allowed SETUP_COMMANDS_def header_view_plain\<close>)
  then show ?case
    unfolding entry send_setup.simps
    using Cons by (intro sent.sequence [OF _ sent.sequence [OF sent.requires]]) auto
next
  case Nil
  show ?case unfolding send_setup.simps by (rule sent.returns)
qed

lemma reset_view:
  assumes "acknowledged (Inr y) ''ELM327'' False"
  shows "header_step v (cr ''ATZ'', Inr y) = FUNCTIONAL"
  using assms by (cases v) (simp add: settle_def FUNCTIONAL_def)

lemma initialize_triple:
  assumes W: "resettable W"
  shows "triple (sends (addressed V W) snd) (\<lambda>el. b \<longrightarrow> under W el) (initialize_elm (logged ex))
     (\<lambda>_. under W) (\<lambda>el. b \<longrightarrow> under W el)"
proof -
  let ?R = "sends (addressed V W) snd"
  let ?P = "\<lambda>el. b \<longrightarrow> under W el"
  let ?ready = "\<lambda>y el. (acknowledged (Inr y) ''ELM327'' False \<longrightarrow> under W el) \<and> (b \<longrightarrow> under W el)"
  have reset: "triple ?R ?P (send (logged ex) (cr ''ATZ'') 3000) ?ready ?P"
  proof (rule send_triple [where P = "\<lambda>l. b \<longrightarrow> header_view l \<in> W"
        and Q = "\<lambda>y l. (acknowledged (Inr y) ''ELM327'' False \<longrightarrow> header_view l \<in> W) \<and> (b \<longrightarrow> header_view l \<in> W)"
        and E = "\<lambda>l. b \<longrightarrow> header_view l \<in> W"])
    show "addressed V W l (cr ''ATZ'')" for l by (rule setup_allowed) (simp add: SETUP_COMMANDS_def)
    show "(acknowledged (Inr y) ''ELM327'' False \<longrightarrow> header_view (l @ [(cr ''ATZ'', Inr y)]) \<in> W) \<and>
        (b \<longrightarrow> header_view (l @ [(cr ''ATZ'', Inr y)]) \<in> W)" if "b \<longrightarrow> header_view l \<in> W" for l y
      using that W reset_view unfolding resettable_def header_view_snoc by metis
    show "b \<longrightarrow> header_view (l @ [(cr ''ATZ'', Inl x)]) \<in> W" if "b \<longrightarrow> header_view l \<in> W" for l x
      using that W unfolding resettable_def header_view_snoc by blast
  qed
  have rest: "triple ?R (under W) (send_setup (logged ex) (map (\<lambda>c. (c, c @ '' failed'')) INIT_COMMANDS))
      (\<lambda>_. under W) ?P"
    by (rule triple_weaken [OF init_setup_keeps [of _ _ _ True W]]) (auto simp: comp_def)
  show ?thesis
    unfolding initialize_elm_def
    by (rule sent.sequence [OF reset], rule sent.sequence [OF sent.required],
        simp, rule triple_weaken [OF rest])
      (simp_all flip: acknowledged_iff)
qed

definition key_ok :: "target_key \<Rightarrow> bool" where
  "key_ok k \<longleftrightarrow> valid_header (fst k) \<and> valid_header (snd k)"

lemma cr_append: "cr (xs @ h) = xs @ cr h"
  by (simp add: cr_def)

lemma header_setup_allowed:
  assumes "valid_header h"
  shows "addressed V W l (cr (''ATSH '' @ h))" "addressed V W l (cr (''ATCRA '' @ h))"
  using assms unfolding addressed_def adapter_command_def header_setup_def
  by (simp_all add: cr_def starts_with_def)

lemma setup_triple:
  assumes "\<And>l. addressed V W l (cr c)"
    and "\<And>y. acknowledged (Inr y) ''OK'' True \<Longrightarrow>
      triple (sends (addressed V W) snd) (\<lambda>el. header_view (snd el) = header_step v (cr c, Inr y))
        (send_setup (logged ex) cs) Q (\<lambda>_. True)"
  shows "triple (sends (addressed V W) snd) (\<lambda>el. header_view (snd el) = v)
    (send_setup (logged ex) ((c, e) # cs)) Q (\<lambda>_. True)"
proof -
  let ?R = "sends (addressed V W) snd"
  have "triple ?R (\<lambda>el. header_view (snd el) = v) (send (logged ex) (cr c) 3000)
      (\<lambda>y el. header_view (snd el) = header_step v (cr c, Inr y)) (\<lambda>_. True)"
    by (rule send_triple [where P = "\<lambda>l. header_view l = v"
          and Q = "\<lambda>y l. header_view l = header_step v (cr c, Inr y)" and E = "\<lambda>_. True"])
      (simp_all add: assms(1) header_view_snoc)
  moreover have "triple ?R (\<lambda>el. header_view (snd el) = header_step v (cr c, Inr y))
      (bind_step (require (require_response y ''OK'' True e)) (\<lambda>_. send_setup (logged ex) cs)) Q (\<lambda>_. True)" for y
  proof (cases "acknowledged (Inr y) ''OK'' True")
    case True
    then show ?thesis
      by (intro sent.sequence [OF sent.required]) (auto intro: triple_weaken [OF assms(2) [OF True]])
  next
    case False
    have "triple ?R (\<lambda>_. False) m Q (\<lambda>_. True)" for m :: "('a \<times> log, string, unit) step"
      by (simp add: triple_def)
    then show ?thesis using False
      by (intro sent.sequence [OF sent.required]) (simp_all add: acknowledged_iff [of _ _ _ e])
  qed
  ultimately show ?thesis unfolding send_setup.simps by (rule sent.sequence)
qed

lemma configure_triple:
  assumes k: "target_key t expected = Inr k" "key_ok k" and W: "target_headers k \<in> W"
  shows "triple (sends (addressed V W) snd) (\<lambda>_. True) (configure_target (logged ex) t expected)
    (\<lambda>_. under W) (\<lambda>_. True)"
proof (rule triple_cases [where f = "\<lambda>el. header_view (snd el)"], unfold simp_thms)
  fix v
  obtain h f where kv: "k = (h, f)" "valid_header h" "valid_header f"
    using k(2) by (cases k) (auto simp: key_ok_def)
  let ?atsh = "''ATSH '' @ h" and ?atcra = "''ATCRA '' @ f"
  have *: "header_step (header_step v (cr ?atsh, Inr y)) (cr ?atcra, Inr z) = target_headers k"
    if "acknowledged (Inr y) ''OK'' True" "acknowledged (Inr z) ''OK'' True" for y z
    using that by (cases v) (simp add: kv settle_def cr_def starts_with_def)
  have "triple (sends (addressed V W) snd) (\<lambda>el. header_view (snd el) = v)
      (send_setup (logged ex) [(?atsh, e), (?atcra, e')]) (\<lambda>_. under W) (\<lambda>_. True)" for e e'
    by (intro setup_triple header_setup_allowed kv, unfold send_setup.simps(1), rule sent.returned)
      (simp only: * W)
  then show "triple (sends (addressed V W) snd) (\<lambda>el. header_view (snd el) = v)
      (configure_target (logged ex) t expected) (\<lambda>_. under W) (\<lambda>_. True)"
    unfolding configure_target_def k(1) kv(1) bind_lift prod.case .
qed

lemma restore_triple:
  "triple (sends (addressed V W) snd) (\<lambda>_. True) (restore_functional (logged ex)) (\<lambda>_ _. True) (\<lambda>_. True)"
  unfolding restore_functional_def
  by (rule triple_cases [where f = "\<lambda>el. header_view (snd el)"], unfold simp_thms)
    (intro setup_triple setup_allowed, simp_all only: send_setup.simps(1),
      (simp add: SETUP_COMMANDS_def | rule sent.returned)+)

section \<open>Functional operations\<close>

text \<open>A session without the mark is under one of the settings and has no target configured.\<close>

definition clean :: "headers set \<Rightarrow> ('e \<times> log) elm_session \<Rightarrow> bool" where
  "clean W s \<longleftrightarrow>
     (\<not> es_functional_dirty s \<longrightarrow> header_view (slog s) \<in> W \<and> es_configured s = None)"

definition functional_ready :: "headers set \<Rightarrow> ('e \<times> log) elm_session \<Rightarrow> bool" where
  "functional_ready W s \<longleftrightarrow>
     header_view (slog s) \<in> W \<and> \<not> es_functional_dirty s \<and> es_configured s = None"

lemma functional_ready_clean: "functional_ready W s \<Longrightarrow> clean W s"
  by (simp add: functional_ready_def clean_def)

text \<open>An exchange-level read run in a session keeps what does not depend on the exchange.\<close>

lemma asks_on_exchange:
  assumes "keeps (sends (addressed V W) snd) (under W) m" and "\<And>s x. K (s\<lparr>es_exchange := x\<rparr>) = K s"
  shows "keeps (sends (addressed V W) slog) (\<lambda>s. header_view (slog s) \<in> W \<and> K s) (on_exchange m)"
  by (rule on_exchange_triple [where P = "\<lambda>l. header_view l \<in> W" and Q = "\<lambda>_ l. header_view l \<in> W"
        and E = "\<lambda>l. header_view l \<in> W", OF assms])

lemma asks_ready:
  "asks W m \<Longrightarrow> keeps (sends (addressed diagnostic_read W) slog) (functional_ready W) (on_exchange m)"
  unfolding functional_ready_def by (rule asks_on_exchange) simp_all

lemma reinitialize_triple:
  assumes W: "resettable W"
  shows "triple (sends (addressed diagnostic_read W) slog) (clean W) (reinitialize (logged ex))
    (\<lambda>_. functional_ready W) (clean W)"
proof (rule triple_cases [where f = es_functional_dirty])
  fix d
  let ?R = "sends (addressed diagnostic_read W) slog"
  let ?K = "\<lambda>s. es_functional_dirty s = d \<and> (\<not> d \<longrightarrow> es_configured s = None)"
  have init: "triple ?R (\<lambda>s. (\<not> d \<longrightarrow> header_view (slog s) \<in> W) \<and> ?K s) (on_exchange (initialize_elm (logged ex)))
      (\<lambda>_ s. header_view (slog s) \<in> W \<and> ?K s) (\<lambda>s. (\<not> d \<longrightarrow> header_view (slog s) \<in> W) \<and> ?K s)"
    by (rule on_exchange_triple [where P = "\<lambda>l. \<not> d \<longrightarrow> header_view l \<in> W" and K = ?K
        and Q = "\<lambda>_ l. header_view l \<in> W" and E = "\<lambda>l. \<not> d \<longrightarrow> header_view l \<in> W", OF initialize_triple [OF W]])
      simp
  have found: "keeps ?R (\<lambda>s. header_view (slog s) \<in> W \<and> ?K s) (discover_support (logged ex) highest_catalog_page)"
    unfolding discover_support_def
    by (rule sent.sequence [OF asks_on_exchange [where K = ?K, OF asks_simple_reads(7)]])
      (auto intro!: modify_triple simp: slog_def)
  show "triple ?R (\<lambda>s. clean W s \<and> es_functional_dirty s = d) (reinitialize (logged ex))
      (\<lambda>_. functional_ready W) (clean W)"
    unfolding reinitialize_def
    by (rule triple_weaken [where P = "\<lambda>s. (\<not> d \<longrightarrow> header_view (slog s) \<in> W) \<and> ?K s"
        and Q = "\<lambda>_. functional_ready W" and E = "\<lambda>s. (\<not> d \<longrightarrow> header_view (slog s) \<in> W) \<and> ?K s"],
        rule sent.sequence [OF init],
        rule sent.sequence [OF triple_weaken [OF found, where E' = "\<lambda>s. (\<not> d \<longrightarrow> header_view (slog s) \<in> W) \<and> ?K s"]],
        assumption, assumption, simp,
        rule sent.sequence [OF set_dirty_triple [where Q = "\<lambda>_ s. header_view (slog s) \<in> W \<and> \<not> es_functional_dirty s"]],
        simp add: slog_def, rule set_configured_triple)
      (auto simp: functional_ready_def clean_def slog_def)
qed

lemma ensure_functional_triple:
  assumes W: "resettable W"
  shows "triple (sends (addressed diagnostic_read W) slog) (clean W) (ensure_functional (logged ex))
    (\<lambda>_. functional_ready W) (clean W)"
proof -
  have "ensure_functional (logged ex) = (\<lambda>s. if es_functional_dirty s then reinitialize (logged ex) s else ret () s)"
    by (rule ext) (simp add: ensure_functional_def)
  then show ?thesis
    by (simp only:) (intro triple_branches triple_weaken [OF reinitialize_triple [OF W]] sent.returned;
      simp add: clean_def functional_ready_def)
qed

lemma functional_triple:
  assumes "resettable W" and "asks W m"
  shows "keeps (sends (addressed diagnostic_read W) slog) (clean W)
    (bind_step (ensure_functional (logged ex)) (\<lambda>_. on_exchange m))"
  by (rule sent.sequence [OF ensure_functional_triple [OF assms(1)]],
      rule triple_weaken [OF asks_ready [OF assms(2)]])
    (simp_all add: functional_ready_clean)

lemma read_evidence_triple:
  assumes W: "resettable W"
  shows "keeps (sends (addressed diagnostic_read W) slog) (clean W) (read_with_evidence (logged ex) r)"
  unfolding read_with_evidence_def
proof (rule sent.sequence [OF sent.maps_error [OF ensure_functional_triple [OF W]]])
  show "triple (sends (addressed diagnostic_read W) slog) (functional_ready W)
     (\<lambda>s. if \<not> supports_pid (es_supported s) (rr_pid r)
       then fail_step (evidence_error (''vehicle does not advertise support for '' @ hex (rr_bytes r))) s
       else on_exchange (read_elm_with_evidence (logged ex) r) s) (\<lambda>_. clean W) (clean W)"
    by (intro triple_branches triple_weaken [OF sent.raises]
        triple_weaken [OF asks_ready [OF asks_read_evidence]]) (auto simp: functional_ready_clean)
qed

section \<open>Targeted operations\<close>

text \<open>While a target is marked as configured, the adapter is under its setting.\<close>

definition coherent :: "(target_key \<Rightarrow> headers set) \<Rightarrow> ('e \<times> log) elm_session \<Rightarrow> bool" where
  "coherent D s \<longleftrightarrow> (\<forall>k. es_configured s = Some k \<longrightarrow> header_view (slog s) \<in> D k)"

lemma coherentD: "coherent D s \<Longrightarrow> es_configured s = Some k \<Longrightarrow> header_view (slog s) \<in> D k"
  unfolding coherent_def by blast

text \<open>The target of an operation: its key, with two valid headers, under one of its settings.\<close>

definition reaches :: "(target_key \<Rightarrow> headers set) \<Rightarrow> request_target \<Rightarrow> responder_identity \<Rightarrow> target_key \<Rightarrow> bool"
where
  "reaches D t expected k \<longleftrightarrow>
     target_key t expected = Inr k \<and> key_ok k \<and> target_headers k \<in> D k"

lemma reachesD:
  assumes "reaches D t expected k"
  shows "target_key t expected = Inr k" and "key_ok k" and "target_headers k \<in> D k"
  using assms unfolding reaches_def by blast+

definition marked :: "(target_key \<Rightarrow> headers set) \<Rightarrow> ('e \<times> log) elm_session \<Rightarrow> bool" where
  "marked D s \<longleftrightarrow> coherent D s \<and> es_functional_dirty s"

definition target_ready :: "(target_key \<Rightarrow> headers set) \<Rightarrow> target_key \<Rightarrow> ('e \<times> log) elm_session \<Rightarrow> bool" where
  "target_ready D k s \<longleftrightarrow>
     header_view (slog s) \<in> D k \<and> es_functional_dirty s \<and> es_configured s = Some k"

lemma target_ready_marked: "target_ready D k s \<Longrightarrow> marked D s"
  by (simp add: target_ready_def marked_def coherent_def)

text \<open>The setting with no target marked: nothing is known of the adapter.\<close>

definition unmarked :: "('e \<times> log) elm_session \<Rightarrow> bool" where
  "unmarked s \<longleftrightarrow> es_functional_dirty s \<and> es_configured s = None"

lemma unmarked_marked: "unmarked s \<Longrightarrow> marked D s"
  by (simp add: unmarked_def marked_def coherent_def)

lemma set_dirty_marked: "triple (sends G slog) (coherent D) (set_dirty True) (\<lambda>_. marked D) (marked D)"
  by (rule set_dirty_triple) (simp add: marked_def coherent_def slog_def)

lemma set_unmarked: "triple (sends G slog) (marked D) (set_configured None) (\<lambda>_. unmarked) E"
  by (rule set_configured_triple) (simp add: unmarked_def marked_def)

lemma drop_target:
  "triple (sends G slog) es_functional_dirty (bind_step (set_configured None) (\<lambda>_. fail_step e)) Q (marked D)"
  by (rule sent.sequence [OF set_configured_triple [where Q = "\<lambda>_. unmarked"]])
    (auto simp: unmarked_def intro: triple_weaken [OF sent.raises] unmarked_marked)

lemma configure_session_triple:
  assumes key: "reaches D t expected k"
  shows "triple (sends (addressed V (D k)) slog) unmarked (on_exchange (configure_target (logged ex) t expected))
    (\<lambda>_ s. header_view (slog s) \<in> D k \<and> unmarked s) unmarked"
  by (rule triple_weaken [OF on_exchange_triple [where P = "\<lambda>_. True" and Q = "\<lambda>_ l. header_view l \<in> D k"
        and E = "\<lambda>_. True" and K = unmarked, OF configure_triple [OF reachesD [OF key]]]])
    (simp_all add: unmarked_def)

lemma restore_session_triple:
  "keeps (sends (addressed V W) slog) unmarked (on_exchange (restore_functional (logged ex)))"
  by (rule triple_weaken [OF on_exchange_triple [where P = "\<lambda>_. True" and Q = "\<lambda>_ _. True"
        and E = "\<lambda>_. True" and K = unmarked, OF restore_triple]])
    (simp_all add: unmarked_def)

lemma ensure_configured_triple:
  assumes key: "reaches D t expected k"
  shows "triple (sends (addressed V (D k)) slog) (marked D) (ensure_configured (logged ex) t expected)
    (\<lambda>_. target_ready D k) (marked D)"
proof -
  let ?R = "sends (addressed V (D k)) slog"
  have configured: "triple ?R (marked D)
      (bind_step (set_configured None) (\<lambda>_.
       bind_step (map_error evidence_error (on_exchange (configure_target (logged ex) t expected)))
         (\<lambda>_. set_configured (Some k)))) (\<lambda>_. target_ready D k) (marked D)"
    by (intro sent.sequence [OF set_unmarked] set_configured_triple
        sent.sequence [OF sent.maps_error [OF triple_weaken [OF configure_session_triple
          [OF key], where P' = unmarked
            and Q' = "\<lambda>_ s. header_view (slog s) \<in> D k \<and> unmarked s" and E' = "marked D"]]])
      (simp_all add: target_ready_def unmarked_def slog_def unmarked_marked [unfolded unmarked_def])
  show ?thesis
    unfolding ensure_configured_def reachesD(1) [OF key] map_sum.simps id_apply bind_lift
    by (intro triple_branches sent.returned triple_weaken [OF configured];
      auto simp: target_ready_def marked_def dest: coherentD)
qed

lemma exchange_configured_triple:
  assumes "V c" and "\<not> header_command c"
  shows "triple (sends (addressed V (D k)) slog) (target_ready D k) (exchange_configured (logged ex) c)
    (\<lambda>_. target_ready D k) (marked D)"
proof -
  have "keeps (sends (addressed V (D k)) slog) (target_ready D k)
      (on_exchange (send (logged ex) c COMMAND_TIMEOUT))"
    unfolding target_ready_def by (rule asks_on_exchange [OF asked_keeps [where V = V and c = c, OF assms]]) simp
  then show ?thesis
    unfolding exchange_configured_def
    by (rule sent.handles) (auto intro: triple_weaken [OF drop_target] sent.returned target_ready_marked
        simp: target_ready_def)
qed

lemma select_payload_triple:
  "triple (sends G slog) (target_ready D k) (select_payload explain responses expected)
    (\<lambda>_. marked D) (marked D)"
  unfolding select_payload_def
  by (auto intro: sent.returned triple_weaken [OF sent.raises] target_ready_marked split: sum.split)

text \<open>The operations that keep the target configured.\<close>

lemma targeted_op:
  assumes key: "reaches D t expected k"
    and m: "triple (sends (addressed V (D k)) slog) (target_ready D k) m (\<lambda>_. marked D) (marked D)"
  shows "triple (sends (addressed V (D k)) slog) (coherent D)
    (bind_step (set_dirty True) (\<lambda>_. bind_step (ensure_configured (logged ex) t expected) (\<lambda>_. m)))
    (\<lambda>_. marked D) (marked D)"
  by (rule sent.sequence [OF set_dirty_marked],
      rule sent.sequence [OF ensure_configured_triple [OF key] m])

lemma raise_marked: "triple (sends G slog) (target_ready D k) (fail_step e) Q (marked D)"
  by (rule triple_weaken [OF sent.raises]) (simp_all add: target_ready_marked)

lemma return_marked: "triple (sends G slog) (target_ready D k) (ret a) (\<lambda>_. marked D) E"
  by (rule sent.returned) (rule target_ready_marked)

lemma did_triple:
  assumes "reaches D t expected k"
  shows "triple (sends (addressed diagnostic_read (D k)) slog) (coherent D)
    (read_did_once (logged ex) did t expected) (\<lambda>_. marked D) (marked D)"
  unfolding read_did_once_def Let_def
  by (intro targeted_op [OF assms] sent.sequence [OF exchange_configured_triple]
      diagnostic_reads diagnostic_read_plain select_payload_triple)

lemma multi_triple:
  assumes "reaches D (tm_target r) (tm_expected r) k"
  shows "triple (sends (addressed diagnostic_read (D k)) slog) (coherent D)
    (read_multi_targeted_with_evidence (logged ex) r) (\<lambda>_. marked D) (marked D)"
  unfolding read_multi_targeted_with_evidence_def Let_def
  by (intro targeted_op [OF assms] sent.sequence [OF exchange_configured_triple]
      diagnostic_reads diagnostic_read_plain select_payload_triple)

lemma session_triple:
  assumes "reaches D t expected k"
  shows "triple (sends (addressed session_control (D k)) slog) (coherent D)
    (uds_session_command (logged ex) command t expected) (\<lambda>_. marked D) (marked D)"
proof -
  have control: "session_control (cr (fst (session_wire command)))"
    by (cases command) (simp_all add: session_control_def)
  show ?thesis
    unfolding uds_session_command_def Let_def prod.case_eq_if
    by (intro targeted_op [OF assms] sent.sequence [OF exchange_configured_triple [where V = session_control]]
        control session_control_plain [OF control])
      (auto intro: raise_marked return_marked split: sum.split)
qed

lemma targeted_read_triple:
  assumes "reaches D (tr_target r) (tr_expected r) k"
  shows "triple (sends (addressed diagnostic_read (D k)) slog) (coherent D)
    (read_targeted_with_evidence (logged ex) r) (\<lambda>_. marked D) (marked D)"
proof -
  have "keeps (sends (addressed diagnostic_read (D k)) slog) (target_ready D k)
      (on_exchange (read_elm_responses (logged ex) (tr_request r)))"
    unfolding target_ready_def by (rule asks_on_exchange [OF asks_read_responses]) simp
  then show ?thesis
    unfolding read_targeted_with_evidence_def
    by (intro targeted_op [OF assms], rule sent.handles)
      (auto intro: triple_weaken [OF drop_target] select_payload_triple target_ready_marked
        simp: target_ready_def)
qed

text \<open>The operations that configure, read and restore.\<close>

definition reading :: "headers set \<Rightarrow> ('e \<times> log) elm_session \<Rightarrow> bool" where
  "reading W s \<longleftrightarrow> header_view (slog s) \<in> W \<and> unmarked s"

lemma restoring:
  assumes "\<And>s. P s \<Longrightarrow> unmarked s"
    and "triple (sends (addressed V W) slog) unmarked m (\<lambda>_. unmarked) unmarked"
  shows "triple (sends (addressed V W) slog) P
    (catch_step (on_exchange (restore_functional (logged ex))) (\<lambda>e. fail_step (h e)) (\<lambda>_. m))
    (\<lambda>_. unmarked) unmarked"
proof -
  have "triple (sends (addressed V W) slog) unmarked
    (catch_step (on_exchange (restore_functional (logged ex))) (\<lambda>e. fail_step (h e)) (\<lambda>_. m))
    (\<lambda>_. unmarked) unmarked"
    by (intro sent.handles [OF restore_session_triple] sent.raises assms(2))
  then show ?thesis using assms(1) by (rule triple_weaken)
qed

lemma around_op:
  assumes key: "reaches D t expected k"
    and m: "keeps (sends (addressed V (D k)) slog) (reading (D k)) m"
  shows "triple (sends (addressed V (D k)) slog) (coherent D)
    (bind_step (set_dirty True) (\<lambda>_. bind_step (set_configured None) (\<lambda>_.
       catch_step (on_exchange (configure_target (logged ex) t expected))
         (\<lambda>error. catch_step (on_exchange (restore_functional (logged ex)))
            (\<lambda>restore. fail_step (e1 error restore)) (\<lambda>_. fail_step (e2 error)))
         (\<lambda>_. catch_step m
            (\<lambda>error. catch_step (on_exchange (restore_functional (logged ex)))
               (\<lambda>restore. fail_step (e3 error restore)) (\<lambda>_. fail_step error))
            (\<lambda>a. catch_step (on_exchange (restore_functional (logged ex)))
               (\<lambda>restore. fail_step (e4 a restore)) (\<lambda>_. ret a))))))
    (\<lambda>_. marked D) (marked D)"
proof -
  let ?R = "sends (addressed V (D k)) slog"
  have conf: "triple ?R unmarked (on_exchange (configure_target (logged ex) t expected))
      (\<lambda>_. reading (D k)) unmarked"
    unfolding reading_def by (rule configure_session_triple [OF key])
  have body: "triple ?R (reading (D k)) (catch_step m
        (\<lambda>error. catch_step (on_exchange (restore_functional (logged ex)))
           (\<lambda>restore. fail_step (e3 error restore)) (\<lambda>_. fail_step error))
        (\<lambda>a. catch_step (on_exchange (restore_functional (logged ex)))
           (\<lambda>restore. fail_step (e4 a restore)) (\<lambda>_. ret a))) (\<lambda>_. unmarked) unmarked"
    by (intro sent.handles [OF m] restoring sent.raises sent.returns) (simp_all add: reading_def)
  have "triple ?R unmarked (catch_step (on_exchange (configure_target (logged ex) t expected))
         (\<lambda>error. catch_step (on_exchange (restore_functional (logged ex)))
            (\<lambda>restore. fail_step (e1 error restore)) (\<lambda>_. fail_step (e2 error)))
         (\<lambda>_. catch_step m
            (\<lambda>error. catch_step (on_exchange (restore_functional (logged ex)))
               (\<lambda>restore. fail_step (e3 error restore)) (\<lambda>_. fail_step error))
            (\<lambda>a. catch_step (on_exchange (restore_functional (logged ex)))
               (\<lambda>restore. fail_step (e4 a restore)) (\<lambda>_. ret a)))) (\<lambda>_. unmarked) unmarked"
    by (intro sent.handles [OF conf] body restoring sent.raises)
  then show ?thesis
    by (intro sent.sequence [OF set_dirty_marked] sent.sequence [OF set_unmarked])
      (erule triple_weaken, simp_all add: unmarked_marked)
qed

lemma reading_on_exchange: "asks W m \<Longrightarrow>
    keeps (sends (addressed diagnostic_read W) slog) (reading W) (on_exchange m)"
  unfolding reading_def unmarked_def by (rule asks_on_exchange) simp_all

lemma mode09_triple:
  assumes "reaches D (t9_target r) (t9_expected r) k"
  shows "triple (sends (addressed diagnostic_read (D k)) slog) (coherent D)
    (read_mode09 (logged ex) r) (\<lambda>_. marked D) (marked D)"
  unfolding read_mode09_def
  by (intro around_op [OF assms] sent.sequence [OF reading_on_exchange [OF asks_simple_reads(6)]]
      sent.sequence [OF sent.requires] sent.returns)

lemma identification_triple:
  assumes "reaches D (ti_target r) (ti_expected r) k"
  shows "triple (sends (addressed diagnostic_read (D k)) slog) (coherent D)
    (read_ecu_identification_with_evidence (logged ex) r) (\<lambda>_. marked D) (marked D)"
  unfolding read_ecu_identification_with_evidence_def
  by (intro around_op [OF assms] reading_on_exchange [OF asks_identification])

lemma restore_call_triple:
  "triple (sends (addressed V W) slog) (\<lambda>_. True) (restore_functional_addressing (logged ex))
    (\<lambda>_. unmarked) unmarked"
  unfolding restore_functional_addressing_def
  by (intro sent.sequence [OF set_configured_triple [where Q = "\<lambda>_ s. es_configured s = None"]]
      sent.sequence [OF set_dirty_triple [where Q = "\<lambda>_. unmarked"]] restore_session_triple)
    (simp_all add: unmarked_def)

end
