(* ===== verification/Session_Calls.thy ===== *)
theory Session_Calls
  imports Session_Safety
begin

text \<open>
  The session as a whole: any sequence of calls of \<open>ElmSession\<close>, started by whoever holds it.  The
  commands such a sequence sends are closed, every request is sent under the header setting of its
  recipient, and the one way to break the second, a failed reinitialisation, is shown to break it.
\<close>

section \<open>Calls\<close>

fun run_calls :: "'e exchange \<Rightarrow> session_call list \<Rightarrow> 'e elm_session \<Rightarrow> 'e elm_session" where
  "run_calls ex [] s = s"
| "run_calls ex (c # cs) s = run_calls ex cs (run_call ex c s)"

text \<open>The target of a call; the others address the vehicle functionally or only set the adapter up.\<close>

fun call_target :: "session_call \<Rightarrow> (request_target \<times> responder_identity) option" where
  "call_target (Call_Targeted r) = Some (tr_target r, tr_expected r)"
| "call_target (Call_Multi r) = Some (tm_target r, tm_expected r)"
| "call_target (Call_Did did t i) = Some (t, i)"
| "call_target (Call_Session c t i) = Some (t, i)"
| "call_target (Call_Mode09 r) = Some (t9_target r, t9_expected r)"
| "call_target (Call_Identification r) = Some (ti_target r, ti_expected r)"
| "call_target _ = None"

fun is_session_call :: "session_call \<Rightarrow> bool" where
  "is_session_call (Call_Session _ _ _) = True"
| "is_session_call _ = False"

definition call_vocabulary :: "session_call \<Rightarrow> string \<Rightarrow> bool" where
  "call_vocabulary c = (if is_session_call c then session_control else diagnostic_read)"

text \<open>What the request constructors guarantee of a target.\<close>

definition target_ok :: "request_target \<Rightarrow> responder_identity \<Rightarrow> bool" where
  "target_ok t expected \<longleftrightarrow>
     validate_request_target t = Inr () \<and> valid_header (responder_str expected)"

definition call_ok :: "session_call \<Rightarrow> bool" where
  "call_ok c \<longleftrightarrow> (case call_target c of None \<Rightarrow> True | Some (t, expected) \<Rightarrow> target_ok t expected)"

definition call_headers :: "session_call \<Rightarrow> headers" where
  "call_headers c =
     (case call_target c of
        Some (t, expected) \<Rightarrow> (case target_key t expected of Inr k \<Rightarrow> target_headers k | Inl _ \<Rightarrow> FUNCTIONAL)
      | None \<Rightarrow> FUNCTIONAL)"

lemma header_value_upper:
  "validate_header_value h label = Inr () \<Longrightarrow> valid_header (to_ascii_uppercase h)"
  by (auto simp: validate_header_value_def upper_header_valid split: if_splits)

lemma target_ok_key:
  assumes "target_ok t expected"
  obtains k where "target_key t expected = Inr k" "key_ok k"
  using assms header_value_upper that
  by (auto simp: target_ok_def target_key_def validate_request_target_def key_ok_def
      split: if_splits option.splits)

text \<open>Requests built by their constructors make well-formed calls.\<close>

lemma constructed_calls:
  "targeted_read_new r t i = Inr q \<Longrightarrow> call_ok (Call_Targeted q)"
  "targeted_multi_new rs t i = Inr m \<Longrightarrow> call_ok (Call_Multi m)"
  "targeted_mode09_new p t i = Inr n \<Longrightarrow> call_ok (Call_Mode09 n)"
  "targeted_identification_new c t i = Inr o' \<Longrightarrow> call_ok (Call_Identification o')"
  using header_value_upper
  by (auto simp: call_ok_def target_ok_def targeted_read_new_def targeted_multi_new_def
      targeted_mode09_new_def targeted_identification_new_def validate_elm_header_def
      upper_responder_def split: if_splits)

section \<open>One call\<close>

lemma ends: "triple R P m (\<lambda>_. Q) Q \<Longrightarrow> P s \<Longrightarrow> R s (snd (m s)) \<and> Q (snd (m s))"
  unfolding triple_def by (cases "fst (m s)") force+

lemma run_call_functional:
  assumes W: "resettable W" and c: "call_target c = None" and s: "clean W s"
  shows "sends (addressed diagnostic_read W) slog s (run_call (logged ex) c s) \<and>
    clean W (run_call (logged ex) c s)"
proof (cases c)
  case Call_Reinitialize
  have "keeps (sends (addressed diagnostic_read W) slog) (clean W) (reinitialize (logged ex))"
    by (rule triple_weaken [OF reinitialize_triple [OF W]]) (simp_all add: functional_ready_clean)
  then show ?thesis using ends s Call_Reinitialize by fastforce
next
  case Call_Restore
  then show ?thesis
    using ends [OF restore_call_triple, where s = s] by (auto simp: unmarked_def clean_def)
next
  case (Call_Read r)
  then show ?thesis using ends [OF read_evidence_triple [OF W]] s by simp
next
  case Call_Establish
  then show ?thesis
    using ends [OF functional_triple [OF W asks_simple_reads(1)]] s by (simp add: establish_protocol_def)
next
  case Call_Identify
  then show ?thesis
    using ends [OF functional_triple [OF W asks_simple_reads(2)]] s by (simp add: identify_def)
next
  case Call_ValidateSupport
  then show ?thesis
    using ends [OF functional_triple [OF W asks_validate]] s by (simp add: validate_functional_support_def)
next
  case Call_Dtcs
  then show ?thesis
    using ends [OF functional_triple [OF W asks_simple_reads(3)]] s by (simp add: read_stored_dtcs_def)
next
  case (Call_Serials p)
  then show ?thesis
    using ends [OF functional_triple [OF W asks_simple_reads(5)]] s
    by (simp add: read_functional_ecu_serials_def)
qed (use c in simp_all)

lemma run_call_targeted:
  assumes "call_target c = Some (t, expected)" and "reaches D t expected k" and "coherent D s"
  shows "sends (addressed (call_vocabulary c) (D k)) slog s (run_call (logged ex) c s) \<and>
    marked D (run_call (logged ex) c s)"
  using assms
  by (cases c) (auto simp: call_vocabulary_def
      intro: ends [OF targeted_read_triple, THEN conjunct1] ends [OF targeted_read_triple, THEN conjunct2]
        ends [OF multi_triple, THEN conjunct1] ends [OF multi_triple, THEN conjunct2]
        ends [OF did_triple, THEN conjunct1] ends [OF did_triple, THEN conjunct2]
        ends [OF session_triple, THEN conjunct1] ends [OF session_triple, THEN conjunct2]
        ends [OF mode09_triple, THEN conjunct1] ends [OF mode09_triple, THEN conjunct2]
        ends [OF identification_triple, THEN conjunct1] ends [OF identification_triple, THEN conjunct2])

section \<open>Runs\<close>

text \<open>A functional call after which the session still carries the mark failed to reinitialise.\<close>

fun resets_ok :: "'e exchange \<Rightarrow> session_call list \<Rightarrow> 'e elm_session \<Rightarrow> bool" where
  "resets_ok ex [] s \<longleftrightarrow> True"
| "resets_ok ex (c # cs) s \<longleftrightarrow>
     (call_target c = None \<longrightarrow> c = Call_Restore \<or> \<not> es_functional_dirty (run_call ex c s)) \<and>
     resets_ok ex cs (run_call ex c s)"

definition on_target :: "target_key \<Rightarrow> headers set" where
  "on_target k = {target_headers k}"

lemma reaches_ok:
  assumes "call_ok c" and "call_target c = Some (t, expected)"
  obtains k where "reaches on_target t expected k" "reaches (\<lambda>_. UNIV) t expected k"
    "call_headers c = target_headers k"
proof -
  have "target_ok t expected" using assms by (simp add: call_ok_def)
  then obtain k where "target_key t expected = Inr k" "key_ok k" by (rule target_ok_key)
  then show ?thesis using that assms(2) by (auto simp: reaches_def on_target_def call_headers_def)
qed

lemma marked_clean: "marked D s \<Longrightarrow> clean W s"
  by (simp add: marked_def clean_def)

lemma clean_unmarked_coherent: "clean W s \<Longrightarrow> \<not> es_functional_dirty s \<Longrightarrow> coherent D s"
  by (simp add: clean_def coherent_def)

lemma run_call_clean:
  assumes "call_ok c" and "resettable W" and "clean W s"
  shows "clean W (run_call (logged ex) c s)"
proof (cases "call_target c")
  case None
  then show ?thesis using run_call_functional assms by blast
next
  case (Some p)
  obtain t expected where p: "p = (t, expected)" by (cases p)
  obtain k where "reaches (\<lambda>_. UNIV) t expected k" using reaches_ok assms(1) Some p by blast
  then have "marked (\<lambda>_. UNIV) (run_call (logged ex) c s)"
    using run_call_targeted Some p by (metis UNIV_I coherent_def)
  then show ?thesis by (rule marked_clean)
qed

lemma run_calls_clean:
  "list_all call_ok cs \<Longrightarrow> resettable W \<Longrightarrow> clean W s \<Longrightarrow> clean W (run_calls (logged ex) cs s)"
  by (induction cs arbitrary: s) (simp_all add: run_call_clean)

lemma run_call_coherent:
  assumes c: "call_ok c" and ok: "call_target c = None \<longrightarrow> c = Call_Restore \<or>
      \<not> es_functional_dirty (run_call (logged ex) c s)"
    and s: "clean {FUNCTIONAL} s" "coherent on_target s"
  shows "coherent on_target (run_call (logged ex) c s)"
proof (cases "call_target c")
  case None
  then consider "c = Call_Restore" | "\<not> es_functional_dirty (run_call (logged ex) c s)" using ok by blast
  then show ?thesis
  proof cases
    case 1
    then show ?thesis
      using ends [OF restore_call_triple, where s = s] by (auto simp: unmarked_def coherent_def)
  next
    case 2
    then show ?thesis
      using run_call_clean [OF c resettable_sets(1) s(1)] clean_unmarked_coherent by blast
  qed
next
  case (Some p)
  obtain t expected where p: "p = (t, expected)" by (cases p)
  obtain k where "reaches on_target t expected k" using reaches_ok c Some p by blast
  then show ?thesis using run_call_targeted [OF _ _ s(2)] Some p by (auto simp: marked_def)
qed

lemma run_calls_coherent:
  "list_all call_ok cs \<Longrightarrow> resets_ok (logged ex) cs s \<Longrightarrow> clean {FUNCTIONAL} s \<Longrightarrow>
    coherent on_target s \<Longrightarrow> coherent on_target (run_calls (logged ex) cs s)"
  by (induction cs arbitrary: s) (simp_all add: run_call_clean run_call_coherent resettable_sets)

lemma run_call_vocabulary:
  assumes "call_ok c" and "c \<in> set calls" and "clean UNIV s"
  shows "sends (\<lambda>_ c. adapter_command c \<or> diagnostic_read c \<or>
      (list_ex is_session_call calls \<and> session_control c)) slog s (run_call (logged ex) c s)"
proof (cases "call_target c")
  case None
  then show ?thesis
    by (intro sends_mono [OF conjunct1 [OF run_call_functional [OF resettable_sets(2) None assms(3)]]])
      (auto simp: addressed_def)
next
  case (Some p)
  obtain t expected where p: "p = (t, expected)" by (cases p)
  obtain k where "reaches (\<lambda>_. UNIV) t expected k" using reaches_ok assms(1) Some p by blast
  then have "sends (addressed (call_vocabulary c) UNIV) slog s (run_call (logged ex) c s)"
    using run_call_targeted Some p by (metis UNIV_I coherent_def)
  then show ?thesis using assms(2)
    by (elim sends_mono) (auto simp: addressed_def call_vocabulary_def list_ex_iff split: if_splits)
qed

section \<open>An adapter for examples\<close>

text \<open>It answers with the next reply of a list, and then the notification stream ends.\<close>

fun scripted :: "string list exchange" where
  "scripted (r # rs) c t = (Inr r, rs)"
| "scripted [] c t = (Inl (Transport NotificationStreamEnded), [])"

definition example_target :: request_target where
  "example_target = \<lparr>rt_context = \<lparr>pc_protocol = Obd2, pc_addressing = Physical\<rparr>,
     rt_address = Some \<lparr>ra_namespace = ''elm-header'', ra_value = ''7e0''\<rparr>\<rparr>"

definition enter_session :: session_call where
  "enter_session = Call_Session Enter example_target (ElmHeader ''7E8'')"

text \<open>A session over an adapter that was just reset.\<close>

definition reset_session :: "string list \<Rightarrow> (string list \<times> log) elm_session" where
  "reset_session replies = session_new (replies, [(cr ''ATZ'', Inr ''ELM327 v1.5'')])"

lemma reset_session_ok: "clean {FUNCTIONAL} (reset_session replies)" "coherent on_target (reset_session replies)"
  by (simp_all add: reset_session_def session_new_def clean_def coherent_def slog_def header_view_def
      settle_def acknowledged_def FUNCTIONAL_def) code_simp

lemma enter_session_ok: "call_ok enter_session"
  by code_simp

section \<open>Properties\<close>

text \<open>C5: the vocabulary is closed.  Whatever calls a new session receives and however the adapter
  answers, every command it ever sends is an adapter setup command or a read service (01, 03, 09,
  22), and a session-control command only if a session call was among the calls.\<close>

theorem session_vocabulary:
  assumes "list_all call_ok calls"
  shows "list_all (\<lambda>(c, _). adapter_command c \<or> diagnostic_read c \<or>
      (list_ex is_session_call calls \<and> session_control c))
    (slog (run_calls (logged ex) calls (session_new (e, []))))"
proof -
  let ?V = "\<lambda>c. adapter_command c \<or> diagnostic_read c \<or> (list_ex is_session_call calls \<and> session_control c)"
  have "sends (\<lambda>_. ?V) slog s (run_calls (logged ex) cs s)"
    if "set cs \<subseteq> set calls" "clean UNIV s" for cs s
    using that
  proof (induction cs arbitrary: s)
    case Nil
    show ?case by (simp add: sent.refl)
  next
    case (Cons c cs)
    have c: "call_ok c" "c \<in> set calls" using Cons.prems assms by (auto simp: list_all_iff)
    have "sends (\<lambda>_. ?V) slog s (run_call (logged ex) c s)"
      using c Cons.prems(2) by (rule run_call_vocabulary)
    moreover have "clean UNIV (run_call (logged ex) c s)"
      using run_call_clean [OF c(1) resettable_sets(2)] Cons.prems(2) by blast
    ultimately show ?case using Cons by (auto intro: sent.trans)
  qed
  from this [of calls "session_new (e, [])"] show ?thesis
    by (simp add: clean_def sends_def allowed_all session_new_def slog_def case_prod_beta list_all_iff)
qed

theorem session_vocabulary_witness:
  "list_all (\<lambda>(c, _). adapter_command c \<or> diagnostic_read c \<or>
      (list_ex is_session_call [enter_session, Call_Dtcs] \<and> session_control c))
    (slog (run_calls (logged scripted) [enter_session, Call_Dtcs]
      (session_new ([''OK'', ''OK'', ''7E8 02 50 03'', ''ELM327 v1.5'', ''?''], [])))) \<and>
   map fst (slog (run_calls (logged scripted) [enter_session, Call_Dtcs]
      (session_new ([''OK'', ''OK'', ''7E8 02 50 03'', ''ELM327 v1.5'', ''?''], []))))
   = map cr [''ATSH 7E0'', ''ATCRA 7E8'', ''1003'', ''ATZ'', ''ATE0'']"
proof
  show "list_all (\<lambda>(c, _). adapter_command c \<or> diagnostic_read c \<or>
      (list_ex is_session_call [enter_session, Call_Dtcs] \<and> session_control c))
    (slog (run_calls (logged scripted) [enter_session, Call_Dtcs]
      (session_new ([''OK'', ''OK'', ''7E8 02 50 03'', ''ELM327 v1.5'', ''?''], []))))"
    by (rule session_vocabulary) (simp add: enter_session_ok call_ok_def [of Call_Dtcs])
qed code_simp

text \<open>C4: a request without a target is sent under functional addressing.  From any session that
  carries the mark of a targeted operation or is functionally addressed, after any calls,
  whatever failed on the way, a functional call sends nothing but setup commands and reads under
  the adapter's default header and filter: a needed reset comes first, or nothing is asked.\<close>

theorem functional_requests_addressed:
  assumes "clean {FUNCTIONAL} s" and "list_all call_ok calls" and "call_target c = None"
  shows "clean {FUNCTIONAL} (run_calls (logged ex) calls s) \<and>
    sends (addressed diagnostic_read {FUNCTIONAL}) slog (run_calls (logged ex) calls s)
      (run_call (logged ex) c (run_calls (logged ex) calls s))"
  using run_calls_clean [OF assms(2) resettable_sets(1) assms(1)]
    run_call_functional [OF resettable_sets(1) assms(3)] by blast

theorem functional_requests_addressed_witness:
  "sends (addressed diagnostic_read {FUNCTIONAL}) slog
     (run_calls (logged scripted) [enter_session] (reset_session [''OK'', ''OK'', ''7E8 02 50 03'']))
     (run_call (logged scripted) Call_Dtcs
       (run_calls (logged scripted) [enter_session] (reset_session [''OK'', ''OK'', ''7E8 02 50 03''])))"
  using functional_requests_addressed [OF reset_session_ok(1), of "[enter_session]" Call_Dtcs scripted]
  by (simp add: enter_session_ok)

text \<open>C3: a targeted request is sent under its own target's header and its responder's filter.
  After any calls none of which failed to reinitialise, every request a call sends goes out under
  the setting of that very call, although consecutive operations on one target skip the setup.\<close>

theorem targeted_requests_addressed:
  assumes "clean {FUNCTIONAL} s" and "coherent on_target s"
    and "list_all call_ok calls" and "resets_ok (logged ex) calls s" and "call_ok c"
  shows "sends (addressed (call_vocabulary c) {call_headers c}) slog (run_calls (logged ex) calls s)
      (run_call (logged ex) c (run_calls (logged ex) calls s))"
proof (cases "call_target c")
  case None
  then have "call_headers c = FUNCTIONAL" "call_vocabulary c = diagnostic_read"
    by (cases c; simp add: call_headers_def call_vocabulary_def)+
  then show ?thesis
    by (simp only:) (intro conjunct1 [OF run_call_functional [OF resettable_sets(1) None]]
        run_calls_clean [OF assms(3) resettable_sets(1) assms(1)])
next
  case (Some p)
  obtain t expected where p: "p = (t, expected)" by (cases p)
  obtain k where k: "reaches on_target t expected k" "call_headers c = target_headers k"
    using reaches_ok assms(5) Some p by blast
  have "coherent on_target (run_calls (logged ex) calls s)"
    using run_calls_coherent assms by blast
  then show ?thesis
    using conjunct1 [OF run_call_targeted [OF Some [unfolded p] k(1)]]
    unfolding k(2) on_target_def by blast
qed

theorem targeted_requests_addressed_witness:
  "sends (addressed session_control {(Header ''7E0'', Header ''7E8'')}) slog
     (run_calls (logged scripted) [enter_session] (reset_session [''OK'', ''OK'', ''7E8 02 50 03'']))
     (run_call (logged scripted) enter_session
       (run_calls (logged scripted) [enter_session] (reset_session [''OK'', ''OK'', ''7E8 02 50 03''])))"
proof -
  have "call_vocabulary enter_session = session_control"
    "call_headers enter_session = (Header ''7E0'', Header ''7E8'')"
    by (simp add: call_vocabulary_def enter_session_def) code_simp
  moreover have "resets_ok (logged scripted) [enter_session] s" for s by (simp add: enter_session_def)
  moreover have "list_all call_ok [enter_session]" by (simp add: enter_session_ok)
  ultimately show ?thesis
    using targeted_requests_addressed [OF reset_session_ok _ _ enter_session_ok, of "[enter_session]" scripted]
    by (metis run_calls.simps)
qed

text \<open>What is left of a reinitialisation once the adapter has confirmed its reset: setup commands
  and support questions, none of which changes the headers, and none of which touches the target
  mark when it fails.\<close>

lemma confirmed_reset:
  assumes "ex x (cr ''ATZ'') 3000 = (Inr y, x')" and "acknowledged (Inr y) ''ELM327'' False"
  shows "initialize_elm (logged ex) (x, l) =
    send_setup (logged ex) (map (\<lambda>c. (c, c @ '' failed'')) INIT_COMMANDS) (x', l @ [(cr ''ATZ'', Inr y)])"
  using assms
  by (simp add: initialize_elm_def bind_step_def send_def logged_def require_def lift_result_def
      acknowledged_iff [of y _ _ "''ATZ did not reset an ELM327 adapter''"] del: send_setup.simps)

lemma setup_after_reset:
  "keeps (sends (addressed diagnostic_read {FUNCTIONAL}) slog)
    (\<lambda>s. header_view (slog s) \<in> {FUNCTIONAL} \<and> es_configured s = k)
    (bind_step (on_exchange (send_setup (logged ex) (map (\<lambda>c. (c, c @ '' failed'')) INIT_COMMANDS)))
      (\<lambda>_. discover_support (logged ex) highest_catalog_page))"
proof -
  let ?R = "sends (addressed diagnostic_read {FUNCTIONAL}) slog"
  let ?I = "\<lambda>s. header_view (slog s) \<in> {FUNCTIONAL} \<and> es_configured s = k"
  have init: "keeps ?R ?I (on_exchange (send_setup (logged ex) (map (\<lambda>c. (c, c @ '' failed'')) INIT_COMMANDS)))"
    by (rule asks_on_exchange [where K = "\<lambda>s. es_configured s = k"],
        rule init_setup_keeps [where b = True, unfolded simp_thms]) (simp_all add: comp_def)
  have found: "keeps ?R ?I (discover_support (logged ex) highest_catalog_page)"
    unfolding discover_support_def
    by (rule sent.sequence [OF asks_on_exchange [where K = "\<lambda>s. es_configured s = k", OF asks_simple_reads(7)]])
      (auto intro!: modify_triple simp: slog_def)
  show ?thesis by (rule sent.sequence [OF init found])
qed

lemma reinitialize_fails:
  assumes "reinitialize ex s = (Inl e, s')"
  shows "bind_step (on_exchange (initialize_elm ex))
    (\<lambda>_. discover_support ex highest_catalog_page) s = (Inl e, s')"
  using assms
  by (auto simp: reinitialize_def bind_step_def set_dirty_def set_configured_def modify_def
      split: prod.splits sum.splits)

lemma stale_setup_skipped:
  assumes "target_key t i = Inr key" and "es_configured s = Some key"
  shows "\<exists>r. slog (run_call (logged ex) (Call_Session c t i) s) = slog s @ [(cr (fst (session_wire c)), r)]"
proof -
  obtain wire positive where w: "session_wire c = (wire, positive)" by (cases "session_wire c")
  let ?s = "s\<lparr>es_functional_dirty := True\<rparr>"
  obtain r x where a: "logged ex (es_exchange s) (cr wire) COMMAND_TIMEOUT = (r, x)"
      "snd x = slog s @ [(cr wire, r)]"
    by (cases "ex (fst (es_exchange s)) (cr wire) COMMAND_TIMEOUT") (simp add: logged_def slog_def)
  have "ensure_configured (logged ex) t i ?s = (Inr (), ?s)"
    using assms by (simp add: ensure_configured_def bind_step_def lift_result_def ret_def)
  then show ?thesis
    using a
    by (cases r) (auto simp: w uds_session_command_def bind_step_def set_dirty_def modify_def
        exchange_configured_def catch_step_def on_exchange_def send_def set_configured_def ret_def
        fail_step_def lift_result_def slog_def Let_def split: sum.splits)
qed

text \<open>C9: a failed reinitialisation leaves a stale target, on every adapter.  Suppose the session has
  a target marked as configured, the adapter confirms its reset (and so is back at its default
  header and filter), and the reinitialisation fails at any later step.  Then the target is still
  marked, and the next session-control command for it sends no setup: the command goes out at once,
  under the functional default instead of the target's header.\<close>

theorem failed_reset_leaves_target:
  assumes "es_configured s = Some key" and "target_key t i = Inr key"
    and "ex (fst (es_exchange s)) (cr ''ATZ'') 3000 = (Inr y, x)"
    and "acknowledged (Inr y) ''ELM327'' False"
    and "reinitialize (logged ex) s = (Inl e, s')"
  shows "es_configured s' = Some key \<and> header_view (slog s') = FUNCTIONAL \<and>
    (\<exists>r. slog (run_call (logged ex) (Call_Session c t i) s') =
       slog s' @ [(cr (fst (session_wire c)), r)])"
proof -
  let ?rest = "\<lambda>_ :: unit. discover_support (logged ex) highest_catalog_page"
  let ?commands = "send_setup (logged ex) (map (\<lambda>c. (c, c @ '' failed'')) INIT_COMMANDS)"
  let ?s = "s\<lparr>es_exchange := (x, slog s @ [(cr ''ATZ'', Inr y)])\<rparr>"
  have el: "es_exchange s = (fst (es_exchange s), slog s)" by (simp add: slog_def)
  have "on_exchange (initialize_elm (logged ex)) s = on_exchange ?commands ?s"
    unfolding on_exchange_def
    by (subst el, subst confirmed_reset [where ex = ex, OF assms(3,4)]) (simp split: prod.split)
  then have run: "bind_step (on_exchange ?commands) ?rest ?s = (Inl e, s')"
    using reinitialize_fails [OF assms(5)] by (simp add: bind_step_def)
  have "header_view (slog ?s) = FUNCTIONAL"
    using reset_view [OF assms(4)] by (simp add: slog_def header_view_snoc)
  then have "header_view (slog s') \<in> {FUNCTIONAL} \<and> es_configured s' = Some key"
    using triple_fails [OF setup_after_reset _ run] assms(1) by simp
  then show ?thesis using stale_setup_skipped [OF assms(2)] by blast
qed

text \<open>A session is entered and trouble codes are read; the adapter confirms the reset of the second
  call and refuses its first setup command.\<close>

theorem failed_reset_leaves_target_witness:
  "\<exists>r. let ex = logged scripted;
         s = run_call ex enter_session
           (reset_session [''OK'', ''OK'', ''7E8 02 50 03'', ''ELM327 v1.5'', ''?'', ''7E8 02 50 03'']);
         s' = snd (reinitialize ex s)
     in header_view (slog s) = (Header ''7E0'', Header ''7E8'') \<and> header_view (slog s') = FUNCTIONAL \<and>
       slog (run_call ex enter_session s') = slog s' @ [(cr ''1003'', r)]"
proof -
  let ?ex = "logged scripted"
  let ?s = "run_call ?ex enter_session
    (reset_session [''OK'', ''OK'', ''7E8 02 50 03'', ''ELM327 v1.5'', ''?'', ''7E8 02 50 03''])"
  have s: "es_configured ?s = Some (''7E0'', ''7E8'')" "fst (es_exchange ?s) = [''ELM327 v1.5'', ''?'', ''7E8 02 50 03'']"
      "header_view (slog ?s) = (Header ''7E0'', Header ''7E8'')"
    by code_simp+
  have "isl (fst (reinitialize ?ex ?s))" by code_simp
  then obtain e where r: "reinitialize ?ex ?s = (Inl e, snd (reinitialize ?ex ?s))"
    by (cases "reinitialize ?ex ?s") (auto simp: isl_def)
  have k: "target_key example_target (ElmHeader ''7E8'') = Inr (''7E0'', ''7E8'')"
    "acknowledged (Inr ''ELM327 v1.5'') ''ELM327'' False" "fst (session_wire Enter) = ''1003''"
    by code_simp+
  have x: "scripted (fst (es_exchange ?s)) (cr ''ATZ'') 3000 = (Inr ''ELM327 v1.5'', [''?'', ''7E8 02 50 03''])"
    by (simp add: s(2))
  show ?thesis
    using failed_reset_leaves_target [OF s(1) k(1) x k(2) r, where c = Enter] s(3) k(3)
    by (simp add: Let_def enter_session_def)
qed

end
