(* ===== verification/Session_Reads.thy ===== *)
theory Session_Reads
  imports Session_Calls
begin

text \<open>
  What the session's reads return: a targeted read returns the payload of its own responder in the
  adapter's answer to its own request, a data-identifier read returns the payload the ECU sent in
  segments, and the support discovery asks only for pages the vehicle advertised.
\<close>

section \<open>Soundness of targeted reads\<close>

text \<open>The step returns a payload the expected responder gave to the command.\<close>

definition answered_by ::
  "string \<Rightarrow> (string \<Rightarrow> diagnostic_responses \<Rightarrow> bool) \<Rightarrow> responder_identity \<Rightarrow> log \<Rightarrow> bytes \<Rightarrow> bool" where
  "answered_by command normalized expected l payload \<longleftrightarrow>
     (\<exists>raw responses before. l = before @ [(command, Inr raw)] \<and> normalized raw responses \<and>
       select_responder responses expected = Inr payload)"

abbreviation any_send :: "log \<Rightarrow> string \<Rightarrow> bool" where
  "any_send \<equiv> \<lambda>_ _. True"

lemma any_steps:
  "triple (sends any_send slog) P (set_dirty b) (\<lambda>_ _. True) (\<lambda>_. True)"
  "triple (sends any_send slog) P (ensure_configured (logged ex) t expected) (\<lambda>_ _. True) (\<lambda>_. True)"
proof -
  have conf: "triple (sends any_send snd) (\<lambda>_. True) (configure_target (logged ex) t expected) (\<lambda>_ _. True) (\<lambda>_. True)"
  proof (cases "target_key t expected")
    case (Inr k)
    have one: "triple (sends any_send snd) (\<lambda>_. True) (send (logged ex) c n) (\<lambda>_ _. True) (\<lambda>_. True)" for c n
      by (rule send_triple [where P = "\<lambda>_. True" and Q = "\<lambda>_ _. True" and E = "\<lambda>_. True"]) simp_all
    have "triple (sends any_send snd) (\<lambda>_. True) (send_setup (logged ex) cs) (\<lambda>_ _. True) (\<lambda>_. True)" for cs
      by (induction cs) (auto intro!: sent.sequence [OF one] sent.sequence [OF sent.requires]
          intro: sent.returned)
    then show ?thesis
      unfolding configure_target_def Inr bind_lift prod.case_eq_if .
  qed (simp add: configure_target_def bind_lift sent.lifts)
  have "triple (sends any_send slog) (\<lambda>_. True) (on_exchange (configure_target (logged ex) t expected))
      (\<lambda>_ _. True) (\<lambda>_. True)"
    using on_exchange_triple [where P = "\<lambda>_. True" and Q = "\<lambda>_ _. True" and E = "\<lambda>_. True"
        and K = "\<lambda>_. True", OF conf] by simp
  note conf' = this
  show "triple (sends any_send slog) P (set_dirty b) (\<lambda>_ _. True) (\<lambda>_. True)"
    by (rule set_dirty_triple) simp
  have "keeps (sends any_send slog) (\<lambda>_. True) (ensure_configured (logged ex) t expected)"
  proof (cases "target_key t expected")
    case (Inr k)
    then show ?thesis
      unfolding ensure_configured_def Inr map_sum.simps id_apply bind_lift
      by (intro triple_branches sent.returned
          sent.sequence [OF set_configured_triple [where Q = "\<lambda>_ _. True"]]
          sent.sequence [OF sent.maps_error [OF triple_weaken [OF conf',
            where Q' = "\<lambda>_ _. True" and E' = "\<lambda>_. True"]]]
          set_configured_triple) simp_all
  qed (simp add: ensure_configured_def bind_lift sent.lifts)
  then show "triple (sends any_send slog) P (ensure_configured (logged ex) t expected) (\<lambda>_ _. True) (\<lambda>_. True)"
    by (rule triple_weaken) simp_all
qed

lemma any_exchange:
  "triple (sends any_send slog) P (on_exchange (send (logged ex) c t))
    (\<lambda>raw s. \<exists>before. slog s = before @ [(c, Inr raw)]) (\<lambda>_. True)"
proof -
  have "triple (sends any_send snd) (\<lambda>_. True) (send (logged ex) c t)
      (\<lambda>raw el. \<exists>before. snd el = before @ [(c, Inr raw)]) (\<lambda>_. True)"
    by (rule send_triple [where P = "\<lambda>_. True" and Q = "\<lambda>raw l. \<exists>before. l = before @ [(c, Inr raw)]"
        and E = "\<lambda>_. True"]) simp_all
  then show ?thesis
    by (rule triple_weaken [OF on_exchange_triple [where P = "\<lambda>_. True" and E = "\<lambda>_. True"
        and Q = "\<lambda>raw l. \<exists>before. l = before @ [(c, Inr raw)]" and K = "\<lambda>_. True"]]) simp_all
qed

lemma any_exchange_configured:
  "triple (sends any_send slog) P (exchange_configured (logged ex) c)
    (\<lambda>raw s. \<exists>before. slog s = before @ [(c, Inr raw)]) (\<lambda>_. True)"
  unfolding exchange_configured_def
  by (intro sent.handles [OF any_exchange] sent.returns
      sent.sequence [OF set_configured_triple [where Q = "\<lambda>_ _. True"]] triple_weaken [OF sent.raises])
    simp_all

lemma select_answer:
  assumes "N raw responses"
  shows "triple (sends any_send slog) (\<lambda>s. \<exists>before. slog s = before @ [(c, Inr raw)])
    (select_payload explain responses expected)
    (\<lambda>ev s. answered_by c N expected (slog s) (rx_payload ev)) (\<lambda>_. True)"
proof (cases "targeted_payload responses expected")
  case (Inl e)
  then show ?thesis
    unfolding select_payload_def by (simp) (rule triple_weaken [OF sent.raises], simp_all)
next
  case (Inr payload)
  then have "select_responder responses expected = Inr payload" by (simp add: targeted_payload_iff)
  then show ?thesis
    unfolding select_payload_def using assms Inr
    by (auto simp: answered_by_def intro!: sent.returned)
qed

lemma did_read_answer:
  "triple (sends any_send slog) (\<lambda>_. True) (read_did_once (logged ex) did t expected)
    (\<lambda>ev s. answered_by (did_command did) (\<lambda>raw d. d = normalize_uds_responses raw did)
      expected (slog s) (rx_payload ev)) (\<lambda>_. True)"
  unfolding read_did_once_def Let_def
  by (intro sent.sequence [OF any_steps(1)] sent.sequence [OF any_steps(2)]
      sent.sequence [OF any_exchange_configured] select_answer refl)

lemma multi_read_answer:
  "triple (sends any_send slog) (\<lambda>_. True) (read_multi_targeted_with_evidence (logged ex) r)
    (\<lambda>ev s. answered_by (multi_command r)
      (\<lambda>raw d. d = normalize_mode01_multi_responses raw (trim (multi_command r)))
      (tm_expected r) (slog s) (rx_payload ev)) (\<lambda>_. True)"
  unfolding read_multi_targeted_with_evidence_def Let_def
  by (intro sent.sequence [OF any_steps(1)] sent.sequence [OF any_steps(2)]
      sent.sequence [OF any_exchange_configured] select_answer refl)

text \<open>A current-data read is normalised as an answer to its PID, or as stale answers to others.\<close>

definition mode01_normalized :: "read_request \<Rightarrow> string \<Rightarrow> diagnostic_responses \<Rightarrow> bool" where
  "mode01_normalized r raw d \<longleftrightarrow>
     normalize_mode01_responses raw (rr_pid r) (rr_data_len r) = Inr d \<or>
     normalize_stale_mode01_responses raw (rr_pid r) = Inr d"

lemma read_responses_answer:
  "triple (sends any_send slog) P (on_exchange (read_elm_responses (logged ex) r))
    (\<lambda>d s. \<exists>raw before. slog s = before @ [(obd_command r, Inr raw)] \<and> mode01_normalized r raw d) (\<lambda>_. True)"
proof -
  have "triple (sends any_send snd) (\<lambda>_. True) (send (logged ex) (obd_command r) t)
      (\<lambda>raw el. \<exists>before. snd el = before @ [(obd_command r, Inr raw)]) (\<lambda>_. True)" for t
    by (rule send_triple [where P = "\<lambda>_. True" and Q = "\<lambda>raw l. \<exists>before. l = before @ [(obd_command r, Inr raw)]"
        and E = "\<lambda>_. True"]) simp_all
  note sent_command = this
  let ?Q = "\<lambda>d el. \<exists>raw before. snd el = before @ [(obd_command r, Inr raw)] \<and> mode01_normalized r raw d"
  have fails: "triple (sends any_send snd) P (lift_result (Inl x)) ?Q (\<lambda>_. True)" for P x
    by (rule sent.still) (simp_all add: lift_result_def)
  have returns: "triple (sends any_send snd) (\<lambda>el. \<exists>before. snd el = before @ [(obd_command r, Inr raw)])
      (ret d) ?Q (\<lambda>_. True)" if "mode01_normalized r raw d" for raw d
    by (rule sent.returned) (use that in blast)
  have "triple (sends any_send snd) (\<lambda>_. True) (read_elm_responses (logged ex) r) ?Q (\<lambda>_. True)"
    unfolding read_elm_responses_def fail_step_def
  proof (rule sent.sequence [OF sent_command], goal_cases)
    case (1 raw)
    show ?case
    proof (cases "normalize_mode01_responses raw (rr_pid r) (rr_data_len r)")
      case (Inr d)
      show ?thesis unfolding Inr sum.case by (rule returns) (simp add: mode01_normalized_def Inr)
    next
      case (Inl x)
      show ?thesis
      proof (cases x)
        case (Failed e)
        show ?thesis
        proof (cases "normalize_stale_mode01_responses raw (rr_pid r)")
          case stale: (Inr d)
          show ?thesis unfolding Inl Failed stale sum.case failure.case
            by (rule returns) (simp add: mode01_normalized_def stale)
        qed (simp only: Inl Failed sum.case failure.case fails)
      qed (simp only: Inl sum.case failure.case fails)
    qed
  qed
  then show ?thesis
    by (rule triple_weaken [OF on_exchange_triple [where P = "\<lambda>_. True" and E = "\<lambda>_. True"
        and Q = "\<lambda>d l. \<exists>raw before. l = before @ [(obd_command r, Inr raw)] \<and> mode01_normalized r raw d"
        and K = "\<lambda>_. True"]]) simp_all
qed

lemma targeted_read_answer:
  "triple (sends any_send slog) (\<lambda>_. True) (read_targeted_with_evidence (logged ex) r)
    (\<lambda>ev s. answered_by (obd_command (tr_request r)) (mode01_normalized (tr_request r))
      (tr_expected r) (slog s) (rx_payload ev)) (\<lambda>_. True)"
proof -
  have select: "triple (sends any_send slog)
      (\<lambda>s. \<exists>raw before. slog s = before @ [(obd_command (tr_request r), Inr raw)] \<and> mode01_normalized (tr_request r) raw d)
      (select_payload id d (tr_expected r))
      (\<lambda>ev s. answered_by (obd_command (tr_request r)) (mode01_normalized (tr_request r))
        (tr_expected r) (slog s) (rx_payload ev)) (\<lambda>_. True)" for d
    using select_answer [of "mode01_normalized (tr_request r)"] unfolding triple_def by blast
  show ?thesis
    unfolding read_targeted_with_evidence_def
    by (intro sent.sequence [OF any_steps(1)] sent.sequence [OF any_steps(2)]
        sent.handles [OF read_responses_answer] select
        sent.sequence [OF set_configured_triple [where Q = "\<lambda>_ _. True"]] triple_weaken [OF sent.raises])
      simp_all
qed

text \<open>C7: targeted reads are sound.  A payload a targeted read returns is the payload of the
  expected responder, on which all its answers agree, in the normalisation of the adapter's answer
  to the read's own command, the last exchange of the read.  This holds of data-identifier,
  multi-PID and single-PID reads, from every session and for every adapter.\<close>

theorem targeted_reads_sound:
  "(read_did_once (logged ex) did t expected s = (Inr ev, s') \<longrightarrow>
      answered_by (did_command did) (\<lambda>raw d. d = normalize_uds_responses raw did) expected
        (slog s') (rx_payload ev)) \<and>
   (read_multi_targeted_with_evidence (logged ex) m s = (Inr ev, s') \<longrightarrow>
      answered_by (multi_command m)
        (\<lambda>raw d. d = normalize_mode01_multi_responses raw (trim (multi_command m))) (tm_expected m)
        (slog s') (rx_payload ev)) \<and>
   (read_targeted_with_evidence (logged ex) r s = (Inr ev, s') \<longrightarrow>
      answered_by (obd_command (tr_request r)) (mode01_normalized (tr_request r)) (tr_expected r)
        (slog s') (rx_payload ev))"
  using triple_returns [OF did_read_answer [of ex did t expected] TrueI]
    triple_returns [OF multi_read_answer [of ex m] TrueI]
    triple_returns [OF targeted_read_answer [of ex r] TrueI] by blast

definition example_read ::
  "((string list \<times> log) elm_session, read_evidence_error, read_evidence) step" where
  "example_read = read_did_once (logged scripted) 0x10 example_target (ElmHeader ''7E8'')"

theorem targeted_reads_sound_witness:
  "answered_by (did_command 0x10) (\<lambda>raw d. d = normalize_uds_responses raw 0x10) (ElmHeader ''7E8'')
     (slog (snd (example_read (reset_session [''OK'', ''OK'', ''7E8 05 62 00 10 41 42'']))))
     [0x62, 0x00, 0x10, 0x41, 0x42]"
proof -
  let ?s = "reset_session [''OK'', ''OK'', ''7E8 05 62 00 10 41 42'']"
  have "(case fst (example_read ?s) of Inr ev \<Rightarrow> rx_payload ev = [0x62, 0x00, 0x10, 0x41, 0x42] | _ \<Rightarrow> False)"
    by code_simp
  then obtain ev where "example_read ?s = (Inr ev, snd (example_read ?s))"
    "rx_payload ev = [0x62, 0x00, 0x10, 0x41, 0x42]"
    by (cases "example_read ?s") (auto split: sum.splits)
  then show ?thesis
    using targeted_reads_sound [of scripted "0x10" example_target "ElmHeader ''7E8''" ?s ev]
    unfolding example_read_def by metis
qed

section \<open>End to end\<close>

lemma length_did_echo: "even (length (''22'' @ fmt_04X did))"
  by (simp add: fmt_04X_def)

text \<open>C6: a data-identifier read, end to end.  The adapter is configured for the target; if the
  lines of its answer about the expected responder are the ISO-TP segments of a payload, then the
  read returns exactly that payload with the whole answer as evidence, sends nothing but the read
  command, and leaves the target configured.\<close>

theorem did_read_end_to_end:
  assumes "target_key t (ElmHeader h) = Inr k" and "es_configured s = Some k"
    and "ex (es_exchange s) (did_command did) COMMAND_TIMEOUT = (Inr raw, e')"
    and "valid_header h" and "1 \<le> length p" and "length p \<le> 4095" and "hd p \<noteq> 0x41"
    and "\<forall>b \<in> set pad. is_padding b"
    and "filter (concerns (''22'' @ fmt_04X did) ''UDS 22'' True (Some (ElmHeader h))) (split_lines raw)
      = map (frame_text h) (isotp_segments pad p)"
  shows "read_did_once ex did t (ElmHeader h) s =
    (Inr \<lparr>rx_payload = p, rx_observations =
       [observation_for_target (normalize_uds_responses raw did) (ElmHeader h) None]\<rparr>,
     s\<lparr>es_functional_dirty := True, es_exchange := e'\<rparr>)"
proof -
  have "responses_of (ElmHeader h) (normalize_uds_responses raw did) = [p]"
    unfolding normalize_uds_responses_def
    using normalize_segments [OF assms(4) length_did_echo assms(5,6) _ assms(8,9)] assms(7) by blast
  then have "targeted_payload (normalize_uds_responses raw did) (ElmHeader h) = Inr p"
    unfolding targeted_payload_iff
    by (auto simp: select_responder_def responses_of_def Let_def map_eq_Cons_conv)
  then show ?thesis
    using assms(1-3)
    by (simp add: read_did_once_def bind_step_def set_dirty_def modify_def ensure_configured_def
        lift_result_def ret_def exchange_configured_def catch_step_def on_exchange_def send_def
        select_payload_def Let_def)
qed

theorem did_read_end_to_end_witness:
  "fst (read_did_once scripted 0x10 example_target (ElmHeader ''7E8'')
     \<lparr>es_exchange = [''7E8 10 08 62 00 10 31 32 33'' @ [CHR 0x0D] @ ''7E9 03 7F 22 31'' @ [CHR 0x0D]
          @ ''7E8 21 34 35 00 00''],
      es_supported = \<lparr>ps_pages = [], ps_discovery = []\<rparr>, es_functional_dirty = True,
      es_configured = Some (''7E0'', ''7E8'')\<rparr>)
   = Inr \<lparr>rx_payload = [0x62, 0x00, 0x10, 0x31, 0x32, 0x33, 0x34, 0x35], rx_observations =
       [observation_for_target (normalize_uds_responses
          (''7E8 10 08 62 00 10 31 32 33'' @ [CHR 0x0D] @ ''7E9 03 7F 22 31'' @ [CHR 0x0D]
            @ ''7E8 21 34 35 00 00'') 0x10) (ElmHeader ''7E8'') None]\<rparr>"
proof -
  let ?raw = "''7E8 10 08 62 00 10 31 32 33'' @ [CHR 0x0D] @ ''7E9 03 7F 22 31'' @ [CHR 0x0D]
      @ ''7E8 21 34 35 00 00''"
  let ?p = "[0x62, 0x00, 0x10, 0x31, 0x32, 0x33, 0x34, 0x35] :: bytes"
  let ?s = "\<lparr>es_exchange = [?raw], es_supported = \<lparr>ps_pages = [], ps_discovery = []\<rparr>,
      es_functional_dirty = True, es_configured = Some (''7E0'', ''7E8'')\<rparr>"
  have k: "target_key example_target (ElmHeader ''7E8'') = Inr (''7E0'', ''7E8'')" by code_simp
  have "filter (concerns (''22'' @ fmt_04X 0x10) ''UDS 22'' True (Some (ElmHeader ''7E8''))) (split_lines ?raw)
      = map (frame_text ''7E8'') (isotp_segments [0, 0] ?p)"
    by code_simp
  note lines = this
  have "valid_header ''7E8''" by (simp add: valid_header_def hex_chars_def)
  then have "read_did_once scripted 0x10 example_target (ElmHeader ''7E8'') ?s =
    (Inr \<lparr>rx_payload = ?p, rx_observations =
       [observation_for_target (normalize_uds_responses ?raw 0x10) (ElmHeader ''7E8'') None]\<rparr>,
     ?s\<lparr>es_functional_dirty := True, es_exchange := []\<rparr>)"
    by (intro did_read_end_to_end [OF k _ _ _ _ _ _ _ lines]) (simp_all add: is_padding_def)
  then show ?thesis by simp
qed

section \<open>Support discovery\<close>

definition page_number :: "nat \<Rightarrow> u8" where
  "page_number i = word_of_nat (32 * i)"

lemma unat_page: "i < 8 \<Longrightarrow> unat (page_number i) = 32 * i"
  unfolding page_number_def by (intro unat_u8_of_nat) simp

lemma page_number_Suc: "page_number i + 0x20 = page_number (Suc i)"
  by (simp add: page_number_def)

text \<open>Each page but the first was advertised by the one before it.\<close>

definition chained :: "u32 list \<Rightarrow> nat \<Rightarrow> bool" where
  "chained pages n \<longleftrightarrow>
     (\<forall>i < n. 0 < i \<longrightarrow> bitmap_supports_pid (pages ! (i - 1)) (page_number i))"

lemma chained_Suc:
  assumes "chained pages (Suc n)" and "length pages = n"
    and "bitmap_supports_pid bitmap (page_number (Suc n))"
  shows "chained (pages @ [bitmap]) (Suc (Suc n))"
  using assms by (auto simp: chained_def nth_append less_Suc_eq)

lemma chained_append: "chained pages n \<Longrightarrow> n \<le> Suc (length pages) \<Longrightarrow> chained (pages @ more') n"
  by (auto simp: chained_def nth_append)

lemma discover_pages_log:
  assumes "discover_pages (logged ex) highest (page_number j) pages ds el = (Inr support, el')"
    and "j < 8" and "length pages = j" and "chained pages (Suc j)"
    and "32 * j < unat highest + 32"
  shows "\<exists>n new. j < n \<and> n \<le> 8 \<and> length (ps_pages support) = n \<and> chained (ps_pages support) n \<and>
    snd el' = snd el @ new \<and> map fst new = map (\<lambda>i. support_command (page_number i)) [j..<n] \<and>
    32 * (n - 1) < unat highest + 32"
  using assms
proof (induction "8 - j" arbitrary: j pages ds el rule: less_induct)
  case less
  let ?c = "support_command (page_number j)"
  obtain r where r: "fst (send (logged ex) ?c 10000 el) =
      (case r of Inl x \<Rightarrow> Inl (Failed (exchange_error_text x)) | Inr y \<Rightarrow> Inr y)"
    "snd (snd (send (logged ex) ?c 10000 el)) = snd el @ [(?c, r)]"
    using send_result [of ex ?c 10000 el] by blast
  obtain e1 where e1: "snd (send (logged ex) ?c 10000 el) = e1" by blast
  obtain response where response: "send (logged ex) ?c 10000 el = (Inr response, e1)"
    using less.prems(1) r(1) e1 by (subst (asm) discover_pages.simps) (cases "send (logged ex) ?c 10000 el"; auto split: sum.splits)
  obtain normalized observations where n:
    "normalize_pid_support_page_with_evidence response (page_number j) = Inr (normalized, observations)"
    using less.prems(1) by (subst (asm) discover_pages.simps) (auto simp: response split: sum.splits)
  let ?pages = "pages @ [payload_bitmap normalized]"
  let ?goon = "\<not> highest \<le> page_number j \<and> \<not> 256 \<le> unat (page_number j) + 0x20 \<and>
    bitmap_supports_pid (payload_bitmap normalized) (page_number (Suc j))"
  have log: "snd e1 = snd el @ [(?c, r)]" using r(2) e1 by simp
  have result: "(if ?goon then discover_pages (logged ex) highest (page_number (Suc j)) ?pages (ds @ observations) e1
      else (Inr \<lparr>ps_pages = ?pages, ps_discovery = ds @ observations\<rparr>, e1)) = (Inr support, el')"
    using less.prems(1)
    by (subst (asm) discover_pages.simps) (auto simp: response n Let_def page_number_Suc split: if_splits)
  have now: "chained ?pages (Suc j)" using less.prems(3,4) by (simp add: chained_append)
  show ?case
  proof (cases ?goon)
    case False
    then have "ps_pages support = ?pages" "el' = e1" using result by auto
    then show ?thesis using now log less.prems
      by (intro exI [of _ "Suc j"] exI [of _ "[(?c, r)]"]) simp
  next
    case True
    then have j: "Suc j < 8" "32 * j < unat highest"
      using unat_page [OF less.prems(2)] by (simp_all add: word_le_nat_alt not_le)
    have shorter: "8 - Suc j < 8 - j" using less.prems(2) by arith
    have "chained ?pages (Suc (Suc j))" using True less.prems(3,4) by (intro chained_Suc) simp_all
    then obtain m new where "Suc j < m" "m \<le> 8" "length (ps_pages support) = m" "chained (ps_pages support) m"
      "snd el' = snd e1 @ new" "map fst new = map (\<lambda>i. support_command (page_number i)) [Suc j..<m]"
      "32 * (m - 1) < unat highest + 32"
      using less.hyps [OF shorter, of ?pages "ds @ observations" e1] True result j less.prems by auto
    then show ?thesis
      by (intro exI [of _ m] exI [of _ "(?c, r) # new"]) (simp add: log upt_conv_Cons)
  qed
qed

text \<open>C8: the support discovery is bounded and asks only for what was advertised: when it returns it
  has asked for the pages 00, 20, 40, ... in order and once each, at most eight of them and none
  beyond the first page at or above the highest one wanted; it has one bitmap per page, and each
  page after the first was advertised by the bitmap of the page before it.\<close>

theorem discovery_asks_advertised_pages:
  assumes "discover_pid_support (logged ex) highest (e, []) = (Inr support, (e', l))"
  shows "map fst l = map (\<lambda>i. support_command (page_number i)) [0..<length (ps_pages support)] \<and>
    ps_pages support \<noteq> [] \<and> length (ps_pages support) \<le> 8 \<and>
    32 * (length (ps_pages support) - 1) < unat highest + 32 \<and>
    chained (ps_pages support) (length (ps_pages support))"
  using discover_pages_log [of ex highest 0 "[]" "[]" "(e, [])" support "(e', l)"] assms
  by (auto simp: discover_pid_support_def page_number_def chained_def)

theorem discovery_asks_advertised_pages_witness:
  "map (\<lambda>i. support_command (page_number i)) [0..<2] = map cr [''0100'', ''0120''] \<and>
   chained [0x00000001, 0x00000000] 2"
proof -
  let ?run = "discover_pid_support (logged scripted) 0x20
      ([''7E8 06 41 00 00 00 00 01'', ''7E8 06 41 20 00 00 00 00''], [])"
  have "fst ?run = Inr \<lparr>ps_pages = [1, 0], ps_discovery =
       [\<lparr>sd_request = [1, 0], sd_responder = Some (ElmHeader ''7E8''), sd_response = [0x41, 0, 0, 0, 0, 1]\<rparr>,
        \<lparr>sd_request = [1, 0x20], sd_responder = Some (ElmHeader ''7E8''), sd_response = [0x41, 0x20, 0, 0, 0, 0]\<rparr>]\<rparr>"
    by code_simp
  moreover have "map fst (snd (snd ?run)) = map cr [''0100'', ''0120'']" by code_simp
  ultimately show ?thesis
    using discovery_asks_advertised_pages [of scripted "0x20"
        "[''7E8 06 41 00 00 00 00 01'', ''7E8 06 41 20 00 00 00 00'']" _ "fst (snd ?run)" "snd (snd ?run)"]
    by (cases ?run) (auto simp: numeral_2_eq_2)
qed



end
