(* ===== verification/Functional_Discovery.thy ===== *)
theory Functional_Discovery
  imports Topology Ordered_Map
begin

text \<open>
  The functional responder discovery of \<open>src/functional_discovery.rs\<close>: the support pages the
  responders answered, what they say of a signal on one responder, which continuation pages
  remain to be asked, and the topology they describe.  The request \<open>[u8; 2]\<close> is a pair.  An
  observation can only be built by its constructor, so the lemmas about it hold of every one.
\<close>

section \<open>Vocabulary\<close>

datatype discovery_status = Page_Observed | Page_NotObserved | Page_Unsupported | Page_Unknown

datatype capability_status = Cap_Supported | Cap_Unsupported | Cap_Unknown

datatype discovery_error =
    RequestNotAllowlisted "u8 \<times> u8"
  | MalformedPayload "u8 \<times> u8" bytes
  | MalformedResponderMetadata
  | UnsupportedSemantic string
  | InvalidProvenance topology_error

definition known_pages :: "u8 list" where
  "known_pages =
     foldl (\<lambda>pages pid. bs_insert (pid AND NOT 0x1f) pages) [0] (map (\<lambda>s. m01_pid (sg_request s)) SIGNALS)"

definition known_functional_requests :: "(u8 \<times> u8) list" where
  "known_functional_requests = map (Pair 0x01) known_pages"

definition validate_request :: "u8 \<times> u8 \<Rightarrow> discovery_error + unit" where
  "validate_request request =
     (if fst request \<noteq> 0x01 \<or> snd request \<notin> set known_pages then Inl (RequestNotAllowlisted request)
      else Inr ())"

definition functional_context :: protocol_context where
  "functional_context = \<lparr>pc_protocol = Obd2, pc_addressing = Functional\<rparr>"

section \<open>Observations\<close>

record page_observation =
  po_request :: "u8 \<times> u8"
  po_responder :: topology_identity
  po_payload :: bytes
  po_provenance :: provenance

definition page_observation_new ::
  "u8 \<times> u8 \<Rightarrow> topology_identity \<Rightarrow> bytes \<Rightarrow> provenance \<Rightarrow> discovery_error + page_observation" where
  "page_observation_new request responder payload p =
     and_then (validate_request request) (\<lambda>_.
       if length payload \<noteq> 6 \<or> take 2 payload \<noteq> [0x41, snd request]
       then Inl (MalformedPayload request payload)
       else Inr \<lparr>po_request = request, po_responder = responder, po_payload = payload, po_provenance = p\<rparr>)"

definition from_responder_metadata ::
  "u8 \<times> u8 \<Rightarrow> string option \<Rightarrow> bytes \<Rightarrow> protocol_context \<Rightarrow> provenance \<Rightarrow>
     discovery_error + page_observation" where
  "from_responder_metadata request metadata payload context p =
     (case metadata of
        Some value \<Rightarrow>
          if trim value \<noteq> [] then page_observation_new request (Opaque_Identity context value) payload p
          else Inl MalformedResponderMetadata
      | None \<Rightarrow> page_observation_new request (Unknown_Identity context) payload p)"

definition po_bitmap :: "page_observation \<Rightarrow> u32" where
  "po_bitmap ob = word_of_nat (be_nat (drop 2 (po_payload ob)))"

definition advertises_continuation :: "page_observation \<Rightarrow> bool" where
  "advertises_continuation ob \<longleftrightarrow> po_payload ob ! 5 AND 1 \<noteq> 0"

text \<open>The derived order.\<close>

type_synonym observation_order =
  "(u8 \<times> u8) \<times> identity_order \<times> bytes \<times> provenance_order"

definition observation_key :: "page_observation \<Rightarrow> observation_order" where
  "observation_key ob =
     (po_request ob, identity_key (po_responder ob), po_payload ob, provenance_key (po_provenance ob))"

section \<open>Capabilities of one responder\<close>

record ecu_capability =
  ec_responder :: topology_identity
  ec_pages :: "page_observation list"
  ec_target :: "request_target_evidence option"

definition ecu_capability_new :: "topology_identity \<Rightarrow> page_observation list \<Rightarrow> ecu_capability" where
  "ecu_capability_new responder pages =
     \<lparr>ec_responder = responder, ec_pages = sort_key observation_key pages, ec_target = None\<rparr>"

definition saturating_sub :: "u8 \<Rightarrow> u8 \<Rightarrow> u8" where
  "saturating_sub a b = (if a < b then 0 else a - b)"

definition pid_status :: "ecu_capability \<Rightarrow> u8 \<Rightarrow> capability_status" where
  "pid_status c pid =
     (if pid = 0 then Cap_Unknown
      else
        let page = saturating_sub pid 1 AND NOT 0x1f;
            page_bits = map (\<lambda>ob. po_bitmap ob AND push_bit (31 - unat ((pid - 1) AND 0x1f)) 1 \<noteq> 0)
              (filter (\<lambda>ob. snd (po_request ob) = page) (ec_pages c))
        in if page_bits \<noteq> []
           then (if list_all (\<lambda>v. v) page_bits then Cap_Supported
                 else if list_all (\<lambda>v. \<not> v) page_bits then Cap_Unsupported
                 else Cap_Unknown)
           else if page = 0 then Cap_Unknown
           else
             let previous = saturating_sub page 0x20;
                 values = map advertises_continuation
                   (filter (\<lambda>ob. snd (po_request ob) = previous) (ec_pages c))
             in if values \<noteq> [] \<and> list_all (\<lambda>v. \<not> v) values then Cap_Unsupported else Cap_Unknown)"

definition ecu_capability_status :: "ecu_capability \<Rightarrow> string \<Rightarrow> discovery_error + capability_status" where
  "ecu_capability_status c semantic =
     and_then (map_err (\<lambda>_. UnsupportedSemantic semantic) (prepare_read semantic))
       (\<lambda>request. Inr (pid_status c (rr_pid request)))"

section \<open>The discovery\<close>

type_synonym discovery = "page_observation list"

definition discovery_new :: "page_observation list \<Rightarrow> discovery" where
  "discovery_new observations = sort_key observation_key observations"

definition support_observation :: "support_discovery \<Rightarrow> provenance \<Rightarrow> discovery_error + page_observation" where
  "support_observation page p =
     page_observation_new (sd_request page ! 0, sd_request page ! 1)
       (case sd_responder page of
          Some responder \<Rightarrow> Opaque_Identity functional_context (responder_str responder)
        | None \<Rightarrow> Unknown_Identity functional_context)
       (sd_response page) p"

definition from_support_discovery :: "support_discovery list \<Rightarrow> discovery_error + discovery" where
  "from_support_discovery pages =
     and_then (map_err InvalidProvenance (provenance_new ''Mode 01 functional support discovery'' High))
       (\<lambda>p. and_then (collect_results (map (\<lambda>page. support_observation page p) pages))
         (\<lambda>observations. Inr (discovery_new observations)))"

text \<open>The ascending set of the responders.\<close>

definition responders :: "discovery \<Rightarrow> topology_identity list" where
  "responders d = sort_key identity_key (remdups (map po_responder d))"

definition capabilities :: "discovery \<Rightarrow> ecu_capability list" where
  "capabilities d =
     map (\<lambda>r. ecu_capability_new r (filter (\<lambda>ob. po_responder ob = r) d)) (responders d)"

definition capability_of :: "discovery \<Rightarrow> topology_identity \<Rightarrow> string \<Rightarrow> discovery_error + capability_status" where
  "capability_of d responder semantic =
     (case find (\<lambda>c. ec_responder c = responder) (capabilities d) of
        Some c \<Rightarrow> ecu_capability_status c semantic
      | None \<Rightarrow> and_then (map_err (\<lambda>_. UnsupportedSemantic semantic) (prepare_read semantic))
                 (\<lambda>_. Inr Cap_Unknown))"

definition page_status :: "discovery \<Rightarrow> topology_identity \<Rightarrow> u8 \<Rightarrow> discovery_error + discovery_status" where
  "page_status d responder page =
     and_then (validate_request (0x01, page)) (\<lambda>_.
       if list_ex (\<lambda>ob. po_request ob = (0x01, page) \<and> po_responder ob = responder) d
       then Inr Page_Observed
       else if page = 0 then Inr Page_Unknown
       else
         let previous = saturating_sub page 0x20;
             continuation = map (\<lambda>ob. po_payload ob ! 5 AND 1 \<noteq> 0)
               (filter (\<lambda>ob. po_request ob = (0x01, previous) \<and> po_responder ob = responder) d)
         in Inr (if continuation = [] then Page_Unknown
                 else if list_all (\<lambda>v. v) continuation then Page_NotObserved
                 else if list_all (\<lambda>v. \<not> v) continuation then Page_Unsupported
                 else Page_Unknown))"

definition next_requests :: "discovery \<Rightarrow> (u8 \<times> u8) list" where
  "next_requests d =
     foldl (\<lambda>requests responder.
         foldl (\<lambda>requests page.
             if page_status d responder page = Inr Page_NotObserved
             then bs_insert (0x01, page) requests else requests)
           requests (filter (\<lambda>page. page \<noteq> 0) known_pages))
       [] (responders d)"

definition observation_node :: "page_observation \<Rightarrow> ecu_node" where
  "observation_node ob =
     with_observed_responder
       (with_payload (po_payload ob) (observed_responder_new (po_responder ob) (po_provenance ob)))
       (ecu_node_new functional_context (po_provenance ob))"

definition discovery_topology :: "discovery \<Rightarrow> ecu_topology" where
  "discovery_topology d = topology_from_nodes (map observation_node d)"

section \<open>Facts\<close>

lemma known_pages: "known_pages = [0, 0x20, 0x40, 0x60, 0xa0]"
  unfolding known_pages_def catalog_pids by (simp add: bs_insert_def)

lemma observation_key_inj: "observation_key a = observation_key b \<longleftrightarrow> a = b"
  by (cases a; cases b) (auto simp: observation_key_def key_simps)

interpretation observation_order: canonical_order observation_key
  by unfold_locales (simp add: observation_key_inj)

interpretation identity_order: canonical_order identity_key
  by unfold_locales (simp add: key_simps)

lemma set_responders [simp]: "set (responders d) = po_responder ` set d"
  by (simp add: responders_def)

section \<open>What a capability says\<close>

text \<open>A well-formed observation, and the reference reading: a signal of a responder is supported
  when all its answers for the signal's page say so, unsupported when they all deny it, or when
  there is none and the page before was answered and never announced the page.\<close>

definition observation_ok :: "page_observation \<Rightarrow> bool" where
  "observation_ok ob \<longleftrightarrow> fst (po_request ob) = 0x01 \<and> snd (po_request ob) \<in> set known_pages \<and>
     length (po_payload ob) = 6 \<and> take 2 (po_payload ob) = [0x41, snd (po_request ob)]"

definition says :: "page_observation set \<Rightarrow> topology_identity \<Rightarrow> u8 \<Rightarrow> u8 \<Rightarrow> bool set" where
  "says obs responder page pid =
     (\<lambda>ob. bitmap_supports_pid (po_bitmap ob) pid) `
       {ob \<in> obs. po_responder ob = responder \<and> snd (po_request ob) = page}"

definition capability_verdict :: "page_observation set \<Rightarrow> topology_identity \<Rightarrow> u8 \<Rightarrow> capability_status" where
  "capability_verdict obs responder pid =
     (let page = (pid - 1) AND NOT 0x1f; answers = says obs responder page pid
      in if answers = {True} then Cap_Supported
         else if answers = {False} then Cap_Unsupported
         else if answers = {} \<and> page \<noteq> 0 \<and> says obs responder (page - 0x20) page = {False}
         then Cap_Unsupported
         else Cap_Unknown)"

lemma page_observation_ok:
  "page_observation_new request responder payload p = Inr ob \<longleftrightarrow>
    ob = \<lparr>po_request = request, po_responder = responder, po_payload = payload, po_provenance = p\<rparr> \<and>
    observation_ok ob"
  by (auto simp: page_observation_new_def validate_request_def observation_ok_def)

lemma all_true: "xs \<noteq> [] \<and> list_all (\<lambda>v. v) xs \<longleftrightarrow> set xs = {True}"
  by (cases xs) (auto simp: list_all_iff)

lemma all_false: "xs \<noteq> [] \<and> list_all (\<lambda>v. \<not> v) xs \<longleftrightarrow> set xs = {False}"
  by (cases xs) (auto simp: list_all_iff)

text \<open>The bit tests of the code are the bitmap test of the session.\<close>

lemma capability_bit:
  assumes "pid \<noteq> (0 :: u8)"
  shows "b AND push_bit (31 - unat ((pid - 1) AND 0x1f)) 1 \<noteq> 0 \<longleftrightarrow> bitmap_supports_pid b pid"
proof -
  have "unat pid \<noteq> 0" using assms by (simp add: unat_eq_0)
  then have "unat (pid - 1) = unat pid - 1" using assms by (simp add: unat_minus_one)
  moreover have "unat ((pid - 1) AND 0x1f) = unat (pid - 1) mod 32" by (rule unat_and_1f)
  ultimately have "31 - unat ((pid - 1) AND 0x1f) = 32 - ((unat pid - 1) mod 32 + 1)" by simp
  then show ?thesis
    using page_bit_position [OF assms] by (simp add: bitmap_supports_pid_def Let_def)
qed

lemma continuation_bit:
  assumes "observation_ok ob" and "page AND 0x1f = 0"
  shows "po_payload ob ! 5 AND 1 \<noteq> 0 \<longleftrightarrow> bitmap_supports_pid (po_bitmap ob) page"
proof -
  obtain a b c d e f where p: "po_payload ob = [a, b, c, d, e, f]"
    using assms(1) by (auto simp: observation_ok_def numeral_eq_Suc length_Suc_conv)
  have "bit (unat f) 0 \<longleftrightarrow> bit f 0" by (simp only: bit_unsigned_iff) simp
  then have f: "f AND 1 \<noteq> 0 \<longleftrightarrow> odd (unat f)"
    using bit_iff_and_push_bit_not_eq_0 [of f 0] by (simp add: bit_0)
  let ?n = "be_nat [c, d, e, f]"
  have "bit (word_of_nat n :: u32) 0 \<longleftrightarrow> bit n 0" for n :: nat by transfer (simp add: bit_0)
  note this [of ?n]
  then have "(word_of_nat ?n :: u32) AND 1 \<noteq> 0 \<longleftrightarrow> odd ?n"
    using bit_iff_and_push_bit_not_eq_0 [of "word_of_nat ?n :: u32" 0] by (simp add: bit_0)
  moreover have "odd ?n \<longleftrightarrow> odd (unat f)" by (simp add: be_nat_def)
  ultimately show ?thesis
    using assms(2) f by (simp add: bitmap_supports_pid_def po_bitmap_def p)
qed

lemma says_simps:
  "says {} r page pid = {}"
  "says (insert ob obs) r page pid =
    (if po_responder ob = r \<and> snd (po_request ob) = page
     then insert (bitmap_supports_pid (po_bitmap ob) pid) (says obs r page pid) else says obs r page pid)"
  by (auto simp: says_def)

lemma says_own: "says {ob \<in> obs. po_responder ob = r} r page pid = says obs r page pid"
  unfolding says_def by (rule image_cong) auto

lemma says_absent: "r \<notin> po_responder ` obs \<Longrightarrow> says obs r page pid = {}"
  by (auto simp: says_def)

lemma verdict_own: "capability_verdict {ob \<in> obs. po_responder ob = r} r pid = capability_verdict obs r pid"
  by (simp add: capability_verdict_def says_own Let_def)

lemma find_by_key:
  assumes "\<And>x. key (g x) = x"
  shows "find (\<lambda>c. key c = r) (map g rs) = (if r \<in> set rs then Some (g r) else None)"
  using assms by (induction rs) auto

lemma find_capability:
  "find (\<lambda>c. ec_responder c = r) (capabilities d) =
    (if r \<in> po_responder ` set d
     then Some (ecu_capability_new r (filter (\<lambda>ob. po_responder ob = r) d)) else None)"
  unfolding capabilities_def by (subst find_by_key) (simp_all add: ecu_capability_new_def)

text \<open>The answers of a page, as the code reads them and as a set.\<close>

lemma page_bits:
  assumes "pid \<noteq> 0"
  shows "set (map (\<lambda>ob. po_bitmap ob AND push_bit (31 - unat ((pid - 1) AND 0x1f)) 1 \<noteq> 0)
      (filter (\<lambda>ob. snd (po_request ob) = page) (sort_key k (filter (\<lambda>ob. po_responder ob = r) d))))
    = says (set d) r page pid"
  unfolding says_def capability_bit [OF assms] by auto

lemma continuations:
  assumes "\<forall>ob \<in> set d. observation_ok ob" and "page AND 0x1f = 0"
  shows "set (map (\<lambda>ob. po_payload ob ! 5 AND 1 \<noteq> 0)
      (filter (\<lambda>ob. snd (po_request ob) = previous) (sort_key k (filter (\<lambda>ob. po_responder ob = r) d))))
    = says (set d) r previous page"
proof -
  have "po_payload ob ! 5 AND 1 \<noteq> 0 \<longleftrightarrow> bitmap_supports_pid (po_bitmap ob) page" if "ob \<in> set d" for ob
    using continuation_bit assms that by blast
  then show ?thesis unfolding says_def by (auto simp: image_def)
qed

lemma page_below:
  assumes "page AND 0x1f = (0 :: u8)" and "page \<noteq> 0"
  shows "saturating_sub page 0x20 = page - 0x20"
proof -
  have "unat page mod 32 = 0" using assms(1) unat_and_1f [of page] by simp
  moreover have "unat page \<noteq> 0" using assms(2) by (simp add: unat_eq_0)
  ultimately have "32 \<le> unat page" by presburger
  then show ?thesis by (simp add: saturating_sub_def word_less_nat_alt)
qed

lemma page_of_pid: "((x :: u8) AND NOT 0x1f) AND 0x1f = 0"
  by (simp add: and.assoc)

lemma pid_status_verdict:
  assumes "\<forall>ob \<in> set d. observation_ok ob" and "pid \<noteq> 0"
  shows "pid_status (ecu_capability_new r (filter (\<lambda>ob. po_responder ob = r) d)) pid
    = capability_verdict (set d) r pid"
proof -
  let ?c = "ecu_capability_new r (filter (\<lambda>ob. po_responder ob = r) d)"
  define page where "page = (pid - 1) AND NOT 0x1f"
  define xs where "xs = map (\<lambda>ob. po_bitmap ob AND push_bit (31 - unat ((pid - 1) AND 0x1f)) 1 \<noteq> 0)
      (filter (\<lambda>ob. snd (po_request ob) = page) (ec_pages ?c))"
  define ys where "ys = map advertises_continuation
      (filter (\<lambda>ob. snd (po_request ob) = saturating_sub page 0x20) (ec_pages ?c))"
  have "\<not> pid < 1" using assms(2) by (simp add: word_less_nat_alt unat_eq_0)
  then have "saturating_sub pid 1 AND NOT 0x1f = page" by (simp add: saturating_sub_def page_def)
  then have status: "pid_status ?c pid =
      (if xs \<noteq> [] then (if list_all (\<lambda>v. v) xs then Cap_Supported
         else if list_all (\<lambda>v. \<not> v) xs then Cap_Unsupported else Cap_Unknown)
       else if page = 0 then Cap_Unknown
       else if ys \<noteq> [] \<and> list_all (\<lambda>v. \<not> v) ys then Cap_Unsupported else Cap_Unknown)"
    unfolding pid_status_def Let_def xs_def ys_def using assms(2) by presburger
  have pages: "ec_pages ?c = sort_key observation_key (filter (\<lambda>ob. po_responder ob = r) d)"
    by (simp add: ecu_capability_new_def)
  have masked: "page AND 0x1f = 0" unfolding page_def by (rule page_of_pid)
  have xs: "set xs = says (set d) r page pid"
    unfolding xs_def pages by (rule page_bits [OF assms(2)])
  have ys: "set ys = says (set d) r (saturating_sub page 0x20) page"
    unfolding ys_def pages advertises_continuation_def by (rule continuations [OF assms(1) masked])
  have "capability_verdict (set d) r pid =
      (if set xs = {True} then Cap_Supported else if set xs = {False} then Cap_Unsupported
       else if set xs = {} \<and> page \<noteq> 0 \<and> set ys = {False} then Cap_Unsupported else Cap_Unknown)"
    unfolding capability_verdict_def Let_def xs ys page_def [symmetric]
    using page_below [OF masked] by (cases "page = 0") simp_all
  then show ?thesis
    unfolding status using all_true [of xs] all_false [of xs] all_false [of ys] by auto
qed

lemma prepared_pid:
  assumes "prepare_read semantic = Inr request"
  shows "rr_pid request \<noteq> 0"
proof -
  have "request \<in> set SIGNALS"
    using assms by (auto simp: prepare_read_def signal_def ok_or_def find_Some_iff split: option.splits)
  then have "rr_pid request \<in> set (map (\<lambda>s. m01_pid (sg_request s)) SIGNALS)"
    by (auto simp: rr_pid_def)
  then show ?thesis unfolding catalog_pids by auto
qed

section \<open>Continuation pages\<close>

lemma bs_insert_when:
  "bs_wf s \<Longrightarrow> bs_wf (foldl (\<lambda>s x. if P x then bs_insert (g x) s else s) s xs)"
  "set (foldl (\<lambda>s x. if P x then bs_insert (g x) s else s) s xs) = set s \<union> g ` {x \<in> set xs. P x}"
  by (induction xs arbitrary: s) (auto simp: bs_wf_insert)

lemma page_not_observed:
  assumes "\<forall>ob \<in> set d. observation_ok ob" and "page \<in> set known_pages" and "page \<noteq> 0"
  shows "page_status d r page = Inr Page_NotObserved \<longleftrightarrow>
    says (set d) r page page = {} \<and> says (set d) r (page - 0x20) page = {True}"
proof -
  have masked: "page AND 0x1f = 0" using assms(2) by (auto simp: known_pages)
  let ?own = "\<lambda>p. filter (\<lambda>ob. po_request ob = (0x01, p) \<and> po_responder ob = r) d"
  have own: "set (?own p) = {ob \<in> set d. po_responder ob = r \<and> snd (po_request ob) = p}" for p
    using assms(1) by (auto simp: observation_ok_def prod_eq_iff)
  define xs where "xs = map (\<lambda>ob. po_payload ob ! 5 AND 1 \<noteq> 0) (?own (page - 0x20))"
  have "set xs = says (set d) r (page - 0x20) page"
    unfolding xs_def says_def set_map own
    using continuation_bit [OF _ masked] assms(1) by (intro image_cong) auto
  moreover have "list_ex (\<lambda>ob. po_request ob = (0x01, page) \<and> po_responder ob = r) d \<longleftrightarrow>
      says (set d) r page page \<noteq> {}"
    unfolding says_def list_ex_iff using assms(1) by (force simp: observation_ok_def prod_eq_iff)
  ultimately show ?thesis
    using all_true [of xs] assms(2,3) page_below [OF masked assms(3)]
    by (auto simp: page_status_def validate_request_def Let_def xs_def)
qed

lemma next_requests_set:
  assumes "\<forall>ob \<in> set d. observation_ok ob"
  shows "bs_wf (next_requests d)"
    and "set (next_requests d) = {(0x01, p) |p. p \<in> set known_pages \<and> p \<noteq> 0 \<and>
      (\<exists>r. says (set d) r p p = {} \<and> says (set d) r (p - 0x20) p = {True})}"
proof -
  let ?step = "\<lambda>s r. foldl (\<lambda>s p. if page_status d r p = Inr Page_NotObserved then bs_insert (0x01, p) s else s)
      s (filter (\<lambda>p. p \<noteq> 0) known_pages)"
  have "bs_wf (foldl ?step s rs)" if "bs_wf s" for s rs
    using that by (induction rs arbitrary: s) (simp_all add: bs_insert_when)
  from this [of "[]" "responders d"] show "bs_wf (next_requests d)"
    by (simp add: next_requests_def bs_wf_def)
  have "set (foldl ?step s rs) = set s \<union> {(0x01, p) |p. p \<in> set known_pages \<and> p \<noteq> 0 \<and>
      (\<exists>r \<in> set rs. page_status d r p = Inr Page_NotObserved)}" for s rs
    by (induction rs arbitrary: s) (auto simp: bs_insert_when)
  from this [of "[]" "responders d"] have "set (next_requests d) = {(0x01, p) |p. p \<in> set known_pages \<and> p \<noteq> 0 \<and>
      (\<exists>r \<in> po_responder ` set d. page_status d r p = Inr Page_NotObserved)}"
    by (simp add: next_requests_def)
  moreover have "(\<exists>r \<in> po_responder ` set d. page_status d r p = Inr Page_NotObserved) \<longleftrightarrow>
      (\<exists>r. says (set d) r p p = {} \<and> says (set d) r (p - 0x20) p = {True})"
    if "p \<in> set known_pages" "p \<noteq> 0" for p
  proof -
    have "says (set d) r (p - 0x20) p = {True} \<Longrightarrow> r \<in> po_responder ` set d" for r
      by (rule ccontr) (simp add: says_absent)
    then show ?thesis unfolding page_not_observed [OF assms that] bex_simps(1) by meson
  qed
  ultimately show "set (next_requests d) = {(0x01, p) |p. p \<in> set known_pages \<and> p \<noteq> 0 \<and>
      (\<exists>r. says (set d) r p p = {} \<and> says (set d) r (p - 0x20) p = {True})}"
    by (simp only: simp_thms cong: conj_cong)
qed

section \<open>Properties\<close>

text \<open>C28: what a discovery says of a signal on a responder is the reference reading of that
  responder's own answers, in whatever order and however often they were collected: supported
  or unsupported when its answers for the signal's page agree, unsupported when the page was
  never announced by the page before, and otherwise unknown; nothing another responder
  answered enters.\<close>

theorem capability_exact:
  assumes "\<forall>ob \<in> set obs. observation_ok ob"
  shows "capability_of (discovery_new obs) responder semantic =
    (case prepare_read semantic of
       Inl _ \<Rightarrow> Inl (UnsupportedSemantic semantic)
     | Inr request \<Rightarrow>
         Inr (capability_verdict {ob \<in> set obs. po_responder ob = responder} responder (rr_pid request)))"
proof -
  let ?d = "discovery_new obs"
  have d: "set ?d = set obs" by (simp add: discovery_new_def)
  have own: "capability_verdict {ob \<in> set obs. po_responder ob = responder} responder pid
      = capability_verdict (set ?d) responder pid" for pid
    by (simp add: verdict_own d)
  show ?thesis
  proof (cases "prepare_read semantic")
    case (Inl e)
    then show ?thesis by (simp add: capability_of_def find_capability ecu_capability_status_def)
  next
    case (Inr request)
    have "capability_verdict (set ?d) responder (rr_pid request) = Cap_Unknown"
      if "responder \<notin> po_responder ` set ?d"
      using says_absent [OF that] by (simp add: capability_verdict_def)
    moreover have "pid_status (ecu_capability_new responder (filter (\<lambda>ob. po_responder ob = responder) ?d)) (rr_pid request)
        = capability_verdict (set ?d) responder (rr_pid request)"
      using assms prepared_pid [OF Inr] by (intro pid_status_verdict) (simp_all add: d)
    ultimately show ?thesis
      using Inr by (simp add: capability_of_def find_capability ecu_capability_status_def own)
  qed
qed

definition example_page :: "string \<Rightarrow> u8 \<Rightarrow> bytes \<Rightarrow> page_observation" where
  "example_page responder page bitmap =
     \<lparr>po_request = (0x01, page), po_responder = Opaque_Identity functional_context responder,
      po_payload = [0x41, page] @ bitmap, po_provenance = \<lparr>pv_source = ''test'', pv_confidence = High\<rparr>\<rparr>"

text \<open>7E8 supports the engine speed, 7E9 denies it.\<close>

theorem capability_exact_witness:
  "capability_of (discovery_new [example_page ''7E8'' 0 [0, 0x10, 0, 1], example_page ''7E9'' 0 [0, 0, 0, 0]])
     (Opaque_Identity functional_context ''7E8'') ''engine.rpm'' = Inr Cap_Supported"
proof -
  let ?obs = "[example_page ''7E8'' 0 [0, 0x10, 0, 1], example_page ''7E9'' 0 [0, 0, 0, 0]]"
  have ok: "\<forall>ob \<in> set ?obs. observation_ok ob" by (simp add: observation_ok_def example_page_def known_pages)
  have "prepare_read ''engine.rpm'' = Inr sig_engine_rpm"
    by (simp add: prepare_read_def signal_def SIGNALS_def signal_semantic_def sig_defs)
  moreover have "rr_pid sig_engine_rpm = 0x0c" by (simp add: rr_pid_def sig_defs mode01_new_def)
  moreover have "capability_verdict (set ?obs) (Opaque_Identity functional_context ''7E8'') 0x0c = Cap_Supported"
    by (simp add: capability_verdict_def says_simps example_page_def bitmap_supports_pid_def
        po_bitmap_def be_nat_def)
  ultimately show ?thesis
    using capability_exact [OF ok, of "Opaque_Identity functional_context ''7E8''" "''engine.rpm''"]
    by (simp only: verdict_own sum.case)
qed

text \<open>The continuation requests are ascending and exactly those whose page some responder announced
  in all its answers for the page before and has not answered itself; only the pages 20, 40 and
  60 can be among them, so that the catalog's page A0 is never asked for by this way.\<close>

lemma next_requests_exact:
  assumes "\<forall>ob \<in> set obs. observation_ok ob"
  shows "sorted_wrt (<) (next_requests (discovery_new obs)) \<and>
    set (next_requests (discovery_new obs)) = {(0x01, p) |p. p \<in> {0x20, 0x40, 0x60} \<and>
      (\<exists>r. says (set obs) r p p = {} \<and> says (set obs) r (p - 0x20) p = {True})}"
proof -
  let ?d = "discovery_new obs"
  have d: "\<forall>ob \<in> set ?d. observation_ok ob" "set ?d = set obs" using assms by (simp_all add: discovery_new_def)
  have "says (set obs) r 0x80 p = {}" for r p
    using assms by (auto simp: says_def observation_ok_def known_pages)
  then have "(p \<in> set known_pages \<and> p \<noteq> 0 \<and> (\<exists>r. says (set obs) r p p = {} \<and> says (set obs) r (p - 0x20) p = {True}))
      \<longleftrightarrow> (p \<in> {0x20, 0x40, 0x60} \<and> (\<exists>r. says (set obs) r p p = {} \<and> says (set obs) r (p - 0x20) p = {True}))" for p
    by (auto simp: known_pages)
  then show ?thesis
    using next_requests_set [OF d(1)] by (simp only: bs_wf_def d(2))
qed

lemma next_requests_exact_witness:
  "(0x01, 0x20) \<in> set (next_requests (discovery_new [example_page ''7E8'' 0 [0, 0x10, 0, 1]]))"
proof -
  have "\<forall>ob \<in> set [example_page ''7E8'' 0 [0, 0x10, 0, 1]]. observation_ok ob"
    by (simp add: observation_ok_def example_page_def known_pages)
  moreover have "says (set [example_page ''7E8'' 0 [0, 0x10, 0, 1]]) (Opaque_Identity functional_context ''7E8'') 0x20 0x20 = {}"
    "says (set [example_page ''7E8'' 0 [0, 0x10, 0, 1]]) (Opaque_Identity functional_context ''7E8'') 0 0x20 = {True}"
    by (simp_all add: says_simps example_page_def bitmap_supports_pid_def po_bitmap_def be_nat_def)
  ultimately show ?thesis using next_requests_exact by fastforce
qed

text \<open>A discovery's topology holds one node per observation, with its responder and payload and
  nothing inferred.\<close>

lemma discovery_topology_nodes:
  "mset (discovery_topology d) = image_mset observation_node (mset d)"
  "n \<in> set (discovery_topology d) \<Longrightarrow> en_role n = None \<and> en_target n = None \<and> en_configured n = None \<and>
    (\<exists>ob \<in> set d. map od_identity (en_responders n) = [po_responder ob] \<and>
      map od_payload (en_responders n) = [Some (po_payload ob)])"
  by (auto simp: discovery_topology_def topology_from_nodes_def observation_node_def
      with_observed_responder_def ecu_node_new_def with_payload_def observed_responder_new_def)

end
