(* ===== verification/Vehicle_Discovery.thy ===== *)
theory Vehicle_Discovery
  imports Session_Reads Functional_Discovery Vehicle_Knowledge
begin

text \<open>
  The discovery of a vehicle as the components do it together: the support pages an ELM session
  collected become the functional discovery, the responders it saw become validated target
  mappings (\<open>src/observed_inventory.rs\<close>), and a mapping becomes the target of routed reads.  The
  session client of the target validation is a parameter, the function that answers a targeted
  read; a panic of a collaborator is not modelled there.
\<close>

section \<open>Validated targets\<close>

text \<open>A targeted read of the session client, on its state.\<close>

type_synonym 's targeted_client = "targeted_read_request \<Rightarrow> 's \<Rightarrow> (string + transaction) \<times> 's"

definition physical_obd2_context :: protocol_context where
  "physical_obd2_context = \<lparr>pc_protocol = Obd2, pc_addressing = Physical\<rparr>"

definition elm_header_target :: "string \<Rightarrow> request_target" where
  "elm_header_target address =
     \<lparr>rt_context = physical_obd2_context,
      rt_address = Some \<lparr>ra_namespace = ''elm-header'', ra_value = address\<rparr>\<rparr>"

definition engine_target_request :: "string + targeted_read_request" where
  "engine_target_request =
     and_then (prepare_read ''engine.rpm'') (\<lambda>request.
       targeted_read_new request (elm_header_target ''7E0'') (ElmHeader ''7E8''))"

definition secondary_target_request :: "string + targeted_read_request" where
  "secondary_target_request =
     and_then (prepare_read ''vehicle.speed'') (\<lambda>request.
       targeted_read_new request (elm_header_target ''7E1'') (ElmHeader ''7E9''))"

definition validate_engine_target_transaction :: "transaction \<Rightarrow> string + unit" where
  "validate_engine_target_transaction t =
     (if tx_semantic t \<noteq> ''engine.rpm'' \<or> tx_request t \<noteq> [0x01, 0x0C] \<or> length (tx_response t) \<noteq> 4 \<or>
        take 1 (tx_response t) \<noteq> [0x41] \<or> take 1 (drop 1 (tx_response t)) \<noteq> [0x0C]
      then Inl ''targeted engine validation returned an invalid 010C response'' else Inr ())"

definition validate_vehicle_speed_target_transaction :: "transaction \<Rightarrow> string + unit" where
  "validate_vehicle_speed_target_transaction t =
     (if tx_semantic t \<noteq> ''vehicle.speed'' \<or> tx_request t \<noteq> [0x01, 0x0D] \<or> length (tx_response t) \<noteq> 3 \<or>
        take 1 (tx_response t) \<noteq> [0x41] \<or> take 1 (drop 1 (tx_response t)) \<noteq> [0x0D]
      then Inl ''targeted secondary validation returned an invalid 010D response'' else Inr ())"

definition confirmed_engine_target :: "string + target_mapping_snapshot" where
  "confirmed_engine_target =
     and_then (map_err topology_error_text
         (provenance_new ''targeted engine.rpm Mode 01 validation'' Verified)) (\<lambda>p.
       Inr \<lparr>ms_role = Some \<lparr>as_role = Engine, as_provenance = p\<rparr>,
            ms_responder = Some (Address_Identity physical_obd2_context ''7E8''),
            ms_target = elm_header_target ''7E0'', ms_provenance = p\<rparr>)"

definition confirmed_secondary_target :: "string + target_mapping_snapshot" where
  "confirmed_secondary_target =
     and_then (map_err topology_error_text
         (provenance_new ''targeted vehicle.speed Mode 01 validation'' Verified)) (\<lambda>p.
       Inr \<lparr>ms_role = None,
            ms_responder = Some (Address_Identity physical_obd2_context ''7E9''),
            ms_target = elm_header_target ''7E1'', ms_provenance = p\<rparr>)"

definition engine_responder_observed :: "discovery \<Rightarrow> bool" where
  "engine_responder_observed d =
     list_ex (\<lambda>r. case identity_value r of
        Some value \<Rightarrow> eq_ignore_ascii_case value ''7E8'' | None \<Rightarrow> False) (responders d)"

definition secondary_target_allowed :: "discovery \<Rightarrow> bool" where
  "secondary_target_allowed d =
     list_ex (\<lambda>c. (case identity_value (ec_responder c) of
          Some value \<Rightarrow> eq_ignore_ascii_case value ''7E9'' | None \<Rightarrow> False) \<and>
        ecu_capability_status c ''vehicle.speed'' = Inr Cap_Supported) (capabilities d)"

definition validate_engine_target ::
  "'s targeted_client \<Rightarrow> discovery \<Rightarrow> 's \<Rightarrow> (string + target_mapping_snapshot) \<times> 's" where
  "validate_engine_target client d s =
     (if \<not> engine_responder_observed d
      then (Inl ''engine target validation requires observed responder 7E8'', s)
      else case engine_target_request of
        Inl e \<Rightarrow> (Inl e, s)
      | Inr request \<Rightarrow>
          (case client request s of
             (Inl e, s') \<Rightarrow> (Inl e, s')
           | (Inr t, s') \<Rightarrow>
               (and_then (validate_engine_target_transaction t) (\<lambda>_. confirmed_engine_target), s')))"

definition validate_secondary_target ::
  "'s targeted_client \<Rightarrow> discovery \<Rightarrow> 's \<Rightarrow> (string + target_mapping_snapshot option) \<times> 's" where
  "validate_secondary_target client d s =
     (if \<not> secondary_target_allowed d then (Inr None, s)
      else case secondary_target_request of
        Inl e \<Rightarrow> (Inl e, s)
      | Inr request \<Rightarrow>
          (case client request s of
             (Inl e, s') \<Rightarrow> (Inl e, s')
           | (Inr t, s') \<Rightarrow>
               (and_then (validate_vehicle_speed_target_transaction t) (\<lambda>_.
                  and_then confirmed_secondary_target (\<lambda>m. Inr (Some m))), s')))"

type_synonym mapping_order =
  "((nat \<times> string) \<times> provenance_order) option \<times> identity_order option \<times> target_order \<times> provenance_order"

definition mapping_key :: "target_mapping_snapshot \<Rightarrow> mapping_order" where
  "mapping_key m =
     (map_option (\<lambda>r. (role_key (as_role r), provenance_key (as_provenance r))) (ms_role m),
      map_option identity_key (ms_responder m), target_order_key (ms_target m),
      provenance_key (ms_provenance m))"

definition merge_target_mappings ::
  "target_mapping_snapshot \<Rightarrow> target_mapping_snapshot option \<Rightarrow> target_mapping_snapshot list" where
  "merge_target_mappings engine secondary =
     sort_key mapping_key (engine # (case secondary of Some m \<Rightarrow> [m] | None \<Rightarrow> []))"

text \<open>A failing secondary target is printed and omitted.\<close>

definition discover_target_mappings ::
  "'s targeted_client \<Rightarrow> discovery \<Rightarrow> 's \<Rightarrow> (string + target_mapping_snapshot list) \<times> 's" where
  "discover_target_mappings client d s =
     (if \<not> engine_responder_observed d then (Inr [], s)
      else case validate_engine_target client d s of
        (Inl e, s') \<Rightarrow> (Inl e, s')
      | (Inr engine, s') \<Rightarrow>
          (case validate_secondary_target client d s' of
             (Inl _, s'') \<Rightarrow> (Inr (merge_target_mappings engine None), s'')
           | (Inr secondary, s'') \<Rightarrow> (Inr (merge_target_mappings engine secondary), s'')))"

section \<open>The pages a session collects\<close>

text \<open>An observation of the session as the page exchange makes it.\<close>

definition page_sound :: "u8 \<Rightarrow> support_discovery \<Rightarrow> bool" where
  "page_sound page sd \<longleftrightarrow> sd_request sd = [0x01, page] \<and> mode01_shape page 4 (sd_response sd)"

lemma support_page_sound:
  assumes "normalize_pid_support_page_with_evidence response page = Inr (normalized, observations)"
  shows "observations \<noteq> [] \<and> (\<forall>sd \<in> set observations. page_sound page sd)"
proof -
  from assms obtain ms where ms: "mode01_responses response page 4 = Inr ms"
    and obs: "observations = sort_discoveries (map (\<lambda>r. \<lparr>sd_request = [0x01, page],
      sd_responder = dr_responder r, sd_response = dr_payload r\<rparr>) ms)"
    by (auto simp: support_page_iff)
  have "length observations = length ms" unfolding obs by (simp add: sort_discoveries_def)
  then have "observations \<noteq> []" using mode01_responses_shape [OF ms] by auto
  moreover have "\<forall>sd \<in> set observations. page_sound page sd"
    using mode01_responses_shape [OF ms] by (auto simp: obs sort_discoveries_def page_sound_def)
  ultimately show ?thesis by blast
qed

lemma discover_pages_groups:
  assumes "discover_pages ex highest (page_number j) pages ds e = (Inr support, e')"
    and "length pages = j" and "j < 8"
  shows "\<exists>groups. ps_discovery support = ds @ concat groups \<and>
    length (ps_pages support) = j + length groups \<and> length (ps_pages support) \<le> 8 \<and> groups \<noteq> [] \<and>
    (\<forall>i < length groups. groups ! i \<noteq> [] \<and> (\<forall>sd \<in> set (groups ! i). page_sound (page_number (j + i)) sd))"
  using assms
proof (induction "8 - j" arbitrary: j pages ds e rule: less_induct)
  case less
  obtain response e1 where response: "send ex (support_command (page_number j)) 10000 e = (Inr response, e1)"
    using less.prems(1) by (subst (asm) discover_pages.simps) (auto split: prod.splits sum.splits)
  obtain normalized obs where n:
    "normalize_pid_support_page_with_evidence response (page_number j) = Inr (normalized, obs)"
    using less.prems(1) by (subst (asm) discover_pages.simps) (auto simp: response split: sum.splits)
  note sound = support_page_sound [OF n]
  let ?pages = "pages @ [payload_bitmap normalized]"
  let ?goon = "\<not> highest \<le> page_number j \<and> \<not> 256 \<le> unat (page_number j) + 0x20 \<and>
    bitmap_supports_pid (payload_bitmap normalized) (page_number (Suc j))"
  have result: "(if ?goon then discover_pages ex highest (page_number (Suc j)) ?pages (ds @ obs) e1
      else (Inr \<lparr>ps_pages = ?pages, ps_discovery = ds @ obs\<rparr>, e1)) = (Inr support, e')"
    using less.prems(1)
    by (subst (asm) discover_pages.simps) (auto simp: response n Let_def page_number_Suc split: if_splits)
  show ?case
  proof (cases ?goon)
    case False
    then have "support = \<lparr>ps_pages = ?pages, ps_discovery = ds @ obs\<rparr>" using result by auto
    then show ?thesis using less.prems sound by (intro exI [of _ "[obs]"]) simp
  next
    case True
    then have j: "Suc j < 8" using unat_page [OF less.prems(3)] by simp
    moreover have shorter: "8 - Suc j < 8 - j" using less.prems(3) by arith
    ultimately obtain groups where g: "ps_discovery support = (ds @ obs) @ concat groups"
      "length (ps_pages support) = Suc j + length groups" "length (ps_pages support) \<le> 8"
      "\<forall>i < length groups. groups ! i \<noteq> [] \<and> (\<forall>sd \<in> set (groups ! i). page_sound (page_number (Suc j + i)) sd)"
      using less.hyps [OF shorter, of ?pages "ds @ obs" e1] True result less.prems by auto
    have "(obs # groups) ! i \<noteq> [] \<and> (\<forall>sd \<in> set ((obs # groups) ! i). page_sound (page_number (j + i)) sd)"
      if "i < length (obs # groups)" for i
      using that g(4) sound by (cases i) auto
    then show ?thesis using g(1-3) by (intro exI [of _ "obs # groups"]) simp
  qed
qed

section \<open>From the session to the functional discovery\<close>

lemma collect_results_append:
  "collect_results (rs @ rs') =
    and_then (collect_results rs) (\<lambda>xs. and_then (collect_results rs') (\<lambda>ys. Inr (xs @ ys)))"
proof (induction rs)
  case Nil
  show ?case by (cases "collect_results rs'") simp_all
next
  case (Cons r rs)
  then show ?case by (cases r; cases "collect_results rs"; cases "collect_results rs'") simp_all
qed

lemma collect_results_all:
  "(\<forall>x \<in> set xs. \<exists>y. f x = Inr y \<and> P y) \<Longrightarrow>
    \<exists>ys. collect_results (map f xs) = Inr ys \<and> length ys = length xs \<and> (\<forall>y \<in> set ys. P y)"
  by (induction xs) auto

lemma sound_observation:
  assumes "page_sound page sd"
  shows "if page \<in> set known_pages
    then \<exists>ob. support_observation sd p = Inr ob \<and> observation_ok ob
    else support_observation sd p = Inl (RequestNotAllowlisted (0x01, page))"
  using assms
  by (auto simp: page_sound_def mode01_shape_def support_observation_def page_observation_new_def
      validate_request_def observation_ok_def)

lemma page_numbers: "page_number i \<in> set known_pages" if "i < 4"
proof -
  have "i = 0 \<or> i = 1 \<or> i = 2 \<or> i = 3" using that by linarith
  then show ?thesis by (auto simp: page_number_def known_pages)
qed

lemma provenance_ok:
  "provenance_new ''Mode 01 functional support discovery'' c =
    Inr \<lparr>pv_source = ''Mode 01 functional support discovery'', pv_confidence = c\<rparr>"
proof -
  have "trim ''Mode 01 functional support discovery'' \<noteq> []" by code_simp
  then show ?thesis by (simp add: provenance_new_def)
qed

lemma from_support_groups:
  assumes "\<forall>i < length groups. groups ! i \<noteq> [] \<and> (\<forall>sd \<in> set (groups ! i). page_sound (page_number i) sd)"
  shows "if length groups \<le> 4
    then \<exists>d. from_support_discovery (concat groups) = Inr d \<and> length d = length (concat groups) \<and>
      (\<forall>ob \<in> set d. observation_ok ob)
    else from_support_discovery (concat groups) = Inl (RequestNotAllowlisted (0x01, 0x80))"
proof -
  obtain p where p: "provenance_new ''Mode 01 functional support discovery'' High = Inr p"
    and from_all: "from_support_discovery sds =
      and_then (collect_results (map (\<lambda>sd. support_observation sd p) sds)) (\<lambda>obs. Inr (discovery_new obs))" for sds
    by (simp add: from_support_discovery_def provenance_ok)
  let ?f = "\<lambda>sd. support_observation sd p"
  have early: "\<forall>sd \<in> set (concat (take 4 groups)). \<exists>ob. ?f sd = Inr ob \<and> observation_ok ob"
  proof
    fix sd assume "sd \<in> set (concat (take 4 groups))"
    then obtain g where "g \<in> set (take 4 groups)" and sd: "sd \<in> set g" by auto
    then obtain i where i: "i < 4" "i < length groups" "sd \<in> set (groups ! i)"
      by (auto simp: in_set_conv_nth [of g])
    then have "page_sound (page_number i) sd" using assms by blast
    from sound_observation [OF this, of p] show "\<exists>ob. ?f sd = Inr ob \<and> observation_ok ob"
      using page_numbers [OF i(1)] by simp
  qed
  then obtain obs where obs: "collect_results (map ?f (concat (take 4 groups))) = Inr obs"
    "length obs = length (concat (take 4 groups))" "\<forall>ob \<in> set obs. observation_ok ob"
    using collect_results_all [of "concat (take 4 groups)" ?f observation_ok] by blast
  show ?thesis
  proof (cases "length groups \<le> 4")
    case True
    then show ?thesis using obs by (simp add: from_all discovery_new_def)
  next
    case False
    then have g: "groups = take 4 groups @ groups ! 4 # drop (Suc 4) groups"
      by (intro id_take_nth_drop) simp
    have 4: "4 < length groups" using False by simp
    then obtain sd rest where sd: "groups ! 4 = sd # rest" using assms by (meson neq_Nil_conv)
    then have "page_sound (page_number 4) sd" using assms 4 by (metis list.set_intros(1))
    from sound_observation [OF this, of p] have "?f sd = Inl (RequestNotAllowlisted (0x01, 0x80))"
      by (simp add: page_number_def known_pages split: if_splits)
    then have "collect_results (map ?f (concat groups)) = Inl (RequestNotAllowlisted (0x01, 0x80))"
      using obs(1) by (subst g) (simp add: collect_results_append sd)
    then show ?thesis using False by (simp add: from_all)
  qed
qed

section \<open>Routed reads\<close>

text \<open>The rule of a semantic is the last one given for it.\<close>

lemma knowledge_rule_last:
  "knowledge_rule (vehicle_knowledge_new rules) semantic = find (\<lambda>r. sr_semantic r = semantic) (rev rules)"
proof -
  have "knowledge_rule (vehicle_knowledge_new rules) semantic =
      foldl (\<lambda>v r. Some r) None (filter (\<lambda>r. sr_semantic r = semantic) rules)"
    unfolding knowledge_rule_def vehicle_knowledge_new_def bt_insert_def
    using bt.fold_upserts(2) [OF bt.wf_empty, of sr_semantic "\<lambda>r _. r" rules semantic] by simp
  also have "\<dots> = find (\<lambda>r. sr_semantic r = semantic) (rev rules)"
    by (induction rules rule: rev_induct) auto
  finally show ?thesis .
qed

text \<open>A mapping may be used: it is for the role the rules give the semantic, and the cache is valid.\<close>

definition usable :: "semantic_role_rule list \<Rightarrow> string \<Rightarrow> ecu_target_mapping option \<Rightarrow> bool \<Rightarrow> bool" where
  "usable rules semantic mapping cache_valid \<longleftrightarrow> cache_valid \<and>
     (case (mapping, find (\<lambda>r. sr_semantic r = semantic) (rev rules)) of
        (Some m, Some r) \<Rightarrow> as_role (tm_role m) = sr_role r | _ \<Rightarrow> False)"

text \<open>Why a mapping may not be used, in the order the code asks: there is none, the rules give the
  semantic no role, they give it another one, or the cache is stale.\<close>

definition obstacle ::
  "semantic_role_rule list \<Rightarrow> string \<Rightarrow> ecu_target_mapping option \<Rightarrow> bool \<Rightarrow> routing_reason \<Rightarrow> bool"
where
  "obstacle rules semantic mapping cache_valid reason \<longleftrightarrow>
     (case reason of
        NoTargetMapping \<Rightarrow> mapping = None
      | NoRoleMapping \<Rightarrow> mapping \<noteq> None \<and> semantic \<notin> sr_semantic ` set rules
      | RoleMismatch \<Rightarrow> \<exists>m r. mapping = Some m \<and>
          find (\<lambda>r. sr_semantic r = semantic) (rev rules) = Some r \<and> as_role (tm_role m) \<noteq> sr_role r
      | StaleCache \<Rightarrow> \<not> cache_valid \<and> usable rules semantic mapping True)"

text \<open>The evidence of a mapping names a physical OBD-II request header and a responder header.\<close>

definition mapping_reaches :: "ecu_target_mapping \<Rightarrow> string \<Rightarrow> string \<Rightarrow> bool" where
  "mapping_reaches m header filt \<longleftrightarrow>
     rt_context (te_target (tm_evidence m)) = physical_obd2_context \<and>
     identity_context (tm_responder m) = physical_obd2_context \<and>
     (\<exists>a value. rt_address (te_target (tm_evidence m)) = Some a \<and> ra_namespace a = ''elm-header'' \<and>
        identity_value (tm_responder m) = Some value \<and>
        length (ra_value a) = 3 \<and> all_hex (ra_value a) \<and> length value = 3 \<and> all_hex value \<and>
        header = to_ascii_uppercase (ra_value a) \<and> filt = to_ascii_uppercase value)"

lemma validate_header_iff: "validate_header_value h label = Inr () \<longleftrightarrow> length h = 3 \<and> all_hex h"
  by (simp add: validate_header_value_def)

lemma targeted_request_exact:
  "targeted_request m request = Inr t \<longleftrightarrow>
     (\<exists>h f. mapping_reaches m h f \<and>
        t = \<lparr>tr_request = request, tr_target = te_target (tm_evidence m), tr_expected = ElmHeader f\<rparr>)"
proof -
  have c: "c = physical_obd2_context \<longleftrightarrow> pc_protocol c = Obd2 \<and> pc_addressing c = Physical" for c
    by (cases c) (simp add: physical_obd2_context_def)
  show ?thesis
    unfolding mapping_reaches_def targeted_request_def targeted_read_new_def Let_def c
    by (auto simp: ok_or_def validate_request_target_def validate_elm_header_def upper_responder_def
        validate_header_iff split: if_splits option.splits)
qed

lemma targeted_request_refused:
  "(\<exists>reason. targeted_request m request = Inl (InvalidTargetEvidence reason)) \<longleftrightarrow>
     \<not> (\<exists>h f. mapping_reaches m h f)"
proof -
  have "\<exists>reason. e = InvalidTargetEvidence reason" if "targeted_request m request = Inl e" for e
    using that by (auto simp: targeted_request_def ok_or_def Let_def split: if_splits option.splits)
      (metis map_err.simps sum.exhaust sum.inject(1) sum.distinct(1))
  moreover have "(\<exists>t. targeted_request m request = Inr t) \<longleftrightarrow> (\<exists>h f. mapping_reaches m h f)"
    by (simp add: targeted_request_exact)
  ultimately show ?thesis by (cases "targeted_request m request") auto
qed

lemma mapping_reaches_call:
  assumes "mapping_reaches m h f"
    and "tr_target t = te_target (tm_evidence m)" and "tr_expected t = ElmHeader f"
  shows "call_ok (Call_Targeted t)" "call_headers (Call_Targeted t) = (Header h, Header f)"
proof -
  obtain a where a: "rt_address (tr_target t) = Some a" "ra_namespace a = ''elm-header''"
      "h = to_ascii_uppercase (ra_value a)" "validate_header_value (ra_value a) ''request address'' = Inr ()"
      "valid_header f"
      "rt_context (tr_target t) = physical_obd2_context"
    using assms unfolding mapping_reaches_def by (auto simp: validate_header_iff upper_header_valid)
  show "call_ok (Call_Targeted t)"
    using a assms(3)
    by (simp add: call_ok_def target_ok_def validate_request_target_def physical_obd2_context_def ok_or_def)
  show "call_headers (Call_Targeted t) = (Header h, Header f)"
    using a assms(3) by (simp add: call_headers_def target_key_def)
qed

lemma found_rule: "find P (rev xs) = Some r \<Longrightarrow> r \<in> set xs \<and> P r"
  by (metis find_Some_iff nth_mem set_rev)

lemma usable_obstacle: "usable rules semantic mapping cache_valid \<Longrightarrow> \<not> obstacle rules semantic mapping cache_valid reason"
  using found_rule [of "\<lambda>r. sr_semantic r = semantic" rules]
  by (auto simp: usable_def obstacle_def split: option.splits routing_reason.splits)

lemma route_unusable:
  assumes "signal semantic = Some request" and "\<not> usable rules semantic mapping cache_valid"
  shows "\<exists>reason. (\<forall>other. obstacle rules semantic mapping cache_valid other \<longleftrightarrow> other = reason) \<and>
    route (vehicle_knowledge_new rules) semantic mapping cache_valid fallback =
      Inr (fallback_decision request mapping reason fallback)"
proof -
  let ?rule = "find (\<lambda>r. sr_semantic r = semantic) (rev rules)"
  note defs = route_def knowledge_rule_last prepare_read_def obstacle_def usable_def assms(1)
  have ruled: "(?rule = None) = (semantic \<notin> sr_semantic ` set rules)" by (auto simp: find_None_iff)
  consider "mapping = None" | m where "mapping = Some m" "?rule = None"
    | m r where "mapping = Some m" "?rule = Some r" "as_role (tm_role m) \<noteq> sr_role r"
    | m r where "mapping = Some m" "?rule = Some r" "as_role (tm_role m) = sr_role r" "\<not> cache_valid"
    using assms(2) by (cases mapping; cases ?rule) (auto simp: usable_def)
  then show ?thesis
  proof cases
    case 1
    then show ?thesis by (intro exI [of _ NoTargetMapping]) (auto simp: defs split: routing_reason.split)
  next
    case 2
    then show ?thesis using ruled
      by (intro exI [of _ NoRoleMapping]) (auto simp: defs split: routing_reason.split)
  next
    case 3
    then show ?thesis using ruled
      by (intro exI [of _ RoleMismatch]) (auto simp: defs split: routing_reason.split)
  next
    case 4
    then show ?thesis using ruled
      by (intro exI [of _ StaleCache]) (auto simp: defs split: routing_reason.split)
  qed
qed

section \<open>Properties\<close>

text \<open>C27: routing is exact, outcome by outcome, whatever the rules, the mapping, the state of the
  cache and the fallback.  A semantic is refused as unsupported exactly when the catalog does not
  hold it.  A read is targeted exactly when the mapping may be used and its evidence names a
  physical OBD-II request header and responder header, and then it is the catalog read, a
  well-formed call of the session, under exactly those two headers; the evidence is refused
  exactly when the mapping may be used and its evidence does not.  When the mapping may not be
  used, the decision is the one of the fallback policy, with the mapping and the reason that
  applies; and reading under that decision is functional or ambiguous, again as the policy says.\<close>

theorem routing_exact:
  "(route (vehicle_knowledge_new rules) semantic mapping cache_valid fallback
       = Inl (Routing_UnsupportedSemantic s) \<longleftrightarrow> signal semantic = None \<and> s = semantic) \<and>
   (route (vehicle_knowledge_new rules) semantic mapping cache_valid fallback
       = Inr (Decision_Targeted t m) \<longleftrightarrow>
     usable rules semantic mapping cache_valid \<and> mapping = Some m \<and>
     (\<exists>header filt. mapping_reaches m header filt \<and> signal semantic = Some (tr_request t) \<and>
        tr_target t = te_target (tm_evidence m) \<and> tr_expected t = ElmHeader filt \<and>
        call_ok (Call_Targeted t) \<and> call_headers (Call_Targeted t) = (Header header, Header filt))) \<and>
   ((\<exists>why. route (vehicle_knowledge_new rules) semantic mapping cache_valid fallback
       = Inl (InvalidTargetEvidence why)) \<longleftrightarrow>
     signal semantic \<noteq> None \<and> usable rules semantic mapping cache_valid \<and>
     \<not> (\<exists>header filt. mapping_reaches (the mapping) header filt)) \<and>
   (route (vehicle_knowledge_new rules) semantic mapping cache_valid fallback
       = Inr (FunctionalFallback request used reason) \<longleftrightarrow>
     fallback = Fallback_Functional \<and> signal semantic = Some request \<and> used = mapping \<and>
     obstacle rules semantic mapping cache_valid reason) \<and>
   (route (vehicle_knowledge_new rules) semantic mapping cache_valid fallback
       = Inr (Ambiguous request used reason) \<longleftrightarrow>
     fallback = Fallback_Ambiguous \<and> signal semantic = Some request \<and> used = mapping \<and>
     obstacle rules semantic mapping cache_valid reason) \<and>
   (and_then (route (vehicle_knowledge_new rules) semantic mapping cache_valid fallback)
       routing_from_decision = Inr (Route_Functional request) \<longleftrightarrow>
     fallback = Fallback_Functional \<and> signal semantic = Some request \<and>
     \<not> usable rules semantic mapping cache_valid) \<and>
   (and_then (route (vehicle_knowledge_new rules) semantic mapping cache_valid fallback)
       routing_from_decision = Inl AmbiguousFallback \<longleftrightarrow>
     fallback = Fallback_Ambiguous \<and> signal semantic \<noteq> None \<and>
     \<not> usable rules semantic mapping cache_valid)"
proof (cases "signal semantic")
  case None
  then show ?thesis by (auto simp: route_def prepare_read_def)
next
  case (Some q)
  let ?route = "route (vehicle_knowledge_new rules) semantic mapping cache_valid fallback"
  show ?thesis
  proof (cases "usable rules semantic mapping cache_valid")
    case False
    obtain r where "\<forall>other. obstacle rules semantic mapping cache_valid other \<longleftrightarrow> other = r"
      "?route = Inr (fallback_decision q mapping r fallback)"
      using route_unusable [OF Some False] by blast
    then show ?thesis using False Some by (cases fallback) (auto simp: fallback_decision_def)
  next
    case True
    then obtain m' where m: "mapping = Some m'" by (auto simp: usable_def split: option.splits)
    have run: "?route = and_then (targeted_request m' q) (\<lambda>t. Inr (Decision_Targeted t m'))"
      using True Some m by (auto simp: usable_def route_def knowledge_rule_last prepare_read_def
          split: option.splits)
    show ?thesis
    proof (cases "targeted_request m' q")
      case (Inl e)
      then have "\<not> (\<exists>h f. mapping_reaches m' h f)" using targeted_request_exact [of m' q] by force
      moreover obtain why where "e = InvalidTargetEvidence why"
        using targeted_request_refused [of m' q] calculation Inl by auto
      ultimately show ?thesis using run Inl m True Some usable_obstacle [OF True] by auto
    next
      case (Inr q')
      then obtain h f where hf: "mapping_reaches m' h f"
        "q' = \<lparr>tr_request = q, tr_target = te_target (tm_evidence m'), tr_expected = ElmHeader f\<rparr>"
        using targeted_request_exact by blast
      have same: "f' = f" if "mapping_reaches m' h' f'" for h' f'
        using that hf(1) by (auto simp: mapping_reaches_def)
      have "?route = Inr (Decision_Targeted t m) \<longleftrightarrow> m = m' \<and> t = q'" using run Inr by auto
      also have "\<dots> \<longleftrightarrow> mapping = Some m \<and>
         (\<exists>header filt. mapping_reaches m header filt \<and> signal semantic = Some (tr_request t) \<and>
            tr_target t = te_target (tm_evidence m) \<and> tr_expected t = ElmHeader filt \<and>
            call_ok (Call_Targeted t) \<and> call_headers (Call_Targeted t) = (Header header, Header filt))"
          (is "_ = ?right")
      proof
        assume "m = m' \<and> t = q'"
        then show ?right
          using m Some hf mapping_reaches_call [OF hf(1), of q'] by (intro conjI exI [of _ h] exI [of _ f]) simp_all
      next
        assume r: ?right
        then have "m = m'" using m by simp
        moreover obtain header filt where "mapping_reaches m' header filt" "tr_request t = q"
            "tr_target t = te_target (tm_evidence m')" "tr_expected t = ElmHeader filt"
          using r calculation Some by auto
        ultimately show "m = m' \<and> t = q'" using same hf(2) by (cases t) simp
      qed
      finally show ?thesis
        using run Inr m True Some usable_obstacle [OF True] hf(1) by auto
    qed
  qed
qed

definition example_mapping :: ecu_target_mapping where
  "example_mapping =
     (let origin = \<lparr>pv_source = ''validation'', pv_confidence = Verified\<rparr>
      in \<lparr>tm_role = \<lparr>as_role = Engine, as_provenance = origin\<rparr>,
          tm_evidence = \<lparr>te_target = elm_header_target ''7e0'', te_provenance = origin\<rparr>,
          tm_responder = Address_Identity physical_obd2_context ''7e8''\<rparr>)"

theorem routing_exact_witness:
  "(let rules = vehicle_knowledge_new [\<lparr>sr_semantic = ''engine.rpm'', sr_role = Engine\<rparr>];
        request = the (signal ''engine.rpm'')
    in route rules ''engine.rpm'' (Some example_mapping) True Fallback_Functional =
         Inr (Decision_Targeted \<lparr>tr_request = request, tr_target = elm_header_target ''7e0'',
           tr_expected = ElmHeader ''7E8''\<rparr> example_mapping) \<and>
       route rules ''engine.rpm'' (Some example_mapping) False Fallback_Ambiguous =
         Inr (Ambiguous request (Some example_mapping) StaleCache))"
proof -
  let ?rules = "[\<lparr>sr_semantic = ''engine.rpm'', sr_role = Engine\<rparr>]"
  let ?request = sig_engine_rpm
  have "prepare_read ''engine.rpm'' = Inr ?request"
    by (simp add: prepare_read_def signal_def SIGNALS_def signal_semantic_def sig_defs signal_new_def)
  then have r: "signal ''engine.rpm'' = Some ?request"
    by (simp add: prepare_read_def split: option.splits)
  let ?t = "\<lparr>tr_request = ?request, tr_target = elm_header_target ''7e0'', tr_expected = ElmHeader ''7E8''\<rparr>"
  have hex: "to_ascii_uppercase ''7e0'' = ''7E0''" "to_ascii_uppercase ''7e8'' = ''7E8''"
    "all_hex ''7e0''" "all_hex ''7e8''" by code_simp+
  then have m: "mapping_reaches example_mapping ''7E0'' ''7E8''"
    by (simp add: mapping_reaches_def example_mapping_def elm_header_target_def Let_def)
  have u: "usable ?rules ''engine.rpm'' (Some example_mapping) True"
    by (simp add: usable_def example_mapping_def Let_def)
  have t: "tr_target ?t = te_target (tm_evidence example_mapping)" by (simp add: example_mapping_def Let_def)
  note c = mapping_reaches_call [OF m t]
  have "\<exists>header filt. mapping_reaches example_mapping header filt \<and>
      signal ''engine.rpm'' = Some (tr_request ?t) \<and> tr_target ?t = te_target (tm_evidence example_mapping) \<and>
      tr_expected ?t = ElmHeader filt \<and>
      call_ok (Call_Targeted ?t) \<and> call_headers (Call_Targeted ?t) = (Header header, Header filt)"
    using m r t c by (intro exI [of _ "''7E0''"] exI [of _ "''7E8''"]) simp
  moreover have "obstacle ?rules ''engine.rpm'' (Some example_mapping) False StaleCache"
    using u by (simp add: obstacle_def)
  ultimately show ?thesis
    using routing_exact [of ?rules "''engine.rpm''" "Some example_mapping" True Fallback_Functional _ ?t example_mapping]
      routing_exact [of ?rules "''engine.rpm''" "Some example_mapping" False Fallback_Ambiguous _ _ _
        ?request "Some example_mapping" StaleCache] u r
    by (simp only: Let_def option.sel simp_thms)
qed

text \<open>C25: the discovery takes over what a session collected exactly while the vehicle has at most
  four support pages: then every observation is kept, well formed.  From the fifth page, 80, on it
  refuses everything: the page is not in its table of known pages, although a session asks for
  it on the way to the odometer's page A0.\<close>

theorem support_discovery_taken_over:
  assumes "discover_pid_support ex highest e = (Inr support, e')"
  shows "if length (ps_pages support) \<le> 4
    then \<exists>d. from_support_discovery (ps_discovery support) = Inr d \<and>
      length d = length (ps_discovery support) \<and> (\<forall>ob \<in> set d. observation_ok ob)
    else from_support_discovery (ps_discovery support) = Inl (RequestNotAllowlisted (0x01, 0x80))"
proof -
  obtain groups where "ps_discovery support = concat groups" "length (ps_pages support) = length groups"
    "\<forall>i < length groups. groups ! i \<noteq> [] \<and> (\<forall>sd \<in> set (groups ! i). page_sound (page_number i) sd)"
    using discover_pages_groups [of ex highest 0 "[]" "[]" e support e'] assms
    by (auto simp: discover_pid_support_def page_number_def)
  then show ?thesis using from_support_groups [of groups] by simp
qed

text \<open>A vehicle that announces page 80, asked up to the highest page of the catalog.\<close>

definition example_pages :: "string list" where
  "example_pages = [''7E8 06 41 00 00 00 00 01'', ''7E8 06 41 20 00 00 00 01'',
     ''7E8 06 41 40 00 00 00 01'', ''7E8 06 41 60 00 00 00 01'', ''7E8 06 41 80 00 00 00 00'']"

theorem support_discovery_taken_over_witness:
  "(case discover_pid_support scripted 0xa0 example_pages of
      (Inr support, _) \<Rightarrow>
        length (ps_pages support) = 5 \<and>
        from_support_discovery (ps_discovery support) = Inl (RequestNotAllowlisted (0x01, 0x80))
    | _ \<Rightarrow> False)"
proof -
  let ?run = "discover_pid_support scripted 0xa0 example_pages"
  have "(case fst ?run of Inr support \<Rightarrow> length (ps_pages support) = 5 | _ \<Rightarrow> False)" by code_simp
  then obtain support e' where run: "?run = (Inr support, e')" and n: "length (ps_pages support) = 5"
    by (cases ?run) (auto split: sum.splits)
  from support_discovery_taken_over [OF run] n show ?thesis unfolding run by simp
qed

text \<open>A client that keeps a log of what it was asked and what it answered.\<close>

fun recording ::
  "'s targeted_client \<Rightarrow> ('s \<times> (targeted_read_request \<times> (string + transaction)) list) targeted_client"
where
  "recording client r (s, l) = (case client r s of (a, s') \<Rightarrow> (a, (s', l @ [(r, a)])))"

definition engine_read :: targeted_read_request where
  "engine_read = \<lparr>tr_request = sig_engine_rpm, tr_target = elm_header_target ''7E0'',
     tr_expected = ElmHeader ''7E8''\<rparr>"

definition speed_read :: targeted_read_request where
  "speed_read = \<lparr>tr_request = sig_vehicle_speed, tr_target = elm_header_target ''7E1'',
     tr_expected = ElmHeader ''7E9''\<rparr>"

lemma target_requests: "engine_target_request = Inr engine_read" "secondary_target_request = Inr speed_read"
proof -
  have "prepare_read ''engine.rpm'' = Inr sig_engine_rpm" "prepare_read ''vehicle.speed'' = Inr sig_vehicle_speed"
    by (simp_all add: prepare_read_def signal_def SIGNALS_def signal_semantic_def sig_defs)
  moreover have "all_hex ''7E0''" "all_hex ''7E1''" "all_hex ''7E8''" "all_hex ''7E9''"
    "to_ascii_uppercase ''7E8'' = ''7E8''" "to_ascii_uppercase ''7E9'' = ''7E9''" by code_simp+
  then have "targeted_read_new r (elm_header_target ''7E0'') (ElmHeader ''7E8'') =
      Inr \<lparr>tr_request = r, tr_target = elm_header_target ''7E0'', tr_expected = ElmHeader ''7E8''\<rparr>"
    "targeted_read_new r (elm_header_target ''7E1'') (ElmHeader ''7E9'') =
      Inr \<lparr>tr_request = r, tr_target = elm_header_target ''7E1'', tr_expected = ElmHeader ''7E9''\<rparr>" for r
    by (simp_all add: targeted_read_new_def validate_request_target_def elm_header_target_def
        physical_obd2_context_def validate_header_value_def validate_elm_header_def upper_responder_def)
  ultimately show "engine_target_request = Inr engine_read" "secondary_target_request = Inr speed_read"
    by (simp_all add: engine_target_request_def secondary_target_request_def engine_read_def speed_read_def)
qed

text \<open>A transaction that answers a read: its own request, and the positive response to it.\<close>

definition answers_read :: "transaction \<Rightarrow> targeted_read_request \<Rightarrow> bool" where
  "answers_read t r \<longleftrightarrow> tx_semantic t = signal_semantic (tr_request r) \<and>
     tx_request t = rr_bytes (tr_request r) \<and>
     (\<exists>data. tx_response t = 0x41 # rr_pid (tr_request r) # data \<and> length data = rr_data_len (tr_request r))"

lemma two_bytes:
  assumes "take 1 p = [a]" and "take 1 (drop 1 p) = [b]" and "length p = n + 2"
  shows "\<exists>data. p = a # b # data \<and> length data = n"
  using assms by (cases p; cases "tl p") auto

lemma validated_transactions:
  "validate_engine_target_transaction t = Inr () \<Longrightarrow> answers_read t engine_read"
  "validate_vehicle_speed_target_transaction t = Inr () \<Longrightarrow> answers_read t speed_read"
proof -
  have catalog: "signal_semantic sig_engine_rpm = ''engine.rpm''" "rr_bytes sig_engine_rpm = [0x01, 0x0C]"
    "rr_pid sig_engine_rpm = 0x0C" "rr_data_len sig_engine_rpm = 2"
    "signal_semantic sig_vehicle_speed = ''vehicle.speed''" "rr_bytes sig_vehicle_speed = [0x01, 0x0D]"
    "rr_pid sig_vehicle_speed = 0x0D" "rr_data_len sig_vehicle_speed = 1"
    by (simp_all add: signal_semantic_def sig_defs rr_bytes_def rr_pid_def rr_data_len_def mode01_new_def
        mode01_bytes_def)
  { assume "validate_engine_target_transaction t = Inr ()"
    then show "answers_read t engine_read"
      using two_bytes [of "tx_response t" "0x41" "0x0C" 2]
      by (simp add: validate_engine_target_transaction_def answers_read_def engine_read_def catalog
          split: if_splits) }
  { assume "validate_vehicle_speed_target_transaction t = Inr ()"
    then show "answers_read t speed_read"
      using two_bytes [of "tx_response t" "0x41" "0x0D" 1]
      by (simp add: validate_vehicle_speed_target_transaction_def answers_read_def speed_read_def catalog
          split: if_splits) }
qed

text \<open>What a mapping made from the answer of a validation read is.\<close>

definition mapping_of_read :: "targeted_read_request \<Rightarrow> target_mapping_snapshot \<Rightarrow> bool" where
  "mapping_of_read q m \<longleftrightarrow>
     ms_target m = tr_target q \<and>
     ms_responder m = Some (Address_Identity physical_obd2_context (responder_str (tr_expected q))) \<and>
     pv_confidence (ms_provenance m) = Verified \<and>
     (case to_vehicle_knowledge_mapping m of
        None \<Rightarrow> q = speed_read
      | Some k \<Rightarrow> q = engine_read \<and>
          route generic_obd2 ''engine.rpm'' (Some k) True Fallback_Ambiguous = Inr (Decision_Targeted engine_read k))"

lemma confirmed_targets:
  obtains e s where "confirmed_engine_target = Inr e" "mapping_of_read engine_read e"
    "confirmed_secondary_target = Inr s" "mapping_of_read speed_read s"
proof -
  have "trim ''targeted engine.rpm Mode 01 validation'' \<noteq> []"
    "trim ''targeted vehicle.speed Mode 01 validation'' \<noteq> []" by code_simp+
  then obtain pe ps where p:
    "provenance_new ''targeted engine.rpm Mode 01 validation'' Verified = Inr pe" "pv_confidence pe = Verified"
    "provenance_new ''targeted vehicle.speed Mode 01 validation'' Verified = Inr ps" "pv_confidence ps = Verified"
    by (simp add: provenance_new_def)
  let ?k = "\<lparr>tm_role = \<lparr>as_role = Engine, as_provenance = pe\<rparr>,
    tm_evidence = \<lparr>te_target = elm_header_target ''7E0'', te_provenance = pe\<rparr>,
    tm_responder = Address_Identity physical_obd2_context ''7E8''\<rparr>"
  from target_requests(1) obtain q where q: "prepare_read ''engine.rpm'' = Inr q"
    "targeted_read_new q (elm_header_target ''7E0'') (ElmHeader ''7E8'') = Inr engine_read"
    by (auto simp: engine_target_request_def)
  then have "targeted_request ?k q = Inr engine_read"
    by (simp add: targeted_request_def elm_header_target_def physical_obd2_context_def)
  then have "route generic_obd2 ''engine.rpm'' (Some ?k) True Fallback_Ambiguous = Inr (Decision_Targeted engine_read ?k)"
    using q(1) by (simp add: route_def generic_obd2_def knowledge_rule_last)
  then have "\<exists>e. confirmed_engine_target = Inr e \<and> mapping_of_read engine_read e"
    using p(1,2) by (simp add: confirmed_engine_target_def mapping_of_read_def engine_read_def
        to_vehicle_knowledge_mapping_def)
  moreover have "\<exists>s. confirmed_secondary_target = Inr s \<and> mapping_of_read speed_read s"
    using p(3,4) by (simp add: confirmed_secondary_target_def mapping_of_read_def speed_read_def
        to_vehicle_knowledge_mapping_def)
  ultimately show thesis using that by blast
qed

text \<open>C26: a target is taken over only after it has proved itself.  Whatever the session client
  answers: without an observed 7E8 nothing is asked and nothing found; otherwise the engine
  speed is read from 7E0, and only after a valid answer, and only if 7E9 is known to support it,
  the vehicle speed from 7E1.  Every mapping returned stands for a read that was sent and
  answered in full, names the header and the responder of that read, and a mapping with a role
  makes exactly that read the route of the engine speed.\<close>

theorem target_mappings_validated:
  "case discover_target_mappings (recording client) d (s, []) of (result, (_, l)) \<Rightarrow>
     (if engine_responder_observed d
      then (\<exists>a. l = [(engine_read, a)]) \<or>
        (secondary_target_allowed d \<and>
          (\<exists>t b. l = [(engine_read, Inr t), (speed_read, b)] \<and> answers_read t engine_read))
      else l = [] \<and> result = Inr []) \<and>
     (case result of
        Inl _ \<Rightarrow> True
      | Inr ms \<Rightarrow> \<forall>m \<in> set ms. \<exists>q t. (q, Inr t) \<in> set l \<and> answers_read t q \<and> mapping_of_read q m)"
proof (cases "engine_responder_observed d")
  case False
  then show ?thesis by (simp add: discover_target_mappings_def)
next
  case True
  obtain e sm where e: "confirmed_engine_target = Inr e" "mapping_of_read engine_read e"
    and sm: "confirmed_secondary_target = Inr sm" "mapping_of_read speed_read sm"
    by (rule confirmed_targets)
  obtain a s1 where a: "client engine_read s = (a, s1)" by (cases "client engine_read s")
  note defs = discover_target_mappings_def validate_engine_target_def validate_secondary_target_def
    merge_target_mappings_def target_requests
  show ?thesis
  proof (cases "\<exists>t. a = Inr t \<and> validate_engine_target_transaction t = Inr ()")
    case False
    then show ?thesis using True a
      by (cases a) (auto simp: defs split: sum.splits)
  next
    case answered: True
    then obtain t where t: "a = Inr t" "validate_engine_target_transaction t = Inr ()" by blast
    then have engine: "validate_engine_target (recording client) d (s, []) = (Inr e, (s1, [(engine_read, Inr t)]))"
      using True a e(1) by (simp add: defs)
    have read: "answers_read t engine_read" using t(2) by (rule validated_transactions)
    show ?thesis
    proof (cases "secondary_target_allowed d")
      case False
      then show ?thesis using True engine read e(2)
        by (auto simp: discover_target_mappings_def validate_secondary_target_def merge_target_mappings_def)
    next
      case allowed: True
      obtain b s2 where b: "client speed_read s1 = (b, s2)" by (cases "client speed_read s1")
      have "\<exists>ms. discover_target_mappings (recording client) d (s, []) =
          (Inr ms, (s2, [(engine_read, Inr t), (speed_read, b)])) \<and>
        (set ms \<subseteq> {e} \<or> set ms \<subseteq> {e, sm} \<and> (\<exists>t'. b = Inr t' \<and> answers_read t' speed_read))"
        using True engine allowed b validated_transactions(2)
        by (cases b; cases "validate_vehicle_speed_target_transaction (projr b)")
          (auto simp: discover_target_mappings_def validate_secondary_target_def merge_target_mappings_def
            target_requests sm(1))
      then obtain ms where ms: "discover_target_mappings (recording client) d (s, []) =
          (Inr ms, (s2, [(engine_read, Inr t), (speed_read, b)]))"
        "set ms \<subseteq> {e} \<or> set ms \<subseteq> {e, sm} \<and> (\<exists>t'. b = Inr t' \<and> answers_read t' speed_read)" by blast
      have "\<exists>q t'. (q, Inr t') \<in> set [(engine_read, Inr t), (speed_read, b)] \<and> answers_read t' q \<and> mapping_of_read q m"
        if m: "m \<in> set ms" for m
      proof (cases "m = e")
        case False
        then obtain t' where "m = sm" "b = Inr t'" "answers_read t' speed_read" using ms(2) m by blast
        then show ?thesis using sm(2) by auto
      qed (use read e(2) in auto)
      then show ?thesis using ms(1) True allowed read by auto
    qed
  qed
qed

text \<open>A client that answers with the next of its answers, and a vehicle whose engine and
  transmission controllers answered the first page.\<close>

fun queued :: "(string + transaction) list targeted_client" where
  "queued r (a # as) = (a, as)"
| "queued r [] = (Inl ''diagnostic session is closed'', [])"

definition engine_answer :: transaction where
  "engine_answer = \<lparr>tx_timestamp_ms = 1, tx_source = ''test'', tx_profile = ''obd2-v1'',
     tx_semantic = ''engine.rpm'', tx_request = [0x01, 0x0C], tx_response = [0x41, 0x0C, 0x1A, 0xF8],
     tx_value = 1726, tx_unit = ''rpm''\<rparr>"

definition two_controllers :: discovery where
  "two_controllers = [example_page ''7E8'' 0 [0, 0x18, 0, 1], example_page ''7E9'' 0 [0, 0x08, 0, 0]]"

theorem target_mappings_validated_witness:
  "(case discover_target_mappings (recording queued) two_controllers ([Inr engine_answer], []) of
      (result, (_, l)) \<Rightarrow>
        (\<exists>t b. l = [(engine_read, Inr t), (speed_read, b)]) \<and>
        (\<exists>m. result = Inr [m] \<and> mapping_of_read engine_read m))"
proof -
  let ?run = "discover_target_mappings (recording queued) two_controllers ([Inr engine_answer], [])"
  have "(case ?run of (result, (_, l)) \<Rightarrow> map (ra_value \<circ> the \<circ> rt_address \<circ> tr_target \<circ> fst) l = [''7E0'', ''7E1''] \<and>
      (case result of Inr [m] \<Rightarrow> ms_role m \<noteq> None \<and> ms_responder m \<noteq> None | _ \<Rightarrow> False)) \<and>
    engine_responder_observed two_controllers" by code_simp
  then show ?thesis
    using target_mappings_validated [of two_controllers queued "[Inr engine_answer]"]
    by (auto simp: mapping_of_read_def to_vehicle_knowledge_mapping_def split: prod.splits sum.splits list.splits)
qed

end
