(* ===== verification/Cache_Snapshot.thy ===== *)
theory Cache_Snapshot
  imports Topology_Provider Ecu_Identification Vehicle_Discovery "HOL-Library.Sublist"
begin

text \<open>
  The typed evidence of one vehicle, first part of \<open>src/vehicle_cache.rs\<close>: the snapshot with its
  sorted collections, how a discovery becomes a snapshot, the per-ECU view and the part of a
  snapshot that validation compares.
\<close>

section \<open>Data\<close>

record topology_observation =
  tp_context :: protocol_context
  tp_responder :: topology_identity
  tp_payload :: "bytes option"
  tp_window :: "observation_window option"
  tp_provenance :: provenance

record capability_page =
  cp_request :: "u8 \<times> u8"
  cp_payload :: bytes
  cp_provenance :: provenance

record capability_snapshot =
  cb_responder :: topology_identity
  cb_pages :: "capability_page list"

type_synonym topology_observation_order =
  "context_order \<times> identity_order \<times> bytes option \<times> (u64 \<times> u64) option \<times> provenance_order"

definition topology_observation_key :: "topology_observation \<Rightarrow> topology_observation_order" where
  "topology_observation_key ob =
     (context_key (tp_context ob), identity_key (tp_responder ob), tp_payload ob,
      map_option (\<lambda>w. (ow_first_ms w, ow_last_ms w)) (tp_window ob), provenance_key (tp_provenance ob))"

type_synonym page_order = "(u8 \<times> u8) \<times> bytes \<times> provenance_order"

definition capability_page_key :: "capability_page \<Rightarrow> page_order" where
  "capability_page_key p = (cp_request p, cp_payload p, provenance_key (cp_provenance p))"

definition capability_snapshot_key :: "capability_snapshot \<Rightarrow> identity_order \<times> page_order list" where
  "capability_snapshot_key c = (identity_key (cb_responder c), map capability_page_key (cb_pages c))"

definition capability_snapshot_new :: "topology_identity \<Rightarrow> capability_page list \<Rightarrow> capability_snapshot" where
  "capability_snapshot_new responder pages =
     \<lparr>cb_responder = responder, cb_pages = sort_key capability_page_key pages\<rparr>"

definition capability_snapshot_of :: "ecu_capability \<Rightarrow> capability_snapshot" where
  "capability_snapshot_of c =
     capability_snapshot_new (ec_responder c)
       (map (\<lambda>p. \<lparr>cp_request = po_request p, cp_payload = po_payload p, cp_provenance = po_provenance p\<rparr>)
         (ec_pages c))"

section \<open>Snapshots\<close>

record cache_snapshot =
  cs_topology :: "topology_observation list"
  cs_capabilities :: "capability_snapshot list"
  cs_mappings :: "target_mapping_snapshot list"
  cs_identification :: "identification_observation list"
  cs_providers :: "provider_result list"

definition snapshot_default :: cache_snapshot where
  "snapshot_default =
     \<lparr>cs_topology = [], cs_capabilities = [], cs_mappings = [], cs_identification = [], cs_providers = []\<rparr>"

definition snapshot_with_identification ::
  "topology_observation list \<Rightarrow> capability_snapshot list \<Rightarrow> target_mapping_snapshot list \<Rightarrow>
     identification_observation list \<Rightarrow> cache_snapshot" where
  "snapshot_with_identification topology caps mappings identification =
     \<lparr>cs_topology = sort_key topology_observation_key topology,
      cs_capabilities = sort_key capability_snapshot_key caps,
      cs_mappings = sort_key mapping_key mappings,
      cs_identification = sort_key identification_key identification,
      cs_providers = []\<rparr>"

definition snapshot_new ::
  "topology_observation list \<Rightarrow> capability_snapshot list \<Rightarrow> target_mapping_snapshot list \<Rightarrow> cache_snapshot" where
  "snapshot_new topology caps mappings =
     snapshot_with_identification topology caps mappings []"

definition with_topology_provider_results :: "provider_result list \<Rightarrow> cache_snapshot \<Rightarrow> cache_snapshot" where
  "with_topology_provider_results results s = s\<lparr>cs_providers := canon provider_result_key results\<rparr>"

definition observation_of_responder :: "protocol_context \<Rightarrow> observed_responder \<Rightarrow> topology_observation" where
  "observation_of_responder c r =
     \<lparr>tp_context = c, tp_responder = od_identity r, tp_payload = od_payload r,
      tp_window = od_observation r, tp_provenance = od_provenance r\<rparr>"

definition node_observations :: "ecu_node \<Rightarrow> topology_observation list" where
  "node_observations n = map (observation_of_responder (en_context n)) (en_responders n)"

definition node_mappings :: "ecu_node \<Rightarrow> target_mapping_snapshot list" where
  "node_mappings n =
     (case en_target n of
        None \<Rightarrow> []
      | Some t \<Rightarrow>
          (let mapping = (\<lambda>r. \<lparr>ms_role = en_role n, ms_responder = r, ms_target = te_target t,
                               ms_provenance = te_provenance t\<rparr>)
           in if en_responders n = [] then [mapping None]
              else map (\<lambda>r. mapping (Some (od_identity r))) (en_responders n)))"

definition snapshot_from_topology :: "ecu_topology \<Rightarrow> cache_snapshot" where
  "snapshot_from_topology t =
     snapshot_new (concat (map node_observations t)) [] (concat (map node_mappings t))"

definition snapshot_from_discovery :: "ecu_topology \<Rightarrow> ecu_capability list \<Rightarrow> cache_snapshot" where
  "snapshot_from_discovery t caps =
     (snapshot_from_topology t)
       \<lparr>cs_capabilities := sort_key capability_snapshot_key (map capability_snapshot_of caps)\<rparr>"

section \<open>The part that is validated\<close>

record validation_signature =
  vs_topology :: "topology_observation list"
  vs_capabilities :: "capability_snapshot list"
  vs_mappings :: "target_mapping_snapshot list"

definition signature_of :: "cache_snapshot \<Rightarrow> validation_signature" where
  "signature_of s =
     \<lparr>vs_topology = filter (\<lambda>ob. case tp_payload ob of Some p \<Rightarrow> starts_with p [0x41, 0x00] | None \<Rightarrow> False)
                       (cs_topology s),
      vs_capabilities = List.map_filter (\<lambda>c.
          let pages = filter (\<lambda>p. cp_request p = (0x01, 0x00)) (cb_pages c)
          in if pages \<noteq> [] then Some (capability_snapshot_new (cb_responder c) pages) else None)
        (cs_capabilities s),
      vs_mappings = []\<rparr>"

section \<open>Instances\<close>

record ecu_instance =
  in_responder :: topology_identity
  in_topology :: "topology_observation list"
  in_capabilities :: "capability_snapshot option"
  in_mapping :: "target_mapping_snapshot option"
  in_identification :: "identification_observation list"

definition instance_responders :: "cache_snapshot \<Rightarrow> topology_identity list" where
  "instance_responders s =
     canon identity_key
       (map tp_responder (cs_topology s) @ map cb_responder (cs_capabilities s) @
        List.map_filter ms_responder (cs_mappings s) @ map io_responder (cs_identification s))"

definition ecu_instances :: "cache_snapshot \<Rightarrow> ecu_instance list" where
  "ecu_instances s =
     map (\<lambda>r. \<lparr>in_responder = r,
               in_topology = filter (\<lambda>ob. tp_responder ob = r) (cs_topology s),
               in_capabilities = find (\<lambda>c. cb_responder c = r) (cs_capabilities s),
               in_mapping = find (\<lambda>m. ms_responder m = Some r) (cs_mappings s),
               in_identification = filter (\<lambda>ob. io_responder ob = r) (cs_identification s)\<rparr>)
       (instance_responders s)"

definition instance_role :: "ecu_instance \<Rightarrow> role_assignment option" where
  "instance_role i = (case in_mapping i of None \<Rightarrow> None | Some m \<Rightarrow> ms_role m)"

section \<open>The keys are injective\<close>

lemma topology_observation_key_inj [key_simps]:
  "topology_observation_key a = topology_observation_key b \<longleftrightarrow> a = b"
proof -
  have "map_option (\<lambda>w. (ow_first_ms w, ow_last_ms w)) x = map_option (\<lambda>w. (ow_first_ms w, ow_last_ms w)) y
      \<longleftrightarrow> x = y" for x y :: "observation_window option"
    by (rule map_option_key) (metis observation_window.surjective unit.exhaust Pair_inject)
  then show ?thesis by (cases a; cases b) (auto simp add: topology_observation_key_def key_simps)
qed

lemma capability_page_key_inj [key_simps]: "capability_page_key a = capability_page_key b \<longleftrightarrow> a = b"
  by (cases a; cases b) (auto simp add: capability_page_key_def key_simps)

lemma capability_snapshot_key_inj [key_simps]:
  "capability_snapshot_key a = capability_snapshot_key b \<longleftrightarrow> a = b"
  by (cases a; cases b)
    (simp add: capability_snapshot_key_def key_simps map_list_key [where f = capability_page_key, OF capability_page_key_inj])

lemma mapping_key_inj [key_simps]: "mapping_key a = mapping_key b \<longleftrightarrow> a = b"
proof (cases a; cases b)
  fix ro re t p ro' re' t' p'
  assume "a = \<lparr>ms_role = ro, ms_responder = re, ms_target = t, ms_provenance = p\<rparr>"
    "b = \<lparr>ms_role = ro', ms_responder = re', ms_target = t', ms_provenance = p'\<rparr>"
  then show ?thesis
    by (simp add: mapping_key_def key_simps map_option_key [where f = identity_key, OF identity_key_inj]
        map_option_key [where f = "\<lambda>r. (role_key (as_role r), provenance_key (as_provenance r))",
          OF role_assignment_key_inj])
qed

interpretation topology_observation_order: canonical_order topology_observation_key
  by unfold_locales (simp add: key_simps)

interpretation page_order: canonical_order capability_page_key
  by unfold_locales (simp add: key_simps)

interpretation capability_order: canonical_order capability_snapshot_key
  by unfold_locales (simp add: key_simps)

interpretation mapping_order: canonical_order mapping_key
  by unfold_locales (simp add: key_simps)

section \<open>Snapshots are canonical\<close>

text \<open>What every constructor guarantees of its collections.\<close>

definition capability_ok :: "capability_snapshot \<Rightarrow> bool" where
  "capability_ok c \<longleftrightarrow> sorted (map capability_page_key (cb_pages c))"

definition snapshot_canonical :: "cache_snapshot \<Rightarrow> bool" where
  "snapshot_canonical s \<longleftrightarrow>
     sorted (map topology_observation_key (cs_topology s)) \<and>
     sorted (map capability_snapshot_key (cs_capabilities s)) \<and>
     sorted (map mapping_key (cs_mappings s)) \<and>
     sorted (map identification_key (cs_identification s)) \<and>
     canon provider_result_key (cs_providers s) = cs_providers s"

lemma snapshot_rebuild:
  assumes "snapshot_canonical s"
  shows "with_topology_provider_results (cs_providers s)
    (snapshot_with_identification (cs_topology s) (cs_capabilities s) (cs_mappings s) (cs_identification s)) = s"
  using assms unfolding snapshot_canonical_def with_topology_provider_results_def snapshot_with_identification_def
  by (cases s) (simp add: topology_observation_order.sort_id capability_order.sort_id mapping_order.sort_id
      identification_order.sort_id)

lemma snapshots_canonical:
  "snapshot_canonical (snapshot_with_identification t c m i)"
  "snapshot_canonical s \<Longrightarrow> snapshot_canonical (with_topology_provider_results rs s)"
  "snapshot_canonical (snapshot_from_topology topology)"
  "snapshot_canonical (snapshot_from_discovery topology caps)"
  "snapshot_canonical snapshot_default"
  by (simp_all add: snapshot_canonical_def snapshot_with_identification_def with_topology_provider_results_def
      snapshot_from_topology_def snapshot_new_def snapshot_from_discovery_def snapshot_default_def)

section \<open>Instances share out the evidence\<close>

lemma shared_out:
  assumes "distinct rs" and "\<forall>x \<in> set xs. f x \<in> set rs"
  shows "mset (concat (map (\<lambda>r. filter (\<lambda>x. f x = r) xs) rs)) = mset xs"
  using assms
proof (induction rs arbitrary: xs)
  case (Cons r rs)
  let ?rest = "filter (\<lambda>x. f x \<noteq> r) xs"
  have "filter (\<lambda>x. f x = q) xs = filter (\<lambda>x. f x = q) ?rest" if "q \<in> set rs" for q
    using Cons.prems(1) that by (auto intro!: filter_cong)
  then have "map (\<lambda>q. filter (\<lambda>x. f x = q) xs) rs = map (\<lambda>q. filter (\<lambda>x. f x = q) ?rest) rs"
    by (rule map_cong [OF refl])
  moreover have "mset (concat (map (\<lambda>q. filter (\<lambda>x. f x = q) ?rest) rs)) = mset ?rest"
    using Cons.prems by (intro Cons.IH) auto
  moreover have "mset (filter (\<lambda>x. f x = r) xs) + mset ?rest = mset xs"
    by (simp only: mset_filter) (rule multiset_partition [symmetric])
  ultimately show ?case by (simp only: list.map concat.simps mset_append)
qed simp

definition evidence_responders :: "cache_snapshot \<Rightarrow> topology_identity set" where
  "evidence_responders s =
     tp_responder ` set (cs_topology s) \<union> cb_responder ` set (cs_capabilities s) \<union>
     {r. \<exists>m \<in> set (cs_mappings s). ms_responder m = Some r} \<union> io_responder ` set (cs_identification s)"

lemma set_map_filter: "r \<in> set (List.map_filter f xs) \<longleftrightarrow> (\<exists>x \<in> set xs. f x = Some r)"
  by (induction xs) (auto simp: List.map_filter_simps split: option.splits)

lemma instance_responders_set: "set (instance_responders s) = evidence_responders s"
  by (auto simp: instance_responders_def evidence_responders_def set_map_filter)

text \<open>The first element of a kind, as a split of the list.\<close>

definition first_of :: "('a \<Rightarrow> bool) \<Rightarrow> 'a list \<Rightarrow> 'a option \<Rightarrow> bool" where
  "first_of P xs found \<longleftrightarrow>
     (case found of
        None \<Rightarrow> (\<forall>x \<in> set xs. \<not> P x)
      | Some x \<Rightarrow> P x \<and> (\<exists>before after. xs = before @ x # after \<and> (\<forall>y \<in> set before. \<not> P y)))"

lemma find_first_of: "first_of P xs (find P xs)"
  unfolding first_of_def
proof (induction xs)
  case (Cons x xs)
  show ?case
  proof (cases "P x")
    case True
    then show ?thesis by (auto intro: exI [of _ "[]"])
  next
    case False
    have "\<exists>before after. x # xs = before @ y # after \<and> (\<forall>z \<in> set before. \<not> P z)"
      if "xs = before @ y # after" "\<forall>z \<in> set before. \<not> P z" for y before after
      using that False by (intro exI [of _ "x # before"] exI [of _ after]) simp
    then show ?thesis using Cons False by (auto split: option.splits)
  qed
qed simp

text \<open>C34: the per-ECU view shares out the evidence of a snapshot.  There is one instance for every
  responder any evidence names, in canonical order.  Every topology observation and every
  identification result is in exactly one instance, as often as the snapshot holds it; what an
  instance holds names the responder of the instance and stands in the order of the snapshot; and
  the capabilities and the mapping it shows are the first of its own responder, and missing exactly
  when the snapshot has none.\<close>

theorem instances_partition:
  "map in_responder (ecu_instances s) = canon identity_key (map in_responder (ecu_instances s)) \<and>
   set (map in_responder (ecu_instances s)) = evidence_responders s \<and>
   mset (concat (map in_topology (ecu_instances s))) = mset (cs_topology s) \<and>
   mset (concat (map in_identification (ecu_instances s))) = mset (cs_identification s) \<and>
   list_all (\<lambda>i.
       list_all (\<lambda>ob. tp_responder ob = in_responder i) (in_topology i) \<and>
       subseq (in_topology i) (cs_topology s) \<and>
       list_all (\<lambda>ob. io_responder ob = in_responder i) (in_identification i) \<and>
       subseq (in_identification i) (cs_identification s) \<and>
       first_of (\<lambda>c. cb_responder c = in_responder i) (cs_capabilities s) (in_capabilities i) \<and>
       first_of (\<lambda>m. ms_responder m = Some (in_responder i)) (cs_mappings s) (in_mapping i))
     (ecu_instances s)"
proof -
  have rs: "map in_responder (ecu_instances s) = instance_responders s"
    by (simp add: ecu_instances_def comp_def)
  have d: "distinct (instance_responders s)"
    unfolding instance_responders_def by (rule identity_order.canon_distinct)
  have "mset (concat (map in_topology (ecu_instances s))) = mset (cs_topology s)"
    unfolding ecu_instances_def map_map comp_def ecu_instance.simps
    by (rule shared_out [OF d]) (auto simp: instance_responders_set evidence_responders_def)
  moreover have "mset (concat (map in_identification (ecu_instances s))) = mset (cs_identification s)"
    unfolding ecu_instances_def map_map comp_def ecu_instance.simps
    by (rule shared_out [OF d]) (auto simp: instance_responders_set evidence_responders_def)
  moreover have "canon identity_key (instance_responders s) = instance_responders s"
    unfolding instance_responders_def by (rule identity_order.canon_canon)
  ultimately show ?thesis
    unfolding rs instance_responders_set
    by (simp add: ecu_instances_def list_all_iff find_first_of subseq_filter_left)
qed

end
