(* ===== verification/Line_Text.thy ===== *)
theory Line_Text
  imports Text
begin

text \<open>
  The lines of a text as \<open>str::lines\<close> cuts them, and two facts both file formats of the program
  rest on: a text of lines without line ends inside is cut back into them, and a number written
  in decimal is read back.
\<close>

abbreviation (input) line_feed :: char where "line_feed \<equiv> CHR 0x0A"

text \<open>\<open>str::lines\<close>\<close>

definition strip_cr :: "string \<Rightarrow> string" where
  "strip_cr l = (if l \<noteq> [] \<and> last l = CHR 0x0D then butlast l else l)"

definition rust_lines :: "string \<Rightarrow> string list" where
  "rust_lines s =
     (let ls = split_on (\<lambda>c. c = line_feed) s in
      map strip_cr (butlast ls) @ (if last ls = [] then [] else [last ls]))"

section \<open>Cutting back\<close>

lemma join_concat: "join [x] (w # ws) = w @ concat (map (\<lambda>l. x # l) ws)"
  by (induction ws arbitrary: w) simp_all

definition plain_line :: "string \<Rightarrow> bool" where
  "plain_line l \<longleftrightarrow> line_feed \<notin> set l \<and> CHR 0x0D \<notin> set l"

lemma plain_line_simps [simp]:
  "plain_line []"
  "plain_line (c # l) \<longleftrightarrow> c \<noteq> line_feed \<and> c \<noteq> CHR 0x0D \<and> plain_line l"
  "plain_line (l @ m) \<longleftrightarrow> plain_line l \<and> plain_line m"
  by (auto simp: plain_line_def)

lemma rust_lines_text:
  assumes "list_all plain_line (w # ws)"
  shows "rust_lines (w @ concat (map (\<lambda>l. line_feed # l) ws) @ [line_feed]) = w # ws"
proof -
  have "w @ concat (map (\<lambda>l. line_feed # l) ws) @ [line_feed] = join [line_feed] (w # ws @ [[]])"
    unfolding join_concat by simp
  moreover have "split_on (\<lambda>c. c = line_feed) (join [line_feed] (w # ws @ [[]])) = w # ws @ [[]]"
    using assms by (intro split_on_join) (auto simp: plain_line_def list_all_iff)
  moreover have "map strip_cr (w # ws) = w # ws"
    using assms last_in_set by (intro map_idI) (fastforce simp: strip_cr_def plain_line_def list_all_iff)
  ultimately show ?thesis by (simp add: rust_lines_def butlast_append)
qed

section \<open>Decimal numbers\<close>

lemma dec_value_digit [simp]: "d < 10 \<Longrightarrow> dec_value (dec_digit d) = Some d"
proof -
  assume "d < (10 :: nat)"
  then have "d \<in> {0, 1, 2, 3, 4, 5, 6, 7, 8, 9}" unfolding insert_iff empty_iff by presburger
  then show ?thesis by (auto simp: dec_digit_def dec_value_def code_point_def)
qed

lemma parse_digits_append:
  "parse_digits limit acc (s @ t) = (case parse_digits limit acc s of None \<Rightarrow> None | Some a \<Rightarrow> parse_digits limit a t)"
  by (induction s arbitrary: acc) (auto split: option.splits)

lemma parse_digits_show: "n \<le> limit \<Longrightarrow> parse_digits limit 0 (show_nat n) = Some n"
proof (induction n rule: less_induct)
  case (less n)
  show ?case
  proof (cases "n < 10")
    case True
    then show ?thesis using less.prems by (simp add: show_nat.simps [of n] dec_value_digit)
  next
    case False
    then have "parse_digits limit 0 (show_nat (n div 10)) = Some (n div 10)"
      using less.prems div_le_dividend [of n 10] by (intro less.IH) (simp, linarith)
    then show ?thesis
      using False less.prems by (simp add: show_nat.simps [of n] parse_digits_append dec_value_digit)
  qed
qed

lemma show_nat_digits: "show_nat n \<noteq> [] \<and> set (show_nat n) \<subseteq> set ''0123456789''"
proof (induction n rule: less_induct)
  case (less n)
  have d: "dec_digit k \<in> set ''0123456789''" if "k < 10" for k
    unfolding dec_digit_def using that by (intro nth_mem) simp
  show ?case
  proof (cases "n < 10")
    case True
    then show ?thesis using d [of n] by (simp add: show_nat.simps [of n])
  next
    case False
    then show ?thesis
      using less.IH [of "n div 10"] d [of "n mod 10"] by (simp add: show_nat.simps [of n])
  qed
qed

lemma show_nat_plain: "c \<in> set (show_nat n) \<Longrightarrow> c \<in> set ''0123456789''"
  using show_nat_digits by blast

lemma parse_unsigned_show: "n \<le> limit \<Longrightarrow> parse_unsigned limit (show_nat n) = Some n"
proof -
  assume n: "n \<le> limit"
  obtain c cs where s: "show_nat n = c # cs" using show_nat_digits [of n] by (cases "show_nat n") auto
  have "c \<in> set ''0123456789''" using show_nat_plain [of c n] s by simp
  then have "c \<noteq> CHR ''+''" by auto
  then show ?thesis using parse_digits_show [OF n] s by (simp add: parse_unsigned_def)
qed

end
