(* ===== verification/Cache_Text.thy ===== *)
theory Cache_Text
  imports Cache_Snapshot Codec Line_Text
begin

text \<open>
  The text of one cache record, middle part of \<open>src/vehicle_cache.rs\<close>: escaping, tab-separated
  cells, and for every type of a snapshot its encoder and its parser.  A parser takes the cells
  that are left (the code keeps the cells and an index) and returns its value with the rest; a
  panic of \<open>Vec::with_capacity\<close> is a \<open>Panicked\<close>.  The interface \<open>field_format\<close> states that a
  parser undoes its encoder and hands on what follows; it is proved once for optional and
  repeated values and interpreted for every type of the format.
\<close>

section \<open>Escaping\<close>

abbreviation (input) tab :: char where "tab \<equiv> CHR 0x09"
abbreviation (input) backslash :: char where "backslash \<equiv> CHR 0x5C"

definition escape_char :: "char \<Rightarrow> string" where
  "escape_char c =
     (if c = backslash then [backslash, backslash]
      else if c = tab then [backslash, CHR ''t'']
      else if c = CHR 0x0D then [backslash, CHR ''r'']
      else if c = CHR 0x0A then [backslash, CHR ''n'']
      else [c])"

definition escape :: "string \<Rightarrow> string" where
  "escape s = concat (map escape_char s)"

definition unescape_char :: "char \<Rightarrow> char option" where
  "unescape_char c =
     (if c = backslash then Some backslash
      else if c = CHR ''t'' then Some tab
      else if c = CHR ''r'' then Some (CHR 0x0D)
      else if c = CHR ''n'' then Some (CHR 0x0A)
      else None)"

fun unescape :: "string \<Rightarrow> string + string" where
  "unescape [] = Inr []"
| "unescape [c] =
     (if c \<noteq> backslash then Inr [c] else Inl ''vehicle cache contains an invalid escape'')"
| "unescape (c # d # cs) =
     (if c \<noteq> backslash then and_then (unescape (d # cs)) (\<lambda>s. Inr (c # s))
      else and_then (ok_or ''vehicle cache contains an invalid escape'' (unescape_char d)) (\<lambda>x.
             and_then (unescape cs) (\<lambda>s. Inr (x # s))))"

definition encode_fields :: "string list \<Rightarrow> string" where
  "encode_fields cells = join [tab] (map escape cells)"

definition parse_fields :: "string \<Rightarrow> string + string \<times> string list" where
  "parse_fields line =
     (let cells = split_on (\<lambda>c. c = tab) line in
      if hd cells = [] then Inl ''malformed vehicle cache field''
      else and_then (collect_results (map unescape (tl cells))) (\<lambda>rest. Inr (hd cells, rest)))"

section \<open>Numbers and bytes\<close>

text \<open>\<open>str::parse\<close> of an unsigned number with the texts of \<open>ParseIntError\<close>.\<close>

fun digits_error :: "nat \<Rightarrow> nat \<Rightarrow> string \<Rightarrow> string" where
  "digits_error limit acc [] = ''cannot parse integer from empty string''"
| "digits_error limit acc (c # cs) =
     (case dec_value c of
        None \<Rightarrow> ''invalid digit found in string''
      | Some d \<Rightarrow> if acc * 10 + d \<le> limit then digits_error limit (acc * 10 + d) cs
                  else ''number too large to fit in target type'')"

definition parse_error_text :: "nat \<Rightarrow> string \<Rightarrow> string" where
  "parse_error_text limit s =
     (if s = ''+'' then ''invalid digit found in string''
      else digits_error limit 0 (case s of c # cs \<Rightarrow> if c = CHR ''+'' then cs else s | [] \<Rightarrow> []))"

definition parse_int :: "nat \<Rightarrow> string \<Rightarrow> string \<Rightarrow> string + nat" where
  "parse_int limit name s =
     ok_or (''invalid '' @ name @ '': '' @ parse_error_text limit s) (parse_unsigned limit s)"

definition fmt_02x :: "u8 \<Rightarrow> string" where
  "fmt_02x b = [lower_hex_digit (unat b div 16), lower_hex_digit (unat b mod 16)]"

definition hex_lower :: "bytes \<Rightarrow> string" where
  "hex_lower bs = concat (map fmt_02x bs)"

text \<open>\<open>u8::from_str_radix(pair, 16)\<close> takes a plus sign for the first digit.\<close>

definition hex_pair :: "char \<Rightarrow> char \<Rightarrow> u8 option" where
  "hex_pair a b =
     (case hex_value b of
        None \<Rightarrow> None
      | Some y \<Rightarrow>
          if a = CHR ''+'' then Some (word_of_nat y)
          else (case hex_value a of None \<Rightarrow> None | Some x \<Rightarrow> Some (word_of_nat (16 * x + y))))"

fun parse_pairs :: "string \<Rightarrow> string + bytes" where
  "parse_pairs (a # b # cs) =
     and_then (ok_or ''vehicle cache contains invalid hexadecimal bytes'' (hex_pair a b)) (\<lambda>x.
       and_then (parse_pairs cs) (\<lambda>xs. Inr (x # xs)))"
| "parse_pairs _ = Inr []"

definition parse_bytes :: "string \<Rightarrow> string + bytes" where
  "parse_bytes s =
     (if odd (length s) then Inl ''vehicle cache contains an odd-length byte string'' else parse_pairs s)"

section \<open>Parsers over cells\<close>

type_synonym 'a field_parser = "string list \<Rightarrow> string failure + 'a \<times> string list"

definition preturn :: "'a \<Rightarrow> 'a field_parser" where
  "preturn x fs = Inr (x, fs)"

definition pthen :: "'a field_parser \<Rightarrow> ('a \<Rightarrow> 'b field_parser) \<Rightarrow> 'b field_parser" where
  "pthen p f fs = and_then (p fs) (\<lambda>(x, rest). f x rest)"

definition plift :: "string + 'a \<Rightarrow> 'a field_parser" where
  "plift r fs = and_then (map_err Failed r) (\<lambda>x. Inr (x, fs))"

definition field :: "string \<Rightarrow> string field_parser" where
  "field name fs =
     (case fs of [] \<Rightarrow> Inl (Failed (''vehicle cache '' @ name @ '' is missing'')) | x # rest \<Rightarrow> Inr (x, rest))"

definition finish_fields :: "string list \<Rightarrow> string failure + unit" where
  "finish_fields fs = (if fs = [] then Inr () else Inl (Failed ''vehicle cache contains an extra field''))"

text \<open>A whole record: the parser, then \<open>finish_fields\<close>.\<close>

definition parse_record :: "'a field_parser \<Rightarrow> string list \<Rightarrow> string failure + 'a" where
  "parse_record p fs =
     and_then (p fs) (\<lambda>(x, rest). and_then (finish_fields rest) (\<lambda>_. Inr x))"

definition parse_optional_flag :: "string \<Rightarrow> bool field_parser" where
  "parse_optional_flag name =
     pthen (field name) (\<lambda>v.
       if v = ''0'' then preturn False
       else if v = ''1'' then preturn True
       else plift (Inl (''vehicle cache '' @ name @ '' flag is invalid'')))"

definition parse_optional :: "string \<Rightarrow> 'a field_parser \<Rightarrow> 'a option field_parser" where
  "parse_optional name p =
     pthen (parse_optional_flag name) (\<lambda>present.
       if present then pthen p (\<lambda>x. preturn (Some x)) else preturn None)"

definition encode_optional :: "('a \<Rightarrow> string list) \<Rightarrow> 'a option \<Rightarrow> string list" where
  "encode_optional enc x = (case x of None \<Rightarrow> [''0''] | Some v \<Rightarrow> ''1'' # enc v)"

definition parse_number :: "nat \<Rightarrow> string \<Rightarrow> string \<Rightarrow> nat field_parser" where
  "parse_number limit field_name error_name =
     pthen (field field_name) (\<lambda>v. plift (parse_int limit error_name v))"

definition parse_count :: "string \<Rightarrow> nat \<Rightarrow> nat field_parser" where
  "parse_count name maximum =
     pthen (parse_number (2 ^ 64 - 1) name name) (\<lambda>count.
       if maximum < count
       then plift (Inl (''vehicle cache '' @ name @ '' exceeds '' @ show_nat maximum))
       else preturn count)"

fun parse_times :: "nat \<Rightarrow> 'a field_parser \<Rightarrow> 'a list field_parser" where
  "parse_times 0 p = preturn []"
| "parse_times (Suc n) p = pthen p (\<lambda>x. pthen (parse_times n p) (\<lambda>xs. preturn (x # xs)))"

text \<open>\<open>Vec::with_capacity\<close> panics when the elements, of at least a byte each, could not be addressed.\<close>

definition with_capacity :: "nat \<Rightarrow> unit field_parser" where
  "with_capacity n fs = (if n < 2 ^ 63 then Inr ((), fs) else Inl Panicked)"

definition parse_vec :: "string \<Rightarrow> 'a field_parser \<Rightarrow> 'a list field_parser" where
  "parse_vec name p =
     pthen (parse_number (2 ^ 64 - 1) name name) (\<lambda>n. pthen (with_capacity n) (\<lambda>_. parse_times n p))"

section \<open>The interface\<close>

lemma preturn_Inr [simp]: "preturn x fs = Inr (y, rest) \<longleftrightarrow> x = y \<and> fs = rest"
  by (simp add: preturn_def)

locale field_format =
  fixes enc :: "'a \<Rightarrow> string list"
    and prs :: "'a field_parser"
    and valid :: "'a \<Rightarrow> bool"
  assumes round: "valid x \<Longrightarrow> prs (enc x @ rest) = Inr (x, rest)"
begin

lemma parse_then: "valid x \<Longrightarrow> pthen prs f (enc x @ rest) = f x rest"
  by (simp add: pthen_def round)

lemma alone: "valid x \<Longrightarrow> parse_record prs (enc x) = Inr x"
  using round [of x "[]"] by (simp add: parse_record_def finish_fields_def)

lemma optional:
  assumes "pred_option valid x"
  shows "pthen (parse_optional name prs) f (encode_optional enc x @ rest) = f x rest"
  using assms
  by (cases x) (simp_all add: parse_optional_def parse_optional_flag_def encode_optional_def pthen_def
      field_def preturn_def round)

lemma times: "list_all valid xs \<Longrightarrow> parse_times (length xs) prs (concat (map enc xs) @ rest) = Inr (xs, rest)"
  by (induction xs) (simp_all add: pthen_def preturn_def round)

lemma repeated:
  "list_all valid xs \<Longrightarrow> pthen (parse_times (length xs) prs) f (concat (map enc xs) @ rest) = f xs rest"
  by (simp add: pthen_def times)

text \<open>Two different values never have the same text.\<close>

lemma enc_inject: "valid x \<Longrightarrow> valid y \<Longrightarrow> enc x = enc y \<Longrightarrow> x = y"
  using round [of x "[]"] round [of y "[]"] by simp

end

section \<open>Facts about text\<close>

lemma unescape_Cons:
  "c \<noteq> backslash \<Longrightarrow> unescape (c # s) = and_then (unescape s) (\<lambda>t. Inr (c # t))"
  by (cases s) simp_all

lemma unescape_escape_char: "unescape (escape_char c @ s) = and_then (unescape s) (\<lambda>t. Inr (c # t))"
  by (auto simp: escape_char_def unescape_char_def unescape_Cons)

lemma unescape_escape [simp]: "unescape (escape s) = Inr s"
  by (induction s) (simp_all add: escape_def unescape_escape_char)

lemma escape_plain: "c \<in> set (escape s) \<Longrightarrow> c \<noteq> tab \<and> c \<noteq> CHR 0x0A \<and> c \<noteq> CHR 0x0D"
  by (auto simp: escape_def escape_char_def split: if_splits)

lemma escape_id: "\<forall>c \<in> set s. c \<notin> {backslash, tab, CHR 0x0D, CHR 0x0A} \<Longrightarrow> escape s = s"
  by (induction s) (simp_all add: escape_def escape_char_def)

lemma parse_fields_encode:
  assumes "tag \<noteq> []" and "tab \<notin> set tag" and "cells \<noteq> []"
  shows "parse_fields (tag @ tab # encode_fields cells) = Inr (tag, cells)"
proof -
  have "split_on (\<lambda>c. c = tab) (encode_fields cells) = map escape cells"
    unfolding encode_fields_def using assms(3) escape_plain by (intro split_on_join) auto
  then have "split_on (\<lambda>c. c = tab) (tag @ tab # encode_fields cells) = tag # map escape cells"
    using assms(2) by (subst split_on_append_sep) auto
  moreover have "collect_results (map unescape (map escape cells)) = Inr cells"
    using collect_results_Inr [of cells] by (simp add: comp_def)
  ultimately show ?thesis using assms(1) by (simp add: parse_fields_def Let_def)
qed

lemma parse_int_show [simp]: "n \<le> limit \<Longrightarrow> parse_int limit name (show_nat n) = Inr n"
  by (simp add: parse_int_def parse_unsigned_show)

lemma hex_pair_fmt: "hex_pair (lower_hex_digit (unat b div 16)) (lower_hex_digit (unat b mod 16)) = Some b"
proof -
  have v: "hex_value (lower_hex_digit n) = Some n \<and> lower_hex_digit n \<noteq> CHR ''+''" if "n < 16" for n
    using hex_digit_cases [OF that] by (auto simp: lower_hex_digit_def hex_value_def code_point_def)
  have "16 * (unat b div 16) + unat b mod 16 = unat b" by simp
  then show ?thesis using v [of "unat b div 16"] v [of "unat b mod 16"] by (simp add: hex_pair_def)
qed

lemma parse_bytes_hex [simp]: "parse_bytes (hex_lower bs) = Inr bs"
proof -
  have "even (length (hex_lower bs))" by (induction bs) (simp_all add: hex_lower_def fmt_02x_def)
  moreover have "parse_pairs (hex_lower bs) = Inr bs"
    by (induction bs) (simp_all add: hex_lower_def fmt_02x_def hex_pair_fmt)
  ultimately show ?thesis by (simp add: parse_bytes_def)
qed

end
