(* ===== verification/Cache_Records.thy ===== *)
theory Cache_Records
  imports Cache_Text
begin

text \<open>
  The encoders and parsers of the record types of a cache file, \<open>src/vehicle_cache.rs\<close> from
  \<open>encode_topology_observation\<close> to \<open>parse_role\<close>, each an interpretation of \<open>field_format\<close>: under the
  invariant its constructor guarantees, a value is read back from its cells whatever follows.
\<close>

lemma pthen_field [simp]: "pthen (field n) f (x # rest) = f x rest"
  by (simp add: pthen_def field_def)

lemma pthen_preturn [simp]: "pthen (preturn x) f rest = f x rest"
  by (simp add: pthen_def preturn_def)

lemma pthen_plift [simp]: "pthen (plift (Inr x)) f rest = f x rest"
  by (simp add: pthen_def plift_def)

lemma plift_Inr [simp]: "plift (Inr x) rest = Inr (x, rest)"
  by (simp add: plift_def)

lemma pthen_assoc: "pthen (pthen p f) g = pthen p (\<lambda>x. pthen (f x) g)"
proof
  show "pthen (pthen p f) g fs = pthen p (\<lambda>x. pthen (f x) g) fs" for fs
    by (cases "p fs") (auto simp: pthen_def)
qed

lemma parse_number_show:
  "n \<le> limit \<Longrightarrow> pthen (parse_number limit a b) f (show_nat n # rest) = f n rest"
  by (simp add: parse_number_def pthen_assoc)

lemma parse_count_show:
  "n \<le> m \<Longrightarrow> m < 2 ^ 64 \<Longrightarrow> pthen (parse_count name m) f (show_nat n # rest) = f n rest"
  by (simp add: parse_count_def pthen_assoc parse_number_show)

context field_format
begin

lemma vec:
  assumes "list_all valid xs" and "length xs < 2 ^ 63"
  shows "pthen (parse_vec name prs) f (show_nat (length xs) # concat (map enc xs) @ rest) = f xs rest"
proof -
  have "parse_vec name prs (show_nat (length xs) # concat (map enc xs) @ rest) = Inr (xs, rest)"
    using assms(2) times [OF assms(1)] by (simp add: parse_vec_def parse_number_show pthen_def [of "with_capacity _"] with_capacity_def)
  then show ?thesis by (simp add: pthen_def)
qed

end

section \<open>Names\<close>

fun encode_protocol :: "protocol \<Rightarrow> string" where
  "encode_protocol Obd2 = ''obd2''"
| "encode_protocol Uds = ''uds''"
| "encode_protocol Can = ''can''"
| "encode_protocol Doip = ''doip''"
| "encode_protocol Protocol_Unknown = ''unknown''"
| "encode_protocol (Protocol_VendorSpecific v) = ''vendor:'' @ v"

definition strip_vendor :: "string \<Rightarrow> string option" where
  "strip_vendor v = (if starts_with v ''vendor:'' then Some (drop 7 v) else None)"

definition parse_protocol :: "string \<Rightarrow> string + protocol" where
  "parse_protocol v =
     (if v = ''obd2'' then Inr Obd2
      else if v = ''uds'' then Inr Uds
      else if v = ''can'' then Inr Can
      else if v = ''doip'' then Inr Doip
      else if v = ''unknown'' then Inr Protocol_Unknown
      else ok_or ''vehicle cache contains an invalid protocol'' (map_option Protocol_VendorSpecific (strip_vendor v)))"

fun encode_addressing :: "addressing_context \<Rightarrow> string" where
  "encode_addressing Functional = ''functional''"
| "encode_addressing Physical = ''physical''"
| "encode_addressing Addressing_Unknown = ''unknown''"
| "encode_addressing (Addressing_VendorSpecific v) = ''vendor:'' @ v"

definition parse_addressing :: "string \<Rightarrow> string + addressing_context" where
  "parse_addressing v =
     (if v = ''functional'' then Inr Functional
      else if v = ''physical'' then Inr Physical
      else if v = ''unknown'' then Inr Addressing_Unknown
      else ok_or ''vehicle cache contains an invalid addressing context''
             (map_option Addressing_VendorSpecific (strip_vendor v)))"

fun encode_confidence :: "confidence \<Rightarrow> string" where
  "encode_confidence Confidence_Unknown = ''unknown''"
| "encode_confidence Low = ''low''"
| "encode_confidence Medium = ''medium''"
| "encode_confidence High = ''high''"
| "encode_confidence Verified = ''verified''"

definition parse_confidence :: "string \<Rightarrow> string + confidence" where
  "parse_confidence v =
     (if v = ''unknown'' then Inr Confidence_Unknown
      else if v = ''low'' then Inr Low
      else if v = ''medium'' then Inr Medium
      else if v = ''high'' then Inr High
      else if v = ''verified'' then Inr Verified
      else Inl ''vehicle cache contains an invalid confidence'')"

fun encode_role :: "ecu_role \<Rightarrow> string" where
  "encode_role Engine = ''engine''"
| "encode_role Transmission = ''transmission''"
| "encode_role Gateway = ''gateway''"
| "encode_role Role_Unknown = ''unknown''"
| "encode_role (Role_VendorSpecific v) = ''vendor:'' @ v"

definition parse_role :: "string \<Rightarrow> string + ecu_role" where
  "parse_role v =
     (if v = ''engine'' then Inr Engine
      else if v = ''transmission'' then Inr Transmission
      else if v = ''gateway'' then Inr Gateway
      else if v = ''unknown'' then Inr Role_Unknown
      else ok_or ''vehicle cache contains an invalid ECU role'' (map_option Role_VendorSpecific (strip_vendor v)))"

fun encode_identification_status :: "identification_status \<Rightarrow> string" where
  "encode_identification_status Ident_Supported = ''supported''"
| "encode_identification_status Ident_Unsupported = ''unsupported''"
| "encode_identification_status Ident_NegativeResponse = ''negative_response''"
| "encode_identification_status Ident_Unavailable = ''unavailable''"
| "encode_identification_status Ident_Malformed = ''malformed''"
| "encode_identification_status Ident_Timeout = ''timeout''"
| "encode_identification_status Ident_TransportError = ''transport_error''"
| "encode_identification_status Ident_NotProbed = ''not_probed''"

definition parse_identification_status :: "string \<Rightarrow> string + identification_status" where
  "parse_identification_status v =
     (if v = ''supported'' then Inr Ident_Supported
      else if v = ''unsupported'' then Inr Ident_Unsupported
      else if v = ''negative_response'' then Inr Ident_NegativeResponse
      else if v = ''unavailable'' then Inr Ident_Unavailable
      else if v = ''malformed'' then Inr Ident_Malformed
      else if v = ''timeout'' then Inr Ident_Timeout
      else if v = ''transport_error'' then Inr Ident_TransportError
      else if v = ''not_probed'' then Inr Ident_NotProbed
      else Inl ''vehicle cache contains an invalid ECU identification status'')"

fun encode_provider_status :: "provider_status \<Rightarrow> string" where
  "encode_provider_status Provider_Completed = ''completed''"
| "encode_provider_status Provider_Unavailable = ''unavailable''"
| "encode_provider_status Provider_Blocked = ''blocked''"
| "encode_provider_status Provider_NotApplicable = ''not_applicable''"
| "encode_provider_status Provider_Failed = ''failed''"

definition parse_provider_status :: "string \<Rightarrow> string + provider_status" where
  "parse_provider_status v =
     (if v = ''completed'' then Inr Provider_Completed
      else if v = ''unavailable'' then Inr Provider_Unavailable
      else if v = ''blocked'' then Inr Provider_Blocked
      else if v = ''not_applicable'' then Inr Provider_NotApplicable
      else if v = ''failed'' then Inr Provider_Failed
      else Inl ''vehicle cache contains an invalid topology provider status'')"

fun encode_provider_coverage :: "provider_coverage \<Rightarrow> string" where
  "encode_provider_coverage Coverage_Unknown = ''unknown''"
| "encode_provider_coverage Coverage_Partial = ''partial''"
| "encode_provider_coverage Coverage_Complete = ''complete''"
| "encode_provider_coverage Coverage_NotApplicable = ''not_applicable''"

definition parse_provider_coverage :: "string \<Rightarrow> string + provider_coverage" where
  "parse_provider_coverage v =
     (if v = ''unknown'' then Inr Coverage_Unknown
      else if v = ''partial'' then Inr Coverage_Partial
      else if v = ''complete'' then Inr Coverage_Complete
      else if v = ''not_applicable'' then Inr Coverage_NotApplicable
      else Inl ''vehicle cache contains an invalid topology provider coverage'')"

named_theorems name_simps

lemma strip_vendor_append [simp]: "strip_vendor (''vendor:'' @ v) = Some v"
  by (simp add: strip_vendor_def starts_with_def)

lemma parse_protocol_encode [name_simps]: "parse_protocol (encode_protocol p) = Inr p"
  by (cases p) (simp_all add: parse_protocol_def strip_vendor_def starts_with_def)

lemma parse_addressing_encode [name_simps]: "parse_addressing (encode_addressing a) = Inr a"
  by (cases a) (simp_all add: parse_addressing_def strip_vendor_def starts_with_def)

lemma parse_confidence_encode [name_simps]: "parse_confidence (encode_confidence c) = Inr c"
  by (cases c) (simp_all add: parse_confidence_def)

lemma parse_role_encode [name_simps]: "parse_role (encode_role r) = Inr r"
  by (cases r) (simp_all add: parse_role_def strip_vendor_def starts_with_def)

lemma parse_identification_status_encode [name_simps]:
  "parse_identification_status (encode_identification_status s) = Inr s"
  by (cases s) (simp_all add: parse_identification_status_def)

lemma parse_provider_status_encode [name_simps]: "parse_provider_status (encode_provider_status s) = Inr s"
  by (cases s) (simp_all add: parse_provider_status_def)

lemma parse_provider_coverage_encode [name_simps]: "parse_provider_coverage (encode_provider_coverage c) = Inr c"
  by (cases c) (simp_all add: parse_provider_coverage_def)

section \<open>Shared parts of records\<close>

definition encode_context :: "protocol_context \<Rightarrow> string list" where
  "encode_context c = [encode_protocol (pc_protocol c), encode_addressing (pc_addressing c)]"

definition parse_context :: "protocol_context field_parser" where
  "parse_context =
     pthen (field ''protocol'') (\<lambda>p. pthen (plift (parse_protocol p)) (\<lambda>p.
     pthen (field ''addressing'') (\<lambda>a. pthen (plift (parse_addressing a)) (\<lambda>a.
       preturn \<lparr>pc_protocol = p, pc_addressing = a\<rparr>))))"

interpretation context_format: field_format encode_context parse_context "\<lambda>_. True"
  by unfold_locales (simp add: encode_context_def parse_context_def name_simps)

fun responder_kind :: "topology_identity \<Rightarrow> string \<times> string" where
  "responder_kind (Address_Identity _ v) = (''address'', v)"
| "responder_kind (Opaque_Identity _ v) = (''opaque'', v)"
| "responder_kind (Unknown_Identity _) = (''unknown'', [])"

definition encode_responder_fields :: "topology_identity \<Rightarrow> string list" where
  "encode_responder_fields r =
     (case responder_kind r of (kind, v) \<Rightarrow> encode_context (identity_context r) @ [kind, v])"

definition parse_responder :: "topology_identity field_parser" where
  "parse_responder =
     pthen parse_context (\<lambda>c. pthen (field ''responder kind'') (\<lambda>kind. pthen (field ''responder value'') (\<lambda>v.
       if kind = ''address'' then preturn (Address_Identity c v)
       else if kind = ''opaque'' then preturn (Opaque_Identity c v)
       else if kind = ''unknown'' \<and> v = [] then preturn (Unknown_Identity c)
       else plift (Inl ''vehicle cache contains an invalid responder kind''))))"

interpretation responder_format: field_format encode_responder_fields parse_responder "\<lambda>_. True"
proof unfold_locales
  fix r rest
  show "parse_responder (encode_responder_fields r @ rest) = Inr (r, rest)"
    by (cases r) (simp_all add: encode_responder_fields_def parse_responder_def context_format.parse_then)
qed

definition encode_provenance :: "provenance \<Rightarrow> string list" where
  "encode_provenance p = [pv_source p, encode_confidence (pv_confidence p)]"

definition parse_provenance :: "provenance field_parser" where
  "parse_provenance =
     pthen (field ''provenance source'') (\<lambda>source. pthen (field ''confidence'') (\<lambda>c.
     pthen (plift (parse_confidence c)) (\<lambda>c.
       plift (map_err topology_error_text (provenance_new source c)))))"

definition provenance_ok :: "provenance \<Rightarrow> bool" where
  "provenance_ok p \<longleftrightarrow> trim (pv_source p) \<noteq> []"

interpretation provenance_format: field_format encode_provenance parse_provenance provenance_ok
  by unfold_locales (simp add: encode_provenance_def parse_provenance_def name_simps provenance_new_def
      provenance_ok_def)

definition encode_address :: "request_address \<Rightarrow> string list" where
  "encode_address a = [ra_namespace a, ra_value a]"

definition parse_address :: "request_address field_parser" where
  "parse_address =
     pthen (field ''target namespace'') (\<lambda>n. pthen (field ''target value'') (\<lambda>v.
       preturn \<lparr>ra_namespace = n, ra_value = v\<rparr>))"

interpretation address_format: field_format encode_address parse_address "\<lambda>_. True"
  by unfold_locales (simp add: encode_address_def parse_address_def)

definition encode_target :: "request_target \<Rightarrow> string list" where
  "encode_target t = encode_context (rt_context t) @ encode_optional encode_address (rt_address t)"

definition parse_target :: "request_target field_parser" where
  "parse_target =
     pthen parse_context (\<lambda>c. pthen (parse_optional ''target address'' parse_address) (\<lambda>a.
       preturn \<lparr>rt_context = c, rt_address = a\<rparr>))"

lemma pred_option_True [simp]: "pred_option (\<lambda>_. True) x"
  by (cases x) simp_all

interpretation target_format: field_format encode_target parse_target "\<lambda>_. True"
  by unfold_locales (simp add: encode_target_def parse_target_def context_format.parse_then address_format.optional)

definition encode_role_assignment :: "role_assignment \<Rightarrow> string list" where
  "encode_role_assignment r = encode_role (as_role r) # encode_provenance (as_provenance r)"

definition parse_role_assignment :: "role_assignment field_parser" where
  "parse_role_assignment =
     pthen (field ''mapping role'') (\<lambda>r. pthen (plift (parse_role r)) (\<lambda>r. pthen parse_provenance (\<lambda>p.
       preturn \<lparr>as_role = r, as_provenance = p\<rparr>)))"

definition role_assignment_ok :: "role_assignment \<Rightarrow> bool" where
  "role_assignment_ok r \<longleftrightarrow> provenance_ok (as_provenance r)"

interpretation role_format: field_format encode_role_assignment parse_role_assignment role_assignment_ok
  by unfold_locales (simp add: encode_role_assignment_def parse_role_assignment_def role_assignment_ok_def
      name_simps provenance_format.parse_then)

definition parse_bytes_field :: "string \<Rightarrow> bytes field_parser" where
  "parse_bytes_field name = pthen (field name) (\<lambda>v. plift (parse_bytes v))"

interpretation bytes_format: field_format "\<lambda>p. [hex_lower p]" "parse_bytes_field name" "\<lambda>_. True" for name
  by unfold_locales (simp add: parse_bytes_field_def)

lemma parse_bytes_field_hex [simp]: "pthen (parse_bytes_field name) f (hex_lower p # rest) = f p rest"
  using bytes_format.parse_then [of name f p rest] by simp

end
