(* ===== verification/Cache_Evidence.thy ===== *)
theory Cache_Evidence
  imports Cache_Records
begin

text \<open>
  The evidence records of a cache file, \<open>src/vehicle_cache.rs\<close>: topology observations, capability
  pages, target mappings, identification results and topology provider results, each with the
  invariant of its constructor and the interpretation that it survives encoding and parsing.
\<close>

section \<open>Observations, pages and mappings\<close>

definition encode_window :: "observation_window \<Rightarrow> string list" where
  "encode_window w = [show_nat (unat (ow_first_ms w)), show_nat (unat (ow_last_ms w))]"

definition parse_window :: "observation_window field_parser" where
  "parse_window =
     pthen (parse_number (2 ^ 64 - 1) ''observation start'' ''observation start'') (\<lambda>a.
     pthen (parse_number (2 ^ 64 - 1) ''observation end'' ''observation end'') (\<lambda>b.
       plift (map_err topology_error_text (observation_window_new (word_of_nat a) (word_of_nat b)))))"

definition window_ok :: "observation_window \<Rightarrow> bool" where
  "window_ok w \<longleftrightarrow> ow_first_ms w \<le> ow_last_ms w"

lemma unat_u64_le [simp]: "unat (w :: u64) \<le> 18446744073709551615"
  using unsigned_less [where 'a = nat and w = w] by simp

interpretation window_format: field_format encode_window parse_window window_ok
  by unfold_locales (simp add: encode_window_def parse_window_def window_ok_def parse_number_show
      observation_window_new_def leD)

definition encode_topology_observation :: "topology_observation \<Rightarrow> string list" where
  "encode_topology_observation ob =
     encode_context (tp_context ob) @ encode_responder_fields (tp_responder ob) @
     encode_optional (\<lambda>p. [hex_lower p]) (tp_payload ob) @ encode_optional encode_window (tp_window ob) @
     encode_provenance (tp_provenance ob)"

definition parse_topology_observation :: "topology_observation field_parser" where
  "parse_topology_observation =
     pthen parse_context (\<lambda>c. pthen parse_responder (\<lambda>r.
     pthen (parse_optional ''payload'' (parse_bytes_field ''payload bytes'')) (\<lambda>payload.
     pthen (parse_optional ''observation'' parse_window) (\<lambda>window.
     pthen parse_provenance (\<lambda>p.
       preturn \<lparr>tp_context = c, tp_responder = r, tp_payload = payload, tp_window = window,
                tp_provenance = p\<rparr>)))))"

definition topology_observation_ok :: "topology_observation \<Rightarrow> bool" where
  "topology_observation_ok ob \<longleftrightarrow> pred_option window_ok (tp_window ob) \<and> provenance_ok (tp_provenance ob)"

interpretation observation_format:
  field_format encode_topology_observation parse_topology_observation topology_observation_ok
  by unfold_locales (simp add: encode_topology_observation_def parse_topology_observation_def
      topology_observation_ok_def context_format.parse_then responder_format.parse_then
      bytes_format.optional window_format.optional provenance_format.parse_then)

definition encode_capability_page :: "capability_page \<Rightarrow> string list" where
  "encode_capability_page p =
     [show_nat (unat (fst (cp_request p))), show_nat (unat (snd (cp_request p))), hex_lower (cp_payload p)] @
     encode_provenance (cp_provenance p)"

definition parse_capability_page :: "capability_page field_parser" where
  "parse_capability_page =
     pthen (parse_number 255 ''capability mode'' ''capability mode'') (\<lambda>mode.
     pthen (parse_number 255 ''capability PID'' ''capability PID'') (\<lambda>pid.
     pthen (parse_bytes_field ''capability payload'') (\<lambda>payload.
     pthen parse_provenance (\<lambda>p.
       preturn \<lparr>cp_request = (word_of_nat mode, word_of_nat pid), cp_payload = payload, cp_provenance = p\<rparr>))))"

definition page_ok :: "capability_page \<Rightarrow> bool" where
  "page_ok p \<longleftrightarrow> provenance_ok (cp_provenance p)"

lemma unat_u8_le [simp]: "unat (b :: u8) \<le> 255"
  using unat_u8_less [of b] by linarith

lemma unat_u32_le [simp]: "unat (w :: u32) \<le> 4294967295"
  using unat_u32_less [of w] by linarith

interpretation page_format: field_format encode_capability_page parse_capability_page page_ok
  by unfold_locales (simp add: encode_capability_page_def parse_capability_page_def page_ok_def
      parse_number_show provenance_format.parse_then)

definition encode_target_mapping :: "target_mapping_snapshot \<Rightarrow> string list" where
  "encode_target_mapping m =
     encode_optional encode_role_assignment (ms_role m) @
     encode_optional encode_responder_fields (ms_responder m) @
     encode_target (ms_target m) @ encode_provenance (ms_provenance m)"

text \<open>The role is part of the record since version 3 of the format.\<close>

definition parse_target_mapping_with_role :: "bool \<Rightarrow> target_mapping_snapshot field_parser" where
  "parse_target_mapping_with_role has_role =
     pthen (if has_role then parse_optional ''mapping role'' parse_role_assignment else preturn None) (\<lambda>role.
     pthen (parse_optional ''mapping responder'' parse_responder) (\<lambda>responder.
     pthen parse_target (\<lambda>t. pthen parse_provenance (\<lambda>p.
       preturn \<lparr>ms_role = role, ms_responder = responder, ms_target = t, ms_provenance = p\<rparr>))))"

definition mapping_ok :: "target_mapping_snapshot \<Rightarrow> bool" where
  "mapping_ok m \<longleftrightarrow> pred_option role_assignment_ok (ms_role m) \<and> provenance_ok (ms_provenance m)"

interpretation mapping_format:
  field_format encode_target_mapping "parse_target_mapping_with_role True" mapping_ok
  by unfold_locales (simp add: encode_target_mapping_def parse_target_mapping_with_role_def mapping_ok_def
      role_format.optional responder_format.optional target_format.parse_then provenance_format.parse_then)

section \<open>Identification\<close>

definition encode_identification_response :: "identification_response \<Rightarrow> string list" where
  "encode_identification_response r =
     encode_optional encode_responder_fields (ir_responder r) @ [hex_lower (ir_payload r)]"

definition parse_identification_response :: "identification_response field_parser" where
  "parse_identification_response =
     pthen (parse_optional ''identification responder'' parse_responder) (\<lambda>r.
     pthen (parse_bytes_field ''identification response payload'') (\<lambda>payload.
       preturn \<lparr>ir_responder = r, ir_payload = payload\<rparr>))"

interpretation response_format:
  field_format encode_identification_response parse_identification_response "\<lambda>_. True"
  by unfold_locales (simp add: encode_identification_response_def parse_identification_response_def
      responder_format.optional)

interpretation text_format: field_format "\<lambda>s. [s]" "field name" "\<lambda>_. True" for name
  by unfold_locales (simp add: field_def)

definition encode_identification_observation :: "identification_observation \<Rightarrow> string list" where
  "encode_identification_observation ob =
     encode_target (io_target ob) @ encode_responder_fields (io_responder ob) @
     [io_semantic ob, io_definition_id ob, show_nat (unat (io_definition_version ob)), io_repository ob,
      io_revision ob,
      hex_lower (case io_request ob of (a, b, c) \<Rightarrow> [a, b, c]),
      encode_identification_status (io_status ob)] @
     encode_optional (\<lambda>n. [show_nat (unat n)]) (io_nrc ob) @
     encode_optional (\<lambda>v. [hex_lower v]) (io_value ob) @
     show_nat (length (io_responses ob)) # concat (map encode_identification_response (io_responses ob)) @
     show_nat (length (io_errors ob)) # concat (map (\<lambda>e. [e]) (io_errors ob))"

definition parse_nrc :: "u8 field_parser" where
  "parse_nrc = pthen (parse_number 255 ''identification NRC value'' ''identification NRC'') (\<lambda>n.
     preturn (word_of_nat n))"

interpretation nrc_format: field_format "\<lambda>n. [show_nat (unat n)]" parse_nrc "\<lambda>_. True"
  by unfold_locales (simp add: parse_nrc_def parse_number_show)

fun three_bytes :: "bytes \<Rightarrow> string + u8 \<times> u8 \<times> u8" where
  "three_bytes [a, b, c] = Inr (a, b, c)"
| "three_bytes _ = Inl ''ECU identification request must contain exactly three bytes''"

definition parse_identification_observation :: "identification_observation field_parser" where
  "parse_identification_observation =
     pthen parse_target (\<lambda>target.
     pthen parse_responder (\<lambda>responder.
     pthen (field ''identification semantic'') (\<lambda>semantic.
     pthen (field ''identification definition'') (\<lambda>definition_id.
     pthen (parse_number (2 ^ 32 - 1) ''identification definition version''
              ''identification definition version'') (\<lambda>version.
     pthen (field ''identification knowledge repository'') (\<lambda>repository.
     pthen (field ''identification knowledge revision'') (\<lambda>revision.
     pthen (parse_bytes_field ''identification request'') (\<lambda>request_bytes.
     pthen (plift (three_bytes request_bytes)) (\<lambda>request.
     pthen (field ''identification status'') (\<lambda>status.
     pthen (plift (parse_identification_status status)) (\<lambda>status.
     pthen (parse_optional ''identification NRC'' parse_nrc) (\<lambda>nrc.
     pthen (parse_optional ''identification value'' (parse_bytes_field ''identification value bytes'')) (\<lambda>v.
     pthen (parse_vec ''identification response count'' parse_identification_response) (\<lambda>responses.
     pthen (parse_vec ''identification error count'' (field ''identification error'')) (\<lambda>errors.
       preturn \<lparr>io_target = target, io_responder = responder, io_semantic = semantic,
         io_definition_id = definition_id, io_definition_version = word_of_nat version,
         io_repository = repository, io_revision = revision, io_request = request,
         io_status = status, io_responses = responses, io_nrc = nrc, io_value = v,
         io_errors = errors\<rparr>)))))))))))))))"

text \<open>The whole record: the cells are exhausted before the constructor checks the value.\<close>

definition parse_identification_record :: "string list \<Rightarrow> string failure + identification_observation" where
  "parse_identification_record cells =
     and_then (parse_record parse_identification_observation cells) (\<lambda>ob.
       map_err Failed
         (identification_observation_new (io_target ob) (io_responder ob) (io_semantic ob) (io_definition_id ob)
            (io_definition_version ob) (io_repository ob) (io_revision ob) (io_request ob) (io_status ob)
            (io_responses ob) (io_nrc ob) (io_value ob) (io_errors ob)))"

definition identification_ok :: "identification_observation \<Rightarrow> bool" where
  "identification_ok ob \<longleftrightarrow>
     validate_identification ob = Inr () \<and> length (io_responses ob) < 2 ^ 63 \<and> length (io_errors ob) < 2 ^ 63"

lemma three_bytes_request [simp]: "three_bytes (case r of (a, b, c) \<Rightarrow> [a, b, c]) = Inr r"
  by (cases r) simp

lemma texts_vec:
  "length es < 2 ^ 63 \<Longrightarrow> pthen (parse_vec name (field n)) f (show_nat (length es) # es @ rest) = f es rest"
  using text_format.vec [of es name n f rest] by (simp add: list_all_iff)

interpretation identification_format:
  field_format encode_identification_observation parse_identification_observation identification_ok
proof unfold_locales
  fix ob rest
  assume ok: "identification_ok ob"
  note steps = target_format.parse_then responder_format.parse_then nrc_format.optional bytes_format.optional
    parse_number_show response_format.vec
    texts_vec
  show "parse_identification_observation (encode_identification_observation ob @ rest) = Inr (ob, rest)"
    unfolding parse_identification_observation_def encode_identification_observation_def
    using ok by (simp add: steps name_simps identification_ok_def list_all_iff)
qed

lemma identification_record:
  "identification_ok ob \<Longrightarrow> parse_identification_record (encode_identification_observation ob) = Inr ob"
  using identification_rebuild
  by (simp add: parse_identification_record_def identification_format.alone identification_ok_def)

section \<open>Topology providers\<close>

definition MAX_PROVIDER_EVIDENCE_REFERENCES :: nat where "MAX_PROVIDER_EVIDENCE_REFERENCES = 256"
definition MAX_PROVIDER_ENTRIES :: nat where "MAX_PROVIDER_ENTRIES = 1024"
definition MAX_PROVIDER_ENTRY_EVIDENCE_REFERENCES :: nat where "MAX_PROVIDER_ENTRY_EVIDENCE_REFERENCES = 256"

definition encode_provider_scope :: "provider_scope \<Rightarrow> string list" where
  "encode_provider_scope s =
     encode_optional (\<lambda>m. [m]) (sc_manufacturer s) @ encode_optional (\<lambda>p. [p]) (sc_platform s)"

definition parse_provider_scope :: "provider_scope field_parser" where
  "parse_provider_scope =
     pthen (parse_optional ''topology provider manufacturer'' (field ''topology provider manufacturer value'')) (\<lambda>m.
     pthen (parse_optional ''topology provider platform'' (field ''topology provider platform value'')) (\<lambda>p.
       case (m, p) of
         (None, None) \<Rightarrow> preturn scope_generic
       | (Some m, None) \<Rightarrow> plift (map_err provider_error_text (scope_manufacturer m))
       | (Some m, Some p) \<Rightarrow> plift (map_err provider_error_text (scope_platform m p))
       | (None, Some p) \<Rightarrow> plift (Inl ''vehicle cache topology provider platform has no manufacturer'')))"

text \<open>A normalized text: not blank and without white space around it.\<close>

definition normalized :: "string \<Rightarrow> bool" where
  "normalized s \<longleftrightarrow> trim s = s \<and> s \<noteq> []"

definition scope_ok :: "provider_scope \<Rightarrow> bool" where
  "scope_ok s \<longleftrightarrow> pred_option normalized (sc_manufacturer s) \<and> pred_option normalized (sc_platform s) \<and>
     (sc_manufacturer s = None \<longrightarrow> sc_platform s = None)"

lemma normalize_normalized [simp]: "normalized s \<Longrightarrow> normalize_non_empty s e = Inr s"
  by (simp add: normalized_def normalize_non_empty_def)

interpretation scope_format: field_format encode_provider_scope parse_provider_scope scope_ok
proof unfold_locales
  fix s rest
  assume ok: "scope_ok s"
  obtain m p where s: "s = \<lparr>sc_manufacturer = m, sc_platform = p\<rparr>" by (cases s) simp
  show "parse_provider_scope (encode_provider_scope s @ rest) = Inr (s, rest)"
    using ok unfolding s scope_ok_def
    by (cases m; cases p) (simp_all add: parse_provider_scope_def encode_provider_scope_def
        text_format.optional scope_generic_def scope_manufacturer_def scope_platform_def)
qed

definition parse_reference :: "string \<Rightarrow> evidence_reference field_parser" where
  "parse_reference name =
     pthen (field name) (\<lambda>v. plift (map_err provider_error_text (evidence_reference_new v)))"

interpretation reference_format: field_format "\<lambda>r. [r]" "parse_reference name" normalized for name
  by unfold_locales (simp add: parse_reference_def evidence_reference_new_def)

definition parse_bounded :: "string \<Rightarrow> nat \<Rightarrow> 'a field_parser \<Rightarrow> 'a list field_parser" where
  "parse_bounded name maximum p = pthen (parse_count name maximum) (\<lambda>n. parse_times n p)"

lemma references_bounded:
  "list_all normalized rs \<Longrightarrow> length rs \<le> m \<Longrightarrow> m < 2 ^ 64 \<Longrightarrow>
    pthen (parse_bounded name m (parse_reference label)) f (show_nat (length rs) # rs @ rest) = f rs rest"
  using reference_format.repeated [of rs label f rest]
  by (simp add: parse_bounded_def pthen_assoc parse_count_show)

definition encode_installed_evidence :: "installed_evidence \<Rightarrow> string list" where
  "encode_installed_evidence e =
     encode_context (ie_context e) @
     encode_optional (\<lambda>i. [ci_authority i, ci_identifier i]) (cc_identity (ie_configured e)) @
     encode_optional (\<lambda>l. [la_authority l, la_value l]) (cc_logical (ie_configured e)) @
     encode_provenance (cc_provenance (ie_configured e)) @
     encode_optional (\<lambda>t. encode_target (te_target t) @ encode_provenance (te_provenance t)) (ie_target e) @
     show_nat (length (ie_references e)) # ie_references e"

definition parse_identity :: "configured_identity field_parser" where
  "parse_identity =
     pthen (field ''configured identity authority'') (\<lambda>a. pthen (field ''configured identity value'') (\<lambda>i.
       preturn \<lparr>ci_authority = a, ci_identifier = i\<rparr>))"

definition parse_logical :: "logical_address field_parser" where
  "parse_logical =
     pthen (field ''logical address authority'') (\<lambda>a. pthen (field ''logical address value'') (\<lambda>v.
       preturn \<lparr>la_authority = a, la_value = v\<rparr>))"

definition parse_target_evidence :: "request_target_evidence field_parser" where
  "parse_target_evidence =
     pthen parse_target (\<lambda>t. pthen parse_provenance (\<lambda>p. preturn \<lparr>te_target = t, te_provenance = p\<rparr>))"

definition parse_installed_evidence :: "installed_evidence field_parser" where
  "parse_installed_evidence =
     pthen parse_context (\<lambda>c.
     pthen (parse_optional ''configured identity'' parse_identity) (\<lambda>i.
     pthen (parse_optional ''logical address'' parse_logical) (\<lambda>l.
     pthen parse_provenance (\<lambda>p.
     pthen (plift (map_err topology_error_text (configured_controller_new i l p))) (\<lambda>configured.
     pthen (parse_optional ''configured request target'' parse_target_evidence) (\<lambda>t.
     pthen (parse_bounded ''configured entry evidence reference count'' MAX_PROVIDER_ENTRY_EVIDENCE_REFERENCES
              (parse_reference ''configured entry evidence reference'')) (\<lambda>references.
       let entry = installed_evidence_new c configured;
           entry = (case t of Some t \<Rightarrow> installed_with_target t entry | None \<Rightarrow> entry)
       in preturn (foldl (\<lambda>e r. with_evidence_reference r e) entry references))))))))"

definition installed_ok :: "installed_evidence \<Rightarrow> bool" where
  "installed_ok e \<longleftrightarrow>
     (cc_identity (ie_configured e) \<noteq> None \<or> cc_logical (ie_configured e) \<noteq> None) \<and>
     provenance_ok (cc_provenance (ie_configured e)) \<and>
     pred_option (\<lambda>t. provenance_ok (te_provenance t)) (ie_target e) \<and>
     canon id (ie_references e) = ie_references e \<and> list_all normalized (ie_references e) \<and>
     length (ie_references e) \<le> MAX_PROVIDER_ENTRY_EVIDENCE_REFERENCES"

lemma collected_references:
  "foldl (\<lambda>e r. with_evidence_reference r e) e rs =
    (if rs = [] then e else e\<lparr>ie_references := foldl (\<lambda>l r. canon id (l @ [r])) (ie_references e) rs\<rparr>)"
  by (induction rs arbitrary: e) (auto simp: with_evidence_reference_def)

interpretation identity_format: field_format "\<lambda>i. [ci_authority i, ci_identifier i]" parse_identity "\<lambda>_. True"
  by unfold_locales (simp add: parse_identity_def)

interpretation logical_format: field_format "\<lambda>l. [la_authority l, la_value l]" parse_logical "\<lambda>_. True"
  by unfold_locales (simp add: parse_logical_def)

interpretation target_evidence_format:
  field_format "\<lambda>t. encode_target (te_target t) @ encode_provenance (te_provenance t)" parse_target_evidence
    "\<lambda>t. provenance_ok (te_provenance t)"
  by unfold_locales (simp add: parse_target_evidence_def target_format.parse_then provenance_format.parse_then)

interpretation installed_format: field_format encode_installed_evidence parse_installed_evidence installed_ok
proof unfold_locales
  fix e rest
  assume ok: "installed_ok e"
  obtain c configured t rs where e: "e = \<lparr>ie_context = c, ie_configured = configured, ie_target = t, ie_references = rs\<rparr>"
    by (cases e) simp
  obtain i l p where configured: "configured = \<lparr>cc_identity = i, cc_logical = l, cc_provenance = p\<rparr>"
    by (cases configured) simp
  note steps = context_format.parse_then identity_format.optional logical_format.optional
    provenance_format.parse_then target_evidence_format.optional references_bounded
  have new: "configured_controller_new i l p = Inr configured"
    using ok unfolding e configured by (auto simp: configured_controller_new_def installed_ok_def)
  have "foldl (\<lambda>l r. canon id (l @ [r])) [] rs = rs"
    using text_order.canon_pushes [of "[]" rs] ok unfolding e by (simp add: installed_ok_def canon_def)
  then have built: "foldl (\<lambda>e r. with_evidence_reference r e)
      (case t of Some t \<Rightarrow> installed_with_target t (installed_evidence_new c configured)
       | None \<Rightarrow> installed_evidence_new c configured) rs = e"
    unfolding e by (cases t) (simp_all add: collected_references installed_evidence_new_def installed_with_target_def)
  have ok': "provenance_ok p" "pred_option (\<lambda>t. provenance_ok (te_provenance t)) t" "list_all normalized rs"
    "length rs \<le> MAX_PROVIDER_ENTRY_EVIDENCE_REFERENCES"
    using ok unfolding e configured by (simp_all add: installed_ok_def)
  have "MAX_PROVIDER_ENTRY_EVIDENCE_REFERENCES < 2 ^ 64" by (simp add: MAX_PROVIDER_ENTRY_EVIDENCE_REFERENCES_def)
  then show "parse_installed_evidence (encode_installed_evidence e @ rest) = Inr (e, rest)"
    unfolding parse_installed_evidence_def encode_installed_evidence_def
    using ok' new built [unfolded configured] by (simp add: e configured steps Let_def)
qed

definition encode_provider_result :: "provider_result \<Rightarrow> string list" where
  "encode_provider_result r =
     [pi_name (pr_id r), show_nat (unat (pi_version (pr_id r)))] @
     encode_provider_scope (pa_scope (pr_applicability r)) @
     encode_provenance (pa_provenance (pr_applicability r)) @
     [encode_provider_status (pr_status r), encode_provider_coverage (pr_coverage r)] @
     show_nat (length (pr_references r)) # pr_references r @
     show_nat (length (pr_entries r)) # concat (map encode_installed_evidence (pr_entries r))"

definition parse_provider_id :: "provider_id field_parser" where
  "parse_provider_id =
     pthen (field ''topology provider id'') (\<lambda>name.
     pthen (parse_number (2 ^ 32 - 1) ''topology provider version'' ''topology provider version'') (\<lambda>version.
       plift (map_err provider_error_text (provider_id_new name (word_of_nat version)))))"

definition parse_provider_parts :: "provider_result field_parser" where
  "parse_provider_parts =
     pthen parse_provider_id (\<lambda>i.
     pthen parse_provider_scope (\<lambda>scope.
     pthen parse_provenance (\<lambda>p.
     pthen (field ''topology provider status'') (\<lambda>status.
     pthen (plift (parse_provider_status status)) (\<lambda>status.
     pthen (field ''topology provider coverage'') (\<lambda>coverage.
     pthen (plift (parse_provider_coverage coverage)) (\<lambda>coverage.
     pthen (parse_bounded ''topology provider evidence reference count'' MAX_PROVIDER_EVIDENCE_REFERENCES
              (parse_reference ''topology provider evidence reference'')) (\<lambda>references.
     pthen (parse_bounded ''topology provider entry count'' MAX_PROVIDER_ENTRIES parse_installed_evidence) (\<lambda>entries.
       preturn \<lparr>pr_id = i, pr_applicability = \<lparr>pa_scope = scope, pa_provenance = p\<rparr>,
                pr_status = status, pr_coverage = coverage, pr_entries = entries,
                pr_references = references\<rparr>)))))))))"

text \<open>The constructor runs after the cells are exhausted.\<close>

definition parse_provider_record :: "string list \<Rightarrow> string failure + provider_result" where
  "parse_provider_record cells =
     and_then (parse_record parse_provider_parts cells) (\<lambda>r.
       map_err (\<lambda>e. Failed (provider_error_text e))
         (provider_result_new (pr_id r) (pr_applicability r) (pr_status r) (pr_coverage r)
            (pr_entries r) (pr_references r)))"

definition provider_ok :: "provider_result \<Rightarrow> bool" where
  "provider_ok r \<longleftrightarrow>
     provider_result_ok r \<and> normalized (pi_name (pr_id r)) \<and> pi_version (pr_id r) \<noteq> 0 \<and>
     scope_ok (pa_scope (pr_applicability r)) \<and> provenance_ok (pa_provenance (pr_applicability r)) \<and>
     list_all normalized (pr_references r) \<and> length (pr_references r) \<le> MAX_PROVIDER_EVIDENCE_REFERENCES \<and>
     list_all installed_ok (pr_entries r) \<and> length (pr_entries r) \<le> MAX_PROVIDER_ENTRIES"

lemma installed_bounded:
  "list_all installed_ok es \<Longrightarrow> length es \<le> m \<Longrightarrow> m < 2 ^ 64 \<Longrightarrow>
    pthen (parse_bounded name m parse_installed_evidence) f
      (show_nat (length es) # concat (map encode_installed_evidence es) @ rest) = f es rest"
  using installed_format.repeated [of es f rest]
  by (simp add: parse_bounded_def pthen_assoc parse_count_show)

lemma provider_id_cells:
  "normalized (pi_name i) \<Longrightarrow> pi_version i \<noteq> 0 \<Longrightarrow>
    pthen parse_provider_id f (pi_name i # show_nat (unat (pi_version i)) # rest) = f i rest"
  by (cases i) (simp add: parse_provider_id_def pthen_assoc parse_number_show provider_id_new_def)

interpretation provider_format: field_format encode_provider_result parse_provider_parts provider_ok
proof unfold_locales
  fix r rest
  assume ok: "provider_ok r"
  obtain i a s c es rs where r: "r = \<lparr>pr_id = i, pr_applicability = a, pr_status = s, pr_coverage = c,
      pr_entries = es, pr_references = rs\<rparr>" by (cases r) simp
  note steps = provider_id_cells scope_format.parse_then provenance_format.parse_then references_bounded
    installed_bounded
  have m: "MAX_PROVIDER_EVIDENCE_REFERENCES < 2 ^ 64" "MAX_PROVIDER_ENTRIES < 2 ^ 64"
    by (simp_all add: MAX_PROVIDER_EVIDENCE_REFERENCES_def MAX_PROVIDER_ENTRIES_def)
  show "parse_provider_parts (encode_provider_result r @ rest) = Inr (r, rest)"
    unfolding parse_provider_parts_def encode_provider_result_def
    using ok m by (simp add: r provider_ok_def steps name_simps)
qed

lemma provider_record:
  "provider_ok r \<Longrightarrow> parse_provider_record (encode_provider_result r) = Inr r"
  by (simp add: parse_provider_record_def provider_format.alone provider_result_rebuild provider_ok_def)

end
