(* ===== verification/Vehicle_Cache.thy ===== *)
theory Vehicle_Cache
  imports Cache_Evidence Ordered_Map
begin

text \<open>
  The cache record of a vehicle, \<open>src/vehicle_cache.rs\<close>: validation, the file text of version 5,
  and the parser of all five versions.
\<close>

section \<open>Records and their validation\<close>

record vehicle_cache =
  vc_key :: string
  vc_first_ms :: u64
  vc_last_ms :: u64
  vc_snapshot :: cache_snapshot
  vc_history :: "string list"

definition cache_with_snapshot :: "string \<Rightarrow> u64 \<Rightarrow> u64 \<Rightarrow> cache_snapshot \<Rightarrow> string list \<Rightarrow> vehicle_cache" where
  "cache_with_snapshot key first_ms last_ms s history =
     \<lparr>vc_key = key, vc_first_ms = first_ms, vc_last_ms = last_ms, vc_snapshot = s,
      vc_history = sort history\<rparr>"

definition cache_new :: "string \<Rightarrow> u64 \<Rightarrow> u64 \<Rightarrow> string list \<Rightarrow> vehicle_cache" where
  "cache_new key first_ms last_ms history = cache_with_snapshot key first_ms last_ms snapshot_default history"

text \<open>\<open>contains_raw_vin\<close>: some seventeen characters in a row could be a VIN.\<close>

definition windows :: "nat \<Rightarrow> 'a list \<Rightarrow> 'a list list" where
  "windows n xs = map (\<lambda>i. take n (drop i xs)) [0..<Suc (length xs) - n]"

definition vin_like :: "char \<Rightarrow> bool" where
  "vin_like c \<longleftrightarrow> ascii_upper c \<in> set ''ABCDEFGHJKLMNPQRSTUVWXYZ0123456789''"

definition contains_raw_vin :: "string \<Rightarrow> bool" where
  "contains_raw_vin s \<longleftrightarrow> list_ex (list_all vin_like) (windows 17 s)"

definition validate_cache_text :: "string \<Rightarrow> string \<Rightarrow> string + unit" where
  "validate_cache_text label v =
     (if v = [] \<or> contains_raw_vin v
      then Inl (''vehicle cache '' @ label @ '' is empty or contains a raw VIN'') else Inr ())"

text \<open>A loop of checks, and a check of a value that may be absent.\<close>

fun check_all :: "('a \<Rightarrow> 'e + unit) \<Rightarrow> 'a list \<Rightarrow> 'e + unit" where
  "check_all f [] = Inr ()"
| "check_all f (x # xs) = and_then (f x) (\<lambda>_. check_all f xs)"

definition check_some :: "('a \<Rightarrow> 'e + unit) \<Rightarrow> 'a option \<Rightarrow> 'e + unit" where
  "check_some f x = (case x of None \<Rightarrow> Inr () | Some v \<Rightarrow> f v)"

definition check_size :: "string \<Rightarrow> bytes \<Rightarrow> string + unit" where
  "check_size message payload = (if 4096 < length payload then Inl message else Inr ())"

definition validate_provenance :: "provenance \<Rightarrow> string + unit" where
  "validate_provenance p = validate_cache_text ''provenance'' (pv_source p)"

definition validate_context :: "protocol_context \<Rightarrow> string + unit" where
  "validate_context c =
     and_then (case pc_protocol c of Protocol_VendorSpecific v \<Rightarrow> validate_cache_text ''protocol'' v | _ \<Rightarrow> Inr ())
       (\<lambda>_. case pc_addressing c of
              Addressing_VendorSpecific v \<Rightarrow> validate_cache_text ''addressing'' v | _ \<Rightarrow> Inr ())"

definition validate_responder :: "topology_identity \<Rightarrow> string + unit" where
  "validate_responder r =
     and_then (validate_context (identity_context r)) (\<lambda>_.
       check_some (validate_cache_text ''responder'') (identity_value r))"

definition validate_role :: "role_assignment \<Rightarrow> string + unit" where
  "validate_role r =
     and_then (case as_role r of Role_VendorSpecific v \<Rightarrow> validate_cache_text ''ECU role'' v | _ \<Rightarrow> Inr ())
       (\<lambda>_. validate_provenance (as_provenance r))"

definition validate_knowledge_revision :: "string \<Rightarrow> string + unit" where
  "validate_knowledge_revision v =
     (if length v \<notin> {40, 64} \<or> \<not> all_hex v
      then Inl ''vehicle cache knowledge revision is not a full Git object id'' else Inr ())"

definition validate_target_texts :: "string \<Rightarrow> string \<Rightarrow> request_target \<Rightarrow> string + unit" where
  "validate_target_texts namespace_label value_label t =
     and_then (validate_context (rt_context t)) (\<lambda>_.
       check_some (\<lambda>a. and_then (validate_cache_text namespace_label (ra_namespace a)) (\<lambda>_.
                        validate_cache_text value_label (ra_value a))) (rt_address t))"

definition validate_topology_observation :: "topology_observation \<Rightarrow> string + unit" where
  "validate_topology_observation ob =
     and_then (validate_context (tp_context ob)) (\<lambda>_.
     and_then (validate_responder (tp_responder ob)) (\<lambda>_.
     and_then (check_some (check_size ''vehicle cache topology payload is too large'') (tp_payload ob)) (\<lambda>_.
       validate_provenance (tp_provenance ob))))"

definition validate_capability :: "capability_snapshot \<Rightarrow> string + unit" where
  "validate_capability c =
     and_then (validate_responder (cb_responder c)) (\<lambda>_.
       check_all (\<lambda>p. and_then (validate_provenance (cp_provenance p)) (\<lambda>_.
                       check_size ''vehicle cache capability payload is too large'' (cp_payload p))) (cb_pages c))"

definition validate_identification_record :: "identification_observation \<Rightarrow> string + unit" where
  "validate_identification_record ob =
     and_then (validate_identification ob) (\<lambda>_.
     and_then (validate_target_texts ''identification target namespace'' ''identification target value''
                 (io_target ob)) (\<lambda>_.
     and_then (validate_responder (io_responder ob)) (\<lambda>_.
     and_then (validate_cache_text ''identification semantic'' (io_semantic ob)) (\<lambda>_.
     and_then (validate_cache_text ''identification definition'' (io_definition_id ob)) (\<lambda>_.
     and_then (validate_cache_text ''identification knowledge repository'' (io_repository ob)) (\<lambda>_.
     and_then (validate_knowledge_revision (io_revision ob)) (\<lambda>_.
     and_then (check_some (check_size ''vehicle cache ECU identification value is too large'') (io_value ob)) (\<lambda>_.
     and_then (check_all (\<lambda>r. and_then (check_some validate_responder (ir_responder r)) (\<lambda>_.
                 check_size ''vehicle cache ECU identification response is too large'' (ir_payload r)))
                 (io_responses ob)) (\<lambda>_.
       check_all (validate_cache_text ''identification error'') (io_errors ob))))))))))"

definition validate_mapping :: "target_mapping_snapshot \<Rightarrow> string + unit" where
  "validate_mapping m =
     and_then (check_some validate_role (ms_role m)) (\<lambda>_.
     and_then (check_some validate_responder (ms_responder m)) (\<lambda>_.
     and_then (validate_target_texts ''target namespace'' ''target value'' (ms_target m)) (\<lambda>_.
       validate_provenance (ms_provenance m))))"

definition validate_installed_evidence :: "installed_evidence \<Rightarrow> string + unit" where
  "validate_installed_evidence e =
     and_then (validate_context (ie_context e)) (\<lambda>_.
     and_then (check_some (\<lambda>i. and_then (validate_cache_text ''configured identity authority'' (ci_authority i)) (\<lambda>_.
                 validate_cache_text ''configured identity'' (ci_identifier i)))
                 (cc_identity (ie_configured e))) (\<lambda>_.
     and_then (check_some (\<lambda>l. and_then (validate_cache_text ''logical address authority'' (la_authority l)) (\<lambda>_.
                 validate_cache_text ''logical address'' (la_value l)))
                 (cc_logical (ie_configured e))) (\<lambda>_.
     and_then (validate_provenance (cc_provenance (ie_configured e))) (\<lambda>_.
     and_then (check_some (\<lambda>t. and_then (validate_target_texts ''provider target namespace'' ''provider target value''
                                          (te_target t)) (\<lambda>_. validate_provenance (te_provenance t)))
                 (ie_target e)) (\<lambda>_.
       if MAX_PROVIDER_ENTRY_EVIDENCE_REFERENCES < length (ie_references e)
       then Inl ''vehicle cache configured entry has too many evidence references''
       else check_all (validate_cache_text ''configured entry evidence reference'') (ie_references e))))))"

definition validate_topology_provider_result :: "provider_result \<Rightarrow> string + unit" where
  "validate_topology_provider_result r =
     and_then (validate_cache_text ''topology provider id'' (pi_name (pr_id r))) (\<lambda>_.
       if MAX_PROVIDER_EVIDENCE_REFERENCES < length (pr_references r)
       then Inl ''vehicle cache topology provider has too many evidence references''
       else if MAX_PROVIDER_ENTRIES < length (pr_entries r)
       then Inl ''vehicle cache topology provider has too many entries''
       else
         and_then (check_some (validate_cache_text ''topology provider manufacturer'')
                     (sc_manufacturer (pa_scope (pr_applicability r)))) (\<lambda>_.
         and_then (check_some (validate_cache_text ''topology provider platform'')
                     (sc_platform (pa_scope (pr_applicability r)))) (\<lambda>_.
         and_then (validate_provenance (pa_provenance (pr_applicability r))) (\<lambda>_.
         and_then (check_all (validate_cache_text ''topology provider evidence reference'') (pr_references r)) (\<lambda>_.
           check_all validate_installed_evidence (pr_entries r))))))"

definition validate_snapshot :: "cache_snapshot \<Rightarrow> string + unit" where
  "validate_snapshot s =
     and_then (check_all validate_topology_observation (cs_topology s)) (\<lambda>_.
     and_then (check_all validate_capability (cs_capabilities s)) (\<lambda>_.
     and_then (check_all validate_identification_record (cs_identification s)) (\<lambda>_.
     and_then (check_all validate_mapping (cs_mappings s)) (\<lambda>_.
       check_all validate_topology_provider_result (cs_providers s)))))"

definition validate_record :: "vehicle_cache \<Rightarrow> string + unit" where
  "validate_record c =
     and_then (validate_cache_text ''local key'' (vc_key c)) (\<lambda>_.
       if vc_last_ms c < vc_first_ms c
       then Inl ''vehicle cache last_seen_ms precedes first_seen_ms''
       else
         and_then (validate_snapshot (vc_snapshot c)) (\<lambda>_.
           check_all (validate_cache_text ''evidence'') (vc_history c)))"

section \<open>The file text\<close>

definition HEADER :: string where "HEADER = ''OBDENTIC-VEHICLE-CACHE'' @ tab # ''5''"
definition V4_HEADER :: string where "V4_HEADER = ''OBDENTIC-VEHICLE-CACHE'' @ tab # ''4''"
definition V3_HEADER :: string where "V3_HEADER = ''OBDENTIC-VEHICLE-CACHE'' @ tab # ''3''"
definition V2_HEADER :: string where "V2_HEADER = ''OBDENTIC-VEHICLE-CACHE'' @ tab # ''2''"
definition LEGACY_HEADER :: string where "LEGACY_HEADER = ''OBDENTIC-VEHICLE-CACHE'' @ tab # ''1''"


definition tagged :: "string \<Rightarrow> string \<Rightarrow> string" where
  "tagged tag rest = tag @ tab # rest"

definition capability_lines :: "nat \<Rightarrow> capability_snapshot \<Rightarrow> string list" where
  "capability_lines index c =
     (tagged ''capability'' (show_nat index @ tab # encode_fields (encode_responder_fields (cb_responder c)))) #
     map (\<lambda>p. tagged ''capability_page'' (show_nat index @ tab # encode_fields (encode_capability_page p)))
       (cb_pages c)"

definition record_lines :: "vehicle_cache \<Rightarrow> string list" where
  "record_lines c =
     (let s = vc_snapshot c in
      [tagged ''local_key'' (escape (vc_key c)),
       tagged ''first_seen_ms'' (show_nat (unat (vc_first_ms c))),
       tagged ''last_seen_ms'' (show_nat (unat (vc_last_ms c)))] @
      map (\<lambda>ob. tagged ''topology'' (encode_fields (encode_topology_observation ob))) (cs_topology s) @
      concat (map (\<lambda>(index, c). capability_lines index c)
        (zip [0..<length (cs_capabilities s)] (cs_capabilities s))) @
      map (\<lambda>m. tagged ''target_mapping'' (encode_fields (encode_target_mapping m))) (cs_mappings s) @
      map (\<lambda>ob. tagged ''ecu_identification'' (encode_fields (encode_identification_observation ob)))
        (cs_identification s) @
      map (\<lambda>r. tagged ''topology_provider'' (encode_fields (encode_provider_result r))) (cs_providers s) @
      map (\<lambda>h. tagged ''history'' (escape h)) (vc_history c))"

definition cache_text :: "vehicle_cache \<Rightarrow> string" where
  "cache_text c = HEADER @ concat (map (\<lambda>l. line_feed # l) (record_lines c)) @ [line_feed]"

section \<open>The parser\<close>

record parse_state =
  ps_key :: "string option"
  ps_first :: "nat option"
  ps_last :: "nat option"
  ps_topology :: "topology_observation list"
  ps_capabilities :: "(nat \<times> capability_snapshot) list"
  ps_mappings :: "target_mapping_snapshot list"
  ps_identification :: "identification_observation list"
  ps_providers :: "provider_result list"
  ps_history :: "string list"

definition parse_start :: parse_state where
  "parse_start =
     \<lparr>ps_key = None, ps_first = None, ps_last = None, ps_topology = [], ps_capabilities = [],
      ps_mappings = [], ps_identification = [], ps_providers = [], ps_history = []\<rparr>"

definition one_field :: "string list \<Rightarrow> string \<Rightarrow> string failure + string" where
  "one_field cells name =
     (case cells of [x] \<Rightarrow> Inr x | _ \<Rightarrow> Inl (Failed (''vehicle cache '' @ name @ '' must contain one field'')))"

definition parse_timestamp :: "string \<Rightarrow> string \<Rightarrow> string failure + nat" where
  "parse_timestamp v name = map_err Failed (parse_int (2 ^ 64 - 1) name v)"

definition unless_set :: "'a option \<Rightarrow> string \<Rightarrow> string failure + 'b \<Rightarrow> string failure + 'b" where
  "unless_set x name r =
     (if x \<noteq> None then Inl (Failed (''vehicle cache contains duplicate '' @ name)) else r)"

definition add_page :: "capability_page \<Rightarrow> capability_snapshot option \<Rightarrow> capability_snapshot" where
  "add_page p c =
     (case c of
        None \<Rightarrow> undefined
      | Some c \<Rightarrow> c\<lparr>cb_pages := sort_key capability_page_key (cb_pages c @ [p])\<rparr>)"

definition parse_capability_head :: "(nat \<times> topology_identity) field_parser" where
  "parse_capability_head =
     pthen (parse_number (2 ^ 64 - 1) ''capability index'' ''capability index'') (\<lambda>i.
     pthen parse_responder (\<lambda>r. preturn (i, r)))"

definition parse_indexed_page :: "(nat \<times> capability_page) field_parser" where
  "parse_indexed_page =
     pthen (parse_number (2 ^ 64 - 1) ''capability index'' ''capability index'') (\<lambda>i.
     pthen parse_capability_page (\<lambda>p. preturn (i, p)))"

definition parse_tagged ::
  "bool \<Rightarrow> bool \<Rightarrow> bool \<Rightarrow> parse_state \<Rightarrow> string \<Rightarrow> string list \<Rightarrow> string failure + parse_state" where
  "parse_tagged has_role has_identification has_providers st tag cells =
     (if tag = ''local_key'' then
        unless_set (ps_key st) ''local_key''
          (and_then (one_field cells ''local_key'') (\<lambda>v. Inr (st\<lparr>ps_key := Some v\<rparr>)))
      else if tag = ''first_seen_ms'' then
        unless_set (ps_first st) ''first_seen_ms''
          (and_then (one_field cells ''first_seen_ms'') (\<lambda>v.
           and_then (parse_timestamp v ''first_seen_ms'') (\<lambda>t. Inr (st\<lparr>ps_first := Some t\<rparr>))))
      else if tag = ''last_seen_ms'' then
        unless_set (ps_last st) ''last_seen_ms''
          (and_then (one_field cells ''last_seen_ms'') (\<lambda>v.
           and_then (parse_timestamp v ''last_seen_ms'') (\<lambda>t. Inr (st\<lparr>ps_last := Some t\<rparr>))))
      else if tag = ''topology'' then
        and_then (parse_record parse_topology_observation cells) (\<lambda>ob.
          Inr (st\<lparr>ps_topology := ps_topology st @ [ob]\<rparr>))
      else if tag = ''capability'' then
        and_then (parse_record parse_capability_head cells) (\<lambda>(i, r).
          if map_of (ps_capabilities st) i \<noteq> None
          then Inl (Failed ''vehicle cache contains duplicate capability'')
          else Inr (st\<lparr>ps_capabilities := bt_insert i (capability_snapshot_new r []) (ps_capabilities st)\<rparr>))
      else if tag = ''capability_page'' then
        and_then (parse_record parse_indexed_page cells) (\<lambda>(i, p).
          if map_of (ps_capabilities st) i = None
          then Inl (Failed ''vehicle cache capability page precedes its capability'')
          else Inr (st\<lparr>ps_capabilities := bt_upsert i (add_page p) (ps_capabilities st)\<rparr>))
      else if tag = ''target_mapping'' then
        and_then (parse_record (parse_target_mapping_with_role has_role) cells) (\<lambda>m.
          Inr (st\<lparr>ps_mappings := ps_mappings st @ [m]\<rparr>))
      else if tag = ''ecu_identification'' \<and> has_identification then
        and_then (parse_identification_record cells) (\<lambda>ob.
          Inr (st\<lparr>ps_identification := ps_identification st @ [ob]\<rparr>))
      else if tag = ''topology_provider'' \<and> has_providers then
        and_then (parse_provider_record cells) (\<lambda>r.
          Inr (st\<lparr>ps_providers := ps_providers st @ [r]\<rparr>))
      else if tag = ''history'' \<or> tag = ''evidence'' then
        and_then (one_field cells tag) (\<lambda>v. Inr (st\<lparr>ps_history := ps_history st @ [v]\<rparr>))
      else Inl (Failed (''vehicle cache contains unsupported field '' @ tag)))"

definition parse_line :: "bool \<Rightarrow> bool \<Rightarrow> bool \<Rightarrow> parse_state \<Rightarrow> string \<Rightarrow> string failure + parse_state" where
  "parse_line has_role has_identification has_providers st line =
     and_then (map_err Failed (parse_fields line)) (\<lambda>(tag, cells).
       parse_tagged has_role has_identification has_providers st tag cells)"

fun parse_lines :: "(parse_state \<Rightarrow> string \<Rightarrow> string failure + parse_state) \<Rightarrow> parse_state \<Rightarrow> string list \<Rightarrow>
    string failure + parse_state" where
  "parse_lines step st [] = Inr st"
| "parse_lines step st (l # ls) = and_then (step st l) (\<lambda>st. parse_lines step st ls)"

definition finish_cache :: "vehicle_cache \<Rightarrow> string \<Rightarrow> string failure + vehicle_cache" where
  "finish_cache c requested_key =
     and_then (map_err Failed (validate_record c)) (\<lambda>_.
       if vc_key c \<noteq> requested_key
       then Inl (Failed ''vehicle cache local_key does not match its path'') else Inr c)"

definition required :: "'a option \<Rightarrow> string \<Rightarrow> string failure + 'a" where
  "required x name = ok_or (Failed (''vehicle cache is missing '' @ name)) x"

definition parsed_base :: "parse_state \<Rightarrow> string failure + vehicle_cache" where
  "parsed_base st =
     and_then (required (ps_key st) ''local_key'') (\<lambda>key.
     and_then (required (ps_first st) ''first_seen_ms'') (\<lambda>a.
     and_then (required (ps_last st) ''last_seen_ms'') (\<lambda>b.
       Inr (cache_new key (word_of_nat a) (word_of_nat b) (ps_history st)))))"

definition parsed_snapshot :: "parse_state \<Rightarrow> cache_snapshot" where
  "parsed_snapshot st =
     with_topology_provider_results (ps_providers st)
       (snapshot_with_identification (ps_topology st) (map snd (ps_capabilities st)) (ps_mappings st)
         (ps_identification st))"

definition parse_versioned ::
  "bool \<Rightarrow> bool \<Rightarrow> bool \<Rightarrow> string list \<Rightarrow> string \<Rightarrow> string failure + vehicle_cache" where
  "parse_versioned has_role has_identification has_providers ls requested_key =
     and_then (parse_lines (parse_line has_role has_identification has_providers) parse_start ls) (\<lambda>st.
     and_then (parsed_base st) (\<lambda>c.
       finish_cache
         (cache_with_snapshot (vc_key c) (vc_first_ms c) (vc_last_ms c) (parsed_snapshot st) (vc_history c))
         requested_key))"

text \<open>Version 1: one escaped text per line.\<close>

definition parse_v1_line :: "parse_state \<Rightarrow> string \<Rightarrow> string failure + parse_state" where
  "parse_v1_line st line =
     and_then (ok_or (Failed ''malformed vehicle cache field'') (split_once tab line)) (\<lambda>(name, encoded).
       if name = ''local_key'' then
         unless_set (ps_key st) ''local_key''
           (and_then (map_err Failed (unescape encoded)) (\<lambda>v. Inr (st\<lparr>ps_key := Some v\<rparr>)))
       else if name = ''first_seen_ms'' then
         unless_set (ps_first st) ''first_seen_ms''
           (and_then (parse_timestamp encoded ''first_seen_ms'') (\<lambda>t. Inr (st\<lparr>ps_first := Some t\<rparr>)))
       else if name = ''last_seen_ms'' then
         unless_set (ps_last st) ''last_seen_ms''
           (and_then (parse_timestamp encoded ''last_seen_ms'') (\<lambda>t. Inr (st\<lparr>ps_last := Some t\<rparr>)))
       else if name = ''evidence'' then
         and_then (map_err Failed (unescape encoded)) (\<lambda>v. Inr (st\<lparr>ps_history := ps_history st @ [v]\<rparr>))
       else Inl (Failed (''vehicle cache contains unsupported field '' @ name)))"

definition parse_v1 :: "string list \<Rightarrow> string \<Rightarrow> string failure + vehicle_cache" where
  "parse_v1 ls requested_key =
     and_then (parse_lines parse_v1_line parse_start ls) (\<lambda>st.
     and_then (parsed_base st) (\<lambda>c. finish_cache c requested_key))"

definition parse_cache :: "string \<Rightarrow> string \<Rightarrow> string failure + vehicle_cache" where
  "parse_cache contents requested_key =
     (case rust_lines contents of
        [] \<Rightarrow> Inl (Failed ''unsupported vehicle cache format'')
      | header # ls \<Rightarrow>
          if header = HEADER then parse_versioned True True True ls requested_key
          else if header = V4_HEADER then parse_versioned True True False ls requested_key
          else if header = V3_HEADER then parse_versioned True False False ls requested_key
          else if header = V2_HEADER then parse_versioned False False False ls requested_key
          else if header = LEGACY_HEADER then parse_v1 ls requested_key
          else Inl (Failed ''unsupported vehicle cache format''))"

end
