(* ===== verification/Cache_Roundtrip.thy ===== *)
theory Cache_Roundtrip
  imports Vehicle_Cache
begin

text \<open>
  A cache record survives its file: the lines \<open>save\<close> writes are read back into the same record.
  The proof follows the file, one group of lines after the other, over the interpretations of
  \<open>field_format\<close>.
\<close>

section \<open>Lines\<close>

lemma plain_escape [simp]: "plain_line (escape s)"
  using escape_plain by (auto simp: plain_line_def)

lemma plain_cells [simp]: "plain_line (encode_fields cells)"
proof -
  have "plain_line (join [tab] ws)" if "list_all plain_line ws" for ws
    using that by (induction "[tab]" ws rule: join.induct) simp_all
  then show ?thesis by (simp add: encode_fields_def list_all_iff)
qed

lemma plain_number [simp]: "plain_line (show_nat n)"
  using show_nat_plain by (fastforce simp: plain_line_def)

lemma plain_tagged [simp]: "plain_line (tagged tag rest) \<longleftrightarrow> plain_line tag \<and> plain_line rest"
  by (simp add: tagged_def)

lemma record_lines_plain: "list_all plain_line (HEADER # record_lines c)"
  by (simp add: record_lines_def HEADER_def Let_def list_all_iff capability_lines_def split_def ball_Un)

section \<open>Reading the lines of a record\<close>

lemma parse_lines_append:
  "parse_lines step st (a @ b) = and_then (parse_lines step st a) (\<lambda>st. parse_lines step st b)"
proof (induction a arbitrary: st)
  case (Cons l a)
  then show ?case by (cases "step st l") simp_all
qed simp

abbreviation read_line :: "parse_state \<Rightarrow> string \<Rightarrow> string failure + parse_state" where
  "read_line \<equiv> parse_line True True True"

lemma parse_line_cells:
  assumes "tag \<noteq> []" and "tab \<notin> set tag" and "cells \<noteq> []"
  shows "read_line st (tagged tag (encode_fields cells)) = parse_tagged True True True st tag cells"
  using parse_fields_encode [OF assms] by (simp add: parse_line_def tagged_def)

text \<open>One cell is its own field text, and a number needs no escape.\<close>

lemma encode_one: "encode_fields [s] = escape s"
  by (simp add: encode_fields_def)

lemma encode_Cons: "cells \<noteq> [] \<Longrightarrow> encode_fields (s # cells) = escape s @ tab # encode_fields cells"
  by (cases cells) (simp_all add: encode_fields_def)

lemma escape_number [simp]: "escape (show_nat n) = show_nat n"
  using show_nat_plain by (intro escape_id) fastforce

lemma cells_not_Nil [simp]:
  "encode_context c \<noteq> []" "encode_responder_fields r \<noteq> []" "encode_topology_observation ob \<noteq> []"
  "encode_capability_page p \<noteq> []" "encode_optional enc x \<noteq> []" "encode_target_mapping m \<noteq> []"
  "encode_identification_observation i \<noteq> []" "encode_provider_result pr \<noteq> []"
  by (simp_all add: encode_context_def encode_responder_fields_def split_def encode_topology_observation_def
      encode_capability_page_def encode_optional_def encode_target_mapping_def
      encode_identification_observation_def encode_target_def encode_provider_result_def split: option.splits)

lemma read_topology:
  "topology_observation_ok ob \<Longrightarrow>
    read_line st (tagged ''topology'' (encode_fields (encode_topology_observation ob))) =
      Inr (st\<lparr>ps_topology := ps_topology st @ [ob]\<rparr>)"
  by (subst parse_line_cells) (simp_all add: parse_tagged_def observation_format.alone)

lemma read_mapping:
  "mapping_ok m \<Longrightarrow>
    read_line st (tagged ''target_mapping'' (encode_fields (encode_target_mapping m))) =
      Inr (st\<lparr>ps_mappings := ps_mappings st @ [m]\<rparr>)"
  by (subst parse_line_cells) (simp_all add: parse_tagged_def mapping_format.alone)

lemma read_identification:
  "identification_ok ob \<Longrightarrow>
    read_line st (tagged ''ecu_identification'' (encode_fields (encode_identification_observation ob))) =
      Inr (st\<lparr>ps_identification := ps_identification st @ [ob]\<rparr>)"
  by (subst parse_line_cells) (simp_all add: parse_tagged_def identification_record)

lemma read_provider:
  "provider_ok r \<Longrightarrow>
    read_line st (tagged ''topology_provider'' (encode_fields (encode_provider_result r))) =
      Inr (st\<lparr>ps_providers := ps_providers st @ [r]\<rparr>)"
  by (subst parse_line_cells) (simp_all add: parse_tagged_def provider_record)

lemma read_history: "read_line st (tagged ''history'' (escape h)) = Inr (st\<lparr>ps_history := ps_history st @ [h]\<rparr>)"
  unfolding encode_one [symmetric] by (subst parse_line_cells) (simp_all add: parse_tagged_def one_field_def)

lemma read_topologies:
  "list_all topology_observation_ok xs \<Longrightarrow>
    parse_lines read_line st (map (\<lambda>x. tagged ''topology'' (encode_fields (encode_topology_observation x))) xs) =
      Inr (st\<lparr>ps_topology := ps_topology st @ xs\<rparr>)"
  by (induction xs arbitrary: st) (simp_all add: read_topology)

lemma read_mappings:
  "list_all mapping_ok xs \<Longrightarrow>
    parse_lines read_line st (map (\<lambda>x. tagged ''target_mapping'' (encode_fields (encode_target_mapping x))) xs) =
      Inr (st\<lparr>ps_mappings := ps_mappings st @ xs\<rparr>)"
  by (induction xs arbitrary: st) (simp_all add: read_mapping)

lemma read_identifications:
  "list_all identification_ok xs \<Longrightarrow>
    parse_lines read_line st (map (\<lambda>x. tagged ''ecu_identification'' (encode_fields (encode_identification_observation x))) xs) =
      Inr (st\<lparr>ps_identification := ps_identification st @ xs\<rparr>)"
  by (induction xs arbitrary: st) (simp_all add: read_identification)

lemma read_providers:
  "list_all provider_ok xs \<Longrightarrow>
    parse_lines read_line st (map (\<lambda>x. tagged ''topology_provider'' (encode_fields (encode_provider_result x))) xs) =
      Inr (st\<lparr>ps_providers := ps_providers st @ xs\<rparr>)"
  by (induction xs arbitrary: st) (simp_all add: read_provider)

lemma read_histories:
  "parse_lines read_line st (map (\<lambda>h. tagged ''history'' (escape h)) xs) = Inr (st\<lparr>ps_history := ps_history st @ xs\<rparr>)"
  by (induction xs arbitrary: st) (simp_all add: read_history)

section \<open>Capabilities\<close>

lemma bt_upsert_end:
  fixes k :: "'k :: linorder"
  assumes "\<forall>k' \<in> fst ` set m. k' < k"
  shows "bt_upsert k f m = m @ [(k, f None)]" "bt_upsert k f (m @ [(k, v)]) = m @ [(k, f (Some v))]"
    "map_of m k = None" "map_of (m @ [(k, v)]) k = Some v"
proof -
  show 1: "map_of m k = None" using assms by (auto simp: map_of_eq_None_iff)
  show "map_of (m @ [(k, v)]) k = Some v" using 1 by (simp add: map_add_def)
  show "bt_upsert k f m = m @ [(k, f None)]" "bt_upsert k f (m @ [(k, v)]) = m @ [(k, f (Some v))]"
    using assms by (induction m) auto
qed

text \<open>The invariant of a stored capability: its pages in order, each with a provenance.\<close>

definition stored_capability_ok :: "capability_snapshot \<Rightarrow> bool" where
  "stored_capability_ok c \<longleftrightarrow> capability_ok c \<and> list_all page_ok (cb_pages c)"

lemma read_pages:
  assumes "\<forall>k \<in> fst ` set m. k < i" and "i < 2 ^ 64" and "list_all page_ok pages"
  shows "parse_lines read_line (st\<lparr>ps_capabilities := m @ [(i, c)]\<rparr>)
      (map (\<lambda>p. tagged ''capability_page'' (show_nat i @ tab # encode_fields (encode_capability_page p))) pages) =
    Inr (st\<lparr>ps_capabilities := m @ [(i, c\<lparr>cb_pages :=
           foldl (\<lambda>l p. sort_key capability_page_key (l @ [p])) (cb_pages c) pages\<rparr>)]\<rparr>)"
  using assms(3)
proof (induction pages arbitrary: c)
  case (Cons p pages)
  have cells: "show_nat i @ tab # encode_fields (encode_capability_page p) =
      encode_fields (show_nat i # encode_capability_page p)"
    by (simp add: encode_Cons)
  have "parse_record parse_indexed_page (show_nat i # encode_capability_page p) = Inr (i, p)"
    using Cons.prems page_format.parse_then [of p "\<lambda>p. preturn (i, p)" "[]"] assms(2)
    by (simp add: parse_record_def parse_indexed_page_def parse_number_show finish_fields_def)
  then have "read_line (st\<lparr>ps_capabilities := m @ [(i, c)]\<rparr>)
      (tagged ''capability_page'' (encode_fields (show_nat i # encode_capability_page p))) =
    Inr (st\<lparr>ps_capabilities := m @ [(i, c\<lparr>cb_pages := sort_key capability_page_key (cb_pages c @ [p])\<rparr>)]\<rparr>)"
    by (subst parse_line_cells)
      (simp_all add: parse_tagged_def bt_upsert_end [OF assms(1)] add_page_def)
  then show ?case using Cons unfolding list.map parse_lines.simps cells by simp
qed simp

lemma read_capability:
  assumes "\<forall>k \<in> fst ` set (ps_capabilities st). k < i" and "i < 2 ^ 64" and "stored_capability_ok c"
  shows "parse_lines read_line st (capability_lines i c) =
    Inr (st\<lparr>ps_capabilities := ps_capabilities st @ [(i, c)]\<rparr>)"
proof -
  let ?empty = "capability_snapshot_new (cb_responder c) []"
  have cells: "show_nat i @ tab # encode_fields (encode_responder_fields (cb_responder c)) =
      encode_fields (show_nat i # encode_responder_fields (cb_responder c))"
    by (simp add: encode_Cons)
  have "parse_record parse_capability_head (show_nat i # encode_responder_fields (cb_responder c)) =
      Inr (i, cb_responder c)"
    using responder_format.parse_then [of "\<lambda>r. preturn (i, r)" "cb_responder c" "[]"] assms(2)
    by (simp add: parse_record_def parse_capability_head_def parse_number_show finish_fields_def)
  then have head: "read_line st (tagged ''capability'' (encode_fields (show_nat i # encode_responder_fields (cb_responder c)))) =
      Inr (st\<lparr>ps_capabilities := ps_capabilities st @ [(i, ?empty)]\<rparr>)"
    by (subst parse_line_cells)
      (simp_all add: parse_tagged_def bt_insert_def bt_upsert_end [OF assms(1)])
  have "foldl (\<lambda>l p. sort_key capability_page_key (l @ [p])) [] (cb_pages c) = cb_pages c"
    using page_order.sort_pushes [of "[]" "cb_pages c"] assms(3)
    by (simp add: stored_capability_ok_def capability_ok_def page_order.sort_id)
  then have "?empty\<lparr>cb_pages := foldl (\<lambda>l p. sort_key capability_page_key (l @ [p])) (cb_pages ?empty) (cb_pages c)\<rparr> = c"
    by (simp add: capability_snapshot_new_def)
  then show ?thesis
    using read_pages [OF assms(1,2), where pages = "cb_pages c" and st = st and c = ?empty] assms(3) head
    unfolding capability_lines_def cells parse_lines.simps by (simp add: stored_capability_ok_def)
qed

lemma read_capabilities:
  assumes "\<forall>j \<in> fst ` set (ps_capabilities st). j < k" and "k + length cs \<le> 2 ^ 64"
    and "list_all stored_capability_ok cs"
  shows "parse_lines read_line st (concat (map (\<lambda>(i, c). capability_lines i c) (zip [k..<k + length cs] cs))) =
    Inr (st\<lparr>ps_capabilities := ps_capabilities st @ zip [k..<k + length cs] cs\<rparr>)"
  using assms
proof (induction cs arbitrary: st k)
  case (Cons c cs)
  have "k < k + length (c # cs)" by simp
  then have "[k..<k + length (c # cs)] = k # [Suc k..<k + length (c # cs)]" by (rule upt_conv_Cons)
  moreover have "k + length (c # cs) = Suc k + length cs" by simp
  ultimately have up: "[k..<k + length (c # cs)] = k # [Suc k..<Suc k + length cs]" by simp
  let ?st = "st\<lparr>ps_capabilities := ps_capabilities st @ [(k, c)]\<rparr>"
  have "parse_lines read_line st (capability_lines k c) = Inr ?st"
    using Cons.prems by (intro read_capability) auto
  moreover have "parse_lines read_line ?st (concat (map (\<lambda>(i, c). capability_lines i c) (zip [Suc k..<Suc k + length cs] cs))) =
      Inr (?st\<lparr>ps_capabilities := ps_capabilities ?st @ zip [Suc k..<Suc k + length cs] cs\<rparr>)"
    using Cons.prems by (intro Cons.IH) auto
  ultimately show ?case unfolding up by (simp add: parse_lines_append)
qed simp

section \<open>The whole record\<close>

text \<open>What the constructors guarantee of a record.\<close>

definition cache_ok :: "vehicle_cache \<Rightarrow> bool" where
  "cache_ok c \<longleftrightarrow>
     (let s = vc_snapshot c in
      snapshot_canonical s \<and> list_all topology_observation_ok (cs_topology s) \<and>
      list_all stored_capability_ok (cs_capabilities s) \<and> length (cs_capabilities s) \<le> 2 ^ 64 \<and>
      list_all mapping_ok (cs_mappings s) \<and> list_all identification_ok (cs_identification s) \<and>
      list_all provider_ok (cs_providers s) \<and> sorted (vc_history c))"

lemma read_record:
  assumes "cache_ok c"
  shows "parse_lines read_line parse_start (record_lines c) =
    Inr \<lparr>ps_key = Some (vc_key c), ps_first = Some (unat (vc_first_ms c)),
         ps_last = Some (unat (vc_last_ms c)), ps_topology = cs_topology (vc_snapshot c),
         ps_capabilities = zip [0..<length (cs_capabilities (vc_snapshot c))] (cs_capabilities (vc_snapshot c)),
         ps_mappings = cs_mappings (vc_snapshot c), ps_identification = cs_identification (vc_snapshot c),
         ps_providers = cs_providers (vc_snapshot c), ps_history = vc_history c\<rparr>"
proof -
  let ?s = "vc_snapshot c"
  have key: "read_line parse_start (tagged ''local_key'' (escape (vc_key c))) =
      Inr (parse_start\<lparr>ps_key := Some (vc_key c)\<rparr>)"
    unfolding encode_one [symmetric]
    by (subst parse_line_cells) (simp_all add: parse_tagged_def one_field_def unless_set_def parse_start_def)
  have first: "read_line st (tagged ''first_seen_ms'' (show_nat (unat (vc_first_ms c)))) =
      Inr (st\<lparr>ps_first := Some (unat (vc_first_ms c))\<rparr>)" if "ps_first st = None" for st
    using that parse_line_cells [of "''first_seen_ms''" "[show_nat (unat (vc_first_ms c))]" st]
    by (simp add: encode_one parse_tagged_def one_field_def unless_set_def parse_timestamp_def)
  have last: "read_line st (tagged ''last_seen_ms'' (show_nat (unat (vc_last_ms c)))) =
      Inr (st\<lparr>ps_last := Some (unat (vc_last_ms c))\<rparr>)" if "ps_last st = None" for st
    using that parse_line_cells [of "''last_seen_ms''" "[show_nat (unat (vc_last_ms c))]" st]
    by (simp add: encode_one parse_tagged_def one_field_def unless_set_def parse_timestamp_def)
  have ok: "list_all topology_observation_ok (cs_topology ?s)" "list_all mapping_ok (cs_mappings ?s)"
    "list_all identification_ok (cs_identification ?s)" "list_all provider_ok (cs_providers ?s)"
    "list_all stored_capability_ok (cs_capabilities ?s)" "length (cs_capabilities ?s) \<le> 2 ^ 64"
    using assms by (simp_all add: cache_ok_def Let_def)
  note groups = read_topologies [OF ok(1)] read_mappings [OF ok(2)] read_identifications [OF ok(3)]
    read_providers [OF ok(4)] read_histories
  have caps: "parse_lines read_line st (concat (map (\<lambda>(i, c). capability_lines i c)
        (zip [0..<length (cs_capabilities ?s)] (cs_capabilities ?s)))) =
      Inr (st\<lparr>ps_capabilities := zip [0..<length (cs_capabilities ?s)] (cs_capabilities ?s)\<rparr>)"
    if "ps_capabilities st = []" for st
    using read_capabilities [of st 0 "cs_capabilities ?s"] ok(5,6) that by simp
  show ?thesis
    unfolding record_lines_def Let_def
    by (simp only: append_Cons append_Nil parse_lines.simps key and_then.simps)
      (simp add: first last parse_lines_append groups caps parse_start_def)
qed

lemma read_text:
  assumes "cache_ok c"
  shows "parse_cache (cache_text c) key = finish_cache c key"
proof -
  have "rust_lines (cache_text c) = HEADER # record_lines c"
    unfolding cache_text_def by (rule rust_lines_text) (rule record_lines_plain)
  moreover have "map snd (zip [0..<length xs] xs) = xs" for xs :: "capability_snapshot list"
    by (rule map_snd_zip) simp
  moreover have "snapshot_canonical (vc_snapshot c)" "sort (vc_history c) = vc_history c"
    using assms by (simp_all add: cache_ok_def Let_def sorted_sort_id)
  ultimately have "parse_cache (cache_text c) key =
      finish_cache \<lparr>vc_key = vc_key c, vc_first_ms = vc_first_ms c, vc_last_ms = vc_last_ms c,
        vc_snapshot = vc_snapshot c, vc_history = vc_history c\<rparr> key"
    by (simp add: parse_cache_def parse_versioned_def read_record [OF assms] parsed_base_def required_def
        cache_new_def cache_with_snapshot_def parsed_snapshot_def snapshot_rebuild)
  then show ?thesis by (cases c) simp
qed

end
