(* ===== verification/Cache_Sound.thy ===== *)
theory Cache_Sound
  imports Cache_Roundtrip
begin

text \<open>
  What the parser of cache files accepts: only records every constructor could have built, so that
  a loaded record, of whatever version, is written and read back unchanged.  The interface
  \<open>checked_format\<close> adds to \<open>field_format\<close> that a parsed value satisfies the invariant.
\<close>

section \<open>The interface\<close>

lemma pthen_Inr: "pthen p f fs = Inr r \<longleftrightarrow> (\<exists>x rest. p fs = Inr (x, rest) \<and> f x rest = Inr r)"
  by (auto simp: pthen_def)

lemma plift_Inr_iff: "plift r fs = Inr (x, rest) \<longleftrightarrow> r = Inr x \<and> rest = fs"
  by (auto simp: plift_def)

lemma parse_record_Inr: "parse_record p fs = Inr x \<longleftrightarrow> p fs = Inr (x, [])"
  by (auto simp: parse_record_def finish_fields_def)

locale checked_format = field_format +
  assumes sound: "prs fs = Inr (x, rest) \<Longrightarrow> valid x"
begin

lemma optional_sound: "parse_optional name prs fs = Inr (x, rest) \<Longrightarrow> pred_option valid x"
  using sound by (auto simp: parse_optional_def pthen_Inr split: if_splits)

lemma times_sound: "parse_times n prs fs = Inr (xs, rest) \<Longrightarrow> list_all valid xs \<and> length xs = n"
proof (induction n arbitrary: fs xs rest)
  case (Suc n)
  then obtain x r ys where "prs fs = Inr (x, r)" "parse_times n prs r = Inr (ys, rest)" "xs = x # ys"
    by (auto simp: pthen_Inr)
  then show ?case using Suc.IH sound by auto
qed simp

lemma vec_sound: "parse_vec name prs fs = Inr (xs, rest) \<Longrightarrow> list_all valid xs \<and> length xs < 2 ^ 63"
  using times_sound by (auto simp: parse_vec_def pthen_Inr with_capacity_def split: if_splits)

lemma bounded_sound: "parse_bounded name m prs fs = Inr (xs, rest) \<Longrightarrow> list_all valid xs \<and> length xs \<le> m"
  using times_sound
  by (auto simp: parse_bounded_def parse_count_def pthen_Inr plift_Inr_iff split: if_splits)

text \<open>Nothing outside the invariant is ever produced, so printing what was parsed can be parsed again.\<close>

lemma reparse: "prs fs = Inr (x, rest) \<Longrightarrow> prs (enc x @ rest') = Inr (x, rest')"
  using round sound by blast

end

section \<open>Texts\<close>

lemma trim_end_prefix: "\<exists>t. s = trim_end p s @ t"
  unfolding trim_end_def by (metis rev_append rev_rev_ident takeWhile_dropWhile_id)

lemma trim_trim: "trim (trim s) = trim s"
proof (cases "trim s = []")
  case True
  then show ?thesis unfolding True by (simp add: trim_def trim_end_def)
next
  case False
  let ?t = "dropWhile is_whitespace s"
  obtain u where u: "?t = trim s @ u" using trim_end_prefix [of ?t is_whitespace] by (auto simp: trim_def)
  then have "hd (trim s) = hd ?t" "?t \<noteq> []" using False by auto
  then have "\<not> is_whitespace (hd (trim s))" using hd_dropWhile [of is_whitespace s] by simp
  moreover have "\<not> is_whitespace (last (trim s))"
    using False hd_dropWhile [of is_whitespace "rev ?t"] by (simp add: trim_def trim_end_def last_rev)
  ultimately show ?thesis using False by (intro trim_id)
qed

lemma normalized_new: "normalize_non_empty v e = Inr s \<Longrightarrow> normalized s"
  by (auto simp: normalize_non_empty_def normalized_def trim_trim split: if_splits)

section \<open>The parsed values\<close>

interpretation responder_checked: checked_format encode_responder_fields parse_responder "\<lambda>_. True"
  by unfold_locales simp

interpretation target_checked: checked_format encode_target parse_target "\<lambda>_. True"
  by unfold_locales simp

interpretation provenance_checked: checked_format encode_provenance parse_provenance provenance_ok
  by unfold_locales
    (auto simp: parse_provenance_def pthen_Inr plift_Inr_iff provenance_new_def provenance_ok_def split: if_splits)

interpretation role_checked: checked_format encode_role_assignment parse_role_assignment role_assignment_ok
  by unfold_locales
    (auto simp: parse_role_assignment_def pthen_Inr role_assignment_ok_def dest: provenance_checked.sound)

interpretation window_checked: checked_format encode_window parse_window window_ok
  by unfold_locales
    (auto simp: parse_window_def pthen_Inr plift_Inr_iff observation_window_new_def window_ok_def not_less
      split: if_splits)

interpretation observation_checked:
  checked_format encode_topology_observation parse_topology_observation topology_observation_ok
  by unfold_locales
    (auto simp: parse_topology_observation_def pthen_Inr topology_observation_ok_def
      dest: provenance_checked.sound window_checked.optional_sound)

interpretation page_checked: checked_format encode_capability_page parse_capability_page page_ok
  by unfold_locales
    (auto simp: parse_capability_page_def pthen_Inr page_ok_def dest: provenance_checked.sound)

lemma mapping_sound: "parse_target_mapping_with_role has_role fs = Inr (m, rest) \<Longrightarrow> mapping_ok m"
  by (cases has_role)
    (auto simp: parse_target_mapping_with_role_def pthen_Inr mapping_ok_def
      dest: provenance_checked.sound role_checked.optional_sound)

interpretation text_checked: checked_format "\<lambda>s. [s]" "field name" "\<lambda>_. True" for name
  by unfold_locales simp

interpretation response_checked:
  checked_format encode_identification_response parse_identification_response "\<lambda>_. True"
  by unfold_locales simp

lemma identification_sound:
  assumes "parse_identification_record cells = Inr ob"
  shows "identification_ok ob"
proof -
  obtain raw where raw: "parse_identification_observation cells = Inr (raw, [])"
    and new: "ob = raw" "validate_identification ob = Inr ()"
    using assms by (auto simp: parse_identification_record_def parse_record_Inr identification_new_Inr)
  have "length (io_responses raw) < 2 ^ 63 \<and> length (io_errors raw) < 2 ^ 63"
    using raw unfolding parse_identification_observation_def
    by (auto simp: pthen_Inr dest: response_checked.vec_sound text_checked.vec_sound)
  then show ?thesis using new by (simp add: identification_ok_def)
qed

interpretation scope_checked: checked_format encode_provider_scope parse_provider_scope scope_ok
  by unfold_locales
    (auto simp: parse_provider_scope_def pthen_Inr plift_Inr_iff scope_ok_def scope_generic_def
      scope_manufacturer_def scope_platform_def split: option.splits, (erule normalized_new)+)

interpretation reference_checked: checked_format "\<lambda>r. [r]" "parse_reference name" normalized for name
  by unfold_locales
    (auto simp: parse_reference_def pthen_Inr plift_Inr_iff evidence_reference_new_def intro: normalized_new)

interpretation target_evidence_checked:
  checked_format "\<lambda>t. encode_target (te_target t) @ encode_provenance (te_provenance t)" parse_target_evidence
    "\<lambda>t. provenance_ok (te_provenance t)"
  by unfold_locales (auto simp: parse_target_evidence_def pthen_Inr dest: provenance_checked.sound)

lemma collected_installed:
  "foldl (\<lambda>e r. with_evidence_reference r e)
     (case t of Some t \<Rightarrow> installed_with_target t (installed_evidence_new c configured)
      | None \<Rightarrow> installed_evidence_new c configured) rs =
   \<lparr>ie_context = c, ie_configured = configured, ie_target = t, ie_references = canon id rs\<rparr>"
proof -
  have "foldl (\<lambda>l r. canon id (l @ [r])) [] rs = canon id rs"
    using text_order.canon_pushes [of "[]" rs] by (simp add: canon_def)
  then show ?thesis
    by (cases t; cases "rs = []")
      (simp_all add: collected_references installed_evidence_new_def installed_with_target_def canon_def)
qed

lemma canon_texts: "list_all normalized rs \<and> length rs \<le> m \<Longrightarrow>
    list_all normalized (canon id rs) \<and> length (canon id rs) \<le> m"
  unfolding list_all_iff canon_set unfolding canon_def
  using remdups_adj_length [of "sort_key id rs"] by simp

interpretation installed_checked: checked_format encode_installed_evidence parse_installed_evidence installed_ok
proof unfold_locales
  fix fs e rest
  assume "parse_installed_evidence fs = Inr (e, rest)"
  then obtain c i l p configured t rs f1 f2 f3 f4 where
    p: "parse_provenance f1 = Inr (p, f2)" and
    new: "configured_controller_new i l p = Inr configured" and
    t: "parse_optional ''configured request target'' parse_target_evidence f2 = Inr (t, f3)" and
    rs: "parse_bounded ''configured entry evidence reference count'' MAX_PROVIDER_ENTRY_EVIDENCE_REFERENCES
           (parse_reference ''configured entry evidence reference'') f3 = Inr (rs, f4)" and
    e: "e = \<lparr>ie_context = c, ie_configured = configured, ie_target = t, ie_references = canon id rs\<rparr>"
    unfolding parse_installed_evidence_def Let_def collected_installed
    by (auto simp: pthen_Inr plift_Inr_iff)
  have "provenance_ok p" using provenance_checked.sound [OF p] .
  moreover have "pred_option (\<lambda>t. provenance_ok (te_provenance t)) t"
    using target_evidence_checked.optional_sound [OF t] .
  moreover have "list_all normalized (canon id rs) \<and> length (canon id rs) \<le> MAX_PROVIDER_ENTRY_EVIDENCE_REFERENCES"
    using reference_checked.bounded_sound [OF rs] by (rule canon_texts)
  moreover have "cc_provenance configured = p" "cc_identity configured \<noteq> None \<or> cc_logical configured \<noteq> None"
    using new by (auto simp: configured_controller_new_def split: if_splits)
  ultimately show "installed_ok e"
    unfolding e by (simp add: installed_ok_def text_order.canon_canon)
qed

lemma provider_id_sound:
  "parse_provider_id fs = Inr (i, rest) \<Longrightarrow> normalized (pi_name i) \<and> pi_version i \<noteq> 0"
  by (auto simp: parse_provider_id_def pthen_Inr plift_Inr_iff provider_id_new_def split: if_splits
      dest: normalized_new)

lemma provider_sound:
  assumes "parse_provider_record cells = Inr r"
  shows "provider_ok r"
proof -
  obtain raw where raw: "parse_provider_parts cells = Inr (raw, [])"
    and new: "provider_result_new (pr_id raw) (pr_applicability raw) (pr_status raw) (pr_coverage raw)
      (pr_entries raw) (pr_references raw) = Inr r"
    using assms by (auto simp: parse_provider_record_def parse_record_Inr)
  obtain fs1 fs2 fs3 fs4 fs5 fs6 fs7 fs8 where parts:
    "parse_provider_id fs1 = Inr (pr_id raw, fs2)"
    "parse_provider_scope fs2 = Inr (pa_scope (pr_applicability raw), fs3)"
    "parse_provenance fs3 = Inr (pa_provenance (pr_applicability raw), fs4)"
    "parse_bounded ''topology provider evidence reference count'' MAX_PROVIDER_EVIDENCE_REFERENCES
       (parse_reference ''topology provider evidence reference'') fs5 = Inr (pr_references raw, fs6)"
    "parse_bounded ''topology provider entry count'' MAX_PROVIDER_ENTRIES parse_installed_evidence fs7 =
       Inr (pr_entries raw, fs8)"
    using raw unfolding parse_provider_parts_def by (auto simp: pthen_Inr plift_Inr_iff)
  have entries: "list_all installed_ok (canon installed_key (pr_entries raw)) \<and>
      length (canon installed_key (pr_entries raw)) \<le> MAX_PROVIDER_ENTRIES"
    using installed_checked.bounded_sound [OF parts(5)] remdups_adj_length [of "sort_key installed_key (pr_entries raw)"]
    unfolding list_all_iff canon_set unfolding canon_def by simp
  have "r = \<lparr>pr_id = pr_id raw, pr_applicability = pr_applicability raw, pr_status = pr_status raw,
      pr_coverage = pr_coverage raw, pr_entries = canon installed_key (pr_entries raw),
      pr_references = canon id (pr_references raw)\<rparr>"
    using new by (auto simp: provider_result_new_def Let_def)
  then show ?thesis
    using provider_result_new_ok [OF new] entries provider_id_sound [OF parts(1)] scope_checked.sound [OF parts(2)]
      provenance_checked.sound [OF parts(3)] canon_texts [OF reference_checked.bounded_sound [OF parts(4)]]
    by (simp add: provider_ok_def)
qed

section \<open>The parser's state\<close>

definition capabilities_ok :: "(nat \<times> capability_snapshot) list \<Rightarrow> bool" where
  "capabilities_ok m \<longleftrightarrow> bt_wf m \<and> (\<forall>i c. map_of m i = Some c \<longrightarrow> i < 2 ^ 64 \<and> stored_capability_ok c)"

definition state_ok :: "parse_state \<Rightarrow> bool" where
  "state_ok st \<longleftrightarrow>
     list_all topology_observation_ok (ps_topology st) \<and> capabilities_ok (ps_capabilities st) \<and>
     list_all mapping_ok (ps_mappings st) \<and> list_all identification_ok (ps_identification st) \<and>
     list_all provider_ok (ps_providers st)"

lemma parse_number_bound: "parse_number m a b fs = Inr (n, rest) \<Longrightarrow> n \<le> m"
  by (auto simp: parse_number_def pthen_Inr plift_Inr_iff parse_int_def dest: parse_unsigned_bound)

lemma capabilities_insert:
  assumes "capabilities_ok m" and "parse_record parse_capability_head cells = Inr (i, r)"
  shows "capabilities_ok (bt_insert i (capability_snapshot_new r []) m)"
proof -
  have "i < 2 ^ 64"
    using assms(2) parse_number_bound by (fastforce simp: parse_record_Inr parse_capability_head_def pthen_Inr)
  moreover have "stored_capability_ok (capability_snapshot_new r [])"
    by (simp add: stored_capability_ok_def capability_ok_def capability_snapshot_new_def)
  ultimately show ?thesis
    using assms(1) by (auto simp: capabilities_ok_def bt_wf_insert)
qed

lemma capabilities_page:
  assumes "capabilities_ok m" and "parse_record parse_indexed_page cells = Inr (i, p)" and "map_of m i \<noteq> None"
  shows "capabilities_ok (bt_upsert i (add_page p) m)"
proof -
  have "page_ok p"
    using assms(2) by (auto simp: parse_record_Inr parse_indexed_page_def pthen_Inr dest: page_checked.sound)
  moreover obtain c where c: "map_of m i = Some c" using assms(3) by blast
  ultimately have "stored_capability_ok (add_page p (map_of m i))" "i < 2 ^ 64"
    using assms(1) by (auto simp: capabilities_ok_def stored_capability_ok_def capability_ok_def add_page_def list_all_iff)
  then show ?thesis
    using assms(1) by (auto simp: capabilities_ok_def bt_wf_upsert bt_look_upsert)
qed

text \<open>What a line may do to the state.\<close>

inductive line_effect :: "parse_state \<Rightarrow> parse_state \<Rightarrow> bool" where
  set_key: "line_effect st (st\<lparr>ps_key := v\<rparr>)"
| set_first: "line_effect st (st\<lparr>ps_first := t\<rparr>)"
| set_last: "line_effect st (st\<lparr>ps_last := t\<rparr>)"
| add_topology: "parse_record parse_topology_observation cells = Inr ob \<Longrightarrow>
    line_effect st (st\<lparr>ps_topology := ps_topology st @ [ob]\<rparr>)"
| add_capability: "parse_record parse_capability_head cells = Inr (i, r) \<Longrightarrow>
    line_effect st (st\<lparr>ps_capabilities := bt_insert i (capability_snapshot_new r []) (ps_capabilities st)\<rparr>)"
| add_capability_page: "parse_record parse_indexed_page cells = Inr (i, p) \<Longrightarrow> map_of (ps_capabilities st) i \<noteq> None \<Longrightarrow>
    line_effect st (st\<lparr>ps_capabilities := bt_upsert i (add_page p) (ps_capabilities st)\<rparr>)"
| add_mapping: "parse_record (parse_target_mapping_with_role a) cells = Inr m \<Longrightarrow>
    line_effect st (st\<lparr>ps_mappings := ps_mappings st @ [m]\<rparr>)"
| add_identification: "parse_identification_record cells = Inr ident \<Longrightarrow>
    line_effect st (st\<lparr>ps_identification := ps_identification st @ [ident]\<rparr>)"
| add_provider: "parse_provider_record cells = Inr result \<Longrightarrow>
    line_effect st (st\<lparr>ps_providers := ps_providers st @ [result]\<rparr>)"
| add_history: "line_effect st (st\<lparr>ps_history := h\<rparr>)"

lemma if_branch: "(if b then x else y) = r \<Longrightarrow> (b \<Longrightarrow> x = r \<Longrightarrow> P) \<Longrightarrow> (\<not> b \<Longrightarrow> y = r \<Longrightarrow> P) \<Longrightarrow> P"
  by (cases b) simp_all

lemma parse_tagged_effect:
  assumes "parse_tagged a b c st tag cells = Inr st'"
  shows "line_effect st st'"
  using assms unfolding parse_tagged_def unless_set_def
  by (elim if_branch)
    (((simp; fail)
      | (simp only: and_then_Inr_iff sum.inject, elim exE conjE, hypsubst, rule line_effect.intros, assumption?)
      | (clarsimp split: if_splits, rule line_effect.intros, assumption, simp?))+)

lemma line_effect_ok:
  assumes "line_effect st st'" and "state_ok st"
  shows "state_ok st'"
  using assms
proof (induction rule: line_effect.induct)
  case (add_topology cells ob st)
  then show ?case using observation_checked.sound by (auto simp: state_ok_def parse_record_Inr)
next
  case (add_mapping a cells m st)
  then show ?case using mapping_sound by (auto simp: state_ok_def parse_record_Inr)
qed (auto simp: state_ok_def identification_sound provider_sound capabilities_insert capabilities_page)

lemma parse_tagged_ok: "state_ok st \<Longrightarrow> parse_tagged a b c st tag cells = Inr st' \<Longrightarrow> state_ok st'"
  using parse_tagged_effect line_effect_ok by blast

lemma parse_lines_ok:
  assumes "\<And>st l st'. state_ok st \<Longrightarrow> step st l = Inr st' \<Longrightarrow> state_ok st'" and "state_ok st"
    and "parse_lines step st ls = Inr st'"
  shows "state_ok st'"
  using assms(2,3) by (induction ls arbitrary: st) (auto dest: assms(1))

lemma start_ok: "state_ok parse_start"
  by (simp add: state_ok_def parse_start_def capabilities_ok_def bt_wf_def)

lemma capabilities_stored:
  assumes "capabilities_ok m"
  shows "list_all stored_capability_ok (map snd m) \<and> length (map snd m) \<le> 2 ^ 64"
proof -
  have wf: "bt_wf m" using assms by (simp add: capabilities_ok_def)
  have look: "map_of m i = Some c" if "(i, c) \<in> set m" for i c
    using bt.entries_look [OF wf] that by simp
  have "fst ` set m \<subseteq> {..<2 ^ 64}" using assms look by (fastforce simp: capabilities_ok_def)
  then have "card (set (map fst m)) \<le> card {..<(2 ^ 64 :: nat)}" by (intro card_mono) simp_all
  then have "length m \<le> 2 ^ 64" using distinct_card [OF bt.distinct_keys [OF wf]] by simp
  moreover have "stored_capability_ok c" if "(i, c) \<in> set m" for i c
    using assms look [OF that] by (simp add: capabilities_ok_def)
  ultimately show ?thesis by (auto simp: list_all_iff)
qed

lemma parsed_snapshot_ok:
  assumes "state_ok st"
  shows "cache_ok (cache_with_snapshot key a b (parsed_snapshot st) h)"
proof -
  have "snapshot_canonical (parsed_snapshot st)"
    unfolding parsed_snapshot_def by (intro snapshots_canonical(2) snapshots_canonical(1))
  then show ?thesis
  using assms capabilities_stored [of "ps_capabilities st"]
  by (simp add: cache_ok_def Let_def cache_with_snapshot_def parsed_snapshot_def state_ok_def list_all_iff
      with_topology_provider_results_def snapshot_with_identification_def)
qed

lemma finished:
  "finish_cache c key = Inr d \<longleftrightarrow> d = c \<and> validate_record c = Inr () \<and> vc_key c = key"
  by (auto simp: finish_cache_def)

lemma parsed_ok:
  assumes "parse_cache contents key = Inr c"
  shows "cache_ok c \<and> validate_record c = Inr () \<and> vc_key c = key"
proof -
  have versioned: ?thesis if h: "parse_versioned x y z ls key = Inr c" for x y z ls
  proof -
    obtain st and base :: vehicle_cache where st: "parse_lines (parse_line x y z) parse_start ls = Inr st"
      and c: "finish_cache (cache_with_snapshot (vc_key base) (vc_first_ms base) (vc_last_ms base)
        (parsed_snapshot st) (vc_history base)) key = Inr c"
      using h unfolding parse_versioned_def and_then_Inr_iff by blast
    have "state_ok st"
      using start_ok st by (rule parse_lines_ok [rotated]) (auto simp: parse_line_def dest: parse_tagged_ok)
    then show ?thesis using c parsed_snapshot_ok by (simp add: finished)
  qed
  have first: ?thesis if h: "parse_v1 ls key = Inr c" for ls
  proof -
    obtain st where "parsed_base st = Inr c" "validate_record c = Inr ()" "vc_key c = key"
      using h by (auto simp: parse_v1_def finished)
    then show ?thesis
      by (auto simp: parsed_base_def cache_new_def cache_with_snapshot_def cache_ok_def snapshots_canonical Let_def
          snapshot_default_def snapshots_canonical(5) [unfolded snapshot_default_def])
  qed
  show ?thesis
    using assms versioned first by (auto simp: parse_cache_def split: list.splits if_splits)
qed

section \<open>Properties\<close>

text \<open>C35: a cache file round-trips.  For every record the constructors can build that passes the
  validation \<open>save\<close> runs, the text it writes is parsed back into the same record under its own
  key, and under no other: any other key gets the error that the key does not match.\<close>

theorem cache_roundtrip:
  assumes "cache_ok c" and "validate_record c = Inr ()"
  shows "parse_cache (cache_text c) key =
    (if key = vc_key c then Inr c else Inl (Failed ''vehicle cache local_key does not match its path''))"
  using read_text [OF assms(1)] assms(2) by (simp add: finish_cache_def)

text \<open>C36: whatever the parser accepts is sound and stable.  A file of any version that loads gives a
  record under the requested key that satisfies the constructors' invariant and the validation;
  saved again in the current version, it loads as the same record.\<close>

theorem cache_reload:
  assumes "parse_cache contents key = Inr c"
  shows "vc_key c = key \<and> cache_ok c \<and> validate_record c = Inr () \<and>
    parse_cache (cache_text c) key = Inr c"
  using parsed_ok [OF assms] read_text [of c key] by (simp add: finish_cache_def)

definition example_cache :: vehicle_cache where
  "example_cache =
     (let context = \<lparr>pc_protocol = Obd2, pc_addressing = Functional\<rparr>;
          engine = Address_Identity context ''7E8'';
          source = \<lparr>pv_source = ''mode 01 discovery'', pv_confidence = High\<rparr>
      in cache_with_snapshot ''vehicle-1'' 10 20
           (snapshot_new
             [\<lparr>tp_context = context, tp_responder = engine, tp_payload = Some [0x41, 0x00, 0xBE, 0x1F, 0xA8, 0x13],
               tp_window = Some \<lparr>ow_first_ms = 10, ow_last_ms = 12\<rparr>, tp_provenance = source\<rparr>]
             [capability_snapshot_new engine
               [\<lparr>cp_request = (0x01, 0x00), cp_payload = [0x41, 0x00, 0xBE, 0x1F, 0xA8, 0x13],
                 cp_provenance = source\<rparr>]]
             [\<lparr>ms_role = Some \<lparr>as_role = Engine, as_provenance = source\<rparr>, ms_responder = Some engine,
               ms_target = \<lparr>rt_context = context, rt_address = Some \<lparr>ra_namespace = ''CAN'', ra_value = ''7E0''\<rparr>\<rparr>,
               ms_provenance = source\<rparr>])
           [''seen''])"

lemma example_cache_ok: "cache_ok example_cache" "validate_record example_cache = Inr ()"
proof -
  have "trim ''mode 01 discovery'' \<noteq> []" by code_simp
  then show "cache_ok example_cache"
    by (simp add: example_cache_def Let_def cache_with_snapshot_def snapshot_new_def snapshot_with_identification_def
        capability_snapshot_new_def cache_ok_def snapshot_canonical_def stored_capability_ok_def capability_ok_def
        page_ok_def provenance_ok_def topology_observation_ok_def window_ok_def mapping_ok_def role_assignment_ok_def
        canon_def)
  show "validate_record example_cache = Inr ()"
    unfolding example_cache_def Let_def cache_with_snapshot_def snapshot_new_def snapshot_with_identification_def
      capability_snapshot_new_def by code_simp
qed

theorem cache_roundtrip_witness:
  "parse_cache (cache_text example_cache) ''vehicle-1'' = Inr example_cache"
proof -
  have "vc_key example_cache = ''vehicle-1''"
    by (simp add: example_cache_def Let_def cache_with_snapshot_def)
  then show ?thesis using cache_roundtrip [OF example_cache_ok] by simp
qed

theorem cache_reload_witness:
  "cache_ok example_cache \<and> validate_record example_cache = Inr () \<and>
   parse_cache (cache_text example_cache) ''vehicle-1'' = Inr example_cache"
proof -
  have "vc_key example_cache = ''vehicle-1''"
    by (simp add: example_cache_def Let_def cache_with_snapshot_def)
  then have "parse_cache (cache_text example_cache) ''vehicle-1'' = Inr example_cache"
    using read_text [OF example_cache_ok(1)] example_cache_ok(2) by (simp add: finish_cache_def)
  then show ?thesis using cache_reload by blast
qed

section \<open>Counts\<close>

text \<open>The cells of an identification record up to the count of its responses.\<close>

definition counted_cells :: "identification_observation \<Rightarrow> nat \<Rightarrow> string list" where
  "counted_cells ob n =
     encode_target (io_target ob) @ encode_responder_fields (io_responder ob) @
     [io_semantic ob, io_definition_id ob, show_nat (unat (io_definition_version ob)), io_repository ob,
      io_revision ob,
      hex_lower (case io_request ob of (a, b, c) \<Rightarrow> [a, b, c]),
      encode_identification_status (io_status ob)] @
     encode_optional (\<lambda>n. [show_nat (unat n)]) (io_nrc ob) @
     encode_optional (\<lambda>v. [hex_lower v]) (io_value ob) @ [show_nat n]"

text \<open>C37: a damaged count panics.  A cache file whose first record is an identification result that
  claims at least \<open>2 ^ 63\<close> responses does not give an error: the allocation that trusts the count
  panics before a single response is read.\<close>

theorem cache_count_panics:
  assumes "2 ^ 63 \<le> n" and "n < 2 ^ 64"
  shows "parse_cache
      (HEADER @ line_feed # tagged ''ecu_identification'' (encode_fields (counted_cells ob n)) @ [line_feed]) key =
    Inl Panicked"
proof -
  let ?line = "tagged ''ecu_identification'' (encode_fields (counted_cells ob n))"
  have "rust_lines (HEADER @ concat (map (\<lambda>l. line_feed # l) [?line]) @ [line_feed]) = HEADER # [?line]"
    by (rule rust_lines_text) (simp add: HEADER_def)
  then have ls: "rust_lines (HEADER @ line_feed # ?line @ [line_feed]) = [HEADER, ?line]" by simp
  note steps = target_format.parse_then responder_format.parse_then nrc_format.optional bytes_format.optional
    parse_number_show
  have "pthen (parse_vec ''identification response count'' p) f [show_nat n] = Inl Panicked" for p f
    using assms by (simp add: parse_vec_def parse_number_show pthen_def [of "parse_vec _ _"]
        pthen_def [of "with_capacity _"] with_capacity_def pthen_assoc)
  then have "parse_identification_observation (counted_cells ob n) = Inl Panicked"
    unfolding parse_identification_observation_def counted_cells_def by (simp add: steps name_simps)
  then have "parse_identification_record (counted_cells ob n) = Inl Panicked"
    by (simp add: parse_identification_record_def parse_record_def)
  moreover have "counted_cells ob n \<noteq> []" by (simp add: counted_cells_def)
  ultimately have "read_line parse_start ?line = Inl Panicked"
    by (subst parse_line_cells) (simp_all add: parse_tagged_def)
  then show ?thesis by (simp add: parse_cache_def ls parse_versioned_def)
qed

definition example_identification :: identification_observation where
  "example_identification =
     (let context = \<lparr>pc_protocol = Uds, pc_addressing = Physical\<rparr> in
      \<lparr>io_target = \<lparr>rt_context = context, rt_address = Some \<lparr>ra_namespace = ''CAN'', ra_value = ''7E0''\<rparr>\<rparr>,
       io_responder = Address_Identity context ''7E8'', io_semantic = ''ecu.sw'', io_definition_id = ''uds.f189'',
       io_definition_version = 1, io_repository = ''knowledge'', io_revision = replicate 40 (CHR ''0''),
       io_request = (0x22, 0xF1, 0x89), io_status = Ident_Timeout, io_responses = [], io_nrc = None,
       io_value = None, io_errors = [''timeout'']\<rparr>)"

theorem cache_count_panics_witness:
  "parse_cache
     (HEADER @ line_feed #
        tagged ''ecu_identification'' (encode_fields (counted_cells example_identification 9223372036854775808)) @
      [line_feed]) ''vehicle-1'' = Inl Panicked"
  by (rule cache_count_panics) simp_all

end
