(* ===== verification/Cache_Privacy.thy ===== *)
theory Cache_Privacy
  imports Cache_Sound Identity
begin

text \<open>
  The privacy check of the vehicle cache: what \<open>validate_record\<close> keeps out of every text of a
  record.  The texts are listed independently of the validation, component by component.
\<close>

section \<open>Raw VINs\<close>

lemma windows_set: "set (windows n xs) = {w. length w = n \<and> (\<exists>a b. xs = a @ w @ b)}"
proof -
  have "take n (drop i xs) \<in> {w. length w = n \<and> (\<exists>a b. xs = a @ w @ b)}" if "i < Suc (length xs) - n" for i
  proof -
    have "xs = take i xs @ take n (drop i xs) @ drop n (drop i xs)" by (simp only: append_take_drop_id)
    moreover have "length (take n (drop i xs)) = n" using that by simp
    ultimately show ?thesis by blast
  qed
  moreover have "w \<in> (\<lambda>i. take n (drop i xs)) ` {..<Suc (length xs) - n}"
    if "length w = n" "xs = a @ w @ b" for w a b
    using that by (intro image_eqI [of _ _ "length a"]) auto
  ultimately show ?thesis by (auto simp: windows_def atLeast0LessThan)
qed

lemma contains_raw_vin_iff:
  "contains_raw_vin s \<longleftrightarrow> (\<exists>a w b. s = a @ w @ b \<and> length w = 17 \<and> list_all vin_like w)"
  unfolding contains_raw_vin_def list_ex_iff windows_set by blast

text \<open>A text that is present and holds nothing a VIN could be.\<close>

definition private_text :: "string \<Rightarrow> bool" where
  "private_text s \<longleftrightarrow> s \<noteq> [] \<and> \<not> contains_raw_vin s"

section \<open>The texts of a record\<close>

definition context_texts :: "protocol_context \<Rightarrow> string list" where
  "context_texts c =
     (case pc_protocol c of Protocol_VendorSpecific v \<Rightarrow> [v] | _ \<Rightarrow> []) @
     (case pc_addressing c of Addressing_VendorSpecific v \<Rightarrow> [v] | _ \<Rightarrow> [])"

definition some_texts :: "('a \<Rightarrow> string list) \<Rightarrow> 'a option \<Rightarrow> string list" where
  "some_texts f x = (case x of None \<Rightarrow> [] | Some v \<Rightarrow> f v)"

definition responder_texts :: "topology_identity \<Rightarrow> string list" where
  "responder_texts r = context_texts (identity_context r) @ some_texts (\<lambda>v. [v]) (identity_value r)"

definition target_texts :: "request_target \<Rightarrow> string list" where
  "target_texts t = context_texts (rt_context t) @ some_texts (\<lambda>a. [ra_namespace a, ra_value a]) (rt_address t)"

definition role_texts :: "role_assignment \<Rightarrow> string list" where
  "role_texts r = (case as_role r of Role_VendorSpecific v \<Rightarrow> [v] | _ \<Rightarrow> []) @ [pv_source (as_provenance r)]"

definition topology_texts :: "topology_observation \<Rightarrow> string list" where
  "topology_texts ob = context_texts (tp_context ob) @ responder_texts (tp_responder ob) @ [pv_source (tp_provenance ob)]"

definition capability_texts :: "capability_snapshot \<Rightarrow> string list" where
  "capability_texts c = responder_texts (cb_responder c) @ map (\<lambda>p. pv_source (cp_provenance p)) (cb_pages c)"

definition mapping_texts :: "target_mapping_snapshot \<Rightarrow> string list" where
  "mapping_texts m =
     some_texts role_texts (ms_role m) @ some_texts responder_texts (ms_responder m) @
     target_texts (ms_target m) @ [pv_source (ms_provenance m)]"

definition identification_texts :: "identification_observation \<Rightarrow> string list" where
  "identification_texts ob =
     target_texts (io_target ob) @ responder_texts (io_responder ob) @
     [io_semantic ob, io_definition_id ob, io_repository ob] @
     concat (map (\<lambda>r. some_texts responder_texts (ir_responder r)) (io_responses ob)) @ io_errors ob"

definition installed_texts :: "installed_evidence \<Rightarrow> string list" where
  "installed_texts e =
     context_texts (ie_context e) @
     some_texts (\<lambda>i. [ci_authority i, ci_identifier i]) (cc_identity (ie_configured e)) @
     some_texts (\<lambda>l. [la_authority l, la_value l]) (cc_logical (ie_configured e)) @
     [pv_source (cc_provenance (ie_configured e))] @
     some_texts (\<lambda>t. target_texts (te_target t) @ [pv_source (te_provenance t)]) (ie_target e) @ ie_references e"

definition provider_texts :: "provider_result \<Rightarrow> string list" where
  "provider_texts r =
     [pi_name (pr_id r)] @ some_texts (\<lambda>v. [v]) (sc_manufacturer (pa_scope (pr_applicability r))) @
     some_texts (\<lambda>v. [v]) (sc_platform (pa_scope (pr_applicability r))) @
     [pv_source (pa_provenance (pr_applicability r))] @ pr_references r @ concat (map installed_texts (pr_entries r))"

definition cache_texts :: "vehicle_cache \<Rightarrow> string list" where
  "cache_texts c =
     (let s = vc_snapshot c in
      vc_key c # concat (map topology_texts (cs_topology s)) @ concat (map capability_texts (cs_capabilities s)) @
      concat (map identification_texts (cs_identification s)) @ concat (map mapping_texts (cs_mappings s)) @
      concat (map provider_texts (cs_providers s)) @ vc_history c)"

section \<open>What the validation checks\<close>

lemma check_all_iff: "check_all f xs = Inr () \<longleftrightarrow> (\<forall>x \<in> set xs. f x = Inr ())"
  by (induction xs) auto

lemma check_some_iff: "check_some f x = Inr () \<longleftrightarrow> pred_option (\<lambda>v. f v = Inr ()) x"
  by (cases x) (simp_all add: check_some_def)

lemma validate_cache_text_iff: "validate_cache_text label v = Inr () \<longleftrightarrow> private_text v"
  by (simp add: validate_cache_text_def private_text_def)

lemma private_some: "list_all P (some_texts f x) \<longleftrightarrow> pred_option (\<lambda>v. list_all P (f v)) x"
  by (cases x) (simp_all add: some_texts_def)

lemma private_concat: "list_all P (concat (map f xs)) \<longleftrightarrow> (\<forall>x \<in> set xs. list_all P (f x))"
  by (induction xs) auto

named_theorems check_simps

lemma context_checked [check_simps]: "validate_context c = Inr () \<longleftrightarrow> list_all private_text (context_texts c)"
  by (cases "pc_protocol c"; cases "pc_addressing c")
    (simp_all add: validate_context_def context_texts_def validate_cache_text_iff)

lemma responder_checked [check_simps]: "validate_responder r = Inr () \<longleftrightarrow> list_all private_text (responder_texts r)"
  by (cases r) (simp_all add: validate_responder_def responder_texts_def check_simps check_some_def some_texts_def
      validate_cache_text_iff)

lemma provenance_checked [check_simps]: "validate_provenance p = Inr () \<longleftrightarrow> private_text (pv_source p)"
  by (simp add: validate_provenance_def validate_cache_text_iff)

lemma role_checked [check_simps]: "validate_role r = Inr () \<longleftrightarrow> list_all private_text (role_texts r)"
  by (cases "as_role r") (simp_all add: validate_role_def role_texts_def check_simps validate_cache_text_iff)

lemma target_checked [check_simps]:
  "validate_target_texts a b t = Inr () \<longleftrightarrow> list_all private_text (target_texts t)"
  by (cases "rt_address t") (simp_all add: validate_target_texts_def target_texts_def check_simps check_some_def
      some_texts_def validate_cache_text_iff)

lemma topology_checked: "validate_topology_observation ob = Inr () \<Longrightarrow> list_all private_text (topology_texts ob)"
  by (simp add: validate_topology_observation_def topology_texts_def check_simps)

lemma capability_checked: "validate_capability c = Inr () \<Longrightarrow> list_all private_text (capability_texts c)"
  by (auto simp: validate_capability_def capability_texts_def check_simps check_all_iff list_all_iff)

lemma mapping_checked: "validate_mapping m = Inr () \<Longrightarrow> list_all private_text (mapping_texts m)"
  by (simp add: validate_mapping_def mapping_texts_def check_simps check_some_iff private_some)

lemma identification_checked:
  "validate_identification_record ob = Inr () \<Longrightarrow> list_all private_text (identification_texts ob)"
  by (simp add: validate_identification_record_def identification_texts_def check_simps check_all_iff check_some_iff
      private_some private_concat validate_cache_text_iff) (simp add: list_all_iff)

lemma installed_checked: "validate_installed_evidence e = Inr () \<Longrightarrow> list_all private_text (installed_texts e)"
  by (simp add: validate_installed_evidence_def installed_texts_def check_simps check_all_iff check_some_iff
      private_some validate_cache_text_iff split: if_splits) (simp add: list_all_iff)

lemma provider_checked: "validate_topology_provider_result r = Inr () \<Longrightarrow> list_all private_text (provider_texts r)"
  by (simp add: validate_topology_provider_result_def provider_texts_def check_simps check_all_iff check_some_iff
      private_some private_concat validate_cache_text_iff installed_checked split: if_splits) (simp add: list_all_iff)

section \<open>Properties\<close>

text \<open>C38: a saved vehicle is private.  If a record passes the validation that \<open>save\<close> and \<open>load\<close> run,
  every free text in it, wherever it stands, is non-empty and contains no seventeen consecutive
  characters of the VIN alphabet; and no identification result asks for the VIN itself.\<close>

theorem cache_holds_no_vin:
  assumes "validate_record c = Inr ()"
  shows "list_all (\<lambda>t. t \<noteq> [] \<and> (\<nexists>a w b. t = a @ w @ b \<and> length w = 17 \<and> list_all vin_like w)) (cache_texts c) \<and>
    list_all (\<lambda>ob. io_request ob \<noteq> (0x22, 0xF1, 0x90)) (cs_identification (vc_snapshot c))"
proof -
  let ?s = "vc_snapshot c"
  have all: "check_all validate_topology_observation (cs_topology ?s) = Inr ()"
    "check_all validate_capability (cs_capabilities ?s) = Inr ()"
    "check_all validate_identification_record (cs_identification ?s) = Inr ()"
    "check_all validate_mapping (cs_mappings ?s) = Inr ()"
    "check_all validate_topology_provider_result (cs_providers ?s) = Inr ()"
    "private_text (vc_key c)" "\<forall>h \<in> set (vc_history c). private_text h"
    using assms by (auto simp: validate_record_def validate_snapshot_def check_all_iff [of "validate_cache_text _"]
        validate_cache_text_iff split: if_splits)
  have "list_all private_text (cache_texts c)"
    using all topology_checked capability_checked identification_checked mapping_checked provider_checked
    by (simp add: cache_texts_def Let_def private_concat check_all_iff) (simp add: list_all_iff)
  moreover have "validate_identification ob = Inr () \<Longrightarrow> io_request ob \<noteq> (0x22, 0xF1, 0x90)" for ob
    by (auto simp: validate_identification_def split: if_splits)
  then have "list_all (\<lambda>ob. io_request ob \<noteq> (0x22, 0xF1, 0x90)) (cs_identification ?s)"
    using all(3) by (simp add: list_all_iff check_all_iff validate_identification_record_def)
  ultimately show ?thesis by (simp add: private_text_def [abs_def] contains_raw_vin_iff)
qed

theorem cache_holds_no_vin_witness:
  "list_all (\<lambda>t. t \<noteq> [] \<and> (\<nexists>a w b. t = a @ w @ b \<and> length w = 17 \<and> list_all vin_like w)) (cache_texts example_cache)"
  using cache_holds_no_vin [OF example_cache_ok(2)] by blast

end
