(* ===== verification/Float_Text.thy ===== *)
theory Float_Text
  imports Capture_Events Line_Text "HOL-Library.Log_Nat"
begin

text \<open>
  The decimal text of an \<open>f64\<close>, as \<open>f64::to_string\<close> writes it and \<open>str::parse::<f64>\<close> reads it.
  A finite \<open>f64\<close> is the exact rational of its value (the sign of a zero is not kept).  Reading
  rounds the decimal to the nearest double, ties to even; writing gives the fewest digits that
  read back as the same number, the nearest such decimal first, in positional notation.  The
  main fact is that seventeen digits always read back, so that writing and reading are inverse.
\<close>

section \<open>Exponents and rounding\<close>

text \<open>The exponent of the leading digit of a positive rational.\<close>

definition ilog :: "nat \<Rightarrow> rat \<Rightarrow> int" where
  "ilog b y =
     (let (p, q) = quotient_of y;
          k = int (floorlog b (nat p)) - int (floorlog b (nat q))
      in if (of_nat b :: rat) powi k \<le> y then k else k - 1)"

definition round_half_even :: "rat \<Rightarrow> int" where
  "round_half_even r =
     (let f = \<lfloor>r\<rfloor>; d = r - of_int f in
      if d < 1 / 2 then f else if 1 / 2 < d then f + 1 else if even f then f else f + 1)"

text \<open>The exponent of the last bit of the double next to \<open>y\<close>, subnormal numbers included.\<close>

definition ulp_exponent :: "rat \<Rightarrow> int" where
  "ulp_exponent y = max (ilog 2 y - 52) (- 1074)"

definition round_f64 :: "rat \<Rightarrow> f64" where
  "round_f64 x =
     (if x = 0 then Some 0
      else let e = ulp_exponent \<bar>x\<bar>;
               v = of_int (round_half_even (\<bar>x\<bar> / 2 powi e)) * 2 powi e
           in if 2 ^ 1024 \<le> v then None else Some (sgn x * v))"

definition is_f64 :: "rat \<Rightarrow> bool" where
  "is_f64 x \<longleftrightarrow> round_f64 x = Some x"

section \<open>Reading\<close>

definition all_digits :: "string \<Rightarrow> bool" where
  "all_digits s \<longleftrightarrow> list_all (\<lambda>c. dec_value c \<noteq> None) s"

definition digits_nat :: "string \<Rightarrow> nat" where
  "digits_nat s = foldl (\<lambda>a c. 10 * a + the (dec_value c)) 0 s"

definition split_exponent :: "string \<Rightarrow> string \<times> string option" where
  "split_exponent s =
     (let m = takeWhile (\<lambda>c. c \<notin> {CHR ''e'', CHR ''E''}) s in
      (m, if m = s then None else Some (drop (Suc (length m)) s)))"

definition split_sign :: "string \<Rightarrow> bool \<times> string" where
  "split_sign s =
     (if s \<noteq> [] \<and> hd s = CHR ''-'' then (True, tl s)
      else if s \<noteq> [] \<and> hd s = CHR ''+'' then (False, tl s)
      else (False, s))"

definition parse_exponent :: "string \<Rightarrow> int option" where
  "parse_exponent s =
     (let (negative, ds) = split_sign s
      in if ds = [] \<or> \<not> all_digits ds then None
         else Some (if negative then - int (digits_nat ds) else int (digits_nat ds)))"

text \<open>The grammar of \<open>str::parse::<f64>\<close> without the words for infinity and NaN, which the program
  never hands to it: sign, digits with an optional point, exponent.\<close>

definition parse_decimal :: "string \<Rightarrow> rat option" where
  "parse_decimal s =
     (let (negative, t) = split_sign s;
          (m, ex) = split_exponent t;
          whole = takeWhile (\<lambda>c. c \<noteq> CHR ''.'') m;
          frac = drop (Suc (length whole)) m
      in if whole @ frac = [] \<or> \<not> all_digits (whole @ frac) then None
         else map_option (\<lambda>k.
                (if negative then - 1 else 1) * of_nat (digits_nat (whole @ frac))
                  * 10 powi (k - int (length frac)))
              (case ex of None \<Rightarrow> Some 0 | Some e \<Rightarrow> parse_exponent e))"

definition parse_f64 :: "string \<Rightarrow> f64 option" where
  "parse_f64 s = map_option round_f64 (parse_decimal s)"

section \<open>Writing\<close>

text \<open>The \<open>n\<close>-digit decimals around a positive number, the nearest one first.\<close>

definition decimal_exponent :: "nat \<Rightarrow> rat \<Rightarrow> int" where
  "decimal_exponent n x = ilog 10 x + 1 - int n"

definition decimal_candidates :: "nat \<Rightarrow> rat \<Rightarrow> nat list" where
  "decimal_candidates n x =
     (let r = x / 10 powi decimal_exponent n x; f = nat \<lfloor>r\<rfloor>
      in if 1 / 2 \<le> r - of_nat f then [f + 1, f] else [f, f + 1])"

definition reads_as :: "rat \<Rightarrow> nat \<Rightarrow> nat \<Rightarrow> bool" where
  "reads_as x n d \<longleftrightarrow> round_f64 (of_nat d * 10 powi decimal_exponent n x) = Some x"

definition shortest_decimal :: "rat \<Rightarrow> nat \<times> int" where
  "shortest_decimal x =
     (let ds = concat (map (\<lambda>n. map (\<lambda>d. (n, d)) (decimal_candidates n x)) [1..<18])
      in case find (\<lambda>(n, d). reads_as x n d) ds of
           Some (n, d) \<Rightarrow> (d, decimal_exponent n x)
         | None \<Rightarrow> (0, 0))"

text \<open>Positional notation of \<open>digits * 10 ^ e\<close>.\<close>

definition positional :: "string \<Rightarrow> int \<Rightarrow> string" where
  "positional ds e =
     (if 0 \<le> e then ds @ replicate (nat e) (CHR ''0'')
      else let f = nat (- e); k = length ds in
        if f < k then take (k - f) ds @ CHR ''.'' # drop (k - f) ds
        else ''0.'' @ replicate (f - k) (CHR ''0'') @ ds)"

definition strip_zeros :: "nat \<times> int \<Rightarrow> string \<times> int" where
  "strip_zeros de =
     (let ds = show_nat (fst de); kept = trim_end (\<lambda>c. c = CHR ''0'') ds
      in (kept, snd de + int (length ds - length kept)))"

definition f64_text :: "rat \<Rightarrow> string" where
  "f64_text x =
     (if x = 0 then ''0''
      else (if x < 0 then ''-'' else '''') @ (case strip_zeros (shortest_decimal \<bar>x\<bar>) of (ds, e) \<Rightarrow> positional ds e))"

section \<open>Seventeen digits read back\<close>

lemma ilog_bounds:
  assumes "1 < b" and "0 < y"
  shows "(of_nat b :: rat) powi ilog b y \<le> y" and "y < of_nat b powi (ilog b y + 1)"
proof -
  obtain p q where pq: "quotient_of y = (p, q)" by (cases "quotient_of y")
  have y: "y = of_int p / of_int q" and q: "0 < q"
    using quotient_of_div [OF pq] quotient_of_denom_pos [OF pq] by simp_all
  have p: "0 < p" using assms(2) y q by (simp add: zero_less_divide_iff)
  let ?b = "of_nat b :: rat"
  define m n where "m = floorlog b (nat p)" and "n = floorlog b (nat q)"
  have b: "1 < ?b" "?b \<noteq> 0" using assms(1) by simp_all
  have less: "\<And>a c. (a :: nat) < c \<Longrightarrow> (of_nat a :: rat) < of_nat c"
    and le: "\<And>a c. (a :: nat) \<le> c \<Longrightarrow> (of_nat a :: rat) \<le> of_nat c"
    by simp_all
  have mn: "0 < m" "0 < n"
    using p q assms(1) by (simp_all add: m_def n_def floorlog_def)
  have up: "(of_int p :: rat) < ?b ^ m" "(of_int q :: rat) < ?b ^ n"
    using less [OF floorlog_bounds [of "nat p" b, THEN conjunct2]]
      less [OF floorlog_bounds [of "nat q" b, THEN conjunct2]] p q assms(1)
    by (simp_all add: m_def n_def)
  have down: "?b ^ (m - 1) \<le> (of_int p :: rat)" "?b ^ (n - 1) \<le> (of_int q :: rat)"
    using le [OF floorlog_bounds [of "nat p" b, THEN conjunct1]]
      le [OF floorlog_bounds [of "nat q" b, THEN conjunct1]] p q assms(1)
    by (simp_all add: m_def n_def)
  let ?k = "int m - int n"
  have pw: "\<And>i. ?b ^ i = ?b powi int i" by (simp add: power_int_of_nat)
  have qpos: "(0 :: rat) < of_int q" using q by simp
  have lower: "?b powi (?k - 1) \<le> y"
  proof -
    have "?b powi (?k - 1) * of_int q \<le> ?b powi (?k - 1) * ?b ^ n"
      using up(2) b by (intro mult_left_mono) simp_all
    also have "\<dots> = ?b powi (int (m - 1))"
      using mn b by (simp add: pw power_int_add [symmetric] del: power_int_of_nat)
    also have "\<dots> \<le> of_int p" using down(1) by (simp add: pw del: power_int_of_nat)
    finally show ?thesis using qpos by (simp add: y pos_le_divide_eq)
  qed
  have upper: "y < ?b powi (?k + 1)"
  proof -
    have "of_int p < ?b ^ m" by (rule up)
    also have "\<dots> = ?b powi (?k + 1) * ?b ^ (n - 1)"
      using mn b by (simp add: pw power_int_add [symmetric] del: power_int_of_nat)
    also have "\<dots> \<le> ?b powi (?k + 1) * of_int q"
      using down(2) b by (intro mult_left_mono) simp_all
    finally show ?thesis using qpos by (simp add: y pos_divide_less_eq)
  qed
  show "?b powi ilog b y \<le> y" and "y < ?b powi (ilog b y + 1)"
    using lower upper by (simp_all add: ilog_def pq m_def n_def Let_def)
qed

lemma ilog_unique:
  assumes "1 < b" and "0 < y" and "(of_nat b :: rat) powi k \<le> y" and "y < of_nat b powi (k + 1)"
  shows "ilog b y = k"
proof -
  let ?b = "of_nat b :: rat"
  have b: "1 < ?b" using assms(1) by simp
  have "?b powi k < ?b powi (ilog b y + 1)" "?b powi ilog b y < ?b powi (k + 1)"
    using ilog_bounds [OF assms(1,2)] assms(3,4) by (meson le_less_trans)+
  then have "k < ilog b y + 1" "ilog b y < k + 1"
    using power_int_increasing [of "ilog b y + 1" k ?b] power_int_increasing [of "k + 1" "ilog b y" ?b] b
    by (meson less_imp_le linorder_not_le)+
  then show ?thesis by simp
qed

lemma round_half_even_near: "\<bar>r - of_int m\<bar> < 1 / 2 \<Longrightarrow> round_half_even r = m"
proof -
  assume near: "\<bar>r - of_int m\<bar> < 1 / 2"
  have "r < of_int m + 1" and "of_int m - 1 \<le> r" using near by (simp_all add: abs_if split: if_splits)
  then have "\<lfloor>r\<rfloor> < m + 1" and "m - 1 \<le> \<lfloor>r\<rfloor>"
    using floor_less_iff [of r "m + 1"] le_floor_iff [of "m - 1" r] by simp_all
  then consider "\<lfloor>r\<rfloor> = m" | "\<lfloor>r\<rfloor> = m - 1" by linarith
  then show ?thesis
  proof cases
    case 1
    then show ?thesis using near by (simp add: round_half_even_def Let_def abs_if split: if_splits)
  next
    case 2
    then show ?thesis using near by (simp add: round_half_even_def Let_def abs_if split: if_splits)
  qed
qed

text \<open>What a positive double is: a whole number below \<open>2 ^ 53\<close> of its last bits.\<close>

lemma f64_shape:
  assumes "is_f64 x" and "0 < x"
  obtains m where "x = of_int m * 2 powi ulp_exponent x" and "x < 2 ^ 1024"
    and "x < 2 ^ 53 * 2 powi ulp_exponent x"
proof -
  let ?e = "ulp_exponent x" and ?m = "round_half_even (x / 2 powi ulp_exponent x)"
  have v: "x = of_int ?m * 2 powi ?e" "x < 2 ^ 1024"
    using assms by (auto simp: is_f64_def round_f64_def Let_def split: if_splits)
  have "x < 2 powi (ilog 2 x + 1)"
    using ilog_bounds(2) [of 2 x] assms(2) by simp
  also have "\<dots> \<le> 2 powi (53 + ?e)"
    by (rule power_int_increasing) (simp_all add: ulp_exponent_def)
  also have "\<dots> = 2 ^ 53 * 2 powi ?e" by (simp add: power_int_add)
  finally show ?thesis using v that by blast
qed

lemma near_reads:
  assumes x: "is_f64 x" "0 < x" and near: "\<bar>y - x\<bar> \<le> x / (2 * 10 ^ 16)"
  shows "round_f64 y = Some x"
proof -
  obtain m where m: "x = of_int m * 2 powi ulp_exponent x" "x < 2 ^ 1024"
      "x < 2 ^ 53 * 2 powi ulp_exponent x"
    by (rule f64_shape [OF x])
  let ?E = "ulp_exponent x" and ?F = "ulp_exponent y" and ?l = "ilog 2 x" and ?k = "ilog 2 y"
  define u v where "u = (2 :: rat) powi ?E" and "v = (2 :: rat) powi ?F"
  have uv: "0 < u" "0 < v" by (simp_all add: u_def v_def)
  have "x / (2 * 10 ^ 16) < x / 2" using x(2) by (simp add: field_simps)
  then have ybound: "x / 2 < y" "y < 2 * x" using near x(2) by (auto simp: abs_if split: if_splits)
  then have y: "0 < y" using x(2) by simp
  have lx: "2 powi ?l \<le> x" "x < 2 powi (?l + 1)" using ilog_bounds [of 2 x] x(2) by simp_all
  have ly: "2 powi ?k \<le> y" "y < 2 powi (?k + 1)" using ilog_bounds [of 2 y] y by simp_all
  have k: "?k \<in> {?l - 1, ?l, ?l + 1}"
  proof -
    have "(2 :: rat) powi (?l - 1) = 2 powi ?l / 2" "(2 :: rat) powi (?l + 2) = 2 * 2 powi (?l + 1)"
      by (simp_all add: power_int_diff power_int_add)
    then have "(2 :: rat) powi (?l - 1) < 2 powi (?k + 1)" "(2 :: rat) powi ?k < 2 powi (?l + 2)"
      using lx ly ybound by linarith+
    then have "?l - 1 < ?k + 1" "?k < ?l + 2"
      using power_int_increasing [of "?k + 1" "?l - 1" "2 :: rat"] power_int_increasing [of "?l + 2" ?k "2 :: rat"]
      by (meson less_imp_le linorder_not_le one_le_numeral)+
    then show ?thesis by auto
  qed
  have dist: "\<bar>y - x\<bar> < u * (46 / 100)"
  proof -
    have "x / (2 * 10 ^ 16) < 2 ^ 53 * u / (2 * 10 ^ 16)"
      using m(3) by (simp add: u_def divide_strict_right_mono)
    also have "\<dots> \<le> u * (46 / 100)" using uv by (simp add: field_simps)
    finally show ?thesis using near by simp
  qed
  have same: "of_int (round_half_even (y / v)) * v = x"
  proof -
    consider "?F = ?E" | "?F = ?E - 1" "?k = ?l - 1" "?E = ?l - 52" | "?F = ?E + 1" "?k = ?l + 1" "?E = ?l - 52"
      using k unfolding ulp_exponent_def max_def insert_iff empty_iff by (smt (verit))
    then show ?thesis
    proof cases
      case 1
      then have "v = u" by (simp add: u_def v_def)
      have "\<bar>y / u - of_int m\<bar> = \<bar>y - x\<bar> / u"
        using m(1) uv by (simp add: u_def [symmetric] field_simps abs_div_pos [symmetric])
      also have "\<dots> < 1 / 2" using dist uv by (simp add: field_simps)
      finally show ?thesis using m(1) \<open>v = u\<close> by (simp add: round_half_even_near u_def)
    next
      case 2
      then have v: "u = 2 * v" by (simp add: u_def v_def power_int_diff)
      have "y < 2 ^ 52 * u" using ly(2) 2 by (simp add: u_def power_int_diff)
      moreover have "x \<le> y * (1 + 1 / 10 ^ 16)" using near y by (auto simp: abs_if field_simps split: if_splits)
      ultimately have "x < 2 ^ 52 * u * (1 + 1 / 10 ^ 16)" by (simp add: field_simps)
      then have "\<bar>y - x\<bar> < v / 2" using near v uv by (simp add: field_simps)
      moreover have "\<bar>y / v - of_int (2 * m)\<bar> = \<bar>y - x\<bar> / v"
        using m(1) uv v by (simp add: u_def [symmetric] field_simps abs_div_pos [symmetric])
      ultimately have "\<bar>y / v - of_int (2 * m)\<bar> < 1 / 2" using uv by (simp add: field_simps)
      then have "round_half_even (y / v) = 2 * m" by (rule round_half_even_near)
      then show ?thesis using m(1) v by (simp add: u_def [symmetric])
    next
      case 3
      have "2 ^ 53 * u \<le> y" using ly(1) 3 by (simp add: u_def power_int_diff power_int_add)
      moreover have "of_int m * u < 2 ^ 53 * u" using m(1,3) unfolding u_def by metis
      then have "of_int m < (2 :: rat) ^ 53" using uv by simp
      then have "m < 2 ^ 53" by (metis of_int_less_iff of_int_numeral of_int_power)
      then have "m + 1 \<le> 2 ^ 53" by simp
      then have "(of_int (m + 1) :: rat) \<le> of_int (2 ^ 53)" by (rule of_int_le_iff [THEN iffD2])
      then have "of_int m + 1 \<le> (2 :: rat) ^ 53" by simp
      then have "(of_int m + 1) * u \<le> 2 ^ 53 * u" using uv by (intro mult_right_mono) simp_all
      ultimately have "u \<le> y - x" using m(1) by (simp add: u_def [symmetric] field_simps)
      then show ?thesis using dist uv by (simp add: abs_if split: if_splits)
    qed
  qed
  show ?thesis using y same m(2) x(2) by (simp add: round_f64_def Let_def v_def)
qed

lemma candidates_read:
  assumes "is_f64 x" and "0 < x"
  shows "\<exists>d \<in> set (decimal_candidates 17 x). reads_as x 17 d"
proof -
  let ?t = "(10 :: rat) powi decimal_exponent 17 x"
  define r f where "r = x / ?t" and "f = nat \<lfloor>r\<rfloor>"
  have t: "0 < ?t" by simp
  have "?t * 10 ^ 16 = 10 powi ilog 10 x"
    by (simp add: decimal_exponent_def power_int_diff)
  also have "\<dots> \<le> x" using ilog_bounds(1) [of 10 x] assms(2) by simp
  finally have small: "?t / 2 \<le> x / (2 * 10 ^ 16)" by simp
  have r: "0 \<le> r" using assms(2) by (simp add: r_def)
  have f: "of_nat f \<le> r" "r < of_nat f + 1" using r by (simp_all add: f_def of_nat_nat) linarith
  define d where "d = (if 1 / 2 \<le> r - of_nat f then f + 1 else f)"
  have "\<bar>of_nat d - r\<bar> \<le> 1 / 2" using f by (auto simp: d_def abs_if)
  then have "\<bar>of_nat d - r\<bar> * ?t \<le> 1 / 2 * ?t" using t by (intro mult_right_mono) simp_all
  moreover have "\<bar>of_nat d - r\<bar> * ?t = \<bar>of_nat d * ?t - x\<bar>"
    using t by (simp add: r_def abs_mult_pos left_diff_distrib)
  ultimately have "\<bar>of_nat d * ?t - x\<bar> \<le> x / (2 * 10 ^ 16)" using small by simp
  then have "reads_as x 17 d" unfolding reads_as_def by (rule near_reads [OF assms])
  moreover have "d \<in> set (decimal_candidates 17 x)"
    by (simp add: d_def decimal_candidates_def Let_def r_def [symmetric] f_def [symmetric])
  ultimately show ?thesis by blast
qed

lemma shortest_decimal_reads:
  assumes "is_f64 x" and "0 < x"
  obtains d e where "shortest_decimal x = (d, e)" and "0 < d"
    and "round_f64 (of_nat d * 10 powi e) = Some x"
proof -
  let ?ds = "concat (map (\<lambda>n. map (\<lambda>d. (n, d)) (decimal_candidates n x)) [1..<18])"
  obtain d where d: "d \<in> set (decimal_candidates 17 x)" "reads_as x 17 d"
    using candidates_read [OF assms] by blast
  then have "(17, d) \<in> set ?ds" by auto
  then have "find (\<lambda>(n, d). reads_as x n d) ?ds \<noteq> None"
    using d(2) by (auto simp: find_None_iff)
  then obtain n d where found: "find (\<lambda>(n, d). reads_as x n d) ?ds = Some (n, d)" by auto
  then have reads: "reads_as x n d" by (auto simp: find_Some_iff)
  then have "round_f64 (of_nat d * 10 powi decimal_exponent n x) = Some x" by (simp add: reads_as_def)
  moreover from this have "0 < d"
    using assms(2) by (cases "d = 0") (simp_all add: round_f64_def)
  moreover have "shortest_decimal x = (d, decimal_exponent n x)"
    using found by (simp add: shortest_decimal_def)
  ultimately show ?thesis using that by blast
qed

section \<open>Digits and positions\<close>

lemma digits_nat_append:
  "digits_nat (s @ t) = digits_nat s * 10 ^ length t + digits_nat t"
proof -
  have last_digit: "digits_nat (u @ [c]) = 10 * digits_nat u + the (dec_value c)" for u c
    by (simp add: digits_nat_def)
  show ?thesis
  proof (induction t rule: rev_induct)
    case Nil
    then show ?case by (simp add: digits_nat_def)
  next
    case (snoc c t)
    then show ?case by (simp add: append_assoc [symmetric] last_digit algebra_simps del: append_assoc)
  qed
qed

lemma dec_digit_cases: "(n :: nat) < 10 \<Longrightarrow> n \<in> {0, 1, 2, 3, 4, 5, 6, 7, 8, 9}"
  unfolding insert_iff empty_iff by presburger

lemma digits_show_nat [simp]:
  "digits_nat (show_nat n) = n" "all_digits (show_nat n)" "show_nat n \<noteq> []"
proof -
  show "digits_nat (show_nat n) = n"
  proof (induction n rule: less_induct)
    case (less n)
    then show ?case
      by (cases "n < 10") (simp_all add: show_nat.simps [of n] digits_nat_append, simp_all add: digits_nat_def)
  qed
  show "all_digits (show_nat n)"
  proof (induction n rule: less_induct)
    case (less n)
    then show ?case by (cases "n < 10") (simp_all add: show_nat.simps [of n] all_digits_def)
  qed
  show "show_nat n \<noteq> []" by (simp add: show_nat.simps [of n])
qed

lemma show_nat_head: "0 < n \<Longrightarrow> hd (show_nat n) \<noteq> CHR ''0''"
proof (induction n rule: less_induct)
  case (less n)
  show ?case
  proof (cases "n < 10")
    case True
    then show ?thesis using less.prems dec_digit_cases [OF True]
      by (auto simp: show_nat.simps [of n] dec_digit_def)
  next
    case False
    then show ?thesis using less.IH [of "n div 10"] by (simp add: show_nat.simps [of n])
  qed
qed

lemma zero_digit [simp]: "dec_value (CHR ''0'') = Some 0"
  by (simp add: dec_value_def code_point_def)

lemma digits_zeros [simp]: "digits_nat (replicate k (CHR ''0'')) = 0" "all_digits (replicate k (CHR ''0''))"
  by (induction k) (simp_all add: digits_nat_def all_digits_def)

lemma all_digits_append [simp]: "all_digits (s @ t) \<longleftrightarrow> all_digits s \<and> all_digits t"
  by (simp add: all_digits_def)

lemma strip_zeros_value:
  assumes "0 < d" and "strip_zeros (d, e) = (ds, k)"
  shows "of_nat (digits_nat ds) * (10 :: rat) powi k = of_nat d * 10 powi e"
    and "all_digits ds" and "ds \<noteq> []" and "hd ds \<noteq> CHR ''0''"
proof -
  let ?s = "show_nat d" and ?z = "\<lambda>c. c = CHR ''0''"
  have ds: "ds = rev (dropWhile ?z (rev ?s))" and k: "k = e + int (length ?s - length ds)"
    using assms(2) by (auto simp: strip_zeros_def Let_def trim_end_def)
  define z where "z = length (takeWhile ?z (rev ?s))"
  have "rev ?s = takeWhile ?z (rev ?s) @ rev ds" by (simp add: ds)
  moreover have "takeWhile ?z (rev ?s) = replicate z (CHR ''0'')"
    unfolding z_def by (rule replicate_eqI [symmetric, THEN sym]) (auto dest: set_takeWhileD)
  ultimately have "rev ?s = replicate z (CHR ''0'') @ rev ds" by simp
  then have s: "?s = ds @ replicate z (CHR ''0'')"
    by (metis rev_append rev_replicate rev_rev_ident)
  have "d = digits_nat ?s" by simp
  then have d: "d = digits_nat ds * 10 ^ z" by (simp add: s digits_nat_append)
  have "k = e + int z" using k s by simp
  then show "of_nat (digits_nat ds) * (10 :: rat) powi k = of_nat d * 10 powi e"
    by (simp add: d power_int_add)
  show "all_digits ds" using digits_show_nat(2) [of d] unfolding s by simp
  show ne: "ds \<noteq> []" using d assms(1) by (cases ds) (simp_all add: digits_nat_def)
  show "hd ds \<noteq> CHR ''0''" using show_nat_head [OF assms(1)] ne by (simp add: s)
qed

text \<open>The shape of a JSON number without exponent: sign, whole part, fraction.\<close>

definition number_parts :: "string \<Rightarrow> string \<Rightarrow> string \<Rightarrow> string" where
  "number_parts sg w ds = sg @ w @ (if ds = [] then [] else CHR ''.'' # ds)"

definition parts_ok :: "string \<Rightarrow> string \<Rightarrow> string \<Rightarrow> bool" where
  "parts_ok sg w ds \<longleftrightarrow>
     (sg = [] \<or> sg = ''-'') \<and> w \<noteq> [] \<and> all_digits w \<and> (w = ''0'' \<or> hd w \<noteq> CHR ''0'') \<and> all_digits ds"

lemma all_digits_plain:
  assumes "all_digits s"
  shows "CHR ''.'' \<notin> set s" "CHR ''e'' \<notin> set s" "CHR ''E'' \<notin> set s" "CHR ''-'' \<notin> set s"
    "CHR ''+'' \<notin> set s"
  using assms by (auto simp: all_digits_def list_all_iff dec_value_def code_point_def)

lemma parse_decimal_parts:
  assumes "parts_ok sg w ds"
  shows "parse_decimal (number_parts sg w ds) =
    Some ((if sg = [] then 1 else - 1) * of_nat (digits_nat (w @ ds)) * 10 powi (- int (length ds)))"
proof -
  let ?m = "w @ (if ds = [] then [] else CHR ''.'' # ds)"
  obtain c cs where w: "w = c # cs" and ok: "all_digits w" "all_digits ds"
    using assms by (cases w) (auto simp: parts_ok_def)
  have plain: "\<forall>c \<in> set ?m. c \<noteq> CHR ''e'' \<and> c \<noteq> CHR ''E''"
    using all_digits_plain [OF ok(1)] all_digits_plain [OF ok(2)] by auto
  then have "takeWhile (\<lambda>c. c \<notin> {CHR ''e'', CHR ''E''}) ?m = ?m" by (simp add: takeWhile_eq_all_conv)
  then have split: "split_exponent ?m = (?m, None)" by (simp add: split_exponent_def)
  have nodot: "\<forall>c \<in> set w. c \<noteq> CHR ''.''" using all_digits_plain(1) [OF ok(1)] by auto
  then have whole: "takeWhile (\<lambda>c. c \<noteq> CHR ''.'') ?m = w"
    by (simp add: takeWhile_append takeWhile_eq_all_conv)
  have head: "c \<noteq> CHR ''-''" "c \<noteq> CHR ''+''"
    using all_digits_plain(4,5) [OF ok(1)] w by auto
  then have sign: "split_sign (number_parts sg w ds) = (sg \<noteq> [], ?m)"
    using assms by (auto simp: split_sign_def parts_ok_def number_parts_def w)
  have frac: "drop (Suc (length w)) ?m = ds" by simp
  have "w \<noteq> []" using w by simp
  then show ?thesis
    using ok unfolding parse_decimal_def sign by (simp only: split whole frac Let_def prod.case) simp
qed

lemma positional_parts:
  assumes "all_digits ds" and "ds \<noteq> []" and "hd ds \<noteq> CHR ''0''" and "sg = [] \<or> sg = ''-''"
  obtains w fr where "sg @ positional ds e = number_parts sg w fr" and "parts_ok sg w fr"
    and "of_nat (digits_nat (w @ fr)) * (10 :: rat) powi (- int (length fr)) = of_nat (digits_nat ds) * 10 powi e"
proof -
  consider "0 \<le> e" | "e < 0" "nat (- e) < length ds" | "e < 0" "length ds \<le> nat (- e)" by linarith
  then show ?thesis
  proof cases
    case 1
    let ?w = "ds @ replicate (nat e) (CHR ''0'')"
    have "sg @ positional ds e = number_parts sg ?w []"
      using 1 by (simp add: positional_def number_parts_def)
    moreover have "parts_ok sg ?w []" using assms by (simp add: parts_ok_def) (simp add: all_digits_def)
    moreover have "of_nat (digits_nat (?w @ [])) * (10 :: rat) powi (- int (length ([] :: string)))
        = of_nat (digits_nat ds) * 10 powi e"
      using 1 by (simp add: digits_nat_append power_int_def)
    ultimately show ?thesis by (rule that)
  next
    case 2
    let ?n = "length ds - nat (- e)"
    have w: "take ?n ds \<noteq> []" "hd (take ?n ds) = hd ds" using 2 assms(2) by (auto simp: hd_take)
    have fr: "drop ?n ds \<noteq> []" "length (drop ?n ds) = nat (- e)" using 2 by auto
    have all: "all_digits (take ?n ds)" "all_digits (drop ?n ds)"
      using assms(1) all_digits_append [of "take ?n ds" "drop ?n ds"] by simp_all
    have "sg @ positional ds e = number_parts sg (take ?n ds) (drop ?n ds)"
      using 2 fr by (simp add: positional_def number_parts_def Let_def)
    moreover have "parts_ok sg (take ?n ds) (drop ?n ds)"
      using assms w all by (simp add: parts_ok_def)
    moreover have "of_nat (digits_nat (take ?n ds @ drop ?n ds)) * (10 :: rat) powi (- int (length (drop ?n ds)))
        = of_nat (digits_nat ds) * 10 powi e"
      using 2 by (simp only: fr append_take_drop_id) simp
    ultimately show ?thesis by (rule that)
  next
    case 3
    let ?fr = "replicate (nat (- e) - length ds) (CHR ''0'') @ ds"
    have "sg @ positional ds e = number_parts sg ''0'' ?fr"
      using 3 assms(2) by (simp add: positional_def number_parts_def Let_def)
    moreover have "parts_ok sg ''0'' ?fr"
      using assms by (simp add: parts_ok_def) (simp add: all_digits_def)
    moreover have "of_nat (digits_nat (''0'' @ ?fr)) * (10 :: rat) powi (- int (length ?fr))
        = of_nat (digits_nat ds) * 10 powi e"
    proof -
      have "int (length ?fr) = - e" using 3 by simp
      moreover have "digits_nat (''0'' @ ?fr) = digits_nat ds"
        by (simp only: digits_nat_append digits_zeros) (simp add: digits_nat_def)
      ultimately show ?thesis by simp
    qed
    ultimately show ?thesis by (rule that)
  qed
qed

text \<open>Writing a finite number gives a JSON number that reads back as the same number.\<close>

lemma round_f64_uminus:
  assumes "0 < y" and "round_f64 y = Some x"
  shows "round_f64 (- y) = Some (- x)"
  using assms by (auto simp: round_f64_def Let_def split: if_splits)

lemma f64_text_reads:
  assumes "is_f64 x"
  obtains sg w fr where "f64_text x = number_parts sg w fr" and "parts_ok sg w fr"
    and "parse_f64 (f64_text x) = Some (Some x)"
proof (cases "x = 0")
  case True
  have ok: "parts_ok [] ''0'' []" by (simp add: parts_ok_def all_digits_def)
  have t: "f64_text x = number_parts [] ''0'' []" using True by (simp add: f64_text_def number_parts_def)
  have "parse_decimal (number_parts [] ''0'' []) = Some 0"
    using parse_decimal_parts [OF ok] by (simp add: digits_nat_def)
  then have "parse_f64 (f64_text x) = Some (Some x)" 
    unfolding parse_f64_def t using True by (simp add: round_f64_def)
  with t ok show ?thesis by (rule that)
next
  case False
  let ?sg = "if x < 0 then ''-'' else []"
  have "is_f64 \<bar>x\<bar>" "0 < \<bar>x\<bar>"
    using assms False by (auto simp: is_f64_def round_f64_def Let_def abs_if sgn_if split: if_splits)
  then obtain d e where de: "shortest_decimal \<bar>x\<bar> = (d, e)" "0 < d"
      "round_f64 (of_nat d * 10 powi e) = Some \<bar>x\<bar>"
    by (rule shortest_decimal_reads)
  obtain ds k where k: "strip_zeros (d, e) = (ds, k)" by (cases "strip_zeros (d, e)")
  note sz = strip_zeros_value [OF de(2) k]
  obtain w fr where parts: "?sg @ positional ds k = number_parts ?sg w fr" "parts_ok ?sg w fr"
      "of_nat (digits_nat (w @ fr)) * (10 :: rat) powi (- int (length fr)) = of_nat (digits_nat ds) * 10 powi k"
    by (rule positional_parts [OF sz(2-4), of ?sg k]) simp
  have t: "f64_text x = number_parts ?sg w fr"
    using False parts(1) by (simp add: f64_text_def de(1) k)
  have v: "parse_decimal (f64_text x) = Some ((if x < 0 then - 1 else 1) * (of_nat d * 10 powi e))"
    unfolding t parse_decimal_parts [OF parts(2)] using parts(3) sz(1) by (simp add: mult.assoc)
  have "0 < (of_nat d * 10 powi e :: rat)" using de(2) by simp
  from round_f64_uminus [OF this de(3)] have "parse_f64 (f64_text x) = Some (Some x)"
    using de(3) by (simp add: parse_f64_def v abs_if)
  with t parts(2) show ?thesis by (rule that)
qed

end
