(* ===== verification/Capture_Json.thy ===== *)
theory Capture_Json
  imports Float_Text
begin

text \<open>
  The JSON of the capture files, lower part of \<open>src/capture_format/jsonl.rs\<close>: the strict parser
  and the text of a string.  A Rust string is the list of its UTF-8 bytes.  The parser keeps the
  unread input with the number of bytes read (the code keeps the whole input and a position).
  A parsed object is the list of its fields, whose keys are distinct; the order of the code's
  \<open>BTreeMap\<close> is never observed.  The nested values are read with fuel, which the second half shows
  to be always enough; the printer \<open>render\<close> is the reference the parser is shown to invert.
\<close>

abbreviation (input) quote :: char where "quote \<equiv> CHR 0x22"
abbreviation (input) reverse_solidus :: char where "reverse_solidus \<equiv> CHR 0x5C"

section \<open>Values and the parser state\<close>

datatype json =
    JNull
  | JBool bool
  | JNumber string
  | JString string
  | JObject "(string \<times> json) list"
  | JArray "json list"

type_synonym json_object = "(string \<times> json) list"

record parser =
  ps_rest :: string
  ps_position :: nat
  ps_line :: nat

definition parser_new :: "string \<Rightarrow> nat \<Rightarrow> parser" where
  "parser_new input line = \<lparr>ps_rest = input, ps_position = 0, ps_line = line\<rparr>"

definition ps_error :: "parser \<Rightarrow> string \<Rightarrow> string" where
  "ps_error p message =
     ''line '' @ show_nat (ps_line p) @ '': '' @ message @ '' at byte '' @ show_nat (ps_position p + 1)"

definition advance :: "nat \<Rightarrow> parser \<Rightarrow> parser" where
  "advance n p = p\<lparr>ps_rest := drop n (ps_rest p), ps_position := ps_position p + n\<rparr>"

definition peek :: "parser \<Rightarrow> char option" where
  "peek p = (case ps_rest p of [] \<Rightarrow> None | c # cs \<Rightarrow> Some c)"

definition take_byte :: "parser \<Rightarrow> (char \<times> parser) option" where
  "take_byte p = map_option (\<lambda>c. (c, advance 1 p)) (peek p)"

definition consume :: "char \<Rightarrow> parser \<Rightarrow> bool \<times> parser" where
  "consume c p = (if peek p = Some c then (True, advance 1 p) else (False, p))"

definition expect :: "char \<Rightarrow> parser \<Rightarrow> string + parser" where
  "expect c p =
     (let (found, q) = consume c p in
      if found then Inr q else Inl (ps_error p (''expected '' @ [CHR 0x27, c, CHR 0x27])))"

definition is_json_space :: "char \<Rightarrow> bool" where
  "is_json_space c \<longleftrightarrow> c \<in> {CHR '' '', CHR 0x09, CHR 0x0D, CHR 0x0A}"

definition skip_while :: "(char \<Rightarrow> bool) \<Rightarrow> parser \<Rightarrow> parser" where
  "skip_while P p = advance (length (takeWhile P (ps_rest p))) p"

definition whitespace :: "parser \<Rightarrow> parser" where
  "whitespace = skip_while is_json_space"

definition literal :: "string \<Rightarrow> json \<Rightarrow> parser \<Rightarrow> string + json \<times> parser" where
  "literal expected v p =
     (if starts_with (ps_rest p) expected then Inr (v, advance (length expected) p)
      else Inl (ps_error p ''invalid JSON literal''))"

section \<open>Strings\<close>

text \<open>The UTF-8 bytes of a code point below \<open>0x10000\<close>.\<close>

definition utf8 :: "nat \<Rightarrow> string" where
  "utf8 n =
     (if n < 0x80 then [char_of n]
      else if n < 0x800 then [char_of (0xC0 + n div 64), char_of (0x80 + n mod 64)]
      else [char_of (0xE0 + n div 4096), char_of (0x80 + n div 64 mod 64), char_of (0x80 + n mod 64)])"

fun unicode_digits :: "nat \<Rightarrow> nat \<Rightarrow> parser \<Rightarrow> string + nat \<times> parser" where
  "unicode_digits 0 v p = Inr (v, p)"
| "unicode_digits (Suc n) v p =
     (case take_byte p of
        None \<Rightarrow> Inl (ps_error p ''short unicode escape'')
      | Some (c, q) \<Rightarrow>
          (case hex_value c of
             None \<Rightarrow> Inl (ps_error q ''invalid unicode escape'')
           | Some d \<Rightarrow> unicode_digits n (v * 16 + d) q))"

text \<open>\<open>char::from_u32\<close> refuses the surrogates; four digits cannot exceed the last code point.\<close>

definition unicode_escape_char :: "parser \<Rightarrow> string + string \<times> parser" where
  "unicode_escape_char p =
     and_then (unicode_digits 4 0 p) (\<lambda>(v, q).
       if 0xD800 \<le> v \<and> v \<le> 0xDFFF then Inl (ps_error q ''invalid unicode code point'')
       else Inr (utf8 v, q))"

definition escape_sequence :: "parser \<Rightarrow> string + string \<times> parser" where
  "escape_sequence p =
     (case take_byte p of
        None \<Rightarrow> Inl (ps_error p ''unterminated JSON escape'')
      | Some (c, q) \<Rightarrow>
          if c = quote \<or> c = reverse_solidus \<or> c = CHR ''/'' then Inr ([c], q)
          else if c = CHR ''b'' then Inr ([CHR 0x08], q)
          else if c = CHR ''f'' then Inr ([CHR 0x0C], q)
          else if c = CHR ''n'' then Inr ([CHR 0x0A], q)
          else if c = CHR ''r'' then Inr ([CHR 0x0D], q)
          else if c = CHR ''t'' then Inr ([CHR 0x09], q)
          else if c = CHR ''u'' then unicode_escape_char q
          else Inl (ps_error q ''invalid JSON escape''))"

lemma advance_simps [simp]:
  "ps_rest (advance n p) = drop n (ps_rest p)"
  "ps_position (advance n p) = ps_position p + n"
  "ps_line (advance n p) = ps_line p"
  by (simp_all add: advance_def)

lemma peek_Some: "peek p = Some c \<longleftrightarrow> (\<exists>cs. ps_rest p = c # cs)"
  by (auto simp: peek_def split: list.splits)

lemma take_byte_shorter: "take_byte p = Some (c, q) \<Longrightarrow> length (ps_rest q) < length (ps_rest p)"
  by (auto simp: take_byte_def peek_Some)

lemma unicode_digits_shorter:
  "unicode_digits n v p = Inr (w, q) \<Longrightarrow> length (ps_rest q) \<le> length (ps_rest p)"
  by (induction n v p rule: unicode_digits.induct)
    (fastforce split: option.splits dest!: take_byte_shorter)+

lemma escape_sequence_shorter:
  "escape_sequence p = Inr (s, q) \<Longrightarrow> length (ps_rest q) < length (ps_rest p)"
  by (auto simp: escape_sequence_def unicode_escape_char_def split: option.splits if_splits
      dest!: take_byte_shorter unicode_digits_shorter)

text \<open>A byte that is not ASCII begins a character of the input; the code copies the character, the
  loop here its bytes one by one.\<close>

function string_loop :: "string \<Rightarrow> parser \<Rightarrow> string + string \<times> parser" where
  "string_loop acc p =
     (case take_byte p of
        None \<Rightarrow> Inl (ps_error p ''unterminated JSON string'')
      | Some (c, q) \<Rightarrow>
          if c = quote then Inr (acc, q)
          else if c = reverse_solidus then
            (case escape_sequence q of
               Inl e \<Rightarrow> Inl e
             | Inr (s, r) \<Rightarrow> string_loop (acc @ s) r)
          else if code_point c < 0x20 then Inl (ps_error q ''control character in JSON string'')
          else string_loop (acc @ [c]) q)"
  by pat_completeness auto
termination
  by (relation "measure (\<lambda>(acc, p). length (ps_rest p))")
    (auto dest!: take_byte_shorter escape_sequence_shorter)

declare string_loop.simps [simp del]

definition json_string :: "parser \<Rightarrow> string + string \<times> parser" where
  "json_string p = and_then (expect quote p) (string_loop [])"

section \<open>Numbers\<close>

definition is_ascii_digit :: "char \<Rightarrow> bool" where
  "is_ascii_digit c \<longleftrightarrow> dec_value c \<noteq> None"

definition digit_next :: "parser \<Rightarrow> bool" where
  "digit_next p \<longleftrightarrow> (case peek p of None \<Rightarrow> False | Some c \<Rightarrow> is_ascii_digit c)"

text \<open>At least one digit, then all that follow.\<close>

definition some_digits :: "parser \<Rightarrow> string + parser" where
  "some_digits p =
     (if digit_next p then Inr (skip_while is_ascii_digit p)
      else Inl (ps_error p ''invalid JSON number''))"

definition whole_part :: "parser \<Rightarrow> string + parser" where
  "whole_part p = (if peek p = Some (CHR ''0'') then Inr (advance 1 p) else some_digits p)"

definition fraction_part :: "parser \<Rightarrow> string + parser" where
  "fraction_part p =
     (let (found, q) = consume (CHR ''.'') p in if found then some_digits q else Inr p)"

definition exponent_part :: "parser \<Rightarrow> string + parser" where
  "exponent_part p =
     (if peek p = Some (CHR ''e'') \<or> peek p = Some (CHR ''E'')
      then let (plus, q) = consume (CHR ''+'') (advance 1 p);
               r = (if plus then q else snd (consume (CHR ''-'') q))
           in some_digits r
      else Inr p)"

definition json_number :: "parser \<Rightarrow> string + json \<times> parser" where
  "json_number p =
     and_then (whole_part (snd (consume (CHR ''-'') p))) (\<lambda>q.
     and_then (fraction_part q) (\<lambda>r.
     and_then (exponent_part r) (\<lambda>s.
       let token = take (ps_position s - ps_position p) (ps_rest p) in
       (case parse_f64 token of
          Some (Some x) \<Rightarrow> Inr (JNumber token, s)
        | _ \<Rightarrow> Inl (ps_error s ''invalid JSON number'')))))"

section \<open>Values\<close>

definition no_fuel :: string where
  "no_fuel = ''no fuel''"

fun json_value :: "nat \<Rightarrow> parser \<Rightarrow> string + json \<times> parser"
  and json_members :: "nat \<Rightarrow> json_object \<Rightarrow> parser \<Rightarrow> string + json \<times> parser"
  and json_elements :: "nat \<Rightarrow> json list \<Rightarrow> parser \<Rightarrow> string + json \<times> parser" where
  "json_value 0 p = Inl no_fuel"
| "json_value (Suc n) p0 =
     (let p = whitespace p0 in
      case peek p of
        None \<Rightarrow> Inl (ps_error p ''expected a JSON value'')
      | Some c \<Rightarrow>
          if c = CHR ''n'' then literal ''null'' JNull p
          else if c = CHR ''t'' then literal ''true'' (JBool True) p
          else if c = CHR ''f'' then literal ''false'' (JBool False) p
          else if c = quote then and_then (json_string p) (\<lambda>(s, q). Inr (JString s, q))
          else if c = CHR ''{'' then
            and_then (expect (CHR ''{'') p) (\<lambda>q.
              let (closed, r) = consume (CHR ''}'') (whitespace q) in
              if closed then Inr (JObject [], r) else json_members n [] r)
          else if c = CHR ''['' then
            and_then (expect (CHR ''['') p) (\<lambda>q.
              let (closed, r) = consume (CHR '']'') (whitespace q) in
              if closed then Inr (JArray [], r) else json_elements n [] r)
          else if c = CHR ''-'' \<or> is_ascii_digit c then json_number p
          else Inl (ps_error p ''expected a JSON value''))"
| "json_members 0 fs p = Inl no_fuel"
| "json_members (Suc n) fs p =
     and_then (json_string (whitespace p)) (\<lambda>(key, q).
     and_then (expect (CHR '':'') (whitespace q)) (\<lambda>r.
     and_then (json_value n r) (\<lambda>(v, s).
       if key \<in> fst ` set fs then Inl (ps_error s ''duplicate object field'')
       else let (closed, t) = consume (CHR ''}'') (whitespace s) in
         if closed then Inr (JObject (fs @ [(key, v)]), t)
         else and_then (expect (CHR '','') t) (json_members n (fs @ [(key, v)])))))"
| "json_elements 0 vs p = Inl no_fuel"
| "json_elements (Suc n) vs p =
     and_then (json_value n p) (\<lambda>(v, q).
       let (closed, r) = consume (CHR '']'') (whitespace q) in
       if closed then Inr (JArray (vs @ [v]), r)
       else and_then (expect (CHR '','') r) (json_elements n (vs @ [v])))"

definition parser_fuel :: "parser \<Rightarrow> nat" where
  "parser_fuel p = 2 * length (ps_rest p) + 2"

definition parse_object :: "string \<Rightarrow> nat \<Rightarrow> string + json_object" where
  "parse_object text line =
     (let p = parser_new text line in
      and_then (json_value (parser_fuel p) p) (\<lambda>(v, q).
        let r = whitespace q in
        if ps_rest r \<noteq> [] then Inl (ps_error r ''trailing characters'')
        else case v of JObject fs \<Rightarrow> Inr fs
             | _ \<Rightarrow> Inl (ps_error r ''record must be a JSON object'')))"

section \<open>Writing strings\<close>

definition json_char :: "char \<Rightarrow> string" where
  "json_char c =
     (if c = quote then [reverse_solidus, quote]
      else if c = reverse_solidus then [reverse_solidus, reverse_solidus]
      else if c = CHR 0x0A then [reverse_solidus, CHR ''n'']
      else if c = CHR 0x0D then [reverse_solidus, CHR ''r'']
      else if c = CHR 0x09 then [reverse_solidus, CHR ''t'']
      else if c = CHR 0x08 then [reverse_solidus, CHR ''b'']
      else if c = CHR 0x0C then [reverse_solidus, CHR ''f'']
      else if is_control c then reverse_solidus # CHR ''u'' # fmt_04X (word_of_nat (code_point c))
      else [c])"

text \<open>The control characters \<open>U+0080\<close> to \<open>U+009F\<close> take two bytes.\<close>

fun json_chars :: "string \<Rightarrow> string" where
  "json_chars [] = []"
| "json_chars [c] = json_char c"
| "json_chars (c # d # cs) =
     (if c = CHR 0xC2 \<and> 0x80 \<le> code_point d \<and> code_point d \<le> 0x9F
      then reverse_solidus # CHR ''u'' # fmt_04X (word_of_nat (code_point d)) @ json_chars cs
      else json_char c @ json_chars (d # cs))"

definition string_text :: "string \<Rightarrow> string" where
  "string_text s = quote # json_chars s @ [quote]"

end
