(* ===== verification/Capture_Writer.thy ===== *)
theory Capture_Writer
  imports Capture_Json Line_Text
begin

text \<open>
  Writing a capture as JSON lines, upper part of \<open>src/capture_format/jsonl.rs\<close>: the line of every
  event and the recorder loop.  The file is the text appended so far; its I/O errors, flushes and
  permissions are not modelled.
\<close>

section \<open>Names\<close>

definition SCHEMA :: string where
  "SCHEMA = ''OBDENTIC-CAPTURE''"

definition VERSION :: nat where
  "VERSION = 1"

fun filter_outcome_name :: "subscription_filter_outcome \<Rightarrow> string" where
  "filter_outcome_name Filter_Scheduled = ''scheduled''"
| "filter_outcome_name Filter_Unsupported = ''unsupported''"
| "filter_outcome_name Filter_Unknown = ''unknown''"

fun dtc_transport_outcome_name :: "dtc_transport_outcome \<Rightarrow> string" where
  "dtc_transport_outcome_name Dtc_Response = ''response''"
| "dtc_transport_outcome_name Dtc_NoResponse = ''no_response''"
| "dtc_transport_outcome_name Dtc_Malformed = ''malformed''"
| "dtc_transport_outcome_name (Dtc_Error _) = ''error''"

fun context_update_name :: "context_update \<Rightarrow> string" where
  "context_update_name (Up_Transport s) = transport_id s"
| "context_update_name (Up_Vehicle s) = vehicle_id s"
| "context_update_name (Up_Topology s) = topology_id s"
| "context_update_name (Up_Recording s) = recording_id s"
| "context_update_name (Up_Source s) = source_id s"
| "context_update_name (Up_Safety s) = safety_id s"

fun runtime_event_name :: "runtime_event \<Rightarrow> string" where
  "runtime_event_name InitializationCompleted = ''initialization_completed''"
| "runtime_event_name InitializationFailed = ''initialization_failed''"
| "runtime_event_name DiscoveryStarted = ''discovery_started''"
| "runtime_event_name DiscoveryCompleted = ''discovery_completed''"
| "runtime_event_name DiscoveryFailed = ''discovery_failed''"
| "runtime_event_name ReadStarted = ''read_started''"
| "runtime_event_name ReadCompleted = ''read_completed''"
| "runtime_event_name ReadFailedRecoverable = ''read_failed_recoverable''"
| "runtime_event_name ObservationStarted = ''observation_started''"
| "runtime_event_name ObservationStopped = ''observation_stopped''"
| "runtime_event_name ObservationReadStarted = ''observation_read_started''"
| "runtime_event_name ObservationReadCompleted = ''observation_read_completed''"
| "runtime_event_name ObservationReadFailedRecoverable = ''observation_read_failed_recoverable''"
| "runtime_event_name DiagnosticJobStarted = ''diagnostic_job_started''"
| "runtime_event_name DiagnosticJobCompleted = ''diagnostic_job_completed''"
| "runtime_event_name ShutdownRequested = ''shutdown_requested''"
| "runtime_event_name ShutdownCompleted = ''shutdown_completed''"
| "runtime_event_name FatalRuntimeError = ''fatal_runtime_error''"
| "runtime_event_name WriteStarted = ''write_started''"
| "runtime_event_name (ContextUpdated u) = ''context_updated:'' @ context_update_name u"
| "runtime_event_name (ContextChanged u) = ''context_changed:'' @ context_update_name u"
| "runtime_event_name (TransportChanged s) = ''transport_changed:'' @ transport_id s"
| "runtime_event_name (VehicleChanged s) = ''vehicle_changed:'' @ vehicle_id s"
| "runtime_event_name (TopologyChanged s) = ''topology_changed:'' @ topology_id s"
| "runtime_event_name (RecordingChanged s) = ''recording_changed:'' @ recording_id s"
| "runtime_event_name (SourceChanged s) = ''source_changed:'' @ source_id s"
| "runtime_event_name (SafetyChanged s) = ''safety_changed:'' @ safety_id s"

section \<open>Fields\<close>

text \<open>The literal \<open>,"name":\<close> before a field, and \<open>{"name":\<close> before the first one.\<close>

definition json_key :: "string \<Rightarrow> string" where
  "json_key name = quote # name @ [quote, CHR '':'']"

definition field_key :: "string \<Rightarrow> string" where
  "field_key name = CHR '','' # json_key name"

definition first_key :: "string \<Rightarrow> string" where
  "first_key name = CHR ''{'' # json_key name"

text \<open>A literal string value.\<close>

definition quoted :: "string \<Rightarrow> string" where
  "quoted s = quote # s @ [quote]"

definition option_u64_text :: "nat option \<Rightarrow> string" where
  "option_u64_text v = (case v of Some n \<Rightarrow> show_nat n | None \<Rightarrow> ''null'')"

definition option_string_text :: "string option \<Rightarrow> string" where
  "option_string_text v = (case v of Some s \<Rightarrow> string_text s | None \<Rightarrow> ''null'')"

definition simple_event :: "string \<Rightarrow> nat \<Rightarrow> string" where
  "simple_event event_type sequence = quoted event_type @ field_key ''sequence'' @ show_nat sequence"

definition timing_text :: "read_timing option \<Rightarrow> string" where
  "timing_text t =
     field_key ''due_us'' @ option_u64_text (map_option rt_due_us t)
     @ field_key ''started_us'' @ option_u64_text (map_option rt_started_us t)
     @ field_key ''finished_us'' @ option_u64_text (map_option rt_finished_us t)"

fun value_text :: "capture_value \<Rightarrow> string + string" where
  "value_text (Number (Some x)) =
     Inr (first_key ''type'' @ quoted ''number'' @ field_key ''value'' @ f64_text x @ ''}'')"
| "value_text (Number None) = Inl ''capture value cannot be NaN or infinite''"
| "value_text (Boolean b) =
     Inr (first_key ''type'' @ quoted ''boolean'' @ field_key ''value'' @ (if b then ''true}'' else ''false}''))"
| "value_text (Enum_Value v) =
     Inr (first_key ''type'' @ quoted ''enum'' @ field_key ''value'' @ string_text v @ ''}'')"
| "value_text (Text_Value v) =
     Inr (first_key ''type'' @ quoted ''text'' @ field_key ''value'' @ string_text v @ ''}'')"
| "value_text (Unavailable r) =
     Inr (first_key ''type'' @ quoted ''unavailable'' @ field_key ''reason'' @ string_text r @ ''}'')"

fun dtc_fact_text :: "dtc_fact \<Rightarrow> string" where
  "dtc_fact_text (Fact_Code c) =
     first_key ''type'' @ quoted ''dtc'' @ field_key ''code'' @ string_text c @ ''}''"
| "dtc_fact_text Fact_NoDtcs = first_key ''type'' @ quoted ''no_dtcs'' @ ''}''"
| "dtc_fact_text (Fact_DecodeError e) =
     first_key ''type'' @ quoted ''decode_error'' @ field_key ''error'' @ string_text e @ ''}''"

definition definition_reference_text :: "definition_reference option \<Rightarrow> string" where
  "definition_reference_text r =
     field_key ''knowledge_definition_id'' @ option_string_text (Option.bind r dr_definition_id)
     @ field_key ''knowledge_definition_version'' @ option_u64_text (map_option unat (Option.bind r dr_definition_version))
     @ field_key ''knowledge_confidence'' @ option_string_text (Option.bind r dr_confidence)
     @ field_key ''knowledge_hardware_validation'' @ option_string_text (Option.bind r dr_hardware_validation)
     @ field_key ''local_ecu_id'' @ option_string_text (Option.bind r dr_local_ecu_id)"

definition responder_evidence_text :: "responder_evidence \<Rightarrow> string" where
  "responder_evidence_text r =
     first_key ''responder'' @ option_string_text (re_responder r)
     @ field_key ''payload'' @ string_text (hex (re_payload r)) @ ''}''"

section \<open>Events\<close>

text \<open>What the line of an event holds between its type and the closing brace.  The validators run
  before anything of a diagnostic event is written.\<close>

fun event_body :: "nat \<Rightarrow> capture_event \<Rightarrow> string + string" where
  "event_body sequence (CaptureStarted wallclock_ms profile) =
     Inr (simple_event ''capture_started'' sequence
       @ field_key ''wallclock_ms'' @ option_u64_text wallclock_ms
       @ field_key ''profile'' @ option_string_text profile)"
| "event_body sequence (KnowledgeContext c) =
     Inr (simple_event ''knowledge_context'' sequence
       @ field_key ''core_version'' @ string_text (kc_core_version c)
       @ field_key ''core_commit'' @ option_string_text (kc_core_commit c)
       @ field_key ''knowledge_repository'' @ string_text (kc_repository c)
       @ field_key ''knowledge_revision'' @ string_text (kc_revision c)
       @ field_key ''knowledge_schema_version'' @ show_nat (unat (kc_schema_version c)))"
| "event_body sequence SessionInitialized = Inr (simple_event ''session_initialized'' sequence)"
| "event_body sequence (SubscriptionConfigured semantic interval_us outcome) =
     Inr (simple_event ''subscription_configured'' sequence
       @ field_key ''semantic'' @ string_text semantic
       @ field_key ''requested_interval_us'' @ show_nat interval_us
       @ field_key ''filter_outcome'' @ string_text (filter_outcome_name outcome))"
| "event_body sequence (SupportDiscovery request responder response) =
     Inr (simple_event ''support_discovery'' sequence
       @ field_key ''request_payload'' @ string_text (hex request)
       @ field_key ''responder'' @ option_string_text responder
       @ field_key ''response_payload'' @ string_text (hex response))"
| "event_body sequence (ProtocolNegotiationObserved request responder response) =
     Inr (simple_event ''protocol_negotiation_observed'' sequence
       @ field_key ''request_payload'' @ string_text (hex request)
       @ field_key ''responder'' @ option_string_text responder
       @ field_key ''response_payload'' @ string_text (hex response))"
| "event_body sequence (ResponsesObserved offset_us semantic request responses selected selection_error) =
     Inr (simple_event ''responses_observed'' sequence
       @ field_key ''offset_us'' @ option_u64_text offset_us
       @ field_key ''semantic'' @ string_text semantic
       @ field_key ''request_payload'' @ string_text (hex request)
       @ field_key ''responses'' @ ''['' @ join '','' (map responder_evidence_text responses) @ '']''
       @ field_key ''selected_responder'' @ option_string_text selected
       @ field_key ''selection_error'' @ option_string_text selection_error)"
| "event_body sequence (ReadSucceeded r) =
     and_then (value_text (rs_value r)) (\<lambda>v.
       Inr (simple_event ''read_succeeded'' sequence
         @ field_key ''semantic'' @ string_text (rs_semantic r)
         @ field_key ''requested_interval_us'' @ show_nat (rs_requested_interval_us r)
         @ field_key ''due_us'' @ show_nat (rs_due_us r)
         @ field_key ''started_us'' @ show_nat (rs_started_us r)
         @ field_key ''finished_us'' @ show_nat (rs_finished_us r)
         @ field_key ''request_payload'' @ string_text (hex (rs_request r))
         @ field_key ''response_payload'' @ string_text (hex (rs_response r))
         @ field_key ''value'' @ v
         @ field_key ''unit'' @ string_text (rs_unit r)
         @ field_key ''source'' @ string_text (rs_source r)
         @ field_key ''profile'' @ string_text (rs_profile r)
         @ field_key ''decoder'' @ string_text (rs_decoder r)
         @ field_key ''provenance'' @ string_text (rs_provenance r)
         @ definition_reference_text (rs_definition r)))"
| "event_body sequence (ReadFailed semantic interval_us timing request err) =
     Inr (simple_event ''read_failed'' sequence
       @ field_key ''semantic'' @ string_text semantic
       @ field_key ''requested_interval_us'' @ show_nat interval_us
       @ timing_text timing
       @ field_key ''request_payload'' @ option_string_text (map_option hex request)
       @ field_key ''error'' @ string_text err)"
| "event_body sequence (SlotsSkipped semantic missed first_due_us last_due_us) =
     Inr (simple_event ''slots_skipped'' sequence
       @ field_key ''semantic'' @ string_text semantic
       @ field_key ''count'' @ show_nat missed
       @ field_key ''first_due_us'' @ show_nat first_due_us
       @ field_key ''last_due_us'' @ show_nat last_due_us)"
| "event_body sequence (SessionErrorEvent err) =
     Inr (simple_event ''session_error'' sequence @ field_key ''error'' @ string_text err)"
| "event_body sequence (RuntimeStateChanged transition_sequence before after event) =
     (if state_version before \<noteq> state_version after
      then Inl ''runtime state transition versions do not match''
      else Inr (simple_event ''runtime_state_changed'' sequence
        @ field_key ''transition_sequence'' @ show_nat (unat transition_sequence)
        @ field_key ''state_version'' @ show_nat (unat (state_version before))
        @ field_key ''from'' @ string_text (serialize before)
        @ field_key ''to'' @ string_text (serialize after)
        @ field_key ''event'' @ string_text (runtime_event_name event)))"
| "event_body sequence ShutdownRequestedEvent = Inr (simple_event ''shutdown_requested'' sequence)"
| "event_body sequence (SessionStopped offset_us) =
     Inr (simple_event ''session_stopped'' sequence @ field_key ''offset_us'' @ show_nat offset_us)"
| "event_body sequence (DiagnosticJobStartedEvent job_id model_version step_count) =
     and_then (validate_diagnostic_job_id job_id) (\<lambda>_.
       Inr (simple_event ''diagnostic_job_started'' sequence
         @ field_key ''job_id'' @ string_text job_id
         @ field_key ''model_version'' @ show_nat (unat model_version)
         @ field_key ''step_count'' @ show_nat step_count))"
| "event_body sequence (DiagnosticJobStep job_id step_sequence mode source status err) =
     and_then (validate_diagnostic_job_id job_id) (\<lambda>_.
     and_then (validate_diagnostic_mode mode) (\<lambda>_.
     and_then (validate_diagnostic_source source) (\<lambda>_.
     and_then (validate_diagnostic_error err) (\<lambda>_.
       Inr (simple_event ''diagnostic_job_step'' sequence
         @ field_key ''job_id'' @ string_text job_id
         @ field_key ''step_sequence'' @ show_nat step_sequence
         @ field_key ''mode'' @ show_nat (unat mode)
         @ field_key ''source'' @ option_string_text source
         @ field_key ''status'' @ string_text (job_step_status_str status)
         @ field_key ''error'' @ option_string_text err)))))"
| "event_body sequence (DiagnosticJobCompletedEvent job_id status) =
     and_then (validate_diagnostic_job_id job_id) (\<lambda>_.
       if status \<noteq> JobCompleted \<and> status \<noteq> JobCompletedWithErrors
       then Inl (''diagnostic job completion has non-completed status: '' @ job_status_str status)
       else Inr (simple_event ''diagnostic_job_completed'' sequence
         @ field_key ''job_id'' @ string_text job_id
         @ field_key ''status'' @ string_text (job_status_str status)))"
| "event_body sequence (DiagnosticJobFailedEvent job_id err) =
     and_then (validate_diagnostic_job_id job_id) (\<lambda>_.
     and_then (validate_diagnostic_error (Some err)) (\<lambda>_.
       Inr (simple_event ''diagnostic_job_failed'' sequence
         @ field_key ''job_id'' @ string_text job_id
         @ field_key ''error'' @ string_text err)))"
| "event_body sequence (DiagnosticJobCancelledEvent job_id) =
     and_then (validate_diagnostic_job_id job_id) (\<lambda>_.
       Inr (simple_event ''diagnostic_job_cancelled'' sequence @ field_key ''job_id'' @ string_text job_id))"
| "event_body sequence (DtcTransportObserved job_id step_sequence responder outcome) =
     and_then (validate_diagnostic_job_id job_id) (\<lambda>_.
     and_then (validate_diagnostic_source responder) (\<lambda>_.
     and_then (case outcome of
         Dtc_Error reason \<Rightarrow> and_then (validate_diagnostic_error (Some reason)) (\<lambda>_. Inr (string_text reason))
       | _ \<Rightarrow> Inr ''null'') (\<lambda>reason.
       Inr (simple_event ''dtc_transport_observed'' sequence
         @ field_key ''job_id'' @ string_text job_id
         @ field_key ''step_sequence'' @ show_nat step_sequence
         @ field_key ''responder'' @ option_string_text responder
         @ field_key ''outcome'' @ string_text (dtc_transport_outcome_name outcome)
         @ field_key ''reason'' @ reason))))"
| "event_body sequence (DtcObservationEvent job_id step_sequence responder found decoder provenance) =
     and_then (validate_diagnostic_job_id job_id) (\<lambda>_.
     and_then (validate_diagnostic_source responder) (\<lambda>_.
     and_then (validate_dtc_fact found) (\<lambda>_.
     and_then (validate_diagnostic_text ''decoder'' decoder 128) (\<lambda>_.
     and_then (validate_diagnostic_text ''provenance'' provenance 256) (\<lambda>_.
       Inr (simple_event ''dtc_observation'' sequence
         @ field_key ''job_id'' @ string_text job_id
         @ field_key ''step_sequence'' @ show_nat step_sequence
         @ field_key ''responder'' @ option_string_text responder
         @ field_key ''fact'' @ dtc_fact_text found
         @ field_key ''decoder'' @ string_text decoder
         @ field_key ''provenance'' @ string_text provenance))))))"

definition record_start :: string where
  "record_start =
     first_key ''schema'' @ quoted SCHEMA @ field_key ''version'' @ show_nat VERSION @ field_key ''type''"

definition event_line :: "nat \<Rightarrow> capture_event \<Rightarrow> string + string" where
  "event_line sequence event =
     and_then (event_body sequence event) (\<lambda>body. Inr (record_start @ body @ ''}'' @ [line_feed]))"

section \<open>The recorder\<close>

definition header :: string where
  "header = record_start @ quoted ''header'' @ ''}'' @ [line_feed]"

text \<open>The loop over the received events, from a sequence number and the text written so far; the
  text of the events before an error stays in the file.\<close>

fun write_events :: "nat \<Rightarrow> string \<Rightarrow> capture_event list \<Rightarrow> string \<times> (string + unit)" where
  "write_events sequence text [] = (text, Inr ())"
| "write_events sequence text (event # events) =
     (case event_line sequence event of
        Inl e \<Rightarrow> (text, Inl e)
      | Inr line \<Rightarrow>
          if 2 ^ 64 \<le> sequence + 1 then (text @ line, Inl ''JSONL recorder sequence exhausted'')
          else write_events (sequence + 1) (text @ line) events)"

text \<open>The file a closed recorder leaves.\<close>

definition record_capture :: "capture_event list \<Rightarrow> string \<times> (string + unit)" where
  "record_capture events = write_events 0 header events"

end
