(* ===== verification/Capture_Reader.thy ===== *)
theory Capture_Reader
  imports Capture_Writer
begin

text \<open>
  Reading a capture back, middle part of \<open>src/capture_format/jsonl.rs\<close>: the fields of a record, the
  event of a record, and the checks over the whole file (sequence numbers, one knowledge context,
  response offsets in order, nothing but state changes after the stop).  Every error carries its
  line number.
\<close>

section \<open>Fields\<close>

definition at_line :: "nat \<Rightarrow> string \<Rightarrow> string" where
  "at_line line message = ''line '' @ show_nat line @ '': '' @ message"

abbreviation (input) get_field :: "json_object \<Rightarrow> string \<Rightarrow> json option" where
  "get_field object name \<equiv> map_of object name"

definition contains_key :: "json_object \<Rightarrow> string \<Rightarrow> bool" where
  "contains_key object name \<longleftrightarrow> map_of object name \<noteq> None"

definition fields_exact :: "json_object \<Rightarrow> string list \<Rightarrow> nat \<Rightarrow> string + unit" where
  "fields_exact object names line =
     (if length object \<noteq> length names \<or> list_ex (\<lambda>name. \<not> contains_key object name) names
      then Inl (at_line line ''malformed or unsupported capture fields'') else Inr ())"

definition string_field :: "json_object \<Rightarrow> string \<Rightarrow> nat \<Rightarrow> string + string" where
  "string_field object name line =
     (case get_field object name of
        Some (JString s) \<Rightarrow> Inr s
      | _ \<Rightarrow> Inl (at_line line (''field '' @ name @ '' must be a string'')))"

definition optional_string_field :: "json_object \<Rightarrow> string \<Rightarrow> nat \<Rightarrow> string + string option" where
  "optional_string_field object name line =
     (case get_field object name of
        Some (JString s) \<Rightarrow> Inr (Some s)
      | Some JNull \<Rightarrow> Inr None
      | _ \<Rightarrow> Inl (at_line line (''field '' @ name @ '' must be a string or null'')))"

definition integer_field :: "json_object \<Rightarrow> string \<Rightarrow> nat \<Rightarrow> string + nat" where
  "integer_field object name line =
     (case get_field object name of
        Some (JNumber t) \<Rightarrow>
          if list_ex (\<lambda>c. c \<in> set ''.eE-'') t
          then Inl (at_line line (''field '' @ name @ '' must be an integer''))
          else ok_or (at_line line (''field '' @ name @ '' is out of range'')) (parse_unsigned (2 ^ 64 - 1) t)
      | _ \<Rightarrow> Inl (at_line line (''field '' @ name @ '' must be an integer'')))"

definition u64_field :: "json_object \<Rightarrow> string \<Rightarrow> nat \<Rightarrow> string + nat" where
  "u64_field = integer_field"

definition optional_u64_field :: "json_object \<Rightarrow> string \<Rightarrow> nat \<Rightarrow> string + nat option" where
  "optional_u64_field object name line =
     (case get_field object name of
        Some JNull \<Rightarrow> Inr None
      | Some (JNumber _) \<Rightarrow> and_then (integer_field object name line) (\<lambda>n. Inr (Some n))
      | _ \<Rightarrow> Inl (at_line line (''field '' @ name @ '' must be an integer or null'')))"

definition parse_filter_outcome :: "json_object \<Rightarrow> nat \<Rightarrow> string + subscription_filter_outcome" where
  "parse_filter_outcome object line =
     and_then (string_field object ''filter_outcome'' line) (\<lambda>s.
       if s = ''scheduled'' then Inr Filter_Scheduled
       else if s = ''unsupported'' then Inr Filter_Unsupported
       else if s = ''unknown'' then Inr Filter_Unknown
       else Inl (at_line line (''unknown subscription filter outcome '' @ debug_str s)))"

definition parse_diagnostic_job_step_status :: "json_object \<Rightarrow> nat \<Rightarrow> string + job_step_status" where
  "parse_diagnostic_job_step_status object line =
     and_then (string_field object ''status'' line) (\<lambda>s.
       if s = ''success'' then Inr Step_Success
       else if s = ''recoverable'' then Inr Step_Recoverable
       else if s = ''fatal'' then Inr Step_Fatal
       else if s = ''skipped'' then Inr Step_Skipped
       else Inl (at_line line (''unknown diagnostic job step status '' @ debug_str s)))"

definition parse_job_status :: "json_object \<Rightarrow> nat \<Rightarrow> string + job_status" where
  "parse_job_status object line =
     and_then (string_field object ''status'' line) (\<lambda>s.
       if s = ''planned'' then Inr JobPlanned
       else if s = ''running'' then Inr JobRunning
       else if s = ''completed'' then Inr JobCompleted
       else if s = ''completed_with_errors'' then Inr JobCompletedWithErrors
       else if s = ''failed'' then Inr JobFailed
       else if s = ''cancelled'' then Inr JobCancelled
       else Inl (at_line line (''unknown diagnostic job status '' @ debug_str s)))"

definition hex_token :: "nat \<Rightarrow> string \<Rightarrow> string + u8" where
  "hex_token line t =
     (if length t \<noteq> 2 \<or> \<not> all_hex t
      then Inl (at_line line ''invalid uppercase-space-separated hex'')
      else if list_ex (\<lambda>c. 97 \<le> code_point c \<and> code_point c \<le> 122) t
      then Inl (at_line line ''hex payload must use uppercase digits'')
      else Inr (hd (hex_pairs t)))"

definition parse_hex :: "string \<Rightarrow> nat \<Rightarrow> string + bytes" where
  "parse_hex v line =
     (if v = [] then Inr []
      else collect_results (map (hex_token line) (split_on (\<lambda>c. c = CHR '' '') v)))"

section \<open>Values inside a record\<close>

definition as_object :: "json \<Rightarrow> nat \<Rightarrow> string \<Rightarrow> string + json_object" where
  "as_object v line what =
     (case v of JObject object \<Rightarrow> Inr object | _ \<Rightarrow> Inl (at_line line (what @ '' must be an object'')))"

definition parse_value :: "json \<Rightarrow> nat \<Rightarrow> string + capture_value" where
  "parse_value v line =
     and_then (as_object v line ''capture value'') (\<lambda>object.
     and_then (string_field object ''type'' line) (\<lambda>t.
       if t = ''number'' then
         and_then (fields_exact object [''type'', ''value''] line) (\<lambda>_.
           case get_field object ''value'' of
             Some (JNumber s) \<Rightarrow>
               (case parse_f64 s of
                  None \<Rightarrow> Inl (at_line line ''number value must be numeric'')
                | Some None \<Rightarrow> Inl (at_line line ''number value must be finite'')
                | Some (Some x) \<Rightarrow> Inr (Number (Some x)))
           | _ \<Rightarrow> Inl (at_line line ''number value must be numeric''))
       else if t = ''boolean'' then
         and_then (fields_exact object [''type'', ''value''] line) (\<lambda>_.
           case get_field object ''value'' of
             Some (JBool b) \<Rightarrow> Inr (Boolean b)
           | _ \<Rightarrow> Inl (at_line line ''boolean value must be true or false''))
       else if t = ''enum'' then
         and_then (fields_exact object [''type'', ''value''] line) (\<lambda>_.
         and_then (string_field object ''value'' line) (\<lambda>s. Inr (Enum_Value s)))
       else if t = ''text'' then
         and_then (fields_exact object [''type'', ''value''] line) (\<lambda>_.
         and_then (string_field object ''value'' line) (\<lambda>s. Inr (Text_Value s)))
       else if t = ''unavailable'' then
         and_then (fields_exact object [''type'', ''reason''] line) (\<lambda>_.
         and_then (string_field object ''reason'' line) (\<lambda>s. Inr (Unavailable s)))
       else Inl (at_line line (''unknown capture value type '' @ debug_str t))))"

definition parse_dtc_fact :: "json \<Rightarrow> nat \<Rightarrow> string + dtc_fact" where
  "parse_dtc_fact v line =
     and_then (as_object v line ''DTC fact'') (\<lambda>object.
     and_then (string_field object ''type'' line) (\<lambda>t.
       if t = ''dtc'' then
         and_then (fields_exact object [''type'', ''code''] line) (\<lambda>_.
         and_then (string_field object ''code'' line) (\<lambda>s. Inr (Fact_Code s)))
       else if t = ''no_dtcs'' then
         and_then (fields_exact object [''type''] line) (\<lambda>_. Inr Fact_NoDtcs)
       else if t = ''decode_error'' then
         and_then (fields_exact object [''type'', ''error''] line) (\<lambda>_.
         and_then (string_field object ''error'' line) (\<lambda>s.
         and_then (map_err (at_line line) (validate_diagnostic_error (Some s))) (\<lambda>_.
           Inr (Fact_DecodeError s))))
       else Inl (at_line line (''unknown DTC fact type '' @ debug_str t))))"

definition parse_responder_evidence :: "json \<Rightarrow> nat \<Rightarrow> string + responder_evidence" where
  "parse_responder_evidence v line =
     and_then (as_object v line ''responder evidence'') (\<lambda>object.
     and_then (fields_exact object [''responder'', ''payload''] line) (\<lambda>_.
     and_then (optional_string_field object ''responder'' line) (\<lambda>r.
     and_then (string_field object ''payload'' line) (\<lambda>s.
     and_then (parse_hex s line) (\<lambda>p. responder_evidence_new r p)))))"

definition context_state :: "nat \<Rightarrow> (runtime_state_error + 'a) \<Rightarrow> ('a \<Rightarrow> context_update) \<Rightarrow> string + context_update" where
  "context_state line r f = map_err (\<lambda>e. at_line line (runtime_state_error_text e)) (and_then r (\<lambda>s. Inr (f s)))"

definition parse_context_update :: "string \<Rightarrow> nat \<Rightarrow> string + context_update" where
  "parse_context_update v line =
     (if starts_with v ''transport/'' then context_state line (transport_parse v) Up_Transport
      else if starts_with v ''vehicle/'' then context_state line (vehicle_parse v) Up_Vehicle
      else if starts_with v ''topology/'' then context_state line (topology_parse v) Up_Topology
      else if starts_with v ''recording/'' then context_state line (recording_parse v) Up_Recording
      else if starts_with v ''source/'' then context_state line (source_parse v) Up_Source
      else if starts_with v ''safety/'' then context_state line (safety_parse v) Up_Safety
      else Inl (at_line line (''unknown runtime context '' @ debug_str v)))"

text \<open>The events without an argument, by their names.\<close>

definition plain_events :: "(string \<times> runtime_event) list" where
  "plain_events = map (\<lambda>e. (runtime_event_name e, e))
     [InitializationCompleted, InitializationFailed, DiscoveryStarted, DiscoveryCompleted, DiscoveryFailed,
      ReadStarted, ReadCompleted, ReadFailedRecoverable, ObservationStarted, ObservationStopped,
      ObservationReadStarted, ObservationReadCompleted, ObservationReadFailedRecoverable,
      DiagnosticJobStarted, DiagnosticJobCompleted, ShutdownRequested, ShutdownCompleted,
      FatalRuntimeError, WriteStarted]"

definition changed_event :: "string \<Rightarrow> context_update \<Rightarrow> string \<Rightarrow> nat \<Rightarrow> string + runtime_event" where
  "changed_event kind u v line =
     (let invalid = (\<lambda>what. Inl (at_line line (''invalid '' @ what @ '' event''))) in
      if kind = ''context_updated'' then Inr (ContextUpdated u)
      else if kind = ''context_changed'' then Inr (ContextChanged u)
      else if kind = ''transport_changed''
      then (case u of Up_Transport s \<Rightarrow> Inr (TransportChanged s) | _ \<Rightarrow> invalid ''transport'')
      else if kind = ''vehicle_changed''
      then (case u of Up_Vehicle s \<Rightarrow> Inr (VehicleChanged s) | _ \<Rightarrow> invalid ''vehicle'')
      else if kind = ''topology_changed''
      then (case u of Up_Topology s \<Rightarrow> Inr (TopologyChanged s) | _ \<Rightarrow> invalid ''topology'')
      else if kind = ''recording_changed''
      then (case u of Up_Recording s \<Rightarrow> Inr (RecordingChanged s) | _ \<Rightarrow> invalid ''recording'')
      else if kind = ''source_changed''
      then (case u of Up_Source s \<Rightarrow> Inr (SourceChanged s) | _ \<Rightarrow> invalid ''source'')
      else if kind = ''safety_changed''
      then (case u of Up_Safety s \<Rightarrow> Inr (SafetyChanged s) | _ \<Rightarrow> invalid ''safety'')
      else Inl (at_line line (''unknown runtime event '' @ debug_str v)))"

definition parse_runtime_event :: "string \<Rightarrow> nat \<Rightarrow> string + runtime_event" where
  "parse_runtime_event v line =
     (case map_of plain_events v of
        Some e \<Rightarrow> Inr e
      | None \<Rightarrow>
          and_then (ok_or (at_line line (''unknown runtime event '' @ debug_str v)) (split_once (CHR '':'') v))
            (\<lambda>(kind, rest). and_then (parse_context_update rest line) (\<lambda>u. changed_event kind u v line)))"

definition parse_runtime_state :: "json_object \<Rightarrow> string \<Rightarrow> nat \<Rightarrow> string + runtime_state" where
  "parse_runtime_state object name line =
     and_then (string_field object name line) (\<lambda>s.
       map_err (\<lambda>e. at_line line (''field '' @ name @ '' has invalid runtime state: '' @ runtime_state_error_text e))
         (state_parse s))"

section \<open>Events\<close>

definition base_fields :: "string list" where
  "base_fields = [''schema'', ''version'', ''type'', ''sequence'']"

type_synonym event_parser = "json_object \<Rightarrow> nat \<Rightarrow> string + capture_event"

definition exact_fields :: "json_object \<Rightarrow> string list \<Rightarrow> nat \<Rightarrow> string + unit" where
  "exact_fields object names line = fields_exact object (base_fields @ names) line"

definition hex_field :: "json_object \<Rightarrow> string \<Rightarrow> nat \<Rightarrow> string + bytes" where
  "hex_field object name line = and_then (string_field object name line) (\<lambda>s. parse_hex s line)"

definition job_id_field :: "json_object \<Rightarrow> nat \<Rightarrow> string + string" where
  "job_id_field object line =
     and_then (string_field object ''job_id'' line) (\<lambda>s.
     and_then (map_err (at_line line) (validate_diagnostic_job_id s)) (\<lambda>_. Inr s))"

text \<open>A number narrowed to the width of its field.\<close>

definition bounded :: "nat \<Rightarrow> string \<Rightarrow> nat \<Rightarrow> nat \<Rightarrow> string + nat" where
  "bounded limit message line n = (if n \<le> limit then Inr n else Inl (at_line line message))"

definition parse_capture_started :: event_parser where
  "parse_capture_started object line =
     and_then (exact_fields object [''wallclock_ms'', ''profile''] line) (\<lambda>_.
     and_then (optional_u64_field object ''wallclock_ms'' line) (\<lambda>w.
     and_then (optional_string_field object ''profile'' line) (\<lambda>p. Inr (CaptureStarted w p))))"

definition parse_knowledge_context :: event_parser where
  "parse_knowledge_context object line =
     and_then (exact_fields object [''core_version'', ''core_commit'', ''knowledge_repository'',
         ''knowledge_revision'', ''knowledge_schema_version''] line) (\<lambda>_.
     and_then (string_field object ''core_version'' line) (\<lambda>version.
     and_then (optional_string_field object ''core_commit'' line) (\<lambda>commit.
     and_then (string_field object ''knowledge_repository'' line) (\<lambda>repository.
     and_then (string_field object ''knowledge_revision'' line) (\<lambda>revision.
     and_then (u64_field object ''knowledge_schema_version'' line) (\<lambda>n.
     and_then (bounded (2 ^ 32 - 1) ''knowledge schema version is out of range'' line n) (\<lambda>schema.
     and_then (map_err (at_line line)
         (knowledge_context_new version commit repository revision (word_of_nat schema))) (\<lambda>c.
       Inr (KnowledgeContext c)))))))))"

definition parse_session_initialized :: event_parser where
  "parse_session_initialized object line =
     and_then (exact_fields object [] line) (\<lambda>_. Inr SessionInitialized)"

definition parse_subscription_configured :: event_parser where
  "parse_subscription_configured object line =
     and_then (exact_fields object [''semantic'', ''requested_interval_us'', ''filter_outcome''] line) (\<lambda>_.
     and_then (string_field object ''semantic'' line) (\<lambda>semantic.
     and_then (u64_field object ''requested_interval_us'' line) (\<lambda>interval.
     and_then (parse_filter_outcome object line) (\<lambda>outcome.
       Inr (SubscriptionConfigured semantic interval outcome)))))"

text \<open>Captures of earlier versions have no responder.\<close>

definition parse_support_discovery :: event_parser where
  "parse_support_discovery object line =
     and_then
       (if contains_key object ''responder'' then
          and_then (exact_fields object [''request_payload'', ''responder'', ''response_payload''] line) (\<lambda>_.
            optional_string_field object ''responder'' line)
        else and_then (exact_fields object [''request_payload'', ''response_payload''] line) (\<lambda>_. Inr None))
       (\<lambda>responder.
     and_then (hex_field object ''request_payload'' line) (\<lambda>request.
     and_then (hex_field object ''response_payload'' line) (\<lambda>response.
       Inr (SupportDiscovery request responder response))))"

definition parse_protocol_negotiation :: event_parser where
  "parse_protocol_negotiation object line =
     and_then (exact_fields object [''request_payload'', ''responder'', ''response_payload''] line) (\<lambda>_.
     and_then (hex_field object ''request_payload'' line) (\<lambda>request.
     and_then (optional_string_field object ''responder'' line) (\<lambda>responder.
     and_then (hex_field object ''response_payload'' line) (\<lambda>response.
       map_err (at_line line) (protocol_negotiation_observed request responder response)))))"

definition parse_responses :: "json_object \<Rightarrow> nat \<Rightarrow> string + responder_evidence list" where
  "parse_responses object line =
     (case get_field object ''responses'' of
        Some (JArray vs) \<Rightarrow> collect_results (map (\<lambda>v. parse_responder_evidence v line) vs)
      | _ \<Rightarrow> Inl (at_line line ''responses must be an array''))"

definition parse_responses_observed :: event_parser where
  "parse_responses_observed object line =
     (let has_offset = contains_key object ''offset_us'' in
      and_then (exact_fields object
        ((if has_offset then [''offset_us''] else []) @
         [''semantic'', ''request_payload'', ''responses'', ''selected_responder'', ''selection_error'']) line) (\<lambda>_.
      and_then (parse_responses object line) (\<lambda>responses.
      and_then (string_field object ''semantic'' line) (\<lambda>semantic.
      and_then (hex_field object ''request_payload'' line) (\<lambda>request.
      and_then (optional_string_field object ''selected_responder'' line) (\<lambda>selected.
      and_then (optional_string_field object ''selection_error'' line) (\<lambda>err.
      and_then (if has_offset then optional_u64_field object ''offset_us'' line else Inr None) (\<lambda>offset.
        map_err (at_line line)
          (responses_observed_with_offset semantic request responses selected err offset)))))))))"

definition definition_fields :: "string list" where
  "definition_fields =
     [''knowledge_definition_id'', ''knowledge_definition_version'', ''knowledge_confidence'',
      ''knowledge_hardware_validation'', ''local_ecu_id'']"

definition parse_definition :: "json_object \<Rightarrow> nat \<Rightarrow> string + definition_reference option" where
  "parse_definition object line =
     and_then (optional_string_field object ''knowledge_definition_id'' line) (\<lambda>i.
     and_then (optional_u64_field object ''knowledge_definition_version'' line) (\<lambda>n.
     and_then (case n of None \<Rightarrow> Inr None
         | Some v \<Rightarrow> and_then (bounded (2 ^ 32 - 1) ''knowledge definition version is out of range'' line v)
             (\<lambda>v. Inr (Some (word_of_nat v)))) (\<lambda>version.
     and_then (optional_string_field object ''knowledge_confidence'' line) (\<lambda>confidence.
     and_then (optional_string_field object ''knowledge_hardware_validation'' line) (\<lambda>hardware.
     and_then (optional_string_field object ''local_ecu_id'' line) (\<lambda>ecu.
       if i = None \<and> version = None \<and> confidence = None \<and> hardware = None \<and> ecu = None then Inr None
       else and_then (map_err (at_line line) (definition_reference_new i version confidence hardware ecu))
         (\<lambda>r. Inr (Some r))))))))"

definition parse_read_succeeded :: event_parser where
  "parse_read_succeeded object line =
     (let has_definition = contains_key object ''knowledge_definition_id'' in
      and_then (exact_fields object
        ([''semantic'', ''requested_interval_us'', ''due_us'', ''started_us'', ''finished_us'',
          ''request_payload'', ''response_payload'', ''value'', ''unit'', ''source'', ''profile'',
          ''decoder'', ''provenance''] @ (if has_definition then definition_fields else [])) line) (\<lambda>_.
      and_then (u64_field object ''due_us'' line) (\<lambda>due.
      and_then (u64_field object ''started_us'' line) (\<lambda>started.
      and_then (u64_field object ''finished_us'' line) (\<lambda>finished.
      if \<not> (due \<le> started \<and> started \<le> finished) then Inl (at_line line ''non-monotonic read timing'')
      else
      and_then (if has_definition then parse_definition object line else Inr None) (\<lambda>reference.
      and_then (string_field object ''semantic'' line) (\<lambda>semantic.
      and_then (u64_field object ''requested_interval_us'' line) (\<lambda>interval.
      and_then (hex_field object ''request_payload'' line) (\<lambda>request.
      and_then (hex_field object ''response_payload'' line) (\<lambda>response.
      and_then (parse_value (the (get_field object ''value'')) line) (\<lambda>v.
      and_then (string_field object ''unit'' line) (\<lambda>u.
      and_then (string_field object ''source'' line) (\<lambda>source.
      and_then (string_field object ''profile'' line) (\<lambda>profile.
      and_then (string_field object ''decoder'' line) (\<lambda>decoder.
      and_then (string_field object ''provenance'' line) (\<lambda>prov.
        Inr (ReadSucceeded \<lparr>rs_semantic = semantic, rs_requested_interval_us = interval, rs_due_us = due,
          rs_started_us = started, rs_finished_us = finished, rs_request = request, rs_response = response,
          rs_value = v, rs_unit = u, rs_source = source, rs_profile = profile, rs_decoder = decoder,
          rs_provenance = prov, rs_definition = reference\<rparr>)))))))))))))))))"

definition parse_failed_timing :: "json_object \<Rightarrow> nat \<Rightarrow> string + read_timing option" where
  "parse_failed_timing object line =
     and_then (optional_u64_field object ''due_us'' line) (\<lambda>due.
     and_then (optional_u64_field object ''started_us'' line) (\<lambda>started.
     and_then (optional_u64_field object ''finished_us'' line) (\<lambda>finished.
       case (due, started, finished) of
         (Some d, Some s, Some f) \<Rightarrow>
           if \<not> (d \<le> s \<and> s \<le> f) then Inl (at_line line ''non-monotonic failed-read timing'')
           else Inr (Some \<lparr>rt_due_us = d, rt_started_us = s, rt_finished_us = f\<rparr>)
       | (None, None, None) \<Rightarrow> Inr None
       | _ \<Rightarrow> Inl (at_line line ''incomplete failed-read timing''))))"

definition parse_optional_hex :: "json_object \<Rightarrow> nat \<Rightarrow> string + bytes option" where
  "parse_optional_hex object line =
     (case get_field object ''request_payload'' of
        Some JNull \<Rightarrow> Inr None
      | Some (JString s) \<Rightarrow> and_then (parse_hex s line) (\<lambda>b. Inr (Some b))
      | _ \<Rightarrow> Inl (at_line line ''request_payload must be a hex string or null''))"

definition parse_read_failed :: event_parser where
  "parse_read_failed object line =
     and_then (exact_fields object [''semantic'', ''requested_interval_us'', ''due_us'', ''started_us'',
         ''finished_us'', ''request_payload'', ''error''] line) (\<lambda>_.
     and_then (parse_failed_timing object line) (\<lambda>timing.
     and_then (parse_optional_hex object line) (\<lambda>request.
     and_then (string_field object ''semantic'' line) (\<lambda>semantic.
     and_then (u64_field object ''requested_interval_us'' line) (\<lambda>interval.
     and_then (string_field object ''error'' line) (\<lambda>err.
       Inr (ReadFailed semantic interval timing request err)))))))"

definition parse_slots_skipped :: event_parser where
  "parse_slots_skipped object line =
     and_then (exact_fields object [''semantic'', ''count'', ''first_due_us'', ''last_due_us''] line) (\<lambda>_.
     and_then (string_field object ''semantic'' line) (\<lambda>semantic.
     and_then (u64_field object ''count'' line) (\<lambda>missed.
     and_then (u64_field object ''first_due_us'' line) (\<lambda>first.
     and_then (u64_field object ''last_due_us'' line) (\<lambda>latest.
       Inr (SlotsSkipped semantic missed first latest))))))"

definition parse_session_error :: event_parser where
  "parse_session_error object line =
     and_then (exact_fields object [''error''] line) (\<lambda>_.
     and_then (string_field object ''error'' line) (\<lambda>err. Inr (SessionErrorEvent err)))"

text \<open>Captures of earlier versions have no transition sequence.\<close>

definition parse_state_changed :: event_parser where
  "parse_state_changed object line =
     (let has_sequence = contains_key object ''transition_sequence'' in
      and_then (exact_fields object
        ((if has_sequence then [''transition_sequence''] else []) @
         [''state_version'', ''from'', ''to'', ''event'']) line) (\<lambda>_.
      and_then (u64_field object ''state_version'' line) (\<lambda>version.
      and_then (parse_runtime_state object ''from'' line) (\<lambda>before.
      and_then (parse_runtime_state object ''to'' line) (\<lambda>after.
      if version \<noteq> unat (state_version before) \<or> version \<noteq> unat (state_version after)
      then Inl (at_line line ''runtime state version does not match state payload'')
      else
      and_then (if has_sequence then u64_field object ''transition_sequence'' line else Inr 0) (\<lambda>n.
      and_then (string_field object ''event'' line) (\<lambda>s.
      and_then (parse_runtime_event s line) (\<lambda>event.
        Inr (RuntimeStateChanged (word_of_nat n) before after event)))))))))"

definition parse_shutdown_requested :: event_parser where
  "parse_shutdown_requested object line =
     and_then (exact_fields object [] line) (\<lambda>_. Inr ShutdownRequestedEvent)"

definition parse_session_stopped :: event_parser where
  "parse_session_stopped object line =
     and_then (exact_fields object [''offset_us''] line) (\<lambda>_.
     and_then (u64_field object ''offset_us'' line) (\<lambda>offset. Inr (SessionStopped offset)))"

definition parse_job_started :: event_parser where
  "parse_job_started object line =
     and_then (exact_fields object [''job_id'', ''model_version'', ''step_count''] line) (\<lambda>_.
     and_then (job_id_field object line) (\<lambda>job.
     and_then (u64_field object ''model_version'' line) (\<lambda>n.
     and_then (bounded 65535 ''model_version is out of range'' line n) (\<lambda>version.
     and_then (u64_field object ''step_count'' line) (\<lambda>steps.
       Inr (DiagnosticJobStartedEvent job (word_of_nat version) steps))))))"

definition parse_job_step :: event_parser where
  "parse_job_step object line =
     and_then (exact_fields object [''job_id'', ''step_sequence'', ''mode'', ''source'', ''status'', ''error'']
         line) (\<lambda>_.
     and_then (job_id_field object line) (\<lambda>job.
     and_then (u64_field object ''mode'' line) (\<lambda>n.
     and_then (bounded 255 ''mode is out of range'' line n) (\<lambda>m.
     and_then (map_err (at_line line) (validate_diagnostic_mode (word_of_nat m))) (\<lambda>_.
     and_then (optional_string_field object ''source'' line) (\<lambda>source.
     and_then (map_err (at_line line) (validate_diagnostic_source source)) (\<lambda>_.
     and_then (optional_string_field object ''error'' line) (\<lambda>err.
     and_then (map_err (at_line line) (validate_diagnostic_error err)) (\<lambda>_.
     and_then (u64_field object ''step_sequence'' line) (\<lambda>step.
     and_then (parse_diagnostic_job_step_status object line) (\<lambda>status.
       Inr (DiagnosticJobStep job step (word_of_nat m) source status err))))))))))))"

definition parse_job_completed :: event_parser where
  "parse_job_completed object line =
     and_then (exact_fields object [''job_id'', ''status''] line) (\<lambda>_.
     and_then (job_id_field object line) (\<lambda>job.
     and_then (parse_job_status object line) (\<lambda>status.
       if status \<noteq> JobCompleted \<and> status \<noteq> JobCompletedWithErrors
       then Inl (at_line line ''diagnostic job completion has non-completed status'')
       else Inr (DiagnosticJobCompletedEvent job status))))"

definition parse_job_failed :: event_parser where
  "parse_job_failed object line =
     and_then (exact_fields object [''job_id'', ''error''] line) (\<lambda>_.
     and_then (job_id_field object line) (\<lambda>job.
     and_then (string_field object ''error'' line) (\<lambda>err.
     and_then (map_err (at_line line) (validate_diagnostic_error (Some err))) (\<lambda>_.
       Inr (DiagnosticJobFailedEvent job err)))))"

definition parse_job_cancelled :: event_parser where
  "parse_job_cancelled object line =
     and_then (exact_fields object [''job_id''] line) (\<lambda>_.
     and_then (job_id_field object line) (\<lambda>job. Inr (DiagnosticJobCancelledEvent job)))"

definition parse_transport_outcome :: "string \<Rightarrow> string option \<Rightarrow> nat \<Rightarrow> string + dtc_transport_outcome" where
  "parse_transport_outcome name reason line =
     (if name = ''response'' \<and> reason = None then Inr Dtc_Response
      else if name = ''no_response'' \<and> reason = None then Inr Dtc_NoResponse
      else if name = ''malformed'' \<and> reason = None then Inr Dtc_Malformed
      else if name = ''error'' then
        and_then (ok_or (at_line line ''transport error requires a reason'') reason) (\<lambda>r.
        and_then (map_err (at_line line) (validate_diagnostic_error (Some r))) (\<lambda>_. Inr (Dtc_Error r)))
      else Inl (at_line line ''invalid DTC transport outcome''))"

definition parse_transport_observed :: event_parser where
  "parse_transport_observed object line =
     and_then (exact_fields object [''job_id'', ''step_sequence'', ''responder'', ''outcome'', ''reason''] line) (\<lambda>_.
     and_then (job_id_field object line) (\<lambda>job.
     and_then (optional_string_field object ''responder'' line) (\<lambda>responder.
     and_then (map_err (at_line line) (validate_diagnostic_source responder)) (\<lambda>_.
     and_then (string_field object ''outcome'' line) (\<lambda>name.
     and_then (optional_string_field object ''reason'' line) (\<lambda>reason.
     and_then (parse_transport_outcome name reason line) (\<lambda>outcome.
     and_then (u64_field object ''step_sequence'' line) (\<lambda>step.
       Inr (DtcTransportObserved job step responder outcome)))))))))"

definition parse_dtc_observation :: event_parser where
  "parse_dtc_observation object line =
     and_then (exact_fields object [''job_id'', ''step_sequence'', ''responder'', ''fact'', ''decoder'', ''provenance'']
         line) (\<lambda>_.
     and_then (job_id_field object line) (\<lambda>job.
     and_then (optional_string_field object ''responder'' line) (\<lambda>responder.
     and_then (map_err (at_line line) (validate_diagnostic_source responder)) (\<lambda>_.
     and_then (parse_dtc_fact (the (get_field object ''fact'')) line) (\<lambda>found.
     and_then (map_err (at_line line) (validate_dtc_fact found)) (\<lambda>_.
     and_then (string_field object ''decoder'' line) (\<lambda>decoder.
     and_then (map_err (at_line line) (validate_diagnostic_text ''decoder'' decoder 128)) (\<lambda>_.
     and_then (string_field object ''provenance'' line) (\<lambda>prov.
     and_then (map_err (at_line line) (validate_diagnostic_text ''provenance'' prov 256)) (\<lambda>_.
     and_then (u64_field object ''step_sequence'' line) (\<lambda>step.
       Inr (DtcObservationEvent job step responder found decoder prov))))))))))))"

text \<open>The parsers by the type of the event.\<close>

definition event_parsers :: "(string \<times> event_parser) list" where
  "event_parsers =
     [(''capture_started'', parse_capture_started),
      (''knowledge_context'', parse_knowledge_context),
      (''session_initialized'', parse_session_initialized),
      (''subscription_configured'', parse_subscription_configured),
      (''support_discovery'', parse_support_discovery),
      (''protocol_negotiation_observed'', parse_protocol_negotiation),
      (''responses_observed'', parse_responses_observed),
      (''read_succeeded'', parse_read_succeeded),
      (''read_failed'', parse_read_failed),
      (''slots_skipped'', parse_slots_skipped),
      (''session_error'', parse_session_error),
      (''runtime_state_changed'', parse_state_changed),
      (''shutdown_requested'', parse_shutdown_requested),
      (''session_stopped'', parse_session_stopped),
      (''diagnostic_job_started'', parse_job_started),
      (''diagnostic_job_step'', parse_job_step),
      (''diagnostic_job_completed'', parse_job_completed),
      (''diagnostic_job_failed'', parse_job_failed),
      (''diagnostic_job_cancelled'', parse_job_cancelled),
      (''dtc_transport_observed'', parse_transport_observed),
      (''dtc_observation'', parse_dtc_observation)]"

definition parse_event :: event_parser where
  "parse_event object line =
     and_then (string_field object ''type'' line) (\<lambda>t.
       case map_of event_parsers t of
         Some f \<Rightarrow> f object line
       | None \<Rightarrow> Inl (at_line line (''unknown capture event type '' @ debug_str t)))"

section \<open>The file\<close>

definition expect_schema :: "json_object \<Rightarrow> nat \<Rightarrow> string + unit" where
  "expect_schema object line =
     and_then (string_field object ''schema'' line) (\<lambda>s.
       if s \<noteq> SCHEMA then Inl (at_line line ''unsupported JSONL capture schema'')
       else and_then (integer_field object ''version'' line) (\<lambda>v.
         if v \<noteq> VERSION then Inl (at_line line ''unsupported JSONL capture version'') else Inr ()))"

datatype capture_status = Complete | Partial

record parsed_capture =
  pc_events :: "capture_event list"
  pc_status :: capture_status

record read_state =
  rd_expected :: nat
  rd_last_offset :: "nat option"
  rd_has_context :: bool
  rd_stopped :: bool

definition read_start :: read_state where
  "read_start = \<lparr>rd_expected = 0, rd_last_offset = None, rd_has_context = False, rd_stopped = False\<rparr>"

text \<open>The checks of one event against what came before.\<close>

definition check_context :: "nat \<Rightarrow> capture_event \<Rightarrow> read_state \<Rightarrow> string + read_state" where
  "check_context line event st =
     (case event of
        KnowledgeContext _ \<Rightarrow>
          if rd_has_context st then Inl (at_line line ''duplicate knowledge_context event'')
          else Inr (st\<lparr>rd_has_context := True\<rparr>)
      | _ \<Rightarrow> Inr st)"

definition check_offset :: "nat \<Rightarrow> capture_event \<Rightarrow> read_state \<Rightarrow> string + read_state" where
  "check_offset line event st =
     (case event of
        ResponsesObserved (Some offset) _ _ _ _ _ \<Rightarrow>
          (case rd_last_offset st of
             Some latest \<Rightarrow> if offset < latest then Inl (at_line line ''non-monotonic response offset'')
                            else Inr (st\<lparr>rd_last_offset := Some offset\<rparr>)
           | None \<Rightarrow> Inr (st\<lparr>rd_last_offset := Some offset\<rparr>))
      | _ \<Rightarrow> Inr st)"

definition check_stopped :: "nat \<Rightarrow> capture_event \<Rightarrow> read_state \<Rightarrow> string + read_state" where
  "check_stopped line event st =
     (case event of
        SessionStopped _ \<Rightarrow>
          if rd_stopped st then Inl (at_line line ''duplicate session_stopped event'')
          else Inr (st\<lparr>rd_stopped := True\<rparr>)
      | RuntimeStateChanged _ _ _ _ \<Rightarrow> Inr st
      | _ \<Rightarrow> if rd_stopped st then Inl (at_line line ''event follows session_stopped'') else Inr st)"

definition check_event :: "nat \<Rightarrow> capture_event \<Rightarrow> read_state \<Rightarrow> string + read_state" where
  "check_event line event st =
     and_then (check_context line event st) (\<lambda>st.
     and_then (check_offset line event st) (check_stopped line event))"

definition read_line :: "nat \<Rightarrow> string \<Rightarrow> read_state \<Rightarrow> string + capture_event \<times> read_state" where
  "read_line line text st =
     (if trim text = [] then Inl (at_line line ''empty JSONL record'')
      else
        and_then (parse_object text line) (\<lambda>object.
        and_then (expect_schema object line) (\<lambda>_.
        and_then (u64_field object ''sequence'' line) (\<lambda>sequence.
        if sequence \<noteq> rd_expected st
        then Inl (at_line line (''sequence '' @ show_nat sequence @ '' expected '' @ show_nat (rd_expected st)))
        else if 2 ^ 64 \<le> rd_expected st + 1 then Inl (at_line line ''sequence exhausted'')
        else
        and_then (parse_event object line) (\<lambda>event.
        and_then (check_event line event (st\<lparr>rd_expected := rd_expected st + 1\<rparr>)) (\<lambda>st.
          Inr (event, st)))))))"

fun read_lines :: "nat \<Rightarrow> string list \<Rightarrow> read_state \<Rightarrow> string + capture_event list \<times> read_state" where
  "read_lines line [] st = Inr ([], st)"
| "read_lines line (text # texts) st =
     and_then (read_line line text st) (\<lambda>(event, st).
     and_then (read_lines (line + 1) texts st) (\<lambda>(events, st). Inr (event # events, st)))"

definition read_header :: "string \<Rightarrow> string + unit" where
  "read_header text =
     and_then (parse_object text 1) (\<lambda>object.
     and_then (expect_schema object 1) (\<lambda>_.
     and_then (string_field object ''type'' 1) (\<lambda>t.
       if t \<noteq> ''header'' \<or> length object \<noteq> 3 then Inl ''line 1: malformed JSONL capture header''
       else Inr ())))"

definition read_capture :: "string \<Rightarrow> string + parsed_capture" where
  "read_capture contents =
     (case rust_lines contents of
        [] \<Rightarrow> Inl ''JSONL capture is empty''
      | first # rest \<Rightarrow>
          and_then (read_header first) (\<lambda>_.
          and_then (read_lines 2 rest read_start) (\<lambda>(events, st).
            Inr \<lparr>pc_events = events, pc_status = (if rd_stopped st then Complete else Partial)\<rparr>)))"

end
