(* ===== verification/Capture_Json_Text.thy ===== *)
theory Capture_Json_Text
  imports Capture_Json
begin

text \<open>
  Facts about the JSON of the capture files: the fuel of the parser is always enough, and the
  parser inverts the printer \<open>render\<close>, the compact JSON the writer of the capture produces.
\<close>

section \<open>Fuel\<close>

lemma and_then_cong: "(\<And>a. r = Inr a \<Longrightarrow> f a = g a) \<Longrightarrow> and_then r f = and_then r g"
  by (cases r) auto

lemma skip_shorter [simp]: "length (ps_rest (skip_while P p)) \<le> length (ps_rest p)"
  by (simp add: skip_while_def)

lemma whitespace_shorter [simp]: "length (ps_rest (whitespace p)) \<le> length (ps_rest p)"
  by (simp add: whitespace_def)

lemma consume_shorter:
  "consume c p = (b, q) \<Longrightarrow> length (ps_rest q) \<le> length (ps_rest p)"
  "consume c p = (True, q) \<Longrightarrow> length (ps_rest q) < length (ps_rest p)"
  by (auto simp: consume_def peek_Some split: if_splits)

lemma expect_shorter: "expect c p = Inr q \<Longrightarrow> length (ps_rest q) < length (ps_rest p)"
  using consume_shorter(2) [of c p q] by (auto simp: expect_def split: prod.splits if_splits)

lemma string_loop_shorter: "string_loop acc p = Inr (s, q) \<Longrightarrow> length (ps_rest q) < length (ps_rest p)"
proof (induction acc p rule: string_loop.induct)
  case (1 acc p)
  show ?case
    using 1(3) 1(1,2)
    by (subst (asm) string_loop.simps)
      (fastforce split: option.splits if_splits sum.splits dest: take_byte_shorter escape_sequence_shorter)
qed

lemma json_string_shorter: "json_string p = Inr (s, q) \<Longrightarrow> length (ps_rest q) < length (ps_rest p)"
  using expect_shorter string_loop_shorter by (fastforce simp: json_string_def)

lemma some_digits_shorter: "some_digits p = Inr q \<Longrightarrow> length (ps_rest q) < length (ps_rest p)"
  by (cases "ps_rest p")
    (auto simp: some_digits_def digit_next_def skip_while_def peek_def split: if_splits)

lemma consume_snd_shorter: "length (ps_rest (snd (consume c p))) \<le> length (ps_rest p)"
  using consume_shorter(1) by (metis prod.collapse)

lemma exponent_part_shorter:
  assumes "exponent_part p = Inr q"
  shows "length (ps_rest q) \<le> length (ps_rest p)"
proof (cases "q = p")
  case False
  define a where "a = snd (consume (CHR ''+'') (advance 1 p))"
  have "some_digits a = Inr q \<or> some_digits (snd (consume (CHR ''-'') a)) = Inr q"
    using assms False by (auto simp: exponent_part_def Let_def a_def split: prod.splits if_splits)
  then have "length (ps_rest q) \<le> length (ps_rest a)"
    using some_digits_shorter consume_snd_shorter [of "CHR ''-''" a] by fastforce
  also have "\<dots> \<le> length (ps_rest (advance 1 p))" unfolding a_def by (rule consume_snd_shorter)
  also have "\<dots> \<le> length (ps_rest p)" by simp
  finally show ?thesis .
qed simp

lemma json_number_shorter: "json_number p = Inr (v, q) \<Longrightarrow> length (ps_rest q) < length (ps_rest p)"
proof -
  assume "json_number p = Inr (v, q)"
  then obtain a r where w: "whole_part (snd (consume (CHR ''-'') p)) = Inr a" and f: "fraction_part a = Inr r"
      and e: "exponent_part r = Inr q"
    by (auto simp: json_number_def Let_def split: option.splits)
  have "length (ps_rest a) < length (ps_rest (snd (consume (CHR ''-'') p)))"
    using w some_digits_shorter by (auto simp: whole_part_def peek_Some split: if_splits)
  moreover have "length (ps_rest (snd (consume (CHR ''-'') p))) \<le> length (ps_rest p)"
    using consume_shorter(1) by (metis prod.collapse)
  moreover have "length (ps_rest r) \<le> length (ps_rest a)"
    using f consume_shorter(1) [of "CHR ''.''" a] some_digits_shorter
    by (fastforce simp: fraction_part_def split: prod.splits if_splits)
  moreover have "length (ps_rest q) \<le> length (ps_rest r)"
    by (rule exponent_part_shorter [OF e])
  ultimately show ?thesis by linarith
qed

lemma literal_shorter:
  "literal t v p = Inr (w, q) \<Longrightarrow> t \<noteq> [] \<Longrightarrow> length (ps_rest q) < length (ps_rest p)"
  by (auto simp: literal_def starts_with_iff split: if_splits)

text \<open>The two shapes of a value that holds values.\<close>

lemma json_value_cases:
  assumes "json_value (Suc n) p = Inr (v, q)"
  shows "length (ps_rest q) < length (ps_rest p) \<or>
    (\<exists>r. length (ps_rest r) < length (ps_rest p) \<and> (json_members n [] r = Inr (v, q) \<or> json_elements n [] r = Inr (v, q)))"
proof -
  let ?p = "whitespace p"
  have ws: "length (ps_rest ?p) \<le> length (ps_rest p)" by simp
  obtain c where c: "peek ?p = Some c" using assms by (auto simp: Let_def split: option.splits)
  have open_close: "length (ps_rest b) < length (ps_rest ?p)"
    if "expect x ?p = Inr a" and "b = snd (consume y (whitespace a))" for x y a b
    using expect_shorter [OF that(1)] consume_snd_shorter [of y "whitespace a"] whitespace_shorter [of a]
    unfolding that(2) by linarith
  consider "json_string ?p = Inr (the (case v of JString s \<Rightarrow> Some s | _ \<Rightarrow> None), q)"
    | "json_number ?p = Inr (v, q)" | t w where "literal t w ?p = Inr (v, q)" "t \<noteq> []"
    | x y a where "expect x ?p = Inr a" "q = snd (consume y (whitespace a))"
    | x y a where "expect x ?p = Inr a" "json_members n [] (snd (consume y (whitespace a))) = Inr (v, q)"
    | x y a where "expect x ?p = Inr a" "json_elements n [] (snd (consume y (whitespace a))) = Inr (v, q)"
    using assms c by (auto simp: Let_def split_beta split: if_splits)
  then show ?thesis
  proof cases
    case 1
    from json_string_shorter [OF this] show ?thesis using ws by linarith
  next
    case 2
    from json_number_shorter [OF this] show ?thesis using ws by linarith
  next
    case 3
    from literal_shorter [OF this] show ?thesis using ws by linarith
  next
    case 4
    from open_close [OF this] show ?thesis using ws by linarith
  next
    case 5
    then show ?thesis using open_close [OF 5(1) refl, of y] ws less_le_trans by blast
  next
    case 6
    then show ?thesis using open_close [OF 6(1) refl, of y] ws less_le_trans by blast
  qed
qed

lemma json_members_cases:
  assumes "json_members (Suc n) fs p = Inr (v, q)"
  obtains key r w s t where "length (ps_rest r) < length (ps_rest p)" and "json_value n r = Inr (w, s)"
    and "t = snd (consume (CHR ''}'') (whitespace s))"
    and "if fst (consume (CHR ''}'') (whitespace s)) then q = t \<and> v = JObject (fs @ [(key, w)])
         else \<exists>u. expect (CHR '','') t = Inr u \<and> json_members n (fs @ [(key, w)]) u = Inr (v, q)"
proof -
  obtain key a r w s where a: "json_string (whitespace p) = Inr (key, a)"
      and r: "expect (CHR '':'') (whitespace a) = Inr r" and w: "json_value n r = Inr (w, s)"
      and rest: "let t = snd (consume (CHR ''}'') (whitespace s)) in
         if fst (consume (CHR ''}'') (whitespace s)) then q = t \<and> v = JObject (fs @ [(key, w)])
         else \<exists>u. expect (CHR '','') t = Inr u \<and> json_members n (fs @ [(key, w)]) u = Inr (v, q)"
    using assms by (auto simp: Let_def split_beta split: if_splits)
  have "length (ps_rest r) < length (ps_rest p)"
    using json_string_shorter [OF a] expect_shorter [OF r] whitespace_shorter [of a] whitespace_shorter [of p]
    by linarith
  then show ?thesis using w refl rest unfolding Let_def by (rule that)
qed

lemma values_shorter:
  "json_value n p = Inr (v, q) \<Longrightarrow> length (ps_rest q) < length (ps_rest p)"
  "json_members n fs p = Inr (v, q) \<Longrightarrow> length (ps_rest q) < length (ps_rest p)"
  "json_elements n vs p = Inr (v, q) \<Longrightarrow> length (ps_rest q) < length (ps_rest p)"
proof (induction n arbitrary: p fs vs v q)
  case (Suc n)
  {
    case 1
    then show ?case using json_value_cases [OF 1] Suc.IH by (meson less_trans)
  next
    case 2
    obtain key r w s t where st: "length (ps_rest r) < length (ps_rest p)" "json_value n r = Inr (w, s)"
        "t = snd (consume (CHR ''}'') (whitespace s))"
        "if fst (consume (CHR ''}'') (whitespace s)) then q = t \<and> v = JObject (fs @ [(key, w)])
         else \<exists>u. expect (CHR '','') t = Inr u \<and> json_members n (fs @ [(key, w)]) u = Inr (v, q)"
      by (rule json_members_cases [OF 2])
    have "length (ps_rest t) < length (ps_rest p)"
      using Suc.IH(1) [OF st(2)] consume_snd_shorter [of "CHR ''}''" "whitespace s"] whitespace_shorter [of s] st(1)
      unfolding st(3) by linarith
    moreover have "length (ps_rest q) \<le> length (ps_rest t)"
      using st(4) Suc.IH(2) expect_shorter by (fastforce split: if_splits)
    ultimately show ?case by linarith
  next
    case 3
    then obtain w r where st: "json_value n p = Inr (w, r)"
        "let t = snd (consume (CHR '']'') (whitespace r)) in
         if fst (consume (CHR '']'') (whitespace r)) then q = t
         else \<exists>u. expect (CHR '','') t = Inr u \<and> json_elements n (vs @ [w]) u = Inr (v, q)"
      by (auto simp: Let_def split_beta split: if_splits)
    define t where "t = snd (consume (CHR '']'') (whitespace r))"
    have "length (ps_rest t) < length (ps_rest p)"
      using Suc.IH(1) [OF st(1)] consume_snd_shorter [of "CHR '']''" "whitespace r"] whitespace_shorter [of r]
      unfolding t_def by linarith
    moreover have "length (ps_rest q) \<le> length (ps_rest t)"
      using st(2) [unfolded Let_def, folded t_def] Suc.IH(3) expect_shorter by (fastforce split: if_splits)
    ultimately show ?case by linarith
  }
qed simp_all

text \<open>Twice the unread bytes, and one or two more, is enough fuel: more never changes the result.\<close>

lemma fuel_enough:
  "2 * length (ps_rest p) + 1 \<le> n \<Longrightarrow> 2 * length (ps_rest p) + 1 \<le> m \<Longrightarrow> json_value n p = json_value m p"
  "2 * length (ps_rest p) + 2 \<le> n \<Longrightarrow> 2 * length (ps_rest p) + 2 \<le> m \<Longrightarrow>
     json_members n fs p = json_members m fs p"
  "2 * length (ps_rest p) + 2 \<le> n \<Longrightarrow> 2 * length (ps_rest p) + 2 \<le> m \<Longrightarrow>
     json_elements n vs p = json_elements m vs p"
proof (induction n arbitrary: m p fs vs)
  case (Suc n)
  {
    case 1
    then obtain k where k: "m = Suc k" by (cases m) auto
    let ?p = "whitespace p"
    have less: "2 * length (ps_rest (snd (consume y (whitespace a)))) + 2 \<le> n"
      "2 * length (ps_rest (snd (consume y (whitespace a)))) + 2 \<le> k"
      if "expect x ?p = Inr a" for x y a
      using expect_shorter [OF that] consume_snd_shorter [of y "whitespace a"] whitespace_shorter [of a]
        whitespace_shorter [of p] 1 k by linarith+
    have members: "json_members n [] (snd (consume y (whitespace a))) = json_members k [] (snd (consume y (whitespace a)))"
      and elements: "json_elements n [] (snd (consume y (whitespace a))) = json_elements k [] (snd (consume y (whitespace a)))"
      if "expect x ?p = Inr a" for x y a
      using less [OF that] by (rule Suc.IH(2), rule Suc.IH(3))
    show ?case
      unfolding k json_value.simps Let_def split_beta
      by (intro option.case_cong refl if_cong and_then_cong) (simp_all add: members elements)
  next
    case 2
    then obtain k where k: "m = Suc k" by (cases m) auto
    have inner: "json_value n r = json_value k r"
      and outer: "json_value k r = Inr (w, s) \<Longrightarrow> expect (CHR '','') (snd (consume y (whitespace s))) = Inr u \<Longrightarrow>
        json_members n gs u = json_members k gs u"
      if a: "json_string (whitespace p) = Inr (key, a)" and r: "expect (CHR '':'') (whitespace a) = Inr r"
      for key a r w s y u gs
    proof -
      have l: "length (ps_rest r) + 2 \<le> length (ps_rest p)"
        using json_string_shorter [OF a] expect_shorter [OF r] whitespace_shorter [of a] whitespace_shorter [of p]
        by linarith
      show "json_value n r = json_value k r" using l 2 k by (intro Suc.IH(1)) linarith+
      assume s: "json_value k r = Inr (w, s)" and u: "expect (CHR '','') (snd (consume y (whitespace s))) = Inr u"
      have "length (ps_rest u) + 2 \<le> length (ps_rest p)"
        using values_shorter(1) [OF s] expect_shorter [OF u] consume_snd_shorter [of y "whitespace s"]
          whitespace_shorter [of s] l by linarith
      then show "json_members n gs u = json_members k gs u" using 2 k by (intro Suc.IH(2)) linarith+
    qed
    show ?case
      unfolding k json_members.simps Let_def split_beta
      by (intro and_then_cong) (auto simp: inner outer intro!: and_then_cong)
  next
    case 3
    then obtain k where k: "m = Suc k" by (cases m) auto
    have inner: "json_value n p = json_value k p" using 3 k by (intro Suc.IH(1)) linarith+
    have outer: "json_elements n ws u = json_elements k ws u"
      if s: "json_value k p = Inr (w, s)" and u: "expect (CHR '','') (snd (consume y (whitespace s))) = Inr u"
      for w s y u ws
    proof -
      have "length (ps_rest u) + 2 \<le> length (ps_rest p)"
        using values_shorter(1) [OF s] expect_shorter [OF u] consume_snd_shorter [of y "whitespace s"]
          whitespace_shorter [of s] by linarith
      then show ?thesis using 3 k by (intro Suc.IH(3)) linarith+
    qed
    show ?case
      unfolding k json_elements.simps Let_def split_beta inner
      by (intro and_then_cong) (auto simp: outer intro!: and_then_cong)
  }
qed simp_all

section \<open>The parser inverts the printer\<close>

definition comma_separated :: "string list \<Rightarrow> string" where
  "comma_separated = join '',''"

fun render :: "json \<Rightarrow> string" where
  "render JNull = ''null''"
| "render (JBool b) = (if b then ''true'' else ''false'')"
| "render (JNumber t) = t"
| "render (JString s) = string_text s"
| "render (JObject fs) = ''{'' @ comma_separated (map (\<lambda>(k, v). string_text k @ '':'' @ render v) fs) @ ''}''"
| "render (JArray vs) = ''['' @ comma_separated (map render vs) @ '']''"

definition number_ok :: "string \<Rightarrow> bool" where
  "number_ok t \<longleftrightarrow> (\<exists>sg w fr x. t = number_parts sg w fr \<and> parts_ok sg w fr \<and> parse_f64 t = Some (Some x))"

fun json_ok :: "json \<Rightarrow> bool" where
  "json_ok (JNumber t) = number_ok t"
| "json_ok (JObject fs) = (distinct (map fst fs) \<and> list_all (\<lambda>(k, v). json_ok v) fs)"
| "json_ok (JArray vs) = list_all json_ok vs"
| "json_ok v = True"

text \<open>What may follow a value.\<close>

definition value_ends :: "string \<Rightarrow> bool" where
  "value_ends s \<longleftrightarrow> s = [] \<or> hd s \<in> {CHR '','', CHR ''}'', CHR '']''}"

lemma advance_advance [simp]: "advance m (advance n p) = advance (n + m) p"
  by (simp add: advance_def add.commute)

lemma advance_0 [simp]: "advance 0 p = p"
  by (simp add: advance_def)

lemma expect_here: "ps_rest p = c # s \<Longrightarrow> expect c p = Inr (advance 1 p)"
  by (simp add: expect_def consume_def peek_def)

lemma whitespace_none: "ps_rest p = c # s \<Longrightarrow> \<not> is_json_space c \<Longrightarrow> whitespace p = p"
  by (simp add: whitespace_def skip_while_def)

lemma consume_here: "ps_rest p = c # s \<Longrightarrow> consume c p = (True, advance 1 p)"
  by (simp add: consume_def peek_def)

lemma take_byte_here: "ps_rest p = c # s \<Longrightarrow> take_byte p = Some (c, advance 1 p)"
  by (simp add: take_byte_def peek_def)

lemma code_point_less [simp]: "code_point c < 256"
  by (simp add: code_point_def)

lemma four_digits:
  assumes "ps_rest p = a # b # c # d # s" and "hex_value a = Some i" and "hex_value b = Some j"
    and "hex_value c = Some k" and "hex_value d = Some l"
  shows "unicode_digits 4 0 p = Inr (((i * 16 + j) * 16 + k) * 16 + l, advance 4 p)"
  using assms by (simp add: numeral_eq_Suc take_byte_here)

lemma hex_value_fmt:
  assumes "n < 65536" and "ps_rest p = fmt_04X (word_of_nat n) @ s"
  shows "unicode_digits 4 0 p = Inr (n, advance 4 p)"
proof -
  have n: "unat (word_of_nat n :: u16) = n" using assms(1) by (simp add: unat_u16_of_nat)
  have small: "n div 4096 < 16" using assms(1) by (simp add: less_mult_imp_div_less)
  have sum: "((n div 4096 * 16 + n div 256 mod 16) * 16 + n div 16 mod 16) * 16 + n mod 16 = n"
  proof -
    have "n div 4096 = n div 256 div 16" "n div 256 = n div 16 div 16"
      by (simp_all add: div_mult2_eq [symmetric])
    then show ?thesis by (simp only: div_mult_mod_eq)
  qed
  have "ps_rest p = hex_digit (n div 4096) # hex_digit (n div 256 mod 16) # hex_digit (n div 16 mod 16) # hex_digit (n mod 16) # s"
    using assms(2) by (simp add: fmt_04X_def n)
  then have "unicode_digits 4 0 p =
      Inr (((n div 4096 * 16 + n div 256 mod 16) * 16 + n div 16 mod 16) * 16 + n mod 16, advance 4 p)"
    by (rule four_digits) (simp_all add: small)
  then show ?thesis by (simp only: sum)
qed

lemma escape_here:
  assumes "ps_rest p = CHR ''u'' # fmt_04X (word_of_nat n) @ s" and "n < 0xD800"
  shows "escape_sequence p = Inr (utf8 n, advance 5 p)"
  using assms hex_value_fmt [of n "advance 1 p" s]
  by (simp add: escape_sequence_def unicode_escape_char_def take_byte_here)

lemma utf8_char: "code_point c < 0x80 \<Longrightarrow> utf8 (code_point c) = [c]"
  by (simp add: utf8_def code_point_def)

lemma utf8_control:
  assumes "0x80 \<le> code_point d" and "code_point d \<le> 0x9F"
  shows "utf8 (code_point d) = [CHR 0xC2, d]"
proof -
  obtain r where r: "code_point d = 128 + r" "r < 64"
    using assms by (intro that [of "code_point d - 128"]) simp_all
  then have arith: "code_point d div 64 = 2" "128 + code_point d mod 64 = code_point d"
    using mod_mult_self1 [of r 2 64] by (simp_all add: add.commute)
  have "(char_of (194 :: nat) :: char) = CHR 0xC2" by (simp add: char_of_eq_iff)
  moreover have "char_of (code_point d) = d" by (simp add: code_point_def)
  ultimately show ?thesis
    using assms by (simp add: utf8_def arith)
qed

text \<open>One character of a string, as written and read back.\<close>

lemma string_loop_plain:
  assumes "ps_rest p = c # s" and "c \<noteq> quote" and "c \<noteq> reverse_solidus" and "0x20 \<le> code_point c"
  shows "string_loop acc p = string_loop (acc @ [c]) (advance 1 p)"
  using assms by (subst string_loop.simps) (simp add: take_byte_here)

lemma string_loop_escape:
  assumes "ps_rest p = reverse_solidus # s" and "escape_sequence (advance 1 p) = Inr (t, q)"
  shows "string_loop acc p = string_loop (acc @ t) q"
  using assms by (subst string_loop.simps) (simp add: take_byte_here)

definition short_escapes :: "(char \<times> char) set" where
  "short_escapes = {(quote, quote), (reverse_solidus, reverse_solidus), (CHR ''n'', CHR 0x0A), (CHR ''r'', CHR 0x0D),
      (CHR ''t'', CHR 0x09), (CHR ''b'', CHR 0x08), (CHR ''f'', CHR 0x0C)}"

lemma simple_escape:
  assumes "ps_rest p = reverse_solidus # e # s"
    and "(e, c) \<in> short_escapes"
  shows "string_loop acc p = string_loop (acc @ [c]) (advance 2 p)"
proof -
  have "escape_sequence (advance 1 p) = Inr ([c], advance 2 p)"
    using assms by (auto simp: short_escapes_def escape_sequence_def take_byte_def peek_def)
  then show ?thesis by (rule string_loop_escape [OF assms(1)])
qed

lemma unicode_written:
  assumes "ps_rest p = reverse_solidus # CHR ''u'' # fmt_04X (word_of_nat n) @ s" and "n < 0xD800"
  shows "string_loop acc p = string_loop (acc @ utf8 n) (advance 6 p)"
proof -
  have "escape_sequence (advance 1 p) = Inr (utf8 n, advance 5 (advance 1 p))"
    by (rule escape_here) (simp_all add: assms)
  from string_loop_escape [OF assms(1) this] show ?thesis by simp
qed

lemma length_fmt_04X [simp]: "length (fmt_04X w) = 4"
  by (simp add: fmt_04X_def)

lemma json_char_read:
  assumes "ps_rest p = json_char c @ s"
  shows "string_loop acc p = string_loop (acc @ [c]) (advance (length (json_char c)) p)"
proof (cases "\<exists>e. (e, c) \<in> short_escapes")
  case True
  then obtain e where e: "(e, c) \<in> short_escapes" by blast
  then have short: "json_char c = [reverse_solidus, e]" by (auto simp: short_escapes_def json_char_def)
  then have "ps_rest p = reverse_solidus # e # s" using assms by simp
  from simple_escape [OF this e] show ?thesis by (simp add: short numeral_2_eq_2)
next
  case False
  then have plain: "c \<notin> {quote, reverse_solidus, CHR 0x0A, CHR 0x0D, CHR 0x09, CHR 0x08, CHR 0x0C}"
    unfolding short_escapes_def by auto
  show ?thesis
  proof (cases "is_control c")
    case True
    then have long: "json_char c = reverse_solidus # CHR ''u'' # fmt_04X (word_of_nat (code_point c))"
      using plain by (simp add: json_char_def)
    have small: "code_point c < 0x80" using True by (auto simp: is_control_def)
    have "string_loop acc p = string_loop (acc @ utf8 (code_point c)) (advance 6 p)"
      by (rule unicode_written [where s = s]) (use assms long small in simp_all)
    then show ?thesis by (simp add: utf8_char [OF small] long)
  next
    case False
    then have "json_char c = [c]" using plain by (simp add: json_char_def)
    then show ?thesis
      using assms string_loop_plain [of p c s acc] plain False by (simp add: is_control_def)
  qed
qed

lemma json_chars_read:
  "ps_rest p = json_chars t @ s \<Longrightarrow>
     string_loop acc p = string_loop (acc @ t) (advance (length (json_chars t)) p)"
proof (induction t arbitrary: acc p rule: json_chars.induct)
  case (2 c)
  then show ?case using json_char_read [of p c s acc] by simp
next
  case (3 c d cs)
  show ?case
  proof (cases "c = CHR 0xC2 \<and> 0x80 \<le> code_point d \<and> code_point d \<le> 0x9F")
    case True
    let ?q = "advance 6 p"
    have "string_loop acc p = string_loop (acc @ utf8 (code_point d)) ?q"
      by (rule unicode_written [where s = "json_chars cs @ s"]) (use True 3(3) in simp_all)
    also have "\<dots> = string_loop (acc @ [c, d]) ?q" using True by (simp add: utf8_control)
    also have "\<dots> = string_loop ((acc @ [c, d]) @ cs) (advance (length (json_chars cs)) ?q)"
      by (rule 3(1) [OF True]) (use True 3(3) in simp)
    finally show ?thesis using True by simp
  next
    case False
    let ?q = "advance (length (json_char c)) p"
    have shape: "json_chars (c # d # cs) = json_char c @ json_chars (d # cs)"
      using False by (subst json_chars.simps) (rule if_not_P)
    have rest: "ps_rest p = json_char c @ json_chars (d # cs) @ s" using 3(3) by (simp only: shape append_assoc)
    have "string_loop acc p = string_loop (acc @ [c]) ?q" by (rule json_char_read [OF rest])
    also have "\<dots> = string_loop ((acc @ [c]) @ d # cs) (advance (length (json_chars (d # cs))) ?q)"
      by (rule 3(2) [OF False]) (simp add: rest)
    finally show ?thesis by (simp only: shape length_append advance_advance append_assoc append.simps)
  qed
qed simp

lemma json_string_read:
  assumes "ps_rest p = string_text t @ s"
  shows "json_string p = Inr (t, advance (length (string_text t)) p)"
proof -
  have p: "ps_rest p = quote # json_chars t @ quote # s" using assms by (simp add: string_text_def)
  let ?q = "advance 1 p" and ?r = "advance (length (json_chars t)) (advance 1 p)"
  have "string_loop [] ?q = string_loop ([] @ t) ?r"
    by (rule json_chars_read [where s = "quote # s"]) (simp add: p)
  also have "\<dots> = Inr (t, advance 1 ?r)"
    using p by (subst string_loop.simps) (simp add: take_byte_here)
  finally show ?thesis using expect_here [OF p] by (simp add: json_string_def string_text_def)
qed

section \<open>Numbers\<close>

lemma digits_read:
  assumes "ps_rest p = w @ s" and "all_digits w" and "w \<noteq> []" and "s = [] \<or> \<not> is_ascii_digit (hd s)"
  shows "some_digits p = Inr (advance (length w) p)"
proof -
  obtain c cs where w: "w = c # cs" using assms(3) by (cases w) auto
  have all: "\<forall>c \<in> set w. is_ascii_digit c" using assms(2) by (simp add: all_digits_def is_ascii_digit_def list_all_iff)
  have "takeWhile is_ascii_digit s = []" using assms(4) by (cases s) auto
  then have "takeWhile is_ascii_digit (w @ s) = w" using all by (simp add: takeWhile_append)
  then show ?thesis
    using all by (simp add: some_digits_def digit_next_def peek_def skip_while_def assms(1) w)
qed

lemma value_ends_plain:
  assumes "value_ends s"
  shows "s = [] \<or> \<not> is_ascii_digit (hd s)" and "s = [] \<or> hd s \<notin> {CHR ''.'', CHR ''e'', CHR ''E''}"
    and "s = [] \<or> \<not> is_json_space (hd s)"
  using assms by (auto simp: value_ends_def is_ascii_digit_def dec_value_def code_point_def is_json_space_def)

lemma consume_not: "ps_rest p = s \<Longrightarrow> s = [] \<or> hd s \<noteq> c \<Longrightarrow> consume c p = (False, p)"
  by (cases s) (auto simp: consume_def peek_def)

lemma whole_part_read:
  assumes "ps_rest p = w @ s" and "all_digits w" and "w \<noteq> []" and "w = ''0'' \<or> hd w \<noteq> CHR ''0''"
    and "s = [] \<or> \<not> is_ascii_digit (hd s)"
  shows "whole_part p = Inr (advance (length w) p)"
proof (cases "w = ''0''")
  case True
  then show ?thesis using assms(1) by (simp add: whole_part_def peek_def)
next
  case False
  have "peek p \<noteq> Some (CHR ''0'')" using assms(1,3,4) False by (cases w) (auto simp: peek_def)
  then show ?thesis using digits_read [OF assms(1-3,5)] by (simp add: whole_part_def)
qed

lemma json_number_read:
  assumes "ps_rest p = t @ s" and "number_ok t" and "value_ends s"
  shows "json_number p = Inr (JNumber t, advance (length t) p)"
proof -
  obtain sg w fr x where t: "t = number_parts sg w fr" "parts_ok sg w fr" and x: "parse_f64 t = Some (Some x)"
    using assms(2) by (auto simp: number_ok_def)
  note ok = t(2) [unfolded parts_ok_def]
  note ends = value_ends_plain [OF assms(3)]
  let ?f = "if fr = [] then [] else CHR ''.'' # fr"
  let ?a = "advance (length sg) p" and ?b = "advance (length w) (advance (length sg) p)"
  let ?c = "advance (length ?f) ?b"
  have p: "ps_rest p = sg @ w @ ?f @ s" using assms(1) by (simp add: t(1) number_parts_def)
  have a: "ps_rest ?a = w @ ?f @ s" and b: "ps_rest ?b = ?f @ s" and c: "ps_rest ?c = s" by (simp_all add: p)
  have w0: "w \<noteq> []" "hd w \<noteq> CHR ''-''"
    using ok all_digits_plain(4) [of w] by (metis hd_in_set)+
  have sign: "snd (consume (CHR ''-'') p) = ?a"
  proof (cases "sg = []")
    case True
    then have "consume (CHR ''-'') p = (False, p)" using w0 by (intro consume_not [OF p]) simp
    then show ?thesis using True by simp
  next
    case False
    then show ?thesis using ok p by (auto simp: consume_def peek_def)
  qed
  have nodigit: "\<not> is_ascii_digit (CHR ''.'')" by (simp add: is_ascii_digit_def dec_value_def code_point_def)
  have whole: "whole_part ?a = Inr ?b"
  proof (rule whole_part_read [OF a])
    show "?f @ s = [] \<or> \<not> is_ascii_digit (hd (?f @ s))" using ends(1) nodigit by simp
  qed (use ok in auto)
  have frac: "fraction_part ?b = Inr ?c"
  proof (cases "fr = []")
    case True
    then have "consume (CHR ''.'') ?b = (False, ?b)" using ends(2) by (intro consume_not [OF b]) auto
    then show ?thesis using True by (simp add: fraction_part_def)
  next
    case False
    then have "consume (CHR ''.'') ?b = (True, advance 1 ?b)" using b by (simp add: consume_def peek_def)
    moreover have "ps_rest (advance 1 ?b) = fr @ s" unfolding advance_simps(1) [of 1 ?b] b using False by simp
    then have "some_digits (advance 1 ?b) = Inr (advance (length fr) (advance 1 ?b))"
      by (rule digits_read) (use False ok ends(1) in auto)
    ultimately show ?thesis using False by (simp add: fraction_part_def)
  qed
  have expo: "exponent_part ?c = Inr ?c"
    using c ends(2) by (cases s) (auto simp: exponent_part_def peek_def)
  have len: "length t = length sg + (length w + length ?f)" by (simp add: t(1) number_parts_def)
  have q: "?c = advance (length t) p" by (simp only: advance_advance len add.assoc)
  have "take (ps_position ?c - ps_position p) (ps_rest p) = t"
    unfolding q by (simp add: assms(1))
  then show ?thesis
    unfolding json_number_def sign whole frac expo and_then.simps Let_def using x by (simp only: q option.case)
qed

section \<open>Values\<close>

definition reads :: "json \<Rightarrow> bool" where
  "reads v \<longleftrightarrow> (\<forall>n p s. ps_rest p = render v @ s \<longrightarrow> value_ends s \<longrightarrow> 2 * length (ps_rest p) + 1 \<le> n \<longrightarrow>
     json_value n p = Inr (v, advance (length (render v)) p))"

lemma readsD:
  "reads v \<Longrightarrow> ps_rest p = render v @ s \<Longrightarrow> value_ends s \<Longrightarrow> 2 * length (ps_rest p) + 1 \<le> n \<Longrightarrow>
     json_value n p = Inr (v, advance (length (render v)) p)"
  unfolding reads_def by blast

abbreviation (input) member_text :: "string \<times> json \<Rightarrow> string" where
  "member_text kv \<equiv> string_text (fst kv) @ '':'' @ render (snd kv)"

lemma comma_separated_Cons:
  "comma_separated (w # ws) = w @ (if ws = [] then [] else '','' @ comma_separated ws)"
  by (cases ws) (simp_all add: comma_separated_def)

lemma string_text_Cons: "string_text s = quote # json_chars s @ [quote]"
  by (simp add: string_text_def)

lemma not_space [simp]: "\<not> is_json_space quote" "\<not> is_json_space (CHR '':'')" "\<not> is_json_space (CHR ''}'')"
  "\<not> is_json_space (CHR '','')" "\<not> is_json_space (CHR '']'')" "\<not> is_json_space (CHR ''{'')"
  "\<not> is_json_space (CHR ''['')"
  unfolding is_json_space_def by simp_all

lemma render_head: "json_ok v \<Longrightarrow> \<exists>c cs. render v = c # cs \<and> \<not> is_json_space c \<and> c \<noteq> CHR ''}'' \<and> c \<noteq> CHR '']''"
proof (cases v)
  case (JNumber t)
  assume "json_ok v"
  then obtain sg w fr where t: "t = number_parts sg w fr" "parts_ok sg w fr" using JNumber by (auto simp: number_ok_def)
  obtain c cs where w: "w = c # cs" using t(2) by (cases w) (auto simp: parts_ok_def)
  have "dec_value c \<noteq> None" using t(2) w by (simp add: parts_ok_def all_digits_def)
  moreover have "\<forall>x \<in> set ('' }]'' @ [CHR 0x09, CHR 0x0D, CHR 0x0A]). dec_value x = None"
    by (simp add: dec_value_def code_point_def)
  ultimately have "\<not> is_json_space c" "c \<noteq> CHR ''}''" "c \<noteq> CHR '']''"
    by (auto simp: is_json_space_def)
  moreover have "sg = [] \<or> sg = ''-''" using t(2) by (simp add: parts_ok_def)
  moreover have "\<exists>cs. render v = sg @ c # cs" using JNumber t(1) w by (simp add: number_parts_def)
  moreover have "\<not> is_json_space (CHR ''-'')" unfolding is_json_space_def by simp
  ultimately show ?thesis by fastforce
qed (auto simp: string_text_def is_json_space_def)

lemma members_read:
  assumes "fs \<noteq> []" and "\<And>kv. kv \<in> set fs \<Longrightarrow> reads (snd kv)" and "distinct (map fst (gs @ fs))"
    and "ps_rest p = comma_separated (map member_text fs) @ CHR ''}'' # s"
    and "2 * length (ps_rest p) + 2 \<le> n"
  shows "json_members n gs p =
    Inr (JObject (gs @ fs), advance (length (comma_separated (map member_text fs)) + 1) p)"
  using assms
proof (induction fs arbitrary: gs p n)
  case (Cons kv fs)
  obtain m where n: "n = Suc m" using Cons.prems(5) by (cases n) auto
  obtain key v where kv: "kv = (key, v)" by (cases kv)
  let ?tail = "(if fs = [] then [] else '','' @ comma_separated (map member_text fs)) @ CHR ''}'' # s"
  have p: "ps_rest p = string_text key @ CHR '':'' # render v @ ?tail"
    using Cons.prems(4) by (simp add: comma_separated_Cons kv)
  let ?a = "advance (length (string_text key)) p"
  let ?b = "advance 1 ?a" and ?c = "advance (length (render v)) (advance 1 ?a)"
  have "ps_rest p = quote # tl (ps_rest p)" using p by (simp add: string_text_Cons)
  from whitespace_none [OF this] have "whitespace p = p" by simp
  then have key: "json_string (whitespace p) = Inr (key, ?a)" using json_string_read [OF p] by simp
  have a: "ps_rest ?a = CHR '':'' # render v @ ?tail" and b: "ps_rest ?b = render v @ ?tail"
    and c: "ps_rest ?c = ?tail" using p by simp_all
  have ea: "expect (CHR '':'') (whitespace ?a) = Inr ?b"
    using whitespace_none [OF a] expect_here [OF a] by simp
  have ends: "value_ends ?tail" by (auto simp: value_ends_def)
  have "reads v" using Cons.prems(2) [of kv] kv by simp
  moreover have "2 * length (ps_rest ?b) + 1 \<le> m" using Cons.prems(5) p n by (simp add: b)
  ultimately have v: "json_value m ?b = Inr (v, ?c)" using b ends by (intro readsD)
  have fresh: "key \<notin> fst ` set gs" using Cons.prems(3) kv by auto
  show ?case
  proof (cases "fs = []")
    case True
    then have "ps_rest ?c = CHR ''}'' # s" using c by simp
    then have "whitespace ?c = ?c" "consume (CHR ''}'') ?c = (True, advance 1 ?c)"
      by (auto simp: consume_def peek_def intro: whitespace_none simp del: advance_simps)
    then show ?thesis
      unfolding n json_members.simps key and_then.simps prod.case ea v
      using True fresh kv by (simp add: comma_separated_Cons ac_simps)
  next
    case False
    let ?d = "advance 1 ?c"
    have tail: "ps_rest ?c = CHR '','' # comma_separated (map member_text fs) @ CHR ''}'' # s"
      using c False by simp
    have d: "ps_rest ?d = comma_separated (map member_text fs) @ CHR ''}'' # s"
      unfolding advance_simps(1) [of 1 ?c] tail by simp
    have steps: "whitespace ?c = ?c" "consume (CHR ''}'') ?c = (False, ?c)" "expect (CHR '','') ?c = Inr ?d"
      using whitespace_none [OF tail] consume_not [OF tail] expect_here [OF tail] by simp_all
    have "json_members m (gs @ [(key, v)]) ?d =
        Inr (JObject ((gs @ [(key, v)]) @ fs), advance (length (comma_separated (map member_text fs)) + 1) ?d)"
    proof (rule Cons.IH [OF False])
      show "2 * length (ps_rest ?d) + 2 \<le> m" using Cons.prems(5) p n False by (simp add: d)
    qed (use Cons.prems(2,3) kv d in auto)
    then show ?thesis
      unfolding n json_members.simps key and_then.simps prod.case ea v
      using False fresh kv steps
      by (simp add: comma_separated_Cons ac_simps)
  qed
qed simp

lemma elements_read:
  assumes "vs \<noteq> []" and "\<And>v. v \<in> set vs \<Longrightarrow> reads v"
    and "ps_rest p = comma_separated (map render vs) @ CHR '']'' # s"
    and "2 * length (ps_rest p) + 2 \<le> n"
  shows "json_elements n ws p =
    Inr (JArray (ws @ vs), advance (length (comma_separated (map render vs)) + 1) p)"
  using assms
proof (induction vs arbitrary: ws p n)
  case (Cons v vs)
  obtain m where n: "n = Suc m" using Cons.prems(4) by (cases n) auto
  let ?tail = "(if vs = [] then [] else '','' @ comma_separated (map render vs)) @ CHR '']'' # s"
  have p: "ps_rest p = render v @ ?tail" using Cons.prems(3) by (simp add: comma_separated_Cons)
  let ?c = "advance (length (render v)) p"
  have c: "ps_rest ?c = ?tail" using p by simp
  have ends: "value_ends ?tail" by (auto simp: value_ends_def)
  have "reads v" using Cons.prems(2) by simp
  moreover have "2 * length (ps_rest p) + 1 \<le> m" using Cons.prems(4) n by simp
  ultimately have v: "json_value m p = Inr (v, ?c)" using p ends by (intro readsD)
  show ?case
  proof (cases "vs = []")
    case True
    then have "ps_rest ?c = CHR '']'' # s" using c by simp
    then have "whitespace ?c = ?c" "consume (CHR '']'') ?c = (True, advance 1 ?c)"
      by (auto simp: consume_def peek_def intro: whitespace_none simp del: advance_simps)
    then show ?thesis
      unfolding n json_elements.simps v and_then.simps prod.case
      using True by (simp add: comma_separated_Cons)
  next
    case False
    let ?d = "advance 1 ?c"
    have tail: "ps_rest ?c = CHR '','' # comma_separated (map render vs) @ CHR '']'' # s"
      using c False by simp
    have d: "ps_rest ?d = comma_separated (map render vs) @ CHR '']'' # s"
      unfolding advance_simps(1) [of 1 ?c] tail by simp
    have steps: "whitespace ?c = ?c" "consume (CHR '']'') ?c = (False, ?c)" "expect (CHR '','') ?c = Inr ?d"
      using whitespace_none [OF tail] consume_not [OF tail] expect_here [OF tail] by simp_all
    have "json_elements m (ws @ [v]) ?d =
        Inr (JArray ((ws @ [v]) @ vs), advance (length (comma_separated (map render vs)) + 1) ?d)"
    proof (rule Cons.IH [OF False])
      show "2 * length (ps_rest ?d) + 2 \<le> m" using Cons.prems(4) p n False by (simp add: d)
    qed (use Cons.prems(2) d in auto)
    then show ?thesis
      unfolding n json_elements.simps v and_then.simps prod.case
      using False steps by (simp add: comma_separated_Cons ac_simps)
  qed
qed simp

lemma literal_reads:
  assumes "render v = c # t" and "(c, v) \<in> {(CHR ''n'', JNull), (CHR ''t'', JBool True), (CHR ''f'', JBool False)}"
  shows "reads v"
  unfolding reads_def
proof (intro allI impI)
  fix n s and p :: parser
  assume p: "ps_rest p = render v @ s" and n: "2 * length (ps_rest p) + 1 \<le> n"
  obtain m where m: "n = Suc m" using n by (cases n) auto
  have "\<not> is_json_space (CHR ''n'')" "\<not> is_json_space (CHR ''t'')" "\<not> is_json_space (CHR ''f'')"
    unfolding is_json_space_def by simp_all
  then have space: "\<not> is_json_space c" using assms(2) by blast
  have start: "ps_rest p = c # t @ s" using p assms(1) by simp
  have bg: "whitespace p = p" "peek p = Some c" using start space by (simp_all add: whitespace_none peek_def)
  have lit: "literal (render v) v p = Inr (v, advance (length (render v)) p)" using p by (simp add: literal_def)
  consider "c = CHR ''n''" "v = JNull" | "c = CHR ''t''" "v = JBool True" | "c = CHR ''f''" "v = JBool False"
    using assms(2) by blast
  then show "json_value n p = Inr (v, advance (length (render v)) p)"
    by cases (use lit in \<open>simp_all add: m bg\<close>)
qed

lemma render_reads: "json_ok v \<Longrightarrow> reads v"
proof (induction v)
  case JNull
  show ?case by (rule literal_reads [where c = "CHR ''n''"]) simp_all
next
  case (JBool b)
  show ?case
    by (cases b) (rule literal_reads [where c = "CHR ''t''"], simp_all, rule literal_reads [where c = "CHR ''f''"], simp_all)
next
  case (JNumber t)
  show ?case
    unfolding reads_def
  proof (intro allI impI)
    fix n s and p :: parser
    assume p: "ps_rest p = render (JNumber t) @ s" and s: "value_ends s" and n: "2 * length (ps_rest p) + 1 \<le> n"
    obtain sg w fr where t: "t = number_parts sg w fr" "parts_ok sg w fr"
      using JNumber by (auto simp: number_ok_def)
    obtain c cs where w: "w = c # cs" using t(2) by (cases w) (auto simp: parts_ok_def)
    have "is_ascii_digit c" using t(2) w by (simp add: parts_ok_def all_digits_def is_ascii_digit_def)
    moreover have "\<exists>ds. t = sg @ c # ds" using t(1) w by (simp add: number_parts_def)
    moreover have "sg = [] \<or> sg = ''-''" using t(2) by (simp add: parts_ok_def)
    ultimately obtain a ds where a: "t = a # ds" "a = CHR ''-'' \<or> is_ascii_digit a" by auto
    obtain b bs where "t = b # bs" "\<not> is_json_space b" using render_head [OF JNumber] by auto
    then have space: "\<not> is_json_space a" using a by simp
    have other: "a \<notin> set ''ntf{['' \<and> a \<noteq> quote"
      using a(2) by (auto simp: is_ascii_digit_def dec_value_def code_point_def)
    have start: "ps_rest p = a # ds @ s" using p a(1) by simp
    have bg: "whitespace p = p" "peek p = Some a" using start space by (simp_all add: whitespace_none peek_def)
    obtain m where m: "n = Suc m" using n by (cases n) auto
    have "json_number p = Inr (JNumber t, advance (length t) p)"
      by (rule json_number_read [where s = s]) (use p JNumber s in simp_all)
    then show "json_value n p = Inr (JNumber t, advance (length (render (JNumber t))) p)"
      using other a(2) by (simp add: m Let_def bg)
  qed
next
  case (JString t)
  show ?case
    unfolding reads_def
  proof (intro allI impI)
    fix n s and p :: parser
    assume p: "ps_rest p = render (JString t) @ s" and n: "2 * length (ps_rest p) + 1 \<le> n"
    obtain m where m: "n = Suc m" using n by (cases n) auto
    have start: "ps_rest p = quote # json_chars t @ quote # s" using p by (simp add: string_text_def)
    have "json_string p = Inr (t, advance (length (string_text t)) p)"
      by (rule json_string_read [where s = s]) (use p in simp)
    then show "json_value n p = Inr (JString t, advance (length (render (JString t))) p)"
      using whitespace_none [OF start] by (simp add: m Let_def start peek_def)
  qed
next
  case (JObject fs)
  have inner: "reads (snd kv)" if "kv \<in> set fs" for kv
    using JObject that by (cases kv) (force simp: list_all_iff)
  show ?case
    unfolding reads_def
  proof (intro allI impI)
    fix n s and p :: parser
    assume p: "ps_rest p = render (JObject fs) @ s" and n: "2 * length (ps_rest p) + 1 \<le> n"
    obtain m where m: "n = Suc m" using n by (cases n) auto
    let ?members = "comma_separated (map member_text fs)"
    have render: "render (JObject fs) = CHR ''{'' # ?members @ ''}''" by (simp add: case_prod_unfold)
    have start: "ps_rest p = CHR ''{'' # ?members @ CHR ''}'' # s" using p unfolding render by simp
    let ?q = "advance 1 p"
    have opened: "json_value n p = (let (closed, r) = consume (CHR ''}'') (whitespace ?q) in
        if closed then Inr (JObject [], r) else json_members m [] r)"
      using whitespace_none [OF start] expect_here [OF start] by (simp add: m Let_def start peek_def split_beta)
    have q: "ps_rest ?q = ?members @ CHR ''}'' # s" using start by simp
    show "json_value n p = Inr (JObject fs, advance (length (render (JObject fs))) p)"
    proof (cases "fs = []")
      case True
      then have q': "ps_rest ?q = CHR ''}'' # s" using q by (simp add: comma_separated_def)
      have "whitespace ?q = ?q" using whitespace_none [OF q'] by simp
      moreover have "consume (CHR ''}'') ?q = (True, advance 1 ?q)" by (rule consume_here [OF q'])
      ultimately show ?thesis using opened True by (simp add: comma_separated_def)
    next
      case False
      then obtain kv gs where fs: "fs = kv # gs" by (cases fs) auto
      have q': "ps_rest ?q = quote # tl (ps_rest ?q)"
        unfolding q by (simp add: fs comma_separated_Cons string_text_def)
      have "whitespace ?q = ?q" using whitespace_none [OF q'] by simp
      moreover have "consume (CHR ''}'') ?q = (False, ?q)" by (rule consume_not [OF q']) simp
      moreover have "json_members m [] ?q = Inr (JObject ([] @ fs), advance (length ?members + 1) ?q)"
        by (rule members_read [OF False inner _ q]) (use JObject n m start in auto)
      ultimately show ?thesis using opened unfolding render by simp
    qed
  qed
next
  case (JArray vs)
  have inner: "reads v" if "v \<in> set vs" for v using JArray that by (simp add: list_all_iff)
  show ?case
    unfolding reads_def
  proof (intro allI impI)
    fix n s and p :: parser
    assume p: "ps_rest p = render (JArray vs) @ s" and n: "2 * length (ps_rest p) + 1 \<le> n"
    obtain m where m: "n = Suc m" using n by (cases n) auto
    let ?elements = "comma_separated (map render vs)"
    have start: "ps_rest p = CHR ''['' # ?elements @ CHR '']'' # s" using p by simp
    let ?q = "advance 1 p"
    have opened: "json_value n p = (let (closed, r) = consume (CHR '']'') (whitespace ?q) in
        if closed then Inr (JArray [], r) else json_elements m [] r)"
      using whitespace_none [OF start] expect_here [OF start] by (simp add: m Let_def start peek_def split_beta)
    have q: "ps_rest ?q = ?elements @ CHR '']'' # s" using start by simp
    show "json_value n p = Inr (JArray vs, advance (length (render (JArray vs))) p)"
    proof (cases "vs = []")
      case True
      then have q': "ps_rest ?q = CHR '']'' # s" using q by (simp add: comma_separated_def)
      have "whitespace ?q = ?q" using whitespace_none [OF q'] by simp
      moreover have "consume (CHR '']'') ?q = (True, advance 1 ?q)" by (rule consume_here [OF q'])
      ultimately show ?thesis using opened True by (simp add: comma_separated_def)
    next
      case False
      then obtain v ws where vs: "vs = v # ws" by (cases vs) auto
      obtain c cs where c: "render v = c # cs" "\<not> is_json_space c" "c \<noteq> CHR '']''"
        using render_head [of v] JArray vs by auto
      have q': "ps_rest ?q = c # tl (ps_rest ?q)"
        unfolding q by (simp add: vs comma_separated_Cons c(1))
      have "whitespace ?q = ?q" using whitespace_none [OF q' c(2)] by simp
      moreover have "consume (CHR '']'') ?q = (False, ?q)" by (rule consume_not [OF q']) (simp add: c(3))
      moreover have "json_elements m [] ?q = Inr (JArray ([] @ vs), advance (length ?elements + 1) ?q)"
        by (rule elements_read [OF False inner q]) (use n m start in auto)
      ultimately show ?thesis using opened by simp
    qed
  qed
qed

text \<open>The record level: a printed object is parsed back, alone on its line.\<close>

lemma parse_object_render:
  assumes "json_ok (JObject fs)"
  shows "parse_object (render (JObject fs)) line = Inr fs"
proof -
  let ?p = "parser_new (render (JObject fs)) line"
  have "json_value (parser_fuel ?p) ?p = Inr (JObject fs, advance (length (render (JObject fs))) ?p)"
    by (rule readsD [OF render_reads [OF assms], where s = "[]"])
      (simp_all add: parser_new_def value_ends_def parser_fuel_def)
  then show ?thesis
    by (simp add: parse_object_def whitespace_def skip_while_def parser_new_def Let_def)
qed

end
