(* ===== verification/Capture_Spec.thy ===== *)
theory Capture_Spec
  imports Capture_Reader Capture_Json_Text
begin

text \<open>
  What a capture line means: the JSON object of every event (\<open>event_object\<close>), which the writer is
  shown to print, and which events it can be: \<open>event_built\<close> collects what the types of the code, the
  constructors of \<open>src/capture_events.rs\<close> and the recorder itself demand (the recorder checks job ids
  and errors again, and that a number is finite), and \<open>timing_monotonic\<close> is the order of the three
  times of a read, which no constructor checks and the recorder does not either, but the reader does.
\<close>

section \<open>The object of an event\<close>

definition number_json :: "nat \<Rightarrow> json" where
  "number_json n = JNumber (show_nat n)"

definition option_json :: "('a \<Rightarrow> json) \<Rightarrow> 'a option \<Rightarrow> json" where
  "option_json f v = (case v of None \<Rightarrow> JNull | Some x \<Rightarrow> f x)"

definition bytes_json :: "bytes \<Rightarrow> json" where
  "bytes_json b = JString (hex b)"

fun value_json :: "capture_value \<Rightarrow> json" where
  "value_json (Number v) = JObject [(''type'', JString ''number''), (''value'', JNumber (f64_text (the v)))]"
| "value_json (Boolean b) = JObject [(''type'', JString ''boolean''), (''value'', JBool b)]"
| "value_json (Enum_Value s) = JObject [(''type'', JString ''enum''), (''value'', JString s)]"
| "value_json (Text_Value s) = JObject [(''type'', JString ''text''), (''value'', JString s)]"
| "value_json (Unavailable s) = JObject [(''type'', JString ''unavailable''), (''reason'', JString s)]"

fun dtc_fact_json :: "dtc_fact \<Rightarrow> json" where
  "dtc_fact_json (Fact_Code s) = JObject [(''type'', JString ''dtc''), (''code'', JString s)]"
| "dtc_fact_json Fact_NoDtcs = JObject [(''type'', JString ''no_dtcs'')]"
| "dtc_fact_json (Fact_DecodeError s) = JObject [(''type'', JString ''decode_error''), (''error'', JString s)]"

definition evidence_json :: "responder_evidence \<Rightarrow> json" where
  "evidence_json r =
     JObject [(''responder'', option_json JString (re_responder r)), (''payload'', bytes_json (re_payload r))]"

fun event_type :: "capture_event \<Rightarrow> string" where
  "event_type (CaptureStarted _ _) = ''capture_started''"
| "event_type (KnowledgeContext _) = ''knowledge_context''"
| "event_type SessionInitialized = ''session_initialized''"
| "event_type (SubscriptionConfigured _ _ _) = ''subscription_configured''"
| "event_type (SupportDiscovery _ _ _) = ''support_discovery''"
| "event_type (ProtocolNegotiationObserved _ _ _) = ''protocol_negotiation_observed''"
| "event_type (ResponsesObserved _ _ _ _ _ _) = ''responses_observed''"
| "event_type (ReadSucceeded _) = ''read_succeeded''"
| "event_type (ReadFailed _ _ _ _ _) = ''read_failed''"
| "event_type (SlotsSkipped _ _ _ _) = ''slots_skipped''"
| "event_type (SessionErrorEvent _) = ''session_error''"
| "event_type (RuntimeStateChanged _ _ _ _) = ''runtime_state_changed''"
| "event_type ShutdownRequestedEvent = ''shutdown_requested''"
| "event_type (SessionStopped _) = ''session_stopped''"
| "event_type (DiagnosticJobStartedEvent _ _ _) = ''diagnostic_job_started''"
| "event_type (DiagnosticJobStep _ _ _ _ _ _) = ''diagnostic_job_step''"
| "event_type (DiagnosticJobCompletedEvent _ _) = ''diagnostic_job_completed''"
| "event_type (DiagnosticJobFailedEvent _ _) = ''diagnostic_job_failed''"
| "event_type (DiagnosticJobCancelledEvent _) = ''diagnostic_job_cancelled''"
| "event_type (DtcTransportObserved _ _ _ _) = ''dtc_transport_observed''"
| "event_type (DtcObservationEvent _ _ _ _ _ _) = ''dtc_observation''"

fun event_members :: "capture_event \<Rightarrow> json_object" where
  "event_members (CaptureStarted w p) =
     [(''wallclock_ms'', option_json number_json w), (''profile'', option_json JString p)]"
| "event_members (KnowledgeContext c) =
     [(''core_version'', JString (kc_core_version c)), (''core_commit'', option_json JString (kc_core_commit c)),
      (''knowledge_repository'', JString (kc_repository c)), (''knowledge_revision'', JString (kc_revision c)),
      (''knowledge_schema_version'', number_json (unat (kc_schema_version c)))]"
| "event_members SessionInitialized = []"
| "event_members (SubscriptionConfigured s i f) =
     [(''semantic'', JString s), (''requested_interval_us'', number_json i),
      (''filter_outcome'', JString (filter_outcome_name f))]"
| "event_members (SupportDiscovery a r b) =
     [(''request_payload'', bytes_json a), (''responder'', option_json JString r), (''response_payload'', bytes_json b)]"
| "event_members (ProtocolNegotiationObserved a r b) =
     [(''request_payload'', bytes_json a), (''responder'', option_json JString r), (''response_payload'', bytes_json b)]"
| "event_members (ResponsesObserved off s a rs sel err) =
     [(''offset_us'', option_json number_json off), (''semantic'', JString s), (''request_payload'', bytes_json a),
      (''responses'', JArray (map evidence_json rs)), (''selected_responder'', option_json JString sel),
      (''selection_error'', option_json JString err)]"
| "event_members (ReadSucceeded r) =
     [(''semantic'', JString (rs_semantic r)), (''requested_interval_us'', number_json (rs_requested_interval_us r)),
      (''due_us'', number_json (rs_due_us r)), (''started_us'', number_json (rs_started_us r)),
      (''finished_us'', number_json (rs_finished_us r)), (''request_payload'', bytes_json (rs_request r)),
      (''response_payload'', bytes_json (rs_response r)), (''value'', value_json (rs_value r)),
      (''unit'', JString (rs_unit r)), (''source'', JString (rs_source r)), (''profile'', JString (rs_profile r)),
      (''decoder'', JString (rs_decoder r)), (''provenance'', JString (rs_provenance r)),
      (''knowledge_definition_id'', option_json JString (Option.bind (rs_definition r) dr_definition_id)),
      (''knowledge_definition_version'',
        option_json (\<lambda>v. number_json (unat v)) (Option.bind (rs_definition r) dr_definition_version)),
      (''knowledge_confidence'', option_json JString (Option.bind (rs_definition r) dr_confidence)),
      (''knowledge_hardware_validation'', option_json JString (Option.bind (rs_definition r) dr_hardware_validation)),
      (''local_ecu_id'', option_json JString (Option.bind (rs_definition r) dr_local_ecu_id))]"
| "event_members (ReadFailed s i t a err) =
     [(''semantic'', JString s), (''requested_interval_us'', number_json i),
      (''due_us'', option_json number_json (map_option rt_due_us t)),
      (''started_us'', option_json number_json (map_option rt_started_us t)),
      (''finished_us'', option_json number_json (map_option rt_finished_us t)),
      (''request_payload'', option_json bytes_json a), (''error'', JString err)]"
| "event_members (SlotsSkipped s n a b) =
     [(''semantic'', JString s), (''count'', number_json n), (''first_due_us'', number_json a),
      (''last_due_us'', number_json b)]"
| "event_members (SessionErrorEvent err) = [(''error'', JString err)]"
| "event_members (RuntimeStateChanged n a b ev) =
     [(''transition_sequence'', number_json (unat n)), (''state_version'', number_json (unat (state_version a))),
      (''from'', JString (serialize a)), (''to'', JString (serialize b)), (''event'', JString (runtime_event_name ev))]"
| "event_members ShutdownRequestedEvent = []"
| "event_members (SessionStopped off) = [(''offset_us'', number_json off)]"
| "event_members (DiagnosticJobStartedEvent j v n) =
     [(''job_id'', JString j), (''model_version'', number_json (unat v)), (''step_count'', number_json n)]"
| "event_members (DiagnosticJobStep j n m s st err) =
     [(''job_id'', JString j), (''step_sequence'', number_json n), (''mode'', number_json (unat m)),
      (''source'', option_json JString s), (''status'', JString (job_step_status_str st)),
      (''error'', option_json JString err)]"
| "event_members (DiagnosticJobCompletedEvent j st) =
     [(''job_id'', JString j), (''status'', JString (job_status_str st))]"
| "event_members (DiagnosticJobFailedEvent j err) = [(''job_id'', JString j), (''error'', JString err)]"
| "event_members (DiagnosticJobCancelledEvent j) = [(''job_id'', JString j)]"
| "event_members (DtcTransportObserved j n r out) =
     [(''job_id'', JString j), (''step_sequence'', number_json n), (''responder'', option_json JString r),
      (''outcome'', JString (dtc_transport_outcome_name out)),
      (''reason'', (case out of Dtc_Error e \<Rightarrow> JString e | _ \<Rightarrow> JNull))]"
| "event_members (DtcObservationEvent j n r f d p) =
     [(''job_id'', JString j), (''step_sequence'', number_json n), (''responder'', option_json JString r),
      (''fact'', dtc_fact_json f), (''decoder'', JString d), (''provenance'', JString p)]"

definition record_members :: "string \<Rightarrow> json_object" where
  "record_members t = [(''schema'', JString SCHEMA), (''version'', number_json VERSION), (''type'', JString t)]"

definition event_object :: "nat \<Rightarrow> capture_event \<Rightarrow> json_object" where
  "event_object sequence ev =
     record_members (event_type ev) @ (''sequence'', number_json sequence) # event_members ev"

section \<open>Well-formed events\<close>

definition is_u64 :: "nat \<Rightarrow> bool" where
  "is_u64 n \<longleftrightarrow> n < 2 ^ 64"

definition value_ok :: "capture_value \<Rightarrow> bool" where
  "value_ok v \<longleftrightarrow> (case v of Number x \<Rightarrow> (case x of Some q \<Rightarrow> is_f64 q | None \<Rightarrow> False) | _ \<Rightarrow> True)"

definition knowledge_ok :: "knowledge_context \<Rightarrow> bool" where
  "knowledge_ok c \<longleftrightarrow>
     knowledge_context_new (kc_core_version c) (kc_core_commit c) (kc_repository c) (kc_revision c)
       (kc_schema_version c) = Inr c"

definition definition_ok :: "definition_reference \<Rightarrow> bool" where
  "definition_ok r \<longleftrightarrow>
     definition_reference_new (dr_definition_id r) (dr_definition_version r) (dr_confidence r)
       (dr_hardware_validation r) (dr_local_ecu_id r) = Inr r"

definition state_ok :: "runtime_state \<Rightarrow> bool" where
  "state_ok s \<longleftrightarrow> state_version s = STATE_VERSION"

text \<open>What is asked of an event before its line is written.\<close>

fun event_built :: "capture_event \<Rightarrow> bool" where
  "event_built (CaptureStarted w p) = pred_option is_u64 w"
| "event_built (KnowledgeContext c) = knowledge_ok c"
| "event_built (SubscriptionConfigured s i f) = is_u64 i"
| "event_built (ProtocolNegotiationObserved a r b) = (protocol_negotiation_observed a r b = Inr (ProtocolNegotiationObserved a r b))"
| "event_built (ResponsesObserved off s a rs sel err) =
     (pred_option is_u64 off \<and> responses_observed_with_offset s a rs sel err off = Inr (ResponsesObserved off s a rs sel err))"
| "event_built (ReadSucceeded r) =
     (is_u64 (rs_requested_interval_us r) \<and> is_u64 (rs_due_us r) \<and> is_u64 (rs_started_us r)
      \<and> is_u64 (rs_finished_us r)
      \<and> value_ok (rs_value r) \<and> pred_option definition_ok (rs_definition r))"
| "event_built (ReadFailed s i t a err) =
     (is_u64 i \<and> pred_option (\<lambda>t. is_u64 (rt_due_us t) \<and> is_u64 (rt_started_us t) \<and> is_u64 (rt_finished_us t)) t)"
| "event_built (SlotsSkipped s n a b) = (is_u64 n \<and> is_u64 a \<and> is_u64 b)"
| "event_built (RuntimeStateChanged n a b ev) = (state_ok a \<and> state_ok b)"
| "event_built (SessionStopped off) = is_u64 off"
| "event_built (DiagnosticJobStartedEvent j v n) = (validate_diagnostic_job_id j = Inr () \<and> is_u64 n)"
| "event_built (DiagnosticJobStep j n m s st err) =
     (diagnostic_job_step j n m s st err = Inr (DiagnosticJobStep j n m s st err) \<and> is_u64 n)"
| "event_built (DiagnosticJobCompletedEvent j st) =
     (validate_diagnostic_job_id j = Inr () \<and> (st = JobCompleted \<or> st = JobCompletedWithErrors))"
| "event_built (DiagnosticJobFailedEvent j err) =
     (validate_diagnostic_job_id j = Inr () \<and> validate_diagnostic_error (Some err) = Inr ())"
| "event_built (DiagnosticJobCancelledEvent j) = (validate_diagnostic_job_id j = Inr ())"
| "event_built (DtcTransportObserved j n r out) =
     (dtc_transport_observed j n r out = Inr (DtcTransportObserved j n r out) \<and> is_u64 n)"
| "event_built (DtcObservationEvent j n r f d p) =
     (dtc_observation j n r f d p = Inr (DtcObservationEvent j n r f d p) \<and> is_u64 n)"
| "event_built _ = True"

text \<open>The order of the times of a read: \<open>ReadTiming::is_monotonic\<close>, checked by the reader only.\<close>

fun timing_monotonic :: "capture_event \<Rightarrow> bool" where
  "timing_monotonic (ReadSucceeded r) = (rs_due_us r \<le> rs_started_us r \<and> rs_started_us r \<le> rs_finished_us r)"
| "timing_monotonic (ReadFailed s i t a err) =
     pred_option (\<lambda>t. rt_due_us t \<le> rt_started_us t \<and> rt_started_us t \<le> rt_finished_us t) t"
| "timing_monotonic _ = True"

definition event_ok :: "capture_event \<Rightarrow> bool" where
  [simp]: "event_ok ev \<longleftrightarrow> event_built ev \<and> timing_monotonic ev"

section \<open>The writer prints the object\<close>

definition plain_char :: "char \<Rightarrow> bool" where
  "plain_char c \<longleftrightarrow> c \<noteq> quote \<and> c \<noteq> reverse_solidus \<and> 0x20 \<le> code_point c \<and> code_point c < 0x7F"

lemma json_chars_plain: "list_all plain_char s \<Longrightarrow> json_chars s = s"
proof (induction s rule: json_chars.induct)
  case (2 c)
  then show ?case
    by (auto simp: json_char_def plain_char_def is_control_def code_point_def)
next
  case (3 c d cs)
  then have c: "plain_char c" and d: "\<not> 0x80 \<le> code_point d" by (simp_all add: plain_char_def)
  have "json_char c = [c]"
    using c by (auto simp: json_char_def plain_char_def is_control_def code_point_def)
  then show ?case using 3 d by simp
qed simp

lemma string_text_plain: "list_all plain_char s \<Longrightarrow> string_text s = quoted s"
  by (simp add: string_text_def quoted_def json_chars_plain)

end
