(* ===== verification/Capture_Roundtrip.thy ===== *)
theory Capture_Roundtrip
  imports Capture_Spec
begin

text \<open>
  A recorded capture is read back: the line of an event is the JSON text of its object, the
  parser gives the object back, and the event parser the event; the recorder numbers the lines
  as the reader expects them.
\<close>

section \<open>The line of an event\<close>

definition members_text :: "json_object \<Rightarrow> string" where
  "members_text fs = concat (map (\<lambda>(k, v). CHR '','' # string_text k @ CHR '':'' # render v) fs)"

lemma plain_key: "list_all plain_char k \<Longrightarrow> string_text k @ CHR '':'' # s = json_key k @ s"
  by (simp add: string_text_plain quoted_def json_key_def)

lemma members_text_simps [simp]:
  "members_text [] = []"
  "list_all plain_char k \<Longrightarrow> members_text ((k, v) # fs) = field_key k @ render v @ members_text fs"
  by (simp_all add: members_text_def plain_key field_key_def)

lemma plain_literal [simp]:
  "plain_char c \<longleftrightarrow> c \<noteq> quote \<and> c \<noteq> reverse_solidus \<and> 0x20 \<le> (of_char c :: nat) \<and> (of_char c :: nat) < 0x7F"
  by (simp add: plain_char_def code_point_def)

lemma render_object:
  assumes "list_all plain_char k"
  shows "render (JObject ((k, v) # fs)) = first_key k @ render v @ members_text fs @ ''}''"
proof -
  note plain_key [OF assms, simp]
  have "comma_separated (w # ws) = w @ concat (map (\<lambda>x. CHR '','' # x) ws)" for w ws
    by (induction ws arbitrary: w) (simp_all add: comma_separated_def)
  then show ?thesis by (simp add: members_text_def first_key_def comp_def case_prod_unfold)
qed

lemma render_option:
  "render (option_json JString v) = option_string_text v"
  "render (option_json number_json n) = option_u64_text n"
  by (simp_all add: option_json_def option_string_text_def option_u64_text_def number_json_def split: option.split)

lemma render_number [simp]: "render (number_json n) = show_nat n"
  by (simp add: number_json_def)

lemma render_bytes [simp]: "render (bytes_json b) = string_text (hex b)"
  by (simp add: bytes_json_def)

lemma plain_event_type: "list_all plain_char (event_type ev)"
  by (cases ev) simp_all

lemma record_members_text:
  assumes "list_all plain_char t"
  shows "render (JObject (record_members t @ fs)) = record_start @ quoted t @ members_text fs @ ''}''"
proof -
  have "string_text t = quoted t" using assms by (rule string_text_plain)
  moreover have "string_text SCHEMA = quoted SCHEMA" by (rule string_text_plain) (simp add: SCHEMA_def)
  ultimately show ?thesis
    by (simp add: record_members_def render_object record_start_def del: render.simps(5))
qed

lemma event_object_text:
  "render (JObject (event_object n ev)) = record_start @ simple_event (event_type ev) n @ members_text (event_members ev) @ ''}''"
  unfolding event_object_def record_members_text [OF plain_event_type]
  by (simp add: simple_event_def)

lemma value_text_render: "value_ok v \<Longrightarrow> value_text v = Inr (render (value_json v))"
proof (cases v)
  case (Number x)
  assume "value_ok v"
  then obtain q where "x = Some q" using Number by (cases x) (auto simp: value_ok_def)
  then show ?thesis
    using Number by (simp add: render_object string_text_plain del: render.simps(5))
qed (simp_all add: render_object string_text_plain del: render.simps(5))

lemma dtc_fact_text_render: "dtc_fact_text f = render (dtc_fact_json f)"
  by (cases f) (simp_all add: render_object string_text_plain del: render.simps(5))

lemma evidence_text_render: "render (evidence_json r) = responder_evidence_text r"
  by (simp add: evidence_json_def responder_evidence_text_def render_object render_option
      del: render.simps(5))

lemma evidence_list_render:
  "render (JArray (map evidence_json rs)) = ''['' @ join '','' (map responder_evidence_text rs) @ '']''"
proof -
  have "map render (map evidence_json rs) = map responder_evidence_text rs" by (simp add: evidence_text_render)
  then show ?thesis by (simp only: render.simps comma_separated_def)
qed

lemma render_unat_option:
  "render (option_json (\<lambda>v. number_json (unat v)) x) = option_u64_text (map_option unat x)"
  by (simp add: option_json_def option_u64_text_def split: option.split)

lemma render_bytes_option: "render (option_json bytes_json x) = option_string_text (map_option hex x)"
  by (simp add: option_json_def option_string_text_def split: option.split)

lemmas render_parts = render_option render_unat_option render_bytes_option value_text_render
  dtc_fact_text_render evidence_list_render

lemma event_body_object:
  assumes "event_built ev"
  shows "event_body n ev = Inr (simple_event (event_type ev) n @ members_text (event_members ev))"
proof (cases ev)
  case (ReadSucceeded r)
  then show ?thesis
    using assms by (simp add: render_parts definition_reference_text_def del: render.simps(5,6))
next
  case (RuntimeStateChanged k a b e)
  then show ?thesis using assms by (simp add: state_ok_def)
next
  case (DiagnosticJobStep j k m s st err)
  then show ?thesis using assms by (simp add: render_parts diagnostic_job_step_def)
next
  case (DtcTransportObserved j k r out)
  then show ?thesis using assms
    by (auto simp: render_parts dtc_transport_observed_def split: dtc_transport_outcome.splits)
next
  case (DtcObservationEvent j k r f d p)
  then show ?thesis using assms by (simp add: render_parts dtc_observation_def del: render.simps(5))
next
  case (ResponsesObserved off s a rs sel err)
  then show ?thesis by (simp add: render_parts del: render.simps(6))
next
  case (ReadFailed s i t a err)
  then show ?thesis by (simp add: render_parts timing_text_def)
qed (use assms in \<open>auto simp: render_parts\<close>)

lemma event_line_object:
  "event_built ev \<Longrightarrow> event_line n ev = Inr (render (JObject (event_object n ev)) @ [line_feed])"
  by (simp add: event_line_def event_body_object event_object_text del: render.simps)

section \<open>The objects are readable\<close>

lemma round_half_even_le: "of_int (round_half_even r) \<le> r + 1 / 2"
proof -
  define d where "d = r - of_int \<lfloor>r\<rfloor>"
  have "round_half_even r = \<lfloor>r\<rfloor> \<or> round_half_even r = \<lfloor>r\<rfloor> + 1 \<and> 1 / 2 \<le> d"
    unfolding round_half_even_def Let_def d_def [symmetric] by auto
  moreover have "0 \<le> d" unfolding d_def using of_int_floor_le [of r] by linarith
  moreover have "of_int \<lfloor>r\<rfloor> = r - d" by (simp add: d_def)
  ultimately have "of_int (round_half_even r) = r - d \<or> of_int (round_half_even r) = r - d + 1 \<and> 1 / 2 \<le> d" "0 \<le> d"
    by auto
  then show ?thesis by linarith
qed

lemma round_f64_finite:
  assumes "0 < y" and "y < 2 ^ 1000"
  shows "\<exists>x. round_f64 y = Some x"
proof -
  let ?e = "ulp_exponent y"
  define u where "u = (2 :: rat) powi ?e"
  have u: "0 < u" by (simp add: u_def)
  have "of_int (round_half_even (y / u)) * u \<le> (y / u + 1 / 2) * u"
    using u round_half_even_le by (intro mult_right_mono) simp_all
  also have "\<dots> = y + u / 2" using u by (simp add: field_simps)
  finally have v: "of_int (round_half_even (y / u)) * u \<le> y + u / 2" .
  have "u \<le> max y 1"
  proof (cases "ilog 2 y - 52 \<le> - 1074")
    case True
    then have "u = 2 powi (- 1074)" by (simp add: u_def ulp_exponent_def)
    also have "\<dots> \<le> 2 powi 0" by (rule power_int_increasing) simp_all
    finally show ?thesis by simp
  next
    case False
    then have "u = 2 powi (ilog 2 y - 52)" by (simp add: u_def ulp_exponent_def)
    also have "\<dots> \<le> 2 powi ilog 2 y" by (rule power_int_increasing) simp_all
    also have "\<dots> \<le> y" using ilog_bounds(1) [of 2 y] assms(1) by simp
    finally show ?thesis by simp
  qed
  moreover have "max y 1 < (2 :: rat) ^ 1000" using assms(2) by simp
  ultimately have "u < 2 ^ 1000" by (rule le_less_trans)
  then have "y + u / 2 < 2 ^ 1000 + 2 ^ 1000" using assms(2) u by (intro add_strict_mono) simp_all
  also have "\<dots> \<le> (2 :: rat) ^ 1024" by simp
  finally have "of_int (round_half_even (y / u)) * u < 2 ^ 1024" using v by simp
  then show ?thesis using assms(1) by (simp add: round_f64_def Let_def u_def)
qed

lemma number_ok_show:
  assumes "is_u64 n"
  shows "number_ok (show_nat n)"
proof -
  have parts: "parts_ok [] (show_nat n) []"
  proof (cases "n = 0")
    case True
    then have "show_nat n = ''0''" by (subst show_nat.simps) (simp add: dec_digit_def)
    then show ?thesis by (simp add: parts_ok_def all_digits_def)
  next
    case False
    then show ?thesis using show_nat_head [of n] by (simp add: parts_ok_def) (simp add: all_digits_def)
  qed
  have shape: "show_nat n = number_parts [] (show_nat n) []" by (simp add: number_parts_def)
  have "parse_decimal (show_nat n) = Some (of_nat n)"
    using parse_decimal_parts [OF parts] shape by simp
  moreover have "\<exists>x. round_f64 (of_nat n) = Some x"
  proof (cases "n = 0")
    case True
    then show ?thesis by (simp add: round_f64_def)
  next
    case False
    have "(of_nat n :: rat) < of_nat (2 ^ 64)" using assms unfolding is_u64_def by (rule of_nat_less_iff [THEN iffD2])
    also have "\<dots> \<le> 2 ^ 1000" by simp
    finally show ?thesis using False by (intro round_f64_finite) simp_all
  qed
  ultimately show ?thesis using parts shape unfolding number_ok_def parse_f64_def by fastforce
qed

lemma number_ok_f64: "is_f64 x \<Longrightarrow> number_ok (f64_text x)"
  using f64_text_reads [of x] unfolding number_ok_def by metis

lemma json_ok_number [simp]: "is_u64 n \<Longrightarrow> json_ok (number_json n)"
  by (simp add: number_json_def number_ok_show)

lemma json_ok_parts [simp]:
  "json_ok (option_json JString s)"
  "pred_option is_u64 x \<Longrightarrow> json_ok (option_json number_json x)"
  "json_ok (bytes_json b)"
  "json_ok (option_json bytes_json y)"
  "value_ok v \<Longrightarrow> json_ok (value_json v)"
  "json_ok (dtc_fact_json f)"
  "json_ok (evidence_json r)"
proof -
  show "json_ok (option_json JString s)" by (simp add: option_json_def split: option.split)
  show "pred_option is_u64 x \<Longrightarrow> json_ok (option_json number_json x)"
    by (cases x) (simp_all add: option_json_def)
  show "json_ok (bytes_json b)" by (simp add: bytes_json_def)
  show "json_ok (option_json bytes_json y)" by (simp add: option_json_def bytes_json_def split: option.split)
  show "value_ok v \<Longrightarrow> json_ok (value_json v)"
    by (cases v) (auto simp: value_ok_def number_ok_f64 split: option.splits)
  show "json_ok (dtc_fact_json f)" by (cases f) simp_all
  show "json_ok (evidence_json r)"
    by (simp add: evidence_json_def bytes_json_def option_json_def split: option.split)
qed

lemma is_u64_words [simp]:
  "is_u64 (unat (a :: u8))" "is_u64 (unat (b :: u16))" "is_u64 (unat (c :: u32))" "is_u64 (unat (d :: u64))"
proof -
  show "is_u64 (unat a)" unfolding is_u64_def by (rule less_le_trans [OF unat_u8_less]) simp
  show "is_u64 (unat b)" unfolding is_u64_def by (rule less_le_trans [OF unat_u16_less]) simp
  show "is_u64 (unat c)" unfolding is_u64_def by (rule less_le_trans [OF unat_u32_less]) simp
  show "is_u64 (unat d)" unfolding is_u64_def using unsigned_less [where w = d and 'a = nat] by simp
qed

lemma json_ok_u32_option [simp]: "json_ok (option_json (\<lambda>v. number_json (unat (v :: u32))) x)"
  by (cases x) (simp_all add: option_json_def)

lemma event_members_ok:
  assumes "event_built ev"
  shows "list_all (\<lambda>(k, v). json_ok v) (event_members ev)"
    and "distinct (map fst (event_members ev))"
    and "set (map fst (event_members ev)) \<inter> set base_fields = {}"
proof -
  show "list_all (\<lambda>(k, v). json_ok v) (event_members ev)"
  proof (cases ev)
    case (ResponsesObserved off s a rs sel err)
    then show ?thesis using assms by (simp add: list_all_iff)
  next
    case (ReadFailed s i t a err)
    then have "pred_option is_u64 (map_option rt_due_us t)" "pred_option is_u64 (map_option rt_started_us t)"
        "pred_option is_u64 (map_option rt_finished_us t)" "is_u64 i"
      using assms by (cases t; auto simp: is_u64_def)+
    then show ?thesis using ReadFailed by simp
  next
    case (DtcTransportObserved j k r out)
    then show ?thesis using assms by (auto split: dtc_transport_outcome.split)
  qed (use assms in \<open>simp_all\<close>)
  show "distinct (map fst (event_members ev))" by (cases ev) simp_all
  show "set (map fst (event_members ev)) \<inter> set base_fields = {}" by (cases ev) (simp_all add: base_fields_def)
qed

lemma event_object_ok:
  assumes "event_built ev" and "is_u64 n"
  shows "json_ok (JObject (event_object n ev))"
  using event_members_ok [OF assms(1)] assms(2)
  by (simp add: event_object_def record_members_def base_fields_def VERSION_def is_u64_def image_iff)

end
