(* ===== verification/Capture_Sound.thy ===== *)
theory Capture_Sound
  imports Capture_Roundtrip
begin

text \<open>
  Reading back what the recorder wrote: the fields of an event's object, the event, the line with
  its sequence number, and the whole file; and the converse, that an event the parser accepts
  satisfies the conditions of the constructors.
\<close>

section \<open>Fields\<close>

lemma string_field_get: "map_of ob k = Some (JString s) \<Longrightarrow> string_field ob k l = Inr s"
  by (simp add: string_field_def)

lemma optional_string_field_get:
  "map_of ob k = Some (option_json JString v) \<Longrightarrow> optional_string_field ob k l = Inr v"
  by (cases v) (simp_all add: optional_string_field_def option_json_def)

lemma show_nat_chars: "\<not> list_ex (\<lambda>c. c \<in> set ''.eE-'') (show_nat n)"
  using show_nat_plain [of _ n] by (fastforce simp: list_ex_iff)

lemma integer_field_get:
  "map_of ob k = Some (number_json n) \<Longrightarrow> is_u64 n \<Longrightarrow> integer_field ob k l = Inr n"
  using show_nat_chars [of n] parse_unsigned_show [of n "2 ^ 64 - 1"]
  by (simp add: integer_field_def number_json_def is_u64_def)

lemma u64_field_get: "map_of ob k = Some (number_json n) \<Longrightarrow> is_u64 n \<Longrightarrow> u64_field ob k l = Inr n"
  by (simp add: u64_field_def integer_field_get)

lemma optional_u64_field_get:
  assumes "map_of ob k = Some (option_json number_json v)" and "pred_option is_u64 v"
  shows "optional_u64_field ob k l = Inr v"
proof (cases v)
  case None
  then show ?thesis using assms by (simp add: optional_u64_field_def option_json_def)
next
  case (Some n)
  then have get: "map_of ob k = Some (number_json n)" using assms by (simp add: option_json_def)
  then have "integer_field ob k l = Inr n" using assms Some by (intro integer_field_get) simp_all
  then show ?thesis using get Some by (simp add: optional_u64_field_def number_json_def)
qed

lemma hex_token_fmt: "hex_token l (fmt_02X b) = Inr b"
proof -
  have "\<not> (97 \<le> code_point c \<and> code_point c \<le> 122)" if c: "c \<in> set (fmt_02X b)" for c
  proof -
    obtain n where n: "n < 16" "c = hex_digit n" using fmt_02X_digits [OF c] by blast
    show ?thesis using hex_digit_cases [OF n(1)] n(2) by (auto simp: hex_digit_def code_point_def)
  qed
  then have "\<not> list_ex (\<lambda>c. 97 \<le> code_point c \<and> code_point c \<le> 122) (fmt_02X b)"
    by (simp only: list_ex_iff) blast
  then show ?thesis by (simp add: hex_token_def)
qed

lemma parse_hex_hex: "parse_hex (hex b) l = Inr b"
proof (cases "b = []")
  case False
  have "hex b \<noteq> []" using False by (cases b; cases "tl b") (auto simp: hex_def fmt_02X_def)
  moreover have "split_on (\<lambda>c. c = CHR '' '') (hex b) = map fmt_02X b"
    unfolding hex_def
  proof (rule split_on_join)
    show "\<forall>w \<in> set (map fmt_02X b). \<forall>c \<in> set w. c \<noteq> CHR '' ''"
      using hex_digit_plain(1) by (fastforce dest: fmt_02X_digits simp: is_whitespace_def is_ascii_whitespace_def)
  qed (use False in simp_all)
  ultimately show ?thesis
    using collect_results_Inr [of b] by (simp add: parse_hex_def hex_token_fmt comp_def)
qed (simp add: parse_hex_def hex_def)

lemma hex_field_get: "map_of ob k = Some (bytes_json b) \<Longrightarrow> hex_field ob k l = Inr b"
  by (simp add: hex_field_def bytes_json_def string_field_def parse_hex_hex)

lemma exact_fields_ok:
  assumes "map fst ob = base_fields @ names"
  shows "exact_fields ob names l = Inr ()"
proof -
  have "contains_key ob name" if "name \<in> set (base_fields @ names)" for name
    using that unfolding contains_key_def assms [symmetric] by (auto simp: map_of_eq_None_iff image_iff)
  moreover have "length ob = length (base_fields @ names)" unfolding assms [symmetric] by simp
  ultimately show ?thesis by (simp add: exact_fields_def fields_exact_def list_ex_iff)
qed

section \<open>Values\<close>

lemma parse_value_json: "value_ok v \<Longrightarrow> parse_value (value_json v) l = Inr v"
proof (cases v)
  case (Number x)
  assume "value_ok v"
  then obtain q where q: "x = Some q" "is_f64 q" using Number by (cases x) (auto simp: value_ok_def)
  have "parse_f64 (f64_text q) = Some (Some q)" using f64_text_reads [OF q(2)] by metis
  then show ?thesis
    using Number q by (simp add: parse_value_def as_object_def string_field_def fields_exact_def contains_key_def)
qed (simp_all add: parse_value_def as_object_def string_field_def fields_exact_def contains_key_def)

lemma parse_dtc_fact_json: "validate_dtc_fact f = Inr () \<Longrightarrow> parse_dtc_fact (dtc_fact_json f) l = Inr f"
  by (cases f) (simp_all add: parse_dtc_fact_def as_object_def string_field_def fields_exact_def contains_key_def)

lemma parse_evidence_json: "re_payload r \<noteq> [] \<Longrightarrow> parse_responder_evidence (evidence_json r) l = Inr r"
  by (simp add: parse_responder_evidence_def evidence_json_def as_object_def fields_exact_def contains_key_def
      optional_string_field_get string_field_def bytes_json_def parse_hex_hex responder_evidence_new_def)

lemma parse_definition_json:
  assumes "pred_option definition_ok d"
    and "map_of ob ''knowledge_definition_id'' = Some (option_json JString (Option.bind d dr_definition_id))"
    and "map_of ob ''knowledge_definition_version'' =
      Some (option_json (\<lambda>v. number_json (unat v)) (Option.bind d dr_definition_version))"
    and "map_of ob ''knowledge_confidence'' = Some (option_json JString (Option.bind d dr_confidence))"
    and "map_of ob ''knowledge_hardware_validation'' =
      Some (option_json JString (Option.bind d dr_hardware_validation))"
    and "map_of ob ''local_ecu_id'' = Some (option_json JString (Option.bind d dr_local_ecu_id))"
  shows "parse_definition ob l = Inr d"
proof -
  let ?v = "Option.bind d dr_definition_version"
  have "map_of ob ''knowledge_definition_version'' = Some (option_json number_json (map_option unat ?v))"
    using assms(3) by (simp add: option_json_def split: option.split)
  then have "optional_u64_field ob ''knowledge_definition_version'' l = Inr (map_option unat ?v)"
    by (rule optional_u64_field_get) (cases ?v; simp)
  moreover have "(case map_option unat ?v of None \<Rightarrow> Inr None
      | Some v \<Rightarrow> and_then (bounded (2 ^ 32 - 1) ''knowledge definition version is out of range'' l v)
          (\<lambda>v. Inr (Some (word_of_nat v :: u32)))) = Inr ?v"
  proof (cases ?v)
    case (Some w)
    have "unat w \<le> 4294967295" using unat_u32_less [of w] by linarith
    then show ?thesis using Some by (simp add: bounded_def)
  qed simp
  ultimately show ?thesis
    using assms(1) optional_string_field_get [OF assms(2)] optional_string_field_get [OF assms(4)]
      optional_string_field_get [OF assms(5)] optional_string_field_get [OF assms(6)]
    by (cases d) (auto simp: parse_definition_def definition_ok_def definition_reference_new_def split: if_splits)
qed

lemma parse_context_update_name: "parse_context_update (context_update_name u) l = Inr u"
proof (cases u)
  case (Up_Transport s)
  then show ?thesis
    by (cases s) (simp_all add: parse_context_update_def context_state_def starts_with_def transport_parse_def)
next
  case (Up_Vehicle s)
  then show ?thesis
    by (cases s) (simp_all add: parse_context_update_def context_state_def starts_with_def vehicle_parse_def)
next
  case (Up_Topology s)
  then show ?thesis
    by (cases s) (simp_all add: parse_context_update_def context_state_def starts_with_def topology_parse_def)
next
  case (Up_Recording s)
  then show ?thesis
    by (cases s) (simp_all add: parse_context_update_def context_state_def starts_with_def recording_parse_def)
next
  case (Up_Source s)
  then show ?thesis
    by (cases s) (simp_all add: parse_context_update_def context_state_def starts_with_def source_parse_def)
next
  case (Up_Safety s)
  then show ?thesis
    by (cases s) (simp_all add: parse_context_update_def context_state_def starts_with_def safety_parse_def)
qed

text \<open>An event with an argument is its kind, a colon and the name of the argument.\<close>

lemma parse_runtime_event_kind:
  assumes "CHR '':'' \<notin> set kind" and "\<forall>t. map_of plain_events (kind @ '':'' @ t) = None"
  shows "parse_runtime_event (kind @ '':'' @ context_update_name u) l =
    changed_event kind u (kind @ '':'' @ context_update_name u) l"
  using assms split_once_append [of "CHR '':''" kind "context_update_name u"]
  by (simp add: parse_runtime_event_def parse_context_update_name)

lemma plain_events_colon: "map_of plain_events (kind @ '':'' @ t) = None"
proof -
  have "\<forall>n \<in> fst ` set plain_events. CHR '':'' \<notin> set n" by (simp add: plain_events_def)
  then show ?thesis unfolding map_of_eq_None_iff by (metis in_set_conv_decomp append_Cons append_Nil)
qed

lemma parse_runtime_event_name: "parse_runtime_event (runtime_event_name e) l = Inr e"
proof -
  have kind: "parse_runtime_event (kind @ '':'' @ context_update_name u) l =
      changed_event kind u (kind @ '':'' @ context_update_name u) l" if "CHR '':'' \<notin> set kind" for kind u
    using that plain_events_colon by (intro parse_runtime_event_kind) simp_all
  show ?thesis
  proof (cases e)
    case (ContextUpdated u)
    then show ?thesis using kind [of "''context_updated''" u] by (simp add: changed_event_def)
  next
    case (ContextChanged u)
    then show ?thesis using kind [of "''context_changed''" u] by (simp add: changed_event_def)
  next
    case (TransportChanged s)
    then show ?thesis using kind [of "''transport_changed''" "Up_Transport s"] by (simp add: changed_event_def)
  next
    case (VehicleChanged s)
    then show ?thesis using kind [of "''vehicle_changed''" "Up_Vehicle s"] by (simp add: changed_event_def)
  next
    case (TopologyChanged s)
    then show ?thesis using kind [of "''topology_changed''" "Up_Topology s"] by (simp add: changed_event_def)
  next
    case (RecordingChanged s)
    then show ?thesis using kind [of "''recording_changed''" "Up_Recording s"] by (simp add: changed_event_def)
  next
    case (SourceChanged s)
    then show ?thesis using kind [of "''source_changed''" "Up_Source s"] by (simp add: changed_event_def)
  next
    case (SafetyChanged s)
    then show ?thesis using kind [of "''safety_changed''" "Up_Safety s"] by (simp add: changed_event_def)
  qed (simp_all add: parse_runtime_event_def plain_events_def)
qed

section \<open>Events\<close>

lemma filter_outcome_get:
  "map_of ob ''filter_outcome'' = Some (JString (filter_outcome_name f)) \<Longrightarrow> parse_filter_outcome ob l = Inr f"
  by (cases f) (simp_all add: parse_filter_outcome_def string_field_get)

lemma step_status_get:
  "map_of ob ''status'' = Some (JString (job_step_status_str s)) \<Longrightarrow>
     parse_diagnostic_job_step_status ob l = Inr s"
  by (cases s) (simp_all add: parse_diagnostic_job_step_status_def string_field_get)

lemma job_status_get:
  "map_of ob ''status'' = Some (JString (job_status_str s)) \<Longrightarrow> parse_job_status ob l = Inr s"
  by (cases s) (simp_all add: parse_job_status_def string_field_get)

lemma runtime_state_get:
  assumes "map_of ob k = Some (JString (serialize s))" and "state_ok s"
  shows "parse_runtime_state ob k l = Inr s"
proof -
  have "state_parse (serialize s) = Inr s"
    using state_parse_serialize [of "st_phase s" "st_activity s" "st_context s"] assms(2)
    by (simp only: state_ok_def new_state_eta)
  then show ?thesis using assms(1) by (simp add: parse_runtime_state_def string_field_get)
qed

lemma job_id_get:
  "map_of ob ''job_id'' = Some (JString j) \<Longrightarrow> validate_diagnostic_job_id j = Inr () \<Longrightarrow> job_id_field ob l = Inr j"
  by (simp add: job_id_field_def string_field_get)

lemma optional_hex_get:
  "map_of ob ''request_payload'' = Some (option_json bytes_json b) \<Longrightarrow> parse_optional_hex ob l = Inr b"
  by (cases b) (simp_all add: parse_optional_hex_def option_json_def bytes_json_def parse_hex_hex)

lemma responses_get:
  assumes "map_of ob ''responses'' = Some (JArray (map evidence_json rs))" and "\<not> list_ex (\<lambda>r. re_payload r = []) rs"
  shows "parse_responses ob l = Inr rs"
proof -
  have "map (\<lambda>v. parse_responder_evidence v l) (map evidence_json rs) = map Inr rs"
    using assms(2) by (simp add: list_ex_iff parse_evidence_json)
  then show ?thesis using assms(1) by (simp add: parse_responses_def collect_results_Inr del: map_map)
qed

lemmas field_gets = string_field_get optional_string_field_get u64_field_get optional_u64_field_get
  hex_field_get filter_outcome_get step_status_get job_status_get runtime_state_get job_id_get
  optional_hex_get

lemma event_object_get:
  "map_of (event_object n ev) ''schema'' = Some (JString SCHEMA)"
  "map_of (event_object n ev) ''version'' = Some (number_json VERSION)"
  "map_of (event_object n ev) ''type'' = Some (JString (event_type ev))"
  "map_of (event_object n ev) ''sequence'' = Some (number_json n)"
  "k \<notin> set base_fields \<Longrightarrow> map_of (event_object n ev) k = map_of (event_members ev) k"
  "map fst (event_object n ev) = base_fields @ map fst (event_members ev)"
  by (simp_all add: event_object_def record_members_def base_fields_def)

text \<open>The parser of the type of an event, applied to the object of the event.\<close>

lemma parse_event_type:
  assumes "map_of event_parsers (event_type ev) = Some f"
  shows "parse_event (event_object n ev) l = f (event_object n ev) l"
  using assms by (simp add: parse_event_def string_field_get [OF event_object_get(3)])

lemma exact_event_fields:
  "names = map fst (event_members ev) \<Longrightarrow> exact_fields (event_object n ev) names l = Inr ()"
  by (rule exact_fields_ok) (simp add: event_object_get)

lemma not_base [simp]: "k \<notin> set base_fields \<longleftrightarrow> k \<noteq> ''schema'' \<and> k \<noteq> ''version'' \<and> k \<noteq> ''type'' \<and> k \<noteq> ''sequence''"
  by (auto simp: base_fields_def)

lemma unat_words_bound [simp]:
  "unat (a :: u8) \<le> 255" "unat (b :: u16) \<le> 65535" "unat (c :: u32) \<le> 4294967295"
  using unat_u8_less [of a] unat_u16_less [of b] unat_u32_less [of c] by linarith+

lemma parse_read_succeeded_object:
  assumes "event_ok (ReadSucceeded r)"
  shows "parse_read_succeeded (event_object n (ReadSucceeded r)) l = Inr (ReadSucceeded r)"
proof -
  let ?ob = "event_object n (ReadSucceeded r)"
  have ok: "is_u64 (rs_requested_interval_us r)" "is_u64 (rs_due_us r)" "is_u64 (rs_started_us r)"
      "is_u64 (rs_finished_us r)" "rs_due_us r \<le> rs_started_us r" "rs_started_us r \<le> rs_finished_us r"
    using assms by simp_all
  have has: "contains_key ?ob ''knowledge_definition_id''" by (simp add: contains_key_def event_object_get)
  have fields: "exact_fields ?ob ([''semantic'', ''requested_interval_us'', ''due_us'', ''started_us'', ''finished_us'',
          ''request_payload'', ''response_payload'', ''value'', ''unit'', ''source'', ''profile'',
          ''decoder'', ''provenance''] @ (if True then definition_fields else [])) l = Inr ()"
    by (rule exact_event_fields) (simp add: definition_fields_def)
  have reference: "parse_definition ?ob l = Inr (rs_definition r)"
    by (rule parse_definition_json) (use assms in \<open>simp_all add: event_object_get\<close>)
  have v: "parse_value (the (map_of ?ob ''value'')) l = Inr (rs_value r)"
    using assms by (simp add: event_object_get parse_value_json)
  have strings: "string_field ?ob ''semantic'' l = Inr (rs_semantic r)" "string_field ?ob ''unit'' l = Inr (rs_unit r)"
      "string_field ?ob ''source'' l = Inr (rs_source r)" "string_field ?ob ''profile'' l = Inr (rs_profile r)"
      "string_field ?ob ''decoder'' l = Inr (rs_decoder r)" "string_field ?ob ''provenance'' l = Inr (rs_provenance r)"
    by (rule string_field_get, simp add: event_object_get)+
  have payloads: "hex_field ?ob ''request_payload'' l = Inr (rs_request r)"
      "hex_field ?ob ''response_payload'' l = Inr (rs_response r)"
    by (rule hex_field_get, simp add: event_object_get)+
  have numbers: "u64_field ?ob ''requested_interval_us'' l = Inr (rs_requested_interval_us r)"
      "u64_field ?ob ''due_us'' l = Inr (rs_due_us r)" "u64_field ?ob ''started_us'' l = Inr (rs_started_us r)"
      "u64_field ?ob ''finished_us'' l = Inr (rs_finished_us r)"
    using ok by (auto intro!: u64_field_get simp: event_object_get)
  show ?thesis
    unfolding parse_read_succeeded_def Let_def
    using has fields by (simp add: reference v strings payloads numbers ok del: append.simps)
qed

lemma parse_event_object:
  assumes "event_ok ev"
  shows "parse_event (event_object n ev) l = Inr ev"
proof (cases ev)
  case (ReadSucceeded r)
  then show ?thesis
    using assms parse_event_type [of ev parse_read_succeeded n l] parse_read_succeeded_object [of r n l]
    by (simp add: event_parsers_def)
next
  case (ResponsesObserved off s a rs sel err)
  then have p: "parse_event (event_object n ev) l = parse_responses_observed (event_object n ev) l"
    by (intro parse_event_type) (simp add: event_parsers_def)
  have ok: "pred_option is_u64 off" "a \<noteq> []" "rs \<noteq> []" "\<not> list_ex (\<lambda>r. re_payload r = []) rs"
    using assms ResponsesObserved by (simp_all add: responses_observed_with_offset_def split: if_splits)
  show ?thesis
    unfolding p parse_responses_observed_def Let_def
    using ResponsesObserved ok
    by (simp add: exact_event_fields field_gets responses_get event_object_get contains_key_def
        responses_observed_with_offset_def)
next
  case (RuntimeStateChanged k a b e)
  then have p: "parse_event (event_object n ev) l = parse_state_changed (event_object n ev) l"
    by (intro parse_event_type) (simp add: event_parsers_def)
  show ?thesis
    unfolding p parse_state_changed_def Let_def
    using RuntimeStateChanged assms
    by (simp add: exact_event_fields field_gets event_object_get contains_key_def parse_runtime_event_name
        state_ok_def)
next
  case (SupportDiscovery a r b)
  then have p: "parse_event (event_object n ev) l = parse_support_discovery (event_object n ev) l"
    by (intro parse_event_type) (simp add: event_parsers_def)
  show ?thesis
    unfolding p parse_support_discovery_def
    using SupportDiscovery by (simp add: exact_event_fields field_gets event_object_get contains_key_def)
next
  case (ReadFailed s i t a err)
  then have p: "parse_event (event_object n ev) l = parse_read_failed (event_object n ev) l"
    by (intro parse_event_type) (simp add: event_parsers_def)
  have order: "pred_option is_u64 (map_option rt_due_us t)" "pred_option is_u64 (map_option rt_started_us t)"
      "pred_option is_u64 (map_option rt_finished_us t)" "is_u64 i"
    using assms ReadFailed by (cases t; simp)+
  have "parse_failed_timing (event_object n ev) l = Inr t"
    unfolding parse_failed_timing_def
    using ReadFailed order assms
    by (cases t) (simp_all add: optional_u64_field_get event_object_get)
  then show ?thesis
    unfolding p parse_read_failed_def
    using ReadFailed order by (simp add: exact_event_fields field_gets event_object_get)
next
  case (DtcTransportObserved j k r out)
  then have p: "parse_event (event_object n ev) l = parse_transport_observed (event_object n ev) l"
    by (intro parse_event_type) (simp add: event_parsers_def)
  have "optional_string_field (event_object n ev) ''reason'' l =
      Inr (case out of Dtc_Error e \<Rightarrow> Some e | _ \<Rightarrow> None)"
    using DtcTransportObserved
    by (cases out) (simp_all add: optional_string_field_def event_object_get)
  then show ?thesis
    unfolding p parse_transport_observed_def
    using DtcTransportObserved assms
    by (cases out) (simp_all add: exact_event_fields field_gets event_object_get dtc_transport_observed_def
        parse_transport_outcome_def)
next
  case (DtcObservationEvent j k r f d q)
  then have p: "parse_event (event_object n ev) l = parse_dtc_observation (event_object n ev) l"
    by (intro parse_event_type) (simp add: event_parsers_def)
  show ?thesis
    unfolding p parse_dtc_observation_def
    using DtcObservationEvent assms
    by (simp add: exact_event_fields field_gets event_object_get dtc_observation_def parse_dtc_fact_json)
next
  case (DiagnosticJobStep j k m s st err)
  then have p: "parse_event (event_object n ev) l = parse_job_step (event_object n ev) l"
    by (intro parse_event_type) (simp add: event_parsers_def)
  show ?thesis
    unfolding p parse_job_step_def
    using DiagnosticJobStep assms
    by (simp add: exact_event_fields field_gets event_object_get diagnostic_job_step_def bounded_def)
next
  case (KnowledgeContext c)
  then have p: "parse_event (event_object n ev) l = parse_knowledge_context (event_object n ev) l"
    by (intro parse_event_type) (simp add: event_parsers_def)
  show ?thesis
    unfolding p parse_knowledge_context_def
    using KnowledgeContext assms
    by (simp add: exact_event_fields field_gets event_object_get knowledge_ok_def bounded_def)
next
  case (ProtocolNegotiationObserved a r b)
  then have p: "parse_event (event_object n ev) l = parse_protocol_negotiation (event_object n ev) l"
    by (intro parse_event_type) (simp add: event_parsers_def)
  show ?thesis
    unfolding p parse_protocol_negotiation_def
    using ProtocolNegotiationObserved assms by (simp add: exact_event_fields field_gets event_object_get)
qed (use assms in \<open>simp_all add: parse_event_type event_parsers_def exact_event_fields field_gets event_object_get
    bounded_def parse_capture_started_def parse_session_initialized_def parse_subscription_configured_def
    parse_slots_skipped_def parse_session_error_def parse_shutdown_requested_def parse_session_stopped_def
    parse_job_started_def parse_job_completed_def parse_job_failed_def parse_job_cancelled_def\<close>)

text \<open>A read whose times are out of order is written, and its line is refused.\<close>

lemma parse_event_refused:
  assumes "event_built ev" and "\<not> timing_monotonic ev"
  shows "\<exists>e. parse_event (event_object n ev) l = Inl e"
proof (cases ev)
  case (ReadSucceeded r)
  then have p: "parse_event (event_object n ev) l = parse_read_succeeded (event_object n ev) l"
    by (intro parse_event_type) (simp add: event_parsers_def)
  have numbers: "u64_field (event_object n ev) ''due_us'' l = Inr (rs_due_us r)"
      "u64_field (event_object n ev) ''started_us'' l = Inr (rs_started_us r)"
      "u64_field (event_object n ev) ''finished_us'' l = Inr (rs_finished_us r)"
    using assms(1) ReadSucceeded by (auto intro!: u64_field_get simp: event_object_get)
  have bad: "(\<not> (rs_due_us r \<le> rs_started_us r \<and> rs_started_us r \<le> rs_finished_us r)) = True"
    using assms(2) ReadSucceeded by simp
  have refused: "\<exists>e. and_then x (\<lambda>_. Inl e') = Inl e" for x :: "string + unit" and e' :: string
    by (cases x) auto
  show ?thesis
    unfolding p parse_read_succeeded_def Let_def numbers and_then.simps bad if_True by (rule refused)
next
  case (ReadFailed s i t a err)
  then have p: "parse_event (event_object n ev) l = parse_read_failed (event_object n ev) l"
    by (intro parse_event_type) (simp add: event_parsers_def)
  obtain u where u: "t = Some u" "\<not> (rt_due_us u \<le> rt_started_us u \<and> rt_started_us u \<le> rt_finished_us u)"
      "is_u64 (rt_due_us u)" "is_u64 (rt_started_us u)" "is_u64 (rt_finished_us u)"
    using assms ReadFailed by (cases t) auto
  then have "parse_failed_timing (event_object n ev) l = Inl (at_line l ''non-monotonic failed-read timing'')"
    unfolding parse_failed_timing_def using ReadFailed
    by (simp add: optional_u64_field_get event_object_get)
  then show ?thesis
    unfolding p parse_read_failed_def using ReadFailed by (simp add: exact_event_fields)
qed (use assms in simp_all)

section \<open>Lines\<close>

lemma plain_hex_digit: "n < 16 \<Longrightarrow> hex_digit n \<noteq> line_feed \<and> hex_digit n \<noteq> CHR 0x0D"
  by (drule hex_digit_cases) (auto simp: hex_digit_def)

lemma plain_fmt_04X: "plain_line (fmt_04X w)"
proof -
  have "unat w < 2 ^ 16" using unsigned_less [where w = w and 'a = nat] by simp
  then have "unat w div 4096 < 16" by (simp add: less_mult_imp_div_less)
  then show ?thesis by (simp add: fmt_04X_def plain_hex_digit)
qed

lemma plain_json_char: "plain_line (json_char c)"
proof -
  consider "c \<in> {quote, reverse_solidus, CHR 0x0A, CHR 0x0D, CHR 0x09, CHR 0x08, CHR 0x0C}" | "is_control c"
    | "c \<notin> {quote, reverse_solidus, CHR 0x0A, CHR 0x0D, CHR 0x09, CHR 0x08, CHR 0x0C}" "\<not> is_control c"
    by blast
  then show ?thesis
  proof cases
    case 1
    then show ?thesis by (auto simp: json_char_def)
  next
    case 2
    then show ?thesis by (simp add: json_char_def plain_fmt_04X)
  next
    case 3
    then show ?thesis by (simp add: json_char_def)
  qed
qed

lemma plain_string_text [simp]: "plain_line (string_text s)"
proof -
  have "plain_line (json_chars s)"
    by (induction s rule: json_chars.induct) (simp_all add: plain_json_char plain_fmt_04X)
  then show ?thesis by (simp add: string_text_def)
qed

lemma plain_digits: "all_digits s \<Longrightarrow> plain_line s"
  by (induction s) (auto simp: all_digits_def dec_value_def code_point_def)

lemma plain_number_token: "number_ok t \<Longrightarrow> plain_line t"
proof -
  assume "number_ok t"
  then obtain sg w fr where t: "t = number_parts sg w fr" and ok: "parts_ok sg w fr" by (auto simp: number_ok_def)
  from ok have "plain_line sg" "plain_line w" "plain_line fr" by (auto simp: parts_ok_def plain_digits)
  then show ?thesis by (simp add: t number_parts_def)
qed

lemma plain_join: "list_all plain_line ws \<Longrightarrow> plain_line (comma_separated ws)"
proof (cases ws)
  case (Cons v vs)
  assume "list_all plain_line ws"
  moreover have "list_all plain_line us \<Longrightarrow> plain_line (concat (map (\<lambda>l. CHR '','' # l) us))" for us
    by (induction us) simp_all
  ultimately show ?thesis using Cons by (simp add: comma_separated_def join_concat)
qed (simp add: comma_separated_def)

lemma plain_render: "json_ok v \<Longrightarrow> plain_line (render v)"
proof (induction v)
  case (JObject fs)
  then have "list_all (\<lambda>(k, v). plain_line (render v)) fs" by (fastforce simp: list_all_iff)
  then have "list_all plain_line (map (\<lambda>(k, v). string_text k @ '':'' @ render v) fs)"
    by (induction fs) auto
  then show ?case by (simp add: plain_join)
next
  case (JArray vs)
  then have "list_all plain_line (map render vs)" by (simp add: list_all_iff)
  then show ?case by (simp add: plain_join)
qed (simp_all add: plain_number_token)

end
