(* ===== verification/Capture_File.thy ===== *)
theory Capture_File
  imports Capture_Sound
begin

text \<open>
  The capture file as a whole: what the recorder writes is cut back into the lines it wrote, the
  reader accepts it exactly when the events are in the order a session produces them, and then
  returns the recorded events.
\<close>

section \<open>The order of a session\<close>

text \<open>The declarative reading of the checks of \<open>read\<close>: at most one knowledge context, response
  offsets that never go back, and nothing after the end of the session but its state changes.\<close>

definition is_context :: "capture_event \<Rightarrow> bool" where
  "is_context ev \<longleftrightarrow> (case ev of KnowledgeContext _ \<Rightarrow> True | _ \<Rightarrow> False)"

definition is_stop :: "capture_event \<Rightarrow> bool" where
  "is_stop ev \<longleftrightarrow> (case ev of SessionStopped _ \<Rightarrow> True | _ \<Rightarrow> False)"

definition is_state_change :: "capture_event \<Rightarrow> bool" where
  "is_state_change ev \<longleftrightarrow> (case ev of RuntimeStateChanged _ _ _ _ \<Rightarrow> True | _ \<Rightarrow> False)"

definition response_offset :: "capture_event \<Rightarrow> nat option" where
  "response_offset ev = (case ev of ResponsesObserved off _ _ _ _ _ \<Rightarrow> off | _ \<Rightarrow> None)"

definition session_order :: "capture_event list \<Rightarrow> bool" where
  "session_order evs \<longleftrightarrow>
     length (filter is_context evs) \<le> 1
     \<and> sorted (List.map_filter response_offset evs)
     \<and> list_all is_state_change (drop 1 (dropWhile (\<lambda>ev. \<not> is_stop ev) evs))"

text \<open>The events that may come after a state of the reader.\<close>

definition follows :: "read_state \<Rightarrow> capture_event list \<Rightarrow> bool" where
  "follows st evs \<longleftrightarrow>
     length (filter is_context evs) + (if rd_has_context st then 1 else 0) \<le> 1
     \<and> sorted ((case rd_last_offset st of None \<Rightarrow> [] | Some t \<Rightarrow> [t]) @ List.map_filter response_offset evs)
     \<and> list_all is_state_change (if rd_stopped st then evs else drop 1 (dropWhile (\<lambda>ev. \<not> is_stop ev) evs))"

definition after :: "capture_event \<Rightarrow> read_state \<Rightarrow> read_state" where
  "after ev st = \<lparr>rd_expected = rd_expected st,
     rd_last_offset = (case response_offset ev of None \<Rightarrow> rd_last_offset st | Some t \<Rightarrow> Some t),
     rd_has_context = (rd_has_context st \<or> is_context ev),
     rd_stopped = (rd_stopped st \<or> is_stop ev)\<rparr>"

definition allowed :: "capture_event \<Rightarrow> read_state \<Rightarrow> bool" where
  "allowed ev st \<longleftrightarrow>
     \<not> (is_context ev \<and> rd_has_context st)
     \<and> (case (rd_last_offset st, response_offset ev) of (Some t, Some u) \<Rightarrow> t \<le> u | _ \<Rightarrow> True)
     \<and> (rd_stopped st \<longrightarrow> is_state_change ev)"

lemmas event_kinds = is_context_def is_stop_def is_state_change_def response_offset_def

lemma check_context_kind:
  "check_context l ev st =
     (if is_context ev \<and> rd_has_context st then Inl (at_line l ''duplicate knowledge_context event'')
      else Inr (st\<lparr>rd_has_context := rd_has_context st \<or> is_context ev\<rparr>))"
  by (cases ev) (simp_all add: check_context_def event_kinds)

lemma check_offset_kind:
  "check_offset l ev st =
     (case (rd_last_offset st, response_offset ev) of
        (_, None) \<Rightarrow> Inr st
      | (Some t, Some u) \<Rightarrow>
          if u < t then Inl (at_line l ''non-monotonic response offset'') else Inr (st\<lparr>rd_last_offset := Some u\<rparr>)
      | (None, Some u) \<Rightarrow> Inr (st\<lparr>rd_last_offset := Some u\<rparr>))"
proof (cases ev)
  case (ResponsesObserved off s a rs sel err)
  then show ?thesis
    by (cases off; cases "rd_last_offset st") (simp_all add: check_offset_def event_kinds)
qed (simp_all add: check_offset_def event_kinds split: option.split)

lemma check_stopped_kind:
  "check_stopped l ev st =
     (if rd_stopped st \<and> \<not> is_state_change ev
      then Inl (at_line l (if is_stop ev then ''duplicate session_stopped event'' else ''event follows session_stopped''))
      else Inr (st\<lparr>rd_stopped := rd_stopped st \<or> is_stop ev\<rparr>))"
  by (cases ev) (simp_all add: check_stopped_def event_kinds)

lemma check_event_allowed:
  "allowed ev st \<Longrightarrow> check_event l ev st = Inr (after ev st)"
  "\<not> allowed ev st \<Longrightarrow> \<exists>e. check_event l ev st = Inl e"
  by (cases "response_offset ev"; cases "rd_last_offset st"; cases st;
      auto simp: check_event_def check_context_kind check_offset_kind check_stopped_kind allowed_def after_def)+

lemma map_filter_Cons:
  "List.map_filter f (x # xs) = (case f x of None \<Rightarrow> List.map_filter f xs | Some y \<Rightarrow> y # List.map_filter f xs)"
  by (simp add: List.map_filter_def split: option.split)

lemma sorted_shorter: "sorted (t # (u :: nat) # us) \<longleftrightarrow> t \<le> u \<and> sorted (u # us)"
  by auto

lemma kinds_differ:
  "is_context ev \<Longrightarrow> response_offset ev = None \<and> \<not> is_stop ev \<and> \<not> is_state_change ev"
  "is_stop ev \<Longrightarrow> response_offset ev = None \<and> \<not> is_state_change ev"
  "is_state_change ev \<Longrightarrow> response_offset ev = None"
  by (cases ev; simp add: event_kinds)+

lemma follows_Cons: "follows st (ev # evs) \<longleftrightarrow> allowed ev st \<and> follows (after ev st) evs"
proof -
  have contexts: "length (filter is_context (ev # evs)) + (if rd_has_context st then 1 else 0) \<le> 1
      \<longleftrightarrow> \<not> (is_context ev \<and> rd_has_context st)
        \<and> length (filter is_context evs) + (if rd_has_context (after ev st) then 1 else 0) \<le> 1"
    by (auto simp: after_def)
  have offsets: "sorted ((case rd_last_offset st of None \<Rightarrow> [] | Some t \<Rightarrow> [t]) @ List.map_filter response_offset (ev # evs))
      \<longleftrightarrow> (case (rd_last_offset st, response_offset ev) of (Some t, Some u) \<Rightarrow> t \<le> u | _ \<Rightarrow> True)
        \<and> sorted ((case rd_last_offset (after ev st) of None \<Rightarrow> [] | Some t \<Rightarrow> [t]) @ List.map_filter response_offset evs)"
    by (auto simp: after_def map_filter_Cons split: option.splits)
  have stopped: "list_all is_state_change (if rd_stopped st then ev # evs else drop 1 (dropWhile (\<lambda>ev. \<not> is_stop ev) (ev # evs)))
      \<longleftrightarrow> (rd_stopped st \<longrightarrow> is_state_change ev)
        \<and> list_all is_state_change (if rd_stopped (after ev st) then evs else drop 1 (dropWhile (\<lambda>ev. \<not> is_stop ev) evs))"
    by (auto simp: after_def)
  show ?thesis unfolding follows_def allowed_def contexts offsets stopped by blast
qed

lemma follows_start: "follows read_start evs \<longleftrightarrow> session_order evs"
  by (simp add: follows_def session_order_def read_start_def)

section \<open>The lines\<close>

definition event_text :: "nat \<Rightarrow> capture_event \<Rightarrow> string" where
  "event_text n ev = render (JObject (event_object n ev))"

definition header_text :: string where
  "header_text = render (JObject (record_members ''header''))"

lemma object_line:
  assumes "render (JObject fs) = t"
  shows "trim t = t" and "t \<noteq> []"
proof -
  have "t = CHR ''{'' # comma_separated (map (\<lambda>(k, v). string_text k @ '':'' @ render v) fs) @ ''}''"
    using assms by simp
  then show "trim t = t" "t \<noteq> []"
    by (auto intro!: trim_id simp: is_whitespace_def is_ascii_whitespace_def)
qed

fun event_texts :: "nat \<Rightarrow> capture_event list \<Rightarrow> string list" where
  "event_texts n [] = []"
| "event_texts n (ev # evs) = event_text n ev # event_texts (n + 1) evs"

lemma header_line: "header = header_text @ [line_feed]"
  using record_members_text [of "''header''" "[]"] by (simp add: header_def header_text_def del: render.simps)

lemma write_events_text:
  assumes "list_all event_built evs" and "n + length evs < 2 ^ 64"
  shows "write_events n acc (evs @ rest) =
    write_events (n + length evs) (acc @ concat (map (\<lambda>l. l @ [line_feed]) (event_texts n evs))) rest"
  using assms
proof (induction evs arbitrary: n acc)
  case (Cons ev evs)
  then have line: "event_line n ev = Inr (event_text n ev @ [line_feed])"
    by (simp add: event_line_object event_text_def)
  show ?case using Cons by (simp add: line)
qed simp

lemma line_feeds_move: "w @ [x] @ concat (map (\<lambda>l. l @ [x]) ws) = w @ concat (map (\<lambda>l. x # l) ws) @ [x]"
  by (induction ws arbitrary: w) simp_all

lemma plain_event_texts:
  assumes "list_all event_built evs" and "n + length evs < 2 ^ 64"
  shows "list_all plain_line (event_texts n evs)"
  using assms
proof (induction evs arbitrary: n)
  case (Cons ev evs)
  then have "is_u64 n" by (simp add: is_u64_def)
  then show ?case
    using Cons by (simp add: event_text_def plain_render event_object_ok del: render.simps json_ok.simps)
qed simp

lemma header_json_ok: "json_ok (JObject (record_members ''header''))"
  by (simp add: record_members_def VERSION_def is_u64_def)

lemma recorded_text:
  assumes "list_all event_built evs" and "length evs < 2 ^ 64"
  shows "record_capture (evs @ rest) =
      write_events (length evs) (header_text @ concat (map (\<lambda>l. line_feed # l) (event_texts 0 evs)) @ [line_feed]) rest"
    and "rust_lines (header_text @ concat (map (\<lambda>l. line_feed # l) (event_texts 0 evs)) @ [line_feed])
      = header_text # event_texts 0 evs"
proof -
  show "record_capture (evs @ rest) =
      write_events (length evs) (header_text @ concat (map (\<lambda>l. line_feed # l) (event_texts 0 evs)) @ [line_feed]) rest"
    unfolding record_capture_def
    using assms write_events_text [of evs 0 header rest] line_feeds_move [of header_text line_feed "event_texts 0 evs"]
    by (simp add: header_line)
  show "rust_lines (header_text @ concat (map (\<lambda>l. line_feed # l) (event_texts 0 evs)) @ [line_feed])
      = header_text # event_texts 0 evs"
    using assms plain_event_texts [of evs 0] plain_render [OF header_json_ok]
    by (intro rust_lines_text) (simp add: header_text_def)
qed

section \<open>Reading back\<close>

lemma record_members_get:
  "map_of (record_members t @ fs) ''schema'' = Some (JString SCHEMA)"
  "map_of (record_members t @ fs) ''version'' = Some (number_json VERSION)"
  "map_of (record_members t @ fs) ''type'' = Some (JString t)"
  by (simp_all add: record_members_def)

lemma expect_schema_members: "expect_schema (record_members t @ fs) l = Inr ()"
proof -
  have "integer_field (record_members t @ fs) ''version'' l = Inr VERSION"
    by (rule integer_field_get [OF record_members_get(2)]) (simp add: VERSION_def is_u64_def)
  then show ?thesis
    by (simp add: expect_schema_def string_field_get [OF record_members_get(1)])
qed

lemma read_header_text: "read_header header_text = Inr ()"
proof -
  have "parse_object header_text 1 = Inr (record_members ''header'')"
    unfolding header_text_def by (rule parse_object_render [OF header_json_ok])
  moreover have "length (record_members ''header'') = 3" by (simp add: record_members_def)
  ultimately show ?thesis
    using expect_schema_members [of "''header''" "[]"] record_members_get(3) [of "''header''" "[]"]
    by (simp add: read_header_def string_field_get)
qed

lemma sequence_get: "is_u64 n \<Longrightarrow> u64_field (event_object n ev) ''sequence'' l = Inr n"
  by (rule u64_field_get) (simp_all add: event_object_def record_members_def)

lemma event_text_parsed:
  assumes "event_built ev" and "is_u64 n"
  shows "parse_object (event_text n ev) l = Inr (event_object n ev)"
  unfolding event_text_def by (rule parse_object_render [OF event_object_ok [OF assms]])

lemma read_line_text:
  assumes "event_ok ev" and "rd_expected st = n" and "n + 1 < 2 ^ 64"
  shows "read_line l (event_text n ev) st = and_then (check_event l ev (st\<lparr>rd_expected := n + 1\<rparr>)) (\<lambda>st. Inr (ev, st))"
proof -
  have n: "is_u64 n" using assms(3) by (simp add: is_u64_def)
  have line: "trim (event_text n ev) = event_text n ev" "event_text n ev \<noteq> []"
    by (rule object_line, simp only: event_text_def)+
  have schema: "expect_schema (event_object n ev) l = Inr ()"
    using expect_schema_members by (simp add: event_object_def)
  show ?thesis
    using assms(2,3) n line schema event_text_parsed [OF _ n, of ev l] assms(1) parse_event_object [OF assms(1), of n l]
    by (simp add: read_line_def sequence_get)
qed

lemma read_line_refused:
  assumes "event_built ev" and "\<not> timing_monotonic ev" and "rd_expected st = n" and "n + 1 < 2 ^ 64"
  shows "\<exists>e. read_line l (event_text n ev) st = Inl e"
proof -
  have n: "is_u64 n" using assms(4) by (simp add: is_u64_def)
  have line: "trim (event_text n ev) = event_text n ev" "event_text n ev \<noteq> []"
    by (rule object_line, simp only: event_text_def)+
  have schema: "expect_schema (event_object n ev) l = Inr ()"
    using expect_schema_members by (simp add: event_object_def)
  obtain e where "parse_event (event_object n ev) l = Inl e" using parse_event_refused assms(1,2) by blast
  then show ?thesis
    using assms(3,4) n line schema event_text_parsed [OF assms(1) n, of l]
    by (simp add: read_line_def sequence_get)
qed

lemma allowed_expected [simp]: "allowed ev (st\<lparr>rd_expected := k\<rparr>) = allowed ev st"
  by (simp add: allowed_def)

lemma after_expected [simp]:
  "rd_expected (after ev st) = rd_expected st" "rd_stopped (after ev st) = (rd_stopped st \<or> is_stop ev)"
  by (simp_all add: after_def)

lemma follows_expected [simp]: "follows (after ev (st\<lparr>rd_expected := k\<rparr>)) evs = follows (after ev st) evs"
  by (cases "response_offset ev") (simp_all add: follows_def after_def)

text \<open>What the reader accepts of well-formed events: the order of a session, and reads in order.\<close>

definition accepted_order :: "capture_event list \<Rightarrow> bool" where
  "accepted_order evs \<longleftrightarrow> session_order evs \<and> list_all timing_monotonic evs"

lemma read_lines_texts:
  assumes "list_all event_built evs" and "rd_expected st = n" and "n + length evs < 2 ^ 64"
  shows "(follows st evs \<and> list_all timing_monotonic evs \<longrightarrow>
        (\<exists>st'. read_lines l (event_texts n evs) st = Inr (evs, st')
          \<and> rd_stopped st' = (rd_stopped st \<or> list_ex is_stop evs)))
    \<and> (\<not> (follows st evs \<and> list_all timing_monotonic evs) \<longrightarrow>
        (\<exists>e. read_lines l (event_texts n evs) st = Inl e))"
  using assms
proof (induction evs arbitrary: n l st)
  case Nil
  have "follows st []" by (auto simp: follows_def map_filter_def split: option.split)
  then show ?case by simp
next
  case (Cons ev evs)
  let ?st = "st\<lparr>rd_expected := n + 1\<rparr>"
  show ?case
  proof (cases "timing_monotonic ev")
    case False
    then obtain e where "read_line l (event_text n ev) st = Inl e"
      using read_line_refused Cons.prems by fastforce
    then show ?thesis using False by simp
  next
    case monotonic: True
    have line: "read_line l (event_text n ev) st = and_then (check_event l ev ?st) (\<lambda>st. Inr (ev, st))"
      using Cons.prems monotonic by (intro read_line_text) simp_all
    show ?thesis
    proof (cases "allowed ev st")
      case True
      then have "check_event l ev ?st = Inr (after ev ?st)" by (simp add: check_event_allowed)
      then have "read_lines l (event_texts n (ev # evs)) st =
          and_then (read_lines (l + 1) (event_texts (n + 1) evs) (after ev ?st)) (\<lambda>(es, st). Inr (ev # es, st))"
        by (simp add: line)
      moreover have "follows st (ev # evs) = follows (after ev ?st) evs" using True by (simp add: follows_Cons)
      moreover note Cons.IH [of "after ev ?st" "n + 1" "l + 1"]
      ultimately show ?thesis using Cons.prems monotonic by auto
    next
      case False
      then obtain e where "check_event l ev ?st = Inl e" using check_event_allowed(2) [of ev ?st l] by auto
      then show ?thesis using False by (simp add: line follows_Cons)
    qed
  qed
qed

lemma read_recorded:
  assumes "list_all event_built evs" and "length evs < 2 ^ 64"
    and "rust_lines text = header_text # event_texts 0 evs"
  shows "accepted_order evs \<Longrightarrow> read_capture text =
      Inr \<lparr>pc_events = evs, pc_status = (if list_ex is_stop evs then Complete else Partial)\<rparr>"
    and "\<not> accepted_order evs \<Longrightarrow> \<exists>e. read_capture text = Inl e"
  using read_lines_texts [OF assms(1), of read_start 0 2] assms(2)
  by (auto simp: read_capture_def assms(3) read_header_text follows_start accepted_order_def)
    (auto simp: read_start_def)

definition sample_events :: "capture_event list" where
  "sample_events =
     [CaptureStarted (Some 1700000000000) (Some ''fast''),
      SubscriptionConfigured ''vehicle.speed'' 1000000 Filter_Scheduled,
      ResponsesObserved (Some 12) ''vehicle.speed'' [0x01, 0x0D]
        [\<lparr>re_responder = Some ''7E8'', re_payload = [0x41, 0x0D, 0x32]\<rparr>] (Some ''7E8'') None,
      ReadSucceeded \<lparr>rs_semantic = ''vehicle.speed'', rs_requested_interval_us = 1000000, rs_due_us = 10,
        rs_started_us = 11, rs_finished_us = 12, rs_request = [0x01, 0x0D], rs_response = [0x41, 0x0D, 0x32],
        rs_value = Number (Some (5 / 2)), rs_unit = ''km/h'', rs_source = ''obd'', rs_profile = ''fast'',
        rs_decoder = ''u8'', rs_provenance = ''SAE J1979'', rs_definition = None\<rparr>,
      SessionErrorEvent [quote, CHR 0x0A, CHR 0x01, reverse_solidus],
      SessionStopped 90]"

lemma sample_events_ok: "list_all event_built sample_events" "accepted_order sample_events"
    "list_ex is_stop sample_events" "length sample_events = 6"
proof -
  have "is_f64 (5 / 2)" by code_simp
  then show "list_all event_built sample_events"
    by (simp add: sample_events_def is_u64_def responses_observed_with_offset_def value_ok_def)
  show "accepted_order sample_events"
    by (simp add: accepted_order_def sample_events_def session_order_def event_kinds List.map_filter_def)
  show "list_ex is_stop sample_events" "length sample_events = 6"
    by (simp_all add: sample_events_def event_kinds)
qed

text \<open>C39: Recording and reading a capture, for fewer than \<open>2^64\<close> well-formed events (the bounds of the
  types, the checks of the constructors, and those of the recorder itself): the recorder succeeds,
  and the reader returns exactly these events, as complete exactly when the session stopped, if
  they come in the order of a session (at most one knowledge context, response offsets that never
  go back, only state changes after the stop) and every read is due before it starts and starts
  before it finishes; otherwise it refuses the whole file.\<close>
theorem capture_roundtrip:
  assumes "list_all event_built evs" and "length evs < 2 ^ 64"
  shows "\<exists>text. record_capture evs = (text, Inr ())
    \<and> (if session_order evs \<and> list_all timing_monotonic evs
       then read_capture text =
         Inr \<lparr>pc_events = evs, pc_status = (if list_ex is_stop evs then Complete else Partial)\<rparr>
       else \<exists>e. read_capture text = Inl e)"
  using recorded_text(1) [OF assms, of "[]"] read_recorded [OF assms recorded_text(2) [OF assms]]
  by (simp add: accepted_order_def)

text \<open>A capture is read back; and a failed read with times out of order, which its constructor
  accepts, is recorded without an error and makes the file unreadable.\<close>
theorem capture_roundtrip_witness:
  "(\<exists>text. record_capture sample_events = (text, Inr ())
    \<and> read_capture text = Inr \<lparr>pc_events = sample_events, pc_status = Complete\<rparr>)
  \<and> (\<exists>text e. record_capture
        [ReadFailed ''engine.rpm'' 1 (Some \<lparr>rt_due_us = 3, rt_started_us = 2, rt_finished_us = 1\<rparr>) None ''timeout'']
        = (text, Inr ()) \<and> read_capture text = Inl e)"
proof
  show "\<exists>text. record_capture sample_events = (text, Inr ())
    \<and> read_capture text = Inr \<lparr>pc_events = sample_events, pc_status = Complete\<rparr>"
    using capture_roundtrip [OF sample_events_ok(1)] sample_events_ok by (simp add: accepted_order_def)
  let ?ev = "ReadFailed ''engine.rpm'' 1 (Some \<lparr>rt_due_us = 3, rt_started_us = 2, rt_finished_us = 1\<rparr>) None ''timeout''"
  show "\<exists>text e. record_capture [?ev] = (text, Inr ()) \<and> read_capture text = Inl e"
    using capture_roundtrip [of "[?ev]"] by (auto simp: is_u64_def simp del: record_capture_def)
qed

text \<open>C40: A capture survives a failing recorder: when an event cannot be written after fewer than
  \<open>2^64\<close> well-formed events in the order of a session, with reads in order, the recorder reports the
  error, and the file it leaves still reads as all the events before that one.\<close>
theorem capture_cut:
  assumes "list_all event_built evs" and "length evs < 2 ^ 64"
    and "session_order evs" and "list_all timing_monotonic evs"
    and "event_line (length evs) bad = Inl e"
  shows "\<exists>text. record_capture (evs @ bad # rest) = (text, Inl e) \<and> read_capture text =
    Inr \<lparr>pc_events = evs, pc_status = (if list_ex is_stop evs then Complete else Partial)\<rparr>"
  using recorded_text(1) [OF assms(1,2), of "bad # rest"]
    read_recorded(1) [OF assms(1,2) recorded_text(2) [OF assms(1,2)]] assms(3-5)
  by (simp add: accepted_order_def)

theorem capture_cut_witness:
  "\<exists>text. record_capture (sample_events @ [DiagnosticJobCancelledEvent []]) = (text, Inl ''diagnostic job id must not be empty'')
    \<and> read_capture text = Inr \<lparr>pc_events = sample_events, pc_status = Complete\<rparr>"
proof -
  have "event_line (length sample_events) (DiagnosticJobCancelledEvent []) = Inl ''diagnostic job id must not be empty''"
    by (simp add: event_line_def validate_diagnostic_job_id_def validate_diagnostic_text_def validate_text_def
        trim_def trim_end_def)
  from capture_cut [OF sample_events_ok(1) _ _ _ this, of "[]"]
  show ?thesis using sample_events_ok by (simp add: accepted_order_def)
qed

end
