(* ===== verification/Spec2Isabelle.thy ===== *)
theory Spec2Isabelle
  imports Runtime_Actor Vehicle Dtc Scheduler Capture_Events Evidence_Log Cache_Privacy Capture_File
begin

text \<open>
  Verification of the diagnostic core of obdentic, a read-only vehicle diagnostics client that
  talks to a car through an ELM327 adapter.  The code is Rust under \<open>src/src\<close>.

  \<^bold>\<open>The program.\<close>  A session (\<open>elm.rs\<close>) owns the adapter, turns typed requests into adapter
  commands and the adapter's text into payloads per responder.  Requests come from a closed
  vocabulary (\<open>protocol.rs\<close>, \<open>vehicle.rs\<close>, \<open>safety.rs\<close>); payloads are decoded into signals
  (\<open>vehicle.rs\<close>), trouble codes (\<open>dtc.rs\<close>) and a VIN (\<open>identity.rs\<close>).  From the pages a session
  discovers and the responders it sees, \<open>functional_discovery.rs\<close>, \<open>observed_inventory.rs\<close>,
  \<open>topology_provider.rs\<close> and \<open>vehicle_knowledge.rs\<close> build the topology of the vehicle and route
  later reads to one ECU.  \<open>subscription_policy.rs\<close> and \<open>scheduler.rs\<close> plan periodic reads,
  \<open>audit.rs\<close> and \<open>telemetry.rs\<close> remember them, \<open>diagnostic_job.rs\<close> describes larger jobs.  A
  runtime actor (\<open>runtime_state.rs\<close>, \<open>runtime_reducer.rs\<close>, \<open>runtime_actor.rs\<close>) tracks what the
  program is doing.  What a session learned is kept in the vehicle cache (\<open>vehicle_cache.rs\<close>),
  what happened in a capture (\<open>capture_events.rs\<close>, \<open>capture_format/jsonl.rs\<close>).

  \<^bold>\<open>Conventions.\<close>  A \<open>Result\<close> is a sum with the error on the left; where the code may also panic the
  left side is a \<open>failure\<close>, an error or a panic.  A Rust string is the list of its bytes;
  operations whose Unicode behaviour matters are modelled on ASCII (white space, case, control
  characters), the JSON text on all of UTF-8.  Machine integers are words where they wrap, are
  masked or are checked (\<open>u8\<close>, \<open>u16\<close>, \<open>u32\<close>, \<open>u64\<close>), and numbers with their saturation or bound
  written out elsewhere.  A \<open>BTreeMap\<close> or \<open>BTreeSet\<close> is its ascending list, a derived order a key
  into a linear order.  An \<open>f64\<close> of a decoder is the exact rational; in a capture it is a
  rational a double can hold, and \<open>Float_Text\<close> models its rounding, its shortest decimal text
  and the reading of that text (the sign of a negative zero is not kept).
  An async function is a step on its state; the adapter and the session client are parameters.

  \<^bold>\<open>The theories.\<close>

  \<^item> \<open>Prelude\<close>, \<open>Text\<close>, \<open>Codec\<close>, \<open>Ordered_Map\<close>, \<open>Line_Text\<close>, \<open>Float_Text\<close>: results, bytes, words, string
    operations, the interface of identifier codecs and of ordered maps, \<open>str::lines\<close>, numbers as
    text.
  \<^item> \<open>Runtime_State\<close>, \<open>Runtime_Reducer\<close>, \<open>Runtime_Actor\<close>: the state with its text form, the
    transition function with its lifecycle relation, the owner with its numbered history.
  \<^item> \<open>Protocol\<close>, \<open>Vehicle\<close>, \<open>Safety\<close>, \<open>Requests\<close>: read services, the signal catalog with every decoder,
    the read-only policy and the commands of a session.
  \<^item> \<open>Responses\<close>, \<open>Isotp\<close>, \<open>Mode01_Text\<close>, \<open>Mode03_Text\<close>, \<open>Mode09_Text\<close>, \<open>Dtc\<close>, \<open>Identity\<close>: from adapter
    text to payloads, and from payloads to codes and the VIN.  \<open>Isotp_Reassembly\<close> proves that
    interleaved segments come back as the payload that was sent, responder by responder.
  \<^item> \<open>Exchange\<close>, \<open>Session\<close>: the conversation with the adapter and \<open>ElmSession\<close>.  \<open>Step_Logic\<close> is the
    program logic of these steps; \<open>Session_Safety\<close>, \<open>Session_Calls\<close> and \<open>Session_Reads\<close> use it for
    what is sent, to whom, after any sequence of calls and failures, and what a read returns.
  \<^item> \<open>Topology\<close>, \<open>Functional_Discovery\<close>, \<open>Vehicle_Discovery\<close>, \<open>Vehicle_Knowledge\<close>, \<open>Topology_Provider\<close>,
    \<open>Ecu_Identification\<close>: evidence about the ECUs of the vehicle and the routing of reads.
  \<^item> \<open>Subscription_Policy\<close>, \<open>Scheduler\<close>, \<open>Evidence_Log\<close>, \<open>Diagnostic_Job\<close>: plans, due times, bounded logs
    and jobs.
  \<^item> \<open>Cache_Snapshot\<close>, \<open>Cache_Text\<close>, \<open>Cache_Records\<close>, \<open>Cache_Evidence\<close>, \<open>Vehicle_Cache\<close>: the record of a
    vehicle and its five file versions; \<open>Cache_Roundtrip\<close>, \<open>Cache_Sound\<close> and \<open>Cache_Privacy\<close> show
    that a record survives its file, that the parser accepts only such records, and that no
    VIN gets into it.
  \<^item> \<open>Capture_Events\<close>, \<open>Capture_Json\<close>, \<open>Capture_Writer\<close>, \<open>Capture_Reader\<close>: the events, the JSON parser,
    the recorder and the reader.  \<open>Capture_Json_Text\<close> shows that the parser inverts the compact
    printer, \<open>Capture_Spec\<close> gives the JSON object of every event and the events a line can hold,
    \<open>Capture_Roundtrip\<close> that the recorder prints it, \<open>Capture_Sound\<close> that the event parser reads
    it, and \<open>Capture_File\<close> that a whole recording is read back, or refused, as its order says.

  \<^bold>\<open>Interfaces.\<close>  Contracts between components are locales, interpreted on the model's own
  definitions: identifier codecs (\<open>id_codec\<close>, \<open>field_codec\<close>), ordered maps (\<open>ordered_map\<close>), derived
  orders (\<open>canonical_order\<close>), bounded logs (\<open>bounded_log\<close>), a state machine under its owner
  (\<open>guarded_machine\<close>), the conditions of the program logic (\<open>step_order\<close>) and the field formats
  of the cache (\<open>field_format\<close>, \<open>checked_format\<close>).

  \<^bold>\<open>Bounds and fuel.\<close>  Loops over data are structural or have a measure; the discovery of support
  pages is bounded by the eight pages of the standard.  The JSON parser reads nested values with
  fuel: twice the length of the line plus two, which \<open>fuel_enough\<close> shows to be always enough, since
  every call consumes input (the code recurses on the stack instead).  Sequence numbers of a
  capture are 64 bits wide and the exhaustion of both counters is modelled.

  \<^bold>\<open>Not modelled.\<close>  File and Bluetooth I/O (\<open>ble.rs\<close>, \<open>adapter.rs\<close>, the directory of cache files, flushing
  and syncing a capture), the loading of Knowledge through serde and sqlite
  (\<open>knowledge_db.rs\<close>, \<open>effective_knowledge.rs\<close>), the salted digest of \<open>vin_identity.rs\<close> (a
  third-party crate), MDF4 files, the jobs and the run loop of the scheduler as concurrent tasks,
  the terminal interfaces, the mobile bindings and \<open>main.rs\<close>.
\<close>

end
